(* ===== verification/LSF_Prelude.thy ===== *)
theory LSF_Prelude
  imports Main "HOL-Library.Word" "HOL-Library.AList" "HOL-Library.List_Lexorder"
    "HOL-Library.Char_ord" "HOL-Library.Product_Lexorder" "HOL-Library.Multiset"
begin

text \<open>
  Shared vocabulary of the development.  The runtime keeps its state in hash maps and hash sets,
  orders results with \<^verbatim>\<open>std::sort\<close> and removes repeated neighbours with \<^verbatim>\<open>std::unique\<close>.
  This theory fixes how those library facilities are modelled:

  \<^item> \<^verbatim>\<open>std::unordered_map<K, V>\<close> is an association list, read with \<open>map_of\<close>, written with
    \<open>AList.update\<close> and \<open>AList.delete\<close> (so that it is finite, can be enumerated and evaluates);
  \<^item> \<^verbatim>\<open>std::unordered_map<K, std::unordered_set<V>>\<close> is an association list of buckets with
    \<open>bucket_insert\<close> and \<open>bucket_erase\<close>; the interface they promise is the locale
    \<open>multi_index\<close>, interpreted at the end of this theory;
  \<^item> \<^verbatim>\<open>std::sort\<close> with a comparator is \<open>std_sort\<close>, \<^verbatim>\<open>std::unique\<close> is \<open>std_unique\<close>,
    \<^verbatim>\<open>std::lower_bound\<close> is \<open>lower_bound\<close>.

  The collection \<open>lsf_defs\<close> gathers the small accessor definitions that component proofs unfold.
\<close>

named_theorems lsf_defs \<open>accessor definitions unfolded by the component proofs\<close>
named_theorems lsf_frame \<open>frame facts: what an operation leaves unchanged\<close>

type_synonym u8 = "8 word"
type_synonym u16 = "16 word"
type_synonym u32 = "32 word"
type_synonym u64 = "64 word"
type_synonym bytes = "8 word list"
type_synonym ('k, 'v) umap = "('k \<times> 'v) list"
type_synonym ('k, 'a) ubuckets = "('k, 'a list) umap"

section \<open>Sorting and searching\<close>

primrec std_insert :: "('a \<Rightarrow> 'a \<Rightarrow> bool) \<Rightarrow> 'a \<Rightarrow> 'a list \<Rightarrow> 'a list" where
  "std_insert lt x [] = [x]"
| "std_insert lt x (y # ys) = (if lt y x then y # std_insert lt x ys else x # y # ys)"

definition std_sort :: "('a \<Rightarrow> 'a \<Rightarrow> bool) \<Rightarrow> 'a list \<Rightarrow> 'a list" where
  "std_sort lt xs = foldr (std_insert lt) xs []"

definition std_unique :: "'a list \<Rightarrow> 'a list" where
  "std_unique xs = remdups_adj xs"

text \<open>The binary search of \<^verbatim>\<open>std::lower_bound\<close> on the half open range \<open>[lo, hi)\<close>.\<close>

function lower_bound :: "'a::linorder list \<Rightarrow> 'a \<Rightarrow> nat \<Rightarrow> nat \<Rightarrow> nat" where
  "lower_bound xs v lo hi =
     (if lo < hi then
        let mid = lo + (hi - lo) div 2
        in if xs ! mid < v then lower_bound xs v (Suc mid) hi else lower_bound xs v lo mid
      else lo)"
  by pat_completeness auto
termination
  by (relation "measure (\<lambda>(xs, v, lo, hi). hi - lo)") auto

declare lower_bound.simps [simp del]

section \<open>Decimal rendering\<close>

function format_nat :: "nat \<Rightarrow> string" where
  "format_nat n =
     (if n < 10 then [char_of (48 + n)] else format_nat (n div 10) @ [char_of (48 + n mod 10)])"
  by pat_completeness auto
termination
  by (relation "measure id") auto

declare format_nat.simps [simp del]

definition format_u64 :: "u64 \<Rightarrow> string" where
  "format_u64 value = format_nat (unat value)"

section \<open>Buckets\<close>

definition bucket :: "('k, 'a) ubuckets \<Rightarrow> 'k \<Rightarrow> 'a list" where
  "bucket m k = (case map_of m k of None \<Rightarrow> [] | Some xs \<Rightarrow> xs)"

definition bucket_insert :: "'k \<Rightarrow> 'a \<Rightarrow> ('k, 'a) ubuckets \<Rightarrow> ('k, 'a) ubuckets" where
  "bucket_insert k x m = AList.update k (List.insert x (bucket m k)) m"

definition bucket_erase :: "'k \<Rightarrow> 'a \<Rightarrow> ('k, 'a) ubuckets \<Rightarrow> ('k, 'a) ubuckets" where
  "bucket_erase k x m =
     (case map_of m k of
        None \<Rightarrow> m
      | Some xs \<Rightarrow>
          (let rest = removeAll x xs
           in if rest = [] then AList.delete k m else AList.update k rest m))"

definition bucket_mem :: "('k, 'a) ubuckets \<Rightarrow> 'k \<Rightarrow> 'a \<Rightarrow> bool" where
  "bucket_mem m k x \<longleftrightarrow> x \<in> set (bucket m k)"

definition buckets_ok :: "('k, 'a) ubuckets \<Rightarrow> bool" where
  "buckets_ok m \<longleftrightarrow> distinct (map fst m) \<and> (\<forall>k xs. map_of m k = Some xs \<longrightarrow> distinct xs \<and> xs \<noteq> [])"

definition index_agrees :: "('m \<Rightarrow> 'k \<Rightarrow> 'a \<Rightarrow> bool) \<Rightarrow> 'm \<Rightarrow> ('a \<Rightarrow> 'k \<Rightarrow> bool) \<Rightarrow> bool" where
  "index_agrees mem m R \<longleftrightarrow> (\<forall>k x. mem m k x \<longleftrightarrow> R x k)"

section \<open>Facts about the library models\<close>

declare map_of_eq_Some_iff [simp del]

lemma std_insert_key:
  assumes "\<And>x y. lt x y \<longleftrightarrow> f x < (f y :: 'b::linorder)"
  shows "std_insert lt x xs = insort_key f x xs"
  by (induction xs) (auto simp: assms not_less)

lemma std_sort_key:
  assumes "\<And>x y. lt x y \<longleftrightarrow> f x < (f y :: 'b::linorder)"
  shows "std_sort lt xs = sort_key f xs"
proof -
  have "std_insert lt = insort_key f"
    by (intro ext std_insert_key) (rule assms)
  then show ?thesis by (simp add: std_sort_def sort_key_def)
qed

lemma std_sort_less: "std_sort (<) xs = sort (xs :: 'a::linorder list)"
  by (rule std_sort_key) simp

lemma mset_std_insert [simp]: "mset (std_insert lt x xs) = add_mset x (mset xs)"
  by (induction xs) auto

lemma mset_std_sort [simp]: "mset (std_sort lt xs) = mset xs"
  by (simp add: std_sort_def) (induction xs, auto)

lemma set_std_sort [simp]: "set (std_sort lt xs) = set xs"
  by (metis mset_std_sort set_mset_mset)

lemma length_std_sort [simp]: "length (std_sort lt xs) = length xs"
  by (metis mset_std_sort size_mset)

lemma distinct_std_sort [simp]: "distinct (std_sort lt xs) = distinct xs"
  by (metis mset_eq_imp_distinct_iff mset_std_sort)

lemma std_sort_empty [simp]: "std_sort lt [] = []"
  by (simp add: std_sort_def)

lemma filter_key_replicate:
  assumes "inj_on f (set zs)" and "k \<in> set zs"
  shows "filter (\<lambda>x. f x = f k) zs = replicate (count (mset zs) k) k"
proof -
  have "filter (\<lambda>x. f x = f k) zs = filter (\<lambda>x. x = k) zs"
    using assms by (intro filter_cong) (auto simp: inj_on_def)
  also have "\<dots> = replicate (count (mset zs) k) k"
    by (induction zs) auto
  finally show ?thesis .
qed

lemma sort_key_perm:
  assumes "mset xs = mset ys" and "inj_on f (set xs)"
  shows "sort_key f xs = sort_key (f :: 'a \<Rightarrow> 'b::linorder) ys"
proof (rule properties_for_sort_key)
  have sets: "set xs = set ys"
    using assms(1) by (rule mset_eq_setD)
  fix k assume "k \<in> set (sort_key f ys)"
  then have k: "k \<in> set ys" by simp
  have "filter (\<lambda>x. f x = f k) (sort_key f ys) = filter (\<lambda>x. f x = f k) ys"
    by (rule sort_key_stable)
  also have "\<dots> = filter (\<lambda>x. f x = f k) xs"
    using k sets assms by (simp add: filter_key_replicate)
  finally show "filter (\<lambda>x. f k = f x) (sort_key f ys) = filter (\<lambda>x. f k = f x) xs"
    by (simp add: eq_commute)
qed (use assms in auto)

lemma set_std_unique [simp]: "set (std_unique xs) = set xs"
  by (simp add: std_unique_def)

lemma sorted_std_unique: "sorted xs \<Longrightarrow> sorted (std_unique xs)"
  by (simp add: std_unique_def sorted_remdups_adj)

lemma distinct_std_unique_sorted:
  "sorted (xs :: 'a::linorder list) \<Longrightarrow> distinct (std_unique xs)"
proof (induction xs rule: remdups_adj.induct)
  case (3 x y xs)
  then show ?case
    by (auto simp: std_unique_def)
qed (auto simp: std_unique_def)

text \<open>\<^verbatim>\<open>std::lower_bound\<close> on a sorted range splits it at the first element that is not smaller.\<close>

definition splits_at :: "'a::linorder list \<Rightarrow> 'a \<Rightarrow> nat \<Rightarrow> nat \<Rightarrow> bool" where
  "splits_at xs v lo hi \<longleftrightarrow> lo \<le> hi \<and> hi \<le> length xs \<and> (\<forall>i<lo. xs ! i < v) \<and>
     (\<forall>i. hi \<le> i \<longrightarrow> i < length xs \<longrightarrow> v \<le> xs ! i)"

lemma splits_at_right:
  assumes "sorted xs" and "splits_at xs v lo hi" and "mid < hi" and "xs ! mid < v"
  shows "splits_at xs v (Suc mid) hi"
proof -
  have "xs ! i < v" if "i < Suc mid" for i
  proof -
    have "xs ! i \<le> xs ! mid"
      using assms that by (intro sorted_nth_mono) (auto simp: splits_at_def)
    then show ?thesis using assms(4) by simp
  qed
  then show ?thesis using assms by (simp add: splits_at_def)
qed

lemma splits_at_left:
  assumes "sorted xs" and "splits_at xs v lo hi" and "lo \<le> mid" and "mid < hi" and "\<not> xs ! mid < v"
  shows "splits_at xs v lo mid"
proof -
  have "v \<le> xs ! i" if "mid \<le> i" "i < length xs" for i
  proof -
    have "xs ! mid \<le> xs ! i"
      using assms that by (intro sorted_nth_mono) auto
    then show ?thesis using assms(5) by simp
  qed
  then show ?thesis using assms by (simp add: splits_at_def)
qed

lemma lower_bound_split:
  "sorted xs \<Longrightarrow> splits_at xs v lo hi \<Longrightarrow>
     splits_at xs v (lower_bound xs v lo hi) (lower_bound xs v lo hi)"
proof (induction xs v lo hi rule: lower_bound.induct)
  case (1 xs v lo hi)
  let ?mid = "lo + (hi - lo) div 2"
  consider (right) "lo < hi" "xs ! ?mid < v" | (left) "lo < hi" "\<not> xs ! ?mid < v" | (stop) "\<not> lo < hi"
    by blast
  then show ?case
  proof cases
    case right
    have "splits_at xs v (Suc ?mid) hi"
      by (rule splits_at_right [where lo = lo]) (use "1.prems" right in auto)
    moreover have "lower_bound xs v lo hi = lower_bound xs v (Suc ?mid) hi"
      using right by (subst lower_bound.simps) (simp add: Let_def)
    ultimately show ?thesis
      using "1.IH"(1) [OF right(1) refl right(2) "1.prems"(1)] by (simp only:)
  next
    case left
    have "splits_at xs v lo ?mid"
      by (rule splits_at_left [where hi = hi]) (use "1.prems" left in auto)
    moreover have "lower_bound xs v lo hi = lower_bound xs v lo ?mid"
      using left by (subst lower_bound.simps) (simp add: Let_def)
    ultimately show ?thesis
      using "1.IH"(2) [OF left(1) refl left(2) "1.prems"(1)] by (simp only:)
  next
    case stop
    then have "lower_bound xs v lo hi = lo"
      by (subst lower_bound.simps) simp
    moreover have "lo = hi"
      using stop "1.prems" by (auto simp: splits_at_def)
    ultimately show ?thesis using "1.prems" by simp
  qed
qed

lemma lower_bound_member:
  fixes v :: "'a::linorder"
  assumes "sorted xs"
  defines "p \<equiv> lower_bound xs v 0 (length xs)"
  shows "(p < length xs \<and> xs ! p = v) \<longleftrightarrow> v \<in> set xs"
proof -
  have "splits_at xs v 0 (length xs)"
    by (simp add: splits_at_def)
  with assms have p: "splits_at xs v p p"
    by (simp add: lower_bound_split)
  have "p < length xs \<and> xs ! p = v" if "i < length xs" "xs ! i = v" for i
  proof -
    have "p \<le> i"
      using p that by (metis less_irrefl not_less splits_at_def)
    moreover have "xs ! p \<le> xs ! i"
      using assms(1) \<open>p \<le> i\<close> that by (intro sorted_nth_mono) auto
    moreover have "p < length xs" and "v \<le> xs ! p"
      using p that \<open>p \<le> i\<close> by (auto simp: splits_at_def)
    ultimately show ?thesis
      using that by simp
  qed
  then show ?thesis
    by (auto simp: in_set_conv_nth)
qed

section \<open>The bucket interface\<close>

lemma distinct_keys_update [simp]:
  "distinct (map fst m) \<Longrightarrow> distinct (map fst (AList.update k v m))"
  by (rule distinct_update)

lemma distinct_keys_delete [simp]:
  "distinct (map fst m) \<Longrightarrow> distinct (map fst (AList.delete k m))"
  by (rule distinct_delete)

lemma map_of_update [simp]: "map_of (AList.update k v m) k' = (if k' = k then Some v else map_of m k')"
  by (simp add: update_conv')

lemma map_of_erase [simp]: "map_of (AList.delete k m) k' = (if k' = k then None else map_of m k')"
  by (simp add: delete_conv')

lemma length_update_present: "map_of m k = Some w \<Longrightarrow> length (AList.update k v m) = length m"
  by (induction m) (auto split: if_splits)

lemma length_update_absent: "map_of m k = None \<Longrightarrow> length (AList.update k v m) = Suc (length m)"
  by (induction m) (auto split: if_splits)

lemma bucket_insert_bucket:
  "bucket (bucket_insert k x m) k' = (if k' = k then List.insert x (bucket m k) else bucket m k')"
  by (simp add: bucket_insert_def bucket_def)

lemma bucket_erase_bucket:
  "bucket (bucket_erase k x m) k' = (if k' = k then removeAll x (bucket m k) else bucket m k')"
  by (auto simp: bucket_erase_def bucket_def Let_def split: option.splits)

lemma bucket_mem_insert:
  "bucket_mem (bucket_insert k x m) k' x' \<longleftrightarrow> k' = k \<and> x' = x \<or> bucket_mem m k' x'"
  by (auto simp: bucket_mem_def bucket_insert_bucket)

lemma bucket_mem_erase:
  "bucket_mem (bucket_erase k x m) k' x' \<longleftrightarrow> bucket_mem m k' x' \<and> \<not> (k' = k \<and> x' = x)"
  by (auto simp: bucket_mem_def bucket_erase_bucket)

lemma buckets_ok_empty [simp]: "buckets_ok []"
  by (simp add: buckets_ok_def)

lemma buckets_ok_bucket: "buckets_ok m \<Longrightarrow> distinct (bucket m k)"
  by (auto simp: buckets_ok_def bucket_def split: option.splits)

lemma buckets_ok_insert [simp]: "buckets_ok m \<Longrightarrow> buckets_ok (bucket_insert k x m)"
  using buckets_ok_bucket [of m k]
  by (auto simp: buckets_ok_def bucket_insert_def List.insert_def)

lemma buckets_ok_erase [simp]: "buckets_ok m \<Longrightarrow> buckets_ok (bucket_erase k x m)"
  by (auto simp: buckets_ok_def bucket_erase_def Let_def distinct_removeAll split: option.splits if_splits)

locale multi_index =
  fixes mem :: "'m \<Rightarrow> 'k \<Rightarrow> 'a \<Rightarrow> bool"
    and ins :: "'k \<Rightarrow> 'a \<Rightarrow> 'm \<Rightarrow> 'm"
    and del :: "'k \<Rightarrow> 'a \<Rightarrow> 'm \<Rightarrow> 'm"
  assumes mem_ins: "mem (ins k x m) k' x' \<longleftrightarrow> k' = k \<and> x' = x \<or> mem m k' x'"
    and mem_del: "mem (del k x m) k' x' \<longleftrightarrow> mem m k' x' \<and> \<not> (k' = k \<and> x' = x)"
begin

text \<open>Registering or dropping one element under a whole list of keys.\<close>

lemma mem_fold_ins:
  "mem (fold (\<lambda>k. ins k x) ks m) k' x' \<longleftrightarrow> k' \<in> set ks \<and> x' = x \<or> mem m k' x'"
  by (induction ks arbitrary: m) (auto simp: mem_ins)

lemma mem_fold_del:
  "mem (fold (\<lambda>k. del k x) ks m) k' x' \<longleftrightarrow> mem m k' x' \<and> \<not> (k' \<in> set ks \<and> x' = x)"
  by (induction ks arbitrary: m) (auto simp: mem_del)

text \<open>Re-registering an element under new keys keeps the index in step with the keys it is
  filed under, whatever the other elements are.\<close>

lemma agrees_rekey:
  assumes "index_agrees mem m R" and "\<And>k. R x k \<longleftrightarrow> k \<in> set old"
    and "\<And>y k. R' y k \<longleftrightarrow> (if y = x then k \<in> set new else R y k)"
  shows "index_agrees mem (fold (\<lambda>k. ins k x) new (fold (\<lambda>k. del k x) old m)) R'"
  using assms by (auto simp: index_agrees_def mem_fold_ins mem_fold_del)

lemma agrees_move:
  assumes "index_agrees mem m R" and "\<And>k. R x k \<longleftrightarrow> k = a"
    and "\<And>y k. R' y k \<longleftrightarrow> (if y = x then k = b else R y k)"
  shows "index_agrees mem (ins b x (del a x m)) R'"
  using assms by (auto simp: index_agrees_def mem_ins mem_del)

lemma agrees_add:
  assumes "index_agrees mem m R" and "\<And>k. \<not> R x k"
    and "\<And>y k. R' y k \<longleftrightarrow> (if y = x then k \<in> set new else R y k)"
  shows "index_agrees mem (fold (\<lambda>k. ins k x) new m) R'"
  using assms by (auto simp: index_agrees_def mem_fold_ins)

lemma agrees_cong:
  assumes "index_agrees mem m R" and "\<And>y k. R' y k \<longleftrightarrow> R y k"
  shows "index_agrees mem m R'"
  using assms by (simp add: index_agrees_def)

end

interpretation buckets: multi_index bucket_mem bucket_insert bucket_erase
  by unfold_locales (rule bucket_mem_insert bucket_mem_erase)+

end
