(* ===== verification/Identifiers.thy ===== *)
theory Identifiers
  imports LSF_Prelude
begin

text \<open>
  Strong identifiers (\<^verbatim>\<open>include/linkstate/ids.hpp\<close>, \<^verbatim>\<open>src/ids.cpp\<close>).  A
  \<open>StrongId\<close> is a validated byte string that carries a domain tag, so that identifiers of
  different domains are different types; the null identifier is the empty string.  The cached hash
  of the C++ class is a function of the string and is modelled by \<open>hash_of\<close>.
\<close>

datatype IdValidation = Ok | Empty | TooLong | InvalidCharacter | LeadingSeparator
  | TrailingSeparator | DotDot

definition max_identifier_length :: nat where
  "max_identifier_length = 128"

definition is_alphanumeric :: "char \<Rightarrow> bool" where
  "is_alphanumeric ch \<longleftrightarrow>
     CHR ''0'' \<le> ch \<and> ch \<le> CHR ''9'' \<or> CHR ''a'' \<le> ch \<and> ch \<le> CHR ''z'' \<or>
     CHR ''A'' \<le> ch \<and> ch \<le> CHR ''Z''"

definition is_separator :: "char \<Rightarrow> bool" where
  "is_separator ch \<longleftrightarrow> ch = CHR ''-'' \<or> ch = CHR ''_'' \<or> ch = CHR ''.'' \<or> ch = CHR '':'' \<or>
     ch = CHR ''/''"

primrec to_string_IdValidation :: "IdValidation \<Rightarrow> string" where
  "to_string_IdValidation Ok = ''OK''"
| "to_string_IdValidation Empty = ''EMPTY''"
| "to_string_IdValidation TooLong = ''TOO_LONG''"
| "to_string_IdValidation InvalidCharacter = ''INVALID_CHARACTER''"
| "to_string_IdValidation LeadingSeparator = ''LEADING_SEPARATOR''"
| "to_string_IdValidation TrailingSeparator = ''TRAILING_SEPARATOR''"
| "to_string_IdValidation DotDot = ''DOT_DOT''"

text \<open>The character loop of \<^verbatim>\<open>validate_identifier\<close>: the first offending index decides.\<close>

fun scan_identifier :: "string \<Rightarrow> IdValidation option" where
  "scan_identifier [] = None"
| "scan_identifier (ch # rest) =
     (if \<not> is_alphanumeric ch \<and> \<not> is_separator ch then Some InvalidCharacter
      else if ch = CHR ''.'' \<and> rest \<noteq> [] \<and> hd rest = CHR ''.'' then Some DotDot
      else scan_identifier rest)"

definition validate_identifier :: "string \<Rightarrow> IdValidation" where
  "validate_identifier value =
     (if value = [] then Empty
      else if length value > max_identifier_length then TooLong
      else (case scan_identifier value of
              Some reason \<Rightarrow> reason
            | None \<Rightarrow>
                if \<not> is_alphanumeric (hd value) then LeadingSeparator
                else if \<not> is_alphanumeric (last value) then TrailingSeparator
                else Ok))"

datatype 'tag StrongId = StrongId (id_value: string)

abbreviation null_id :: "'tag StrongId" where
  "null_id \<equiv> StrongId []"

definition valid :: "'tag StrongId \<Rightarrow> bool" where
  "valid i \<longleftrightarrow> id_value i \<noteq> []"

definition hash_of :: "string \<Rightarrow> u64" where
  "hash_of value =
     (let h = fold (\<lambda>ch h. (xor h (of_char ch)) * 1099511628211) value 1469598103934665603
      in if h = 0 then 1 else h)"

definition from_validated :: "string \<Rightarrow> 'tag StrongId" where
  "from_validated value = (if validate_identifier value \<noteq> Ok then null_id else StrongId value)"

definition parse_id :: "string \<Rightarrow> 'tag StrongId option" where
  "parse_id value = (if validate_identifier value \<noteq> Ok then None else Some (StrongId value))"

text \<open>Identifiers compare by their encodings.\<close>

definition id_less :: "'a StrongId \<Rightarrow> 'a StrongId \<Rightarrow> bool" where
  [simp]: "id_less lhs rhs \<longleftrightarrow> id_value lhs < id_value rhs"

instantiation StrongId :: (type) linorder
begin

definition less_eq_StrongId :: "'a StrongId \<Rightarrow> 'a StrongId \<Rightarrow> bool" where
  "less_eq_StrongId a b \<longleftrightarrow> id_value a \<le> id_value b"

definition less_StrongId :: "'a StrongId \<Rightarrow> 'a StrongId \<Rightarrow> bool" where
  "less_StrongId a b \<longleftrightarrow> id_less a b"

instance
  by standard (auto simp: less_eq_StrongId_def less_StrongId_def StrongId.expand)

end

text \<open>The identifier domains of \<^verbatim>\<open>namespace tags\<close>.\<close>

typedecl FabricTag
typedecl SiteTag
typedecl DeviceTag
typedecl PortTag
typedecl LinkTag
typedecl EndpointTag
typedecl LinkStateRecordTag
typedecl ObservationTag
typedecl PublisherTag
typedecl WorkerBootTag
typedecl PublicationTag
typedecl StateTransitionTag
typedecl SnapshotTag
typedecl SourceTag

type_synonym FabricId = "FabricTag StrongId"
type_synonym SiteId = "SiteTag StrongId"
type_synonym DeviceId = "DeviceTag StrongId"
type_synonym PortId = "PortTag StrongId"
type_synonym LinkId = "LinkTag StrongId"
type_synonym EndpointId = "EndpointTag StrongId"
type_synonym LinkStateRecordId = "LinkStateRecordTag StrongId"
type_synonym ObservationId = "ObservationTag StrongId"
type_synonym PublisherId = "PublisherTag StrongId"
type_synonym WorkerBootId = "WorkerBootTag StrongId"
type_synonym PublicationId = "PublicationTag StrongId"
type_synonym StateTransitionId = "StateTransitionTag StrongId"
type_synonym SnapshotId = "SnapshotTag StrongId"
type_synonym SourceId = "SourceTag StrongId"

section \<open>What validation accepts\<close>

lemma less_StrongId_simp [simp]: "StrongId a < StrongId b \<longleftrightarrow> a < b"
  by (simp add: less_StrongId_def)

lemma less_eq_StrongId_simp [simp]: "StrongId a \<le> StrongId b \<longleftrightarrow> a \<le> b"
  by (simp add: less_eq_StrongId_def)

lemma valid_StrongId [simp]: "valid (StrongId s) \<longleftrightarrow> s \<noteq> []"
  by (simp add: valid_def)

lemma scan_identifier_None:
  "scan_identifier v = None \<longleftrightarrow>
     (\<forall>c\<in>set v. is_alphanumeric c \<or> is_separator c) \<and> (\<nexists>xs ys. v = xs @ ''..'' @ ys)"
proof (induction v)
  case (Cons ch rest)
  have "(\<exists>xs ys. ch # rest = xs @ ''..'' @ ys) \<longleftrightarrow>
      ch = CHR ''.'' \<and> rest \<noteq> [] \<and> hd rest = CHR ''.'' \<or> (\<exists>xs ys. rest = xs @ ''..'' @ ys)"
    by (cases rest) (auto simp: Cons_eq_append_conv)
  then show ?case
    using Cons.IH by auto
qed auto

lemma scan_identifier_not_Ok: "scan_identifier v \<noteq> Some Ok"
  by (induction v rule: scan_identifier.induct) auto

text \<open>
  An identifier is accepted exactly when it is non-empty, at most 128 bytes long, uses only
  alphanumeric bytes and the five separators, starts and ends with an alphanumeric byte, and never
  contains the path traversal sequence of two dots.
\<close>

theorem validate_identifier_Ok:
  "validate_identifier v = Ok \<longleftrightarrow>
     v \<noteq> [] \<and> length v \<le> 128 \<and> list_all (\<lambda>c. is_alphanumeric c \<or> is_separator c) v \<and>
     is_alphanumeric (hd v) \<and> is_alphanumeric (last v) \<and> (\<nexists>xs ys. v = xs @ ''..'' @ ys)"
  using scan_identifier_None [of v] scan_identifier_not_Ok [of v]
  by (auto simp: validate_identifier_def max_identifier_length_def list_all_iff
      split: option.splits if_splits)

lemma validate_identifier_nonempty: "validate_identifier v = Ok \<Longrightarrow> v \<noteq> []"
  by (auto simp: validate_identifier_def)

lemma valid_from_validated: "valid (from_validated v) \<longleftrightarrow> validate_identifier v = Ok"
  by (auto simp: from_validated_def validate_identifier_nonempty)

lemma parse_id_Some: "parse_id v = Some i \<longleftrightarrow> validate_identifier v = Ok \<and> i = StrongId v"
  by (auto simp: parse_id_def)

end
