(* ===== verification/Generations.thy ===== *)
theory Generations
  imports LSF_Prelude
begin

text \<open>
  Generation counters (\<^verbatim>\<open>include/linkstate/generation.hpp\<close>) and their successor operation
  \<^verbatim>\<open>advance\<close> of \<^verbatim>\<open>src/engine_support.cpp\<close>.  A generation is a 64 bit counter tagged with its
  domain; \<open>next_gen\<close> refuses to step past the largest value, so that a counter never wraps.  The
  locale \<open>saturating_counter\<close> is the contract the engine relies on, interpreted for
  \<open>next_gen\<close> at the end.
\<close>

datatype 'tag StrongGeneration = Gen (gen_value: u64)

abbreviation gen_zero :: "'tag StrongGeneration" where
  "gen_zero \<equiv> Gen 0"

definition is_zero :: "'tag StrongGeneration \<Rightarrow> bool" where
  "is_zero g \<longleftrightarrow> gen_value g = 0"

definition next_gen :: "'tag StrongGeneration \<Rightarrow> 'tag StrongGeneration option" where
  "next_gen g = (if gen_value g = - 1 then None else Some (Gen (gen_value g + 1)))"

definition gen_to_string :: "'tag StrongGeneration \<Rightarrow> string" where
  "gen_to_string g = format_u64 (gen_value g)"

text \<open>\<^verbatim>\<open>advance\<close> steps a counter in place and reports whether it could: the pair is the new
  value and the flag.\<close>

definition advance :: "'tag StrongGeneration \<Rightarrow> 'tag StrongGeneration \<times> bool" where
  "advance g = (case next_gen g of None \<Rightarrow> (g, False) | Some g' \<Rightarrow> (g', True))"

definition gen_less :: "'a StrongGeneration \<Rightarrow> 'a StrongGeneration \<Rightarrow> bool" where
  [simp]: "gen_less lhs rhs \<longleftrightarrow> gen_value lhs < gen_value rhs"

definition gen_less_eq :: "'a StrongGeneration \<Rightarrow> 'a StrongGeneration \<Rightarrow> bool" where
  [simp]: "gen_less_eq lhs rhs \<longleftrightarrow> gen_value lhs \<le> gen_value rhs"

instantiation StrongGeneration :: (type) linorder
begin

definition less_eq_StrongGeneration :: "'a StrongGeneration \<Rightarrow> 'a StrongGeneration \<Rightarrow> bool" where
  "less_eq_StrongGeneration a b \<longleftrightarrow> gen_less_eq a b"

definition less_StrongGeneration :: "'a StrongGeneration \<Rightarrow> 'a StrongGeneration \<Rightarrow> bool" where
  "less_StrongGeneration a b \<longleftrightarrow> gen_less a b"

instance
  by standard (auto simp: less_eq_StrongGeneration_def less_StrongGeneration_def
      StrongGeneration.expand)

end

typedecl LinkStateGenerationTag
typedecl EvidenceGenerationTag
typedecl TopologyGenerationTag
typedecl EndpointGenerationTag
typedecl PublisherGenerationTag
typedecl SourceGenerationTag
typedecl GlobalGenerationTag
typedecl CoordinatorEpochTag
typedecl LayoutGenerationTag

type_synonym LinkStateGeneration = "LinkStateGenerationTag StrongGeneration"
type_synonym EvidenceGeneration = "EvidenceGenerationTag StrongGeneration"
type_synonym TopologyGeneration = "TopologyGenerationTag StrongGeneration"
type_synonym EndpointGeneration = "EndpointGenerationTag StrongGeneration"
type_synonym PublisherGeneration = "PublisherGenerationTag StrongGeneration"
type_synonym SourceGeneration = "SourceGenerationTag StrongGeneration"
type_synonym GlobalGeneration = "GlobalGenerationTag StrongGeneration"
type_synonym CoordinatorEpoch = "CoordinatorEpochTag StrongGeneration"
type_synonym LayoutGeneration = "LayoutGenerationTag StrongGeneration"

section \<open>The counter contract\<close>

lemma less_Gen [simp]: "Gen a < Gen b \<longleftrightarrow> a < b"
  by (simp add: less_StrongGeneration_def)

lemma less_eq_Gen [simp]: "Gen a \<le> Gen b \<longleftrightarrow> a \<le> b"
  by (simp add: less_eq_StrongGeneration_def)

lemma is_zero_Gen [simp]: "is_zero (Gen v) \<longleftrightarrow> v = 0"
  by (simp add: is_zero_def)

lemma word_step_less: "(v :: u64) \<noteq> - 1 \<Longrightarrow> v < v + 1"
  by (metis add.commute eq_neg_iff_add_eq_0 lessI unatSuc word_less_nat_alt)

lemma gen_le_max: "g \<le> Gen (- 1)"
  by (cases g) (simp add: word_order.extremum)

locale saturating_counter =
  fixes step :: "'g::linorder \<Rightarrow> 'g option" and top :: 'g
  assumes step_less: "step g = Some g' \<Longrightarrow> g < g'"
    and step_tight: "step g = Some g' \<Longrightarrow> g < h \<Longrightarrow> g' \<le> h"
    and step_None: "step g = None \<longleftrightarrow> g = top"
    and top_max: "g \<le> top"
begin

lemma step_below_top: "g < top \<Longrightarrow> \<exists>g'. step g = Some g' \<and> g < g' \<and> g' \<le> top"
  by (metis not_None_eq order_less_irrefl step_None step_less top_max)

text \<open>Two counters stepped together keep their order; this is what keeps a per link counter at or
  below the global counter it is stepped with.\<close>

lemma step_mono: "a \<le> b \<Longrightarrow> step a = Some a' \<Longrightarrow> step b = Some b' \<Longrightarrow> a' \<le> b'"
  by (metis le_less_trans step_less step_tight)

lemma step_capped: "a \<le> b \<Longrightarrow> step a = Some a' \<Longrightarrow> step b = None \<Longrightarrow> a' \<le> b"
  by (metis step_None top_max)

end

interpretation generation: saturating_counter next_gen "Gen (- 1)"
proof
  fix g g' h :: "'a StrongGeneration"
  assume step: "next_gen g = Some g'"
  then have g': "g' = Gen (gen_value g + 1)" and top: "gen_value g \<noteq> - 1"
    by (auto simp: next_gen_def split: if_splits)
  show "g < g'"
    by (simp add: g' less_StrongGeneration_def word_step_less top)
  assume "g < h"
  then show "g' \<le> h"
    by (simp add: g' less_StrongGeneration_def less_eq_StrongGeneration_def inc_le)
next
  fix g :: "'a StrongGeneration"
  show "next_gen g = None \<longleftrightarrow> g = Gen (- 1)"
    by (cases g) (simp add: next_gen_def)
  show "g \<le> Gen (- 1)" by (rule gen_le_max)
qed

lemma advance_cases:
  obtains (stepped) g' where "advance g = (g', True)" "next_gen g = Some g'" "g < g'"
  | (saturated) "advance g = (g, False)" "g = Gen (- 1)"
proof (cases "next_gen g")
  case None
  then show thesis
    using saturated generation.step_None [of g] by (simp add: advance_def)
next
  case (Some g')
  then show thesis
    using stepped generation.step_less [of g g'] by (simp add: advance_def)
qed

lemma advance_ge: "g \<le> fst (advance g)"
  by (cases g rule: advance_cases) auto

lemma advance_True: "snd (advance g) \<longleftrightarrow> g < Gen (- 1)"
  using generation.step_None [of g] gen_le_max [of g]
  by (cases "next_gen g") (auto simp: advance_def less_le)

end
