(* ===== verification/States.thy ===== *)
theory States
  imports LSF_Prelude
begin

text \<open>
  The operational state model (\<^verbatim>\<open>include/linkstate/state.hpp\<close>, \<^verbatim>\<open>src/state.cpp\<close>): the nine
  authoritative states, the ten transition triggers, the transition matrix held as 16 bit trigger
  masks, link classes and symmetry guarantees, and the classification of resolution outcomes.
  Constructors keep the source's names and are written with their type, as in C++.
\<close>

unbundle bit_operations_syntax

datatype LinkOperationalState = Unknown | Up | Down | Degraded | AdminDisabled | Draining | Faulted
  | RevalidationRequired | Retired

datatype TransitionTrigger = EvidenceResolution | EvidenceWithdrawal | PublisherFenced | SourceLost
  | TopologyInvalidation | CoordinatorEpochAdvance | Recovery | Retirement | ExplicitAdministrative
  | RevalidationOutcome

datatype TransitionLegality = Legal | SameState | FromRetired | RetirementRequired
  | TriggerNotPermitted | Illegal

datatype LinkClass = Unknown | EthernetLike | InfiniBandLike | HostNic | SwitchToSwitch | Logical
  | TunnelBacked | Optical | FabricInterconnect | BondedAggregate

datatype LinkSymmetryGuarantee = Unspecified | Symmetric | Directional

datatype StateResultClass = AuthoritativeUnknown | AuthoritativeUp | AuthoritativeDown
  | AuthoritativeDegraded | AuthoritativeAdminDisabled | AuthoritativeDraining
  | AuthoritativeFaulted | Conflicted | RevalidationRequired | Retired

section \<open>Enumeration values and renderings\<close>

definition link_operational_state_count :: nat where
  "link_operational_state_count = 9"

primrec state_index :: "LinkOperationalState \<Rightarrow> nat" where
  "state_index LinkOperationalState.Unknown = 0"
| "state_index Up = 1"
| "state_index Down = 2"
| "state_index Degraded = 3"
| "state_index AdminDisabled = 4"
| "state_index Draining = 5"
| "state_index Faulted = 6"
| "state_index LinkOperationalState.RevalidationRequired = 7"
| "state_index LinkOperationalState.Retired = 8"

primrec trigger_index :: "TransitionTrigger \<Rightarrow> nat" where
  "trigger_index EvidenceResolution = 0"
| "trigger_index EvidenceWithdrawal = 1"
| "trigger_index PublisherFenced = 2"
| "trigger_index SourceLost = 3"
| "trigger_index TopologyInvalidation = 4"
| "trigger_index CoordinatorEpochAdvance = 5"
| "trigger_index Recovery = 6"
| "trigger_index Retirement = 7"
| "trigger_index ExplicitAdministrative = 8"
| "trigger_index RevalidationOutcome = 9"

definition all_states :: "LinkOperationalState list" where
  "all_states = [LinkOperationalState.Unknown, Up, Down, Degraded, AdminDisabled, Draining, Faulted,
     LinkOperationalState.RevalidationRequired, LinkOperationalState.Retired]"

primrec to_string_state :: "LinkOperationalState \<Rightarrow> string" where
  "to_string_state LinkOperationalState.Unknown = ''UNKNOWN''"
| "to_string_state Up = ''UP''"
| "to_string_state Down = ''DOWN''"
| "to_string_state Degraded = ''DEGRADED''"
| "to_string_state AdminDisabled = ''ADMIN_DISABLED''"
| "to_string_state Draining = ''DRAINING''"
| "to_string_state Faulted = ''FAULTED''"
| "to_string_state LinkOperationalState.RevalidationRequired = ''REVALIDATION_REQUIRED''"
| "to_string_state LinkOperationalState.Retired = ''RETIRED''"

definition parse_state :: "string \<Rightarrow> LinkOperationalState option" where
  "parse_state text = find (\<lambda>candidate. text = to_string_state candidate) all_states"

primrec describe_state :: "LinkOperationalState \<Rightarrow> string" where
  "describe_state LinkOperationalState.Unknown =
     ''no decisive current evidence and no durable prior conclusion''"
| "describe_state Up = ''current evidence supports operational availability''"
| "describe_state Down = ''current evidence supports a non operational link''"
| "describe_state Degraded = ''operational but materially impaired''"
| "describe_state AdminDisabled = ''intentionally disabled by administrative intent''"
| "describe_state Draining = ''administratively quiescing, must not take new work''"
| "describe_state Faulted = ''a hardware or device fault was reported''"
| "describe_state LinkOperationalState.RevalidationRequired =
     ''a durable prior state exists but no current evidence is authoritative''"
| "describe_state LinkOperationalState.Retired =
     ''the underlying topology edge or link identity was retired''"

definition is_live_state :: "LinkOperationalState \<Rightarrow> bool" where
  "is_live_state state \<longleftrightarrow> state \<noteq> LinkOperationalState.Retired"

definition is_terminal_state :: "LinkOperationalState \<Rightarrow> bool" where
  "is_terminal_state state \<longleftrightarrow> state = LinkOperationalState.Retired"

definition is_operational_state :: "LinkOperationalState \<Rightarrow> bool" where
  "is_operational_state state \<longleftrightarrow> state = Up \<or> state = Degraded \<or> state = Draining"

primrec to_string_trigger :: "TransitionTrigger \<Rightarrow> string" where
  "to_string_trigger EvidenceResolution = ''EVIDENCE_RESOLUTION''"
| "to_string_trigger EvidenceWithdrawal = ''EVIDENCE_WITHDRAWAL''"
| "to_string_trigger PublisherFenced = ''PUBLISHER_FENCED''"
| "to_string_trigger SourceLost = ''SOURCE_LOST''"
| "to_string_trigger TopologyInvalidation = ''TOPOLOGY_INVALIDATION''"
| "to_string_trigger CoordinatorEpochAdvance = ''COORDINATOR_EPOCH_ADVANCE''"
| "to_string_trigger Recovery = ''RECOVERY''"
| "to_string_trigger Retirement = ''RETIREMENT''"
| "to_string_trigger ExplicitAdministrative = ''EXPLICIT_ADMINISTRATIVE''"
| "to_string_trigger RevalidationOutcome = ''REVALIDATION_OUTCOME''"

primrec to_string_legality :: "TransitionLegality \<Rightarrow> string" where
  "to_string_legality Legal = ''LEGAL''"
| "to_string_legality SameState = ''SAME_STATE''"
| "to_string_legality FromRetired = ''FROM_RETIRED''"
| "to_string_legality RetirementRequired = ''RETIREMENT_REQUIRED''"
| "to_string_legality TriggerNotPermitted = ''TRIGGER_NOT_PERMITTED''"
| "to_string_legality Illegal = ''ILLEGAL''"

section \<open>The transition matrix\<close>

definition trigger_bit :: "TransitionTrigger \<Rightarrow> u16" where
  "trigger_bit trigger = push_bit (trigger_index trigger) 1"

definition kRetireTriggers :: u16 where
  "kRetireTriggers = trigger_bit Retirement OR trigger_bit TopologyInvalidation"

definition kRevalidationTriggers :: u16 where
  "kRevalidationTriggers =
     trigger_bit EvidenceResolution OR trigger_bit EvidenceWithdrawal OR
     trigger_bit PublisherFenced OR trigger_bit SourceLost OR trigger_bit TopologyInvalidation OR
     trigger_bit CoordinatorEpochAdvance OR trigger_bit Recovery OR
     trigger_bit RevalidationOutcome"

definition kUnknownTriggers :: u16 where
  "kUnknownTriggers =
     trigger_bit EvidenceResolution OR trigger_bit EvidenceWithdrawal OR
     trigger_bit RevalidationOutcome OR trigger_bit Recovery"

definition kLiveTriggers :: u16 where
  "kLiveTriggers =
     trigger_bit EvidenceResolution OR trigger_bit RevalidationOutcome OR
     trigger_bit ExplicitAdministrative"

definition kInboundTriggerMask :: "u16 list" where
  "kInboundTriggerMask =
     [kUnknownTriggers, kLiveTriggers, kLiveTriggers, kLiveTriggers, kLiveTriggers, kLiveTriggers,
      kLiveTriggers, kRevalidationTriggers, kRetireTriggers, 0]"

definition evaluate_transition ::
    "LinkOperationalState \<Rightarrow> LinkOperationalState \<Rightarrow> TransitionTrigger \<Rightarrow> TransitionLegality" where
  "evaluate_transition from_state to_state trigger =
     (let from_index = state_index from_state; to_index = state_index to_state in
      if from_index \<ge> link_operational_state_count \<or> to_index \<ge> link_operational_state_count
      then Illegal
      else if from_state = to_state then SameState
      else if from_state = LinkOperationalState.Retired then FromRetired
      else if to_state = LinkOperationalState.Retired
      then (if (kInboundTriggerMask ! to_index) AND trigger_bit trigger \<noteq> 0 then Legal
            else RetirementRequired)
      else (if (kInboundTriggerMask ! to_index) AND trigger_bit trigger \<noteq> 0 then Legal
            else TriggerNotPermitted))"

section \<open>Link classes and result classes\<close>

primrec to_string_link_class :: "LinkClass \<Rightarrow> string" where
  "to_string_link_class LinkClass.Unknown = ''UNKNOWN''"
| "to_string_link_class EthernetLike = ''ETHERNET_LIKE''"
| "to_string_link_class InfiniBandLike = ''INFINIBAND_LIKE''"
| "to_string_link_class HostNic = ''HOST_NIC''"
| "to_string_link_class SwitchToSwitch = ''SWITCH_TO_SWITCH''"
| "to_string_link_class Logical = ''LOGICAL''"
| "to_string_link_class TunnelBacked = ''TUNNEL_BACKED''"
| "to_string_link_class Optical = ''OPTICAL''"
| "to_string_link_class FabricInterconnect = ''FABRIC_INTERCONNECT''"
| "to_string_link_class BondedAggregate = ''BONDED_AGGREGATE''"

definition kClasses :: "LinkClass list" where
  "kClasses = [LinkClass.Unknown, EthernetLike, InfiniBandLike, HostNic, SwitchToSwitch, Logical,
     TunnelBacked, Optical, FabricInterconnect, BondedAggregate]"

definition parse_link_class :: "string \<Rightarrow> LinkClass option" where
  "parse_link_class text = find (\<lambda>candidate. text = to_string_link_class candidate) kClasses"

definition link_class_is_physical :: "LinkClass \<Rightarrow> bool" where
  "link_class_is_physical c \<longleftrightarrow> \<not> (c = Logical \<or> c = TunnelBacked)"

primrec to_string_symmetry :: "LinkSymmetryGuarantee \<Rightarrow> string" where
  "to_string_symmetry Unspecified = ''UNSPECIFIED''"
| "to_string_symmetry Symmetric = ''SYMMETRIC''"
| "to_string_symmetry Directional = ''DIRECTIONAL''"

primrec default_symmetry_for :: "LinkClass \<Rightarrow> LinkSymmetryGuarantee" where
  "default_symmetry_for Optical = Directional"
| "default_symmetry_for TunnelBacked = Directional"
| "default_symmetry_for Logical = Directional"
| "default_symmetry_for EthernetLike = Symmetric"
| "default_symmetry_for InfiniBandLike = Symmetric"
| "default_symmetry_for HostNic = Symmetric"
| "default_symmetry_for SwitchToSwitch = Symmetric"
| "default_symmetry_for FabricInterconnect = Symmetric"
| "default_symmetry_for BondedAggregate = Symmetric"
| "default_symmetry_for LinkClass.Unknown = Unspecified"

primrec to_string_result_class :: "StateResultClass \<Rightarrow> string" where
  "to_string_result_class AuthoritativeUnknown = ''AUTHORITATIVE_UNKNOWN''"
| "to_string_result_class AuthoritativeUp = ''AUTHORITATIVE_UP''"
| "to_string_result_class AuthoritativeDown = ''AUTHORITATIVE_DOWN''"
| "to_string_result_class AuthoritativeDegraded = ''AUTHORITATIVE_DEGRADED''"
| "to_string_result_class AuthoritativeAdminDisabled = ''AUTHORITATIVE_ADMIN_DISABLED''"
| "to_string_result_class AuthoritativeDraining = ''AUTHORITATIVE_DRAINING''"
| "to_string_result_class AuthoritativeFaulted = ''AUTHORITATIVE_FAULTED''"
| "to_string_result_class Conflicted = ''CONFLICTED''"
| "to_string_result_class StateResultClass.RevalidationRequired = ''REVALIDATION_REQUIRED''"
| "to_string_result_class StateResultClass.Retired = ''RETIRED''"

primrec state_of :: "StateResultClass \<Rightarrow> LinkOperationalState" where
  "state_of AuthoritativeUnknown = LinkOperationalState.Unknown"
| "state_of AuthoritativeUp = Up"
| "state_of AuthoritativeDown = Down"
| "state_of AuthoritativeDegraded = Degraded"
| "state_of AuthoritativeAdminDisabled = AdminDisabled"
| "state_of AuthoritativeDraining = Draining"
| "state_of AuthoritativeFaulted = Faulted"
| "state_of Conflicted = LinkOperationalState.RevalidationRequired"
| "state_of StateResultClass.RevalidationRequired = LinkOperationalState.RevalidationRequired"
| "state_of StateResultClass.Retired = LinkOperationalState.Retired"

section \<open>The documented contract of the matrix\<close>

text \<open>
  The contract stated in \<^verbatim>\<open>state.hpp\<close> as a table of the triggers that may enter a state, without
  reference to bit masks.
\<close>

primrec inbound_triggers :: "LinkOperationalState \<Rightarrow> TransitionTrigger list" where
  "inbound_triggers LinkOperationalState.Unknown =
     [EvidenceResolution, EvidenceWithdrawal, RevalidationOutcome, Recovery]"
| "inbound_triggers Up = [EvidenceResolution, RevalidationOutcome, ExplicitAdministrative]"
| "inbound_triggers Down = [EvidenceResolution, RevalidationOutcome, ExplicitAdministrative]"
| "inbound_triggers Degraded = [EvidenceResolution, RevalidationOutcome, ExplicitAdministrative]"
| "inbound_triggers AdminDisabled = [EvidenceResolution, RevalidationOutcome, ExplicitAdministrative]"
| "inbound_triggers Draining = [EvidenceResolution, RevalidationOutcome, ExplicitAdministrative]"
| "inbound_triggers Faulted = [EvidenceResolution, RevalidationOutcome, ExplicitAdministrative]"
| "inbound_triggers LinkOperationalState.RevalidationRequired =
     [EvidenceResolution, EvidenceWithdrawal, PublisherFenced, SourceLost, TopologyInvalidation,
      CoordinatorEpochAdvance, Recovery, RevalidationOutcome]"
| "inbound_triggers LinkOperationalState.Retired = [Retirement, TopologyInvalidation]"

lemmas trigger_masks = kInboundTriggerMask_def kUnknownTriggers_def kLiveTriggers_def
  kRevalidationTriggers_def kRetireTriggers_def trigger_bit_def

lemma inbound_mask:
  "(kInboundTriggerMask ! state_index s) AND trigger_bit t \<noteq> 0 \<longleftrightarrow> t \<in> set (inbound_triggers s)"
  by (cases s; cases t) (simp_all add: trigger_masks)

lemma state_index_bound: "state_index s < link_operational_state_count"
  by (cases s) (simp_all add: link_operational_state_count_def)

lemma evaluate_transition_cases:
  "evaluate_transition s s' t =
     (if s = s' then SameState
      else if s = LinkOperationalState.Retired then FromRetired
      else if t \<in> set (inbound_triggers s') then Legal
      else if s' = LinkOperationalState.Retired then RetirementRequired
      else TriggerNotPermitted)"
  using state_index_bound [of s] state_index_bound [of s']
  unfolding evaluate_transition_def Let_def inbound_mask by auto


lemma evaluate_transition_Legal_iff:
  "evaluate_transition s s' t = Legal \<longleftrightarrow>
     s \<noteq> s' \<and> s \<noteq> LinkOperationalState.Retired \<and> t \<in> set (inbound_triggers s')"
  by (simp add: evaluate_transition_cases)

lemma evaluate_transition_SameState_iff: "evaluate_transition s s' t = SameState \<longleftrightarrow> s = s'"
  by (simp add: evaluate_transition_cases)

text \<open>
  Every state has one canonical rendering: parsing it gives the state back, and nothing but the
  nine canonical spellings parses.
\<close>

theorem parse_state_roundtrip:
  "parse_state text = Some s \<longleftrightarrow> text = to_string_state s"
  by (cases s) (auto simp: parse_state_def all_states_def)

text \<open>The link class renderings and their parser are inverse to each other.\<close>

theorem parse_link_class_roundtrip:
  "parse_link_class text = Some c \<longleftrightarrow> text = to_string_link_class c"
  by (cases c) (auto simp: parse_link_class_def kClasses_def)

end
