(* ===== verification/Digests.thy ===== *)
theory Digests
  imports LSF_Prelude
begin

text \<open>
  The streaming SHA-256 hasher (\<^verbatim>\<open>include/linkstate/digest.hpp\<close>, \<^verbatim>\<open>src/digest.cpp\<close>): the
  compression function on 32 bit words, the chunked \<^verbatim>\<open>Hasher::update\<close> loop with its 64 byte
  buffer, the padding loop of \<^verbatim>\<open>Hasher::finalize\<close>, the little endian folding helpers, and the
  hexadecimal rendering of digests.  The lemmas show that chunking is unobservable: feeding a text
  in pieces is the same as feeding it at once.
\<close>

unbundle bit_operations_syntax

section \<open>Digests and their hexadecimal rendering\<close>

datatype Digest = Digest (digest_bytes: bytes)

definition digest_byte_count :: nat where
  "digest_byte_count = 32"

definition zero_digest :: Digest where
  "zero_digest = Digest (replicate digest_byte_count 0)"

definition digest_is_zero :: "Digest \<Rightarrow> bool" where
  "digest_is_zero d \<longleftrightarrow> list_all (\<lambda>b. b = 0) (digest_bytes d)"

text \<open>\<^verbatim>\<open>hex_value\<close> returns a negative number for a character that is not a hexadecimal digit;
  here that is \<open>None\<close>.\<close>

definition hex_value :: "char \<Rightarrow> nat option" where
  "hex_value ch =
     (if CHR ''0'' \<le> ch \<and> ch \<le> CHR ''9'' then Some (of_char ch - 48)
      else if CHR ''a'' \<le> ch \<and> ch \<le> CHR ''f'' then Some (of_char ch - 97 + 10)
      else if CHR ''A'' \<le> ch \<and> ch \<le> CHR ''F'' then Some (of_char ch - 65 + 10)
      else None)"

definition kDigits :: string where
  "kDigits = ''0123456789abcdef''"

fun hex_pairs :: "string \<Rightarrow> bytes option" where
  "hex_pairs [] = Some []"
| "hex_pairs [_] = None"
| "hex_pairs (hi # lo # rest) =
     (case (hex_value hi, hex_value lo) of
        (Some high, Some low) \<Rightarrow>
          (case hex_pairs rest of
             None \<Rightarrow> None
           | Some bs \<Rightarrow> Some (of_nat (high * 16 + low) # bs))
      | _ \<Rightarrow> None)"

definition from_hex :: "string \<Rightarrow> Digest option" where
  "from_hex hex =
     (if length hex \<noteq> digest_byte_count * 2 then None else map_option Digest (hex_pairs hex))"

definition to_hex :: "Digest \<Rightarrow> string" where
  "to_hex d = concat (map (\<lambda>value. [kDigits ! unat (drop_bit 4 value AND 15),
     kDigits ! unat (value AND 15)]) (digest_bytes d))"

section \<open>Compression\<close>

text \<open>The tables of the C++ code, which writes them in hexadecimal, in decimal.\<close>

definition kRoundConstants :: "u32 list" where
  "kRoundConstants =
    [1116352408, 1899447441, 3049323471, 3921009573, 961987163, 1508970993, 2453635748,
     2870763221, 3624381080, 310598401, 607225278, 1426881987, 1925078388, 2162078206, 2614888103,
     3248222580, 3835390401, 4022224774, 264347078, 604807628, 770255983, 1249150122, 1555081692,
     1996064986, 2554220882, 2821834349, 2952996808, 3210313671, 3336571891, 3584528711,
     113926993, 338241895, 666307205, 773529912, 1294757372, 1396182291, 1695183700, 1986661051,
     2177026350, 2456956037, 2730485921, 2820302411, 3259730800, 3345764771, 3516065817,
     3600352804, 4094571909, 275423344, 430227734, 506948616, 659060556, 883997877, 958139571,
     1322822218, 1537002063, 1747873779, 1955562222, 2024104815, 2227730452, 2361852424,
     2428436474, 2756734187, 3204031479, 3329325298]"

definition kInitialState :: "u32 list" where
  "kInitialState =
    [1779033703, 3144134277, 1013904242, 2773480762, 1359893119, 2600822924, 528734635, 1541459225]"

definition rotate_right :: "u32 \<Rightarrow> nat \<Rightarrow> u32" where
  "rotate_right value n = drop_bit n value OR push_bit (32 - n) value"

definition load_word :: "bytes \<Rightarrow> nat \<Rightarrow> u32" where
  "load_word block index =
     push_bit 24 (ucast (block ! (index * 4))) OR push_bit 16 (ucast (block ! (index * 4 + 1))) OR
     push_bit 8 (ucast (block ! (index * 4 + 2))) OR ucast (block ! (index * 4 + 3))"

definition extend_schedule :: "nat \<Rightarrow> u32 list \<Rightarrow> u32 list" where
  "extend_schedule index schedule =
     (let s0 = rotate_right (schedule ! (index - 15)) 7 XOR rotate_right (schedule ! (index - 15)) 18
               XOR drop_bit 3 (schedule ! (index - 15));
          s1 = rotate_right (schedule ! (index - 2)) 17 XOR rotate_right (schedule ! (index - 2)) 19
               XOR drop_bit 10 (schedule ! (index - 2))
      in schedule @ [schedule ! (index - 16) + s0 + schedule ! (index - 7) + s1])"

definition message_schedule :: "bytes \<Rightarrow> u32 list" where
  "message_schedule block = fold extend_schedule [16..<64] (map (load_word block) [0..<16])"

type_synonym working = "u32 \<times> u32 \<times> u32 \<times> u32 \<times> u32 \<times> u32 \<times> u32 \<times> u32"

definition sha_round :: "u32 list \<Rightarrow> nat \<Rightarrow> working \<Rightarrow> working" where
  "sha_round schedule index w =
     (case w of (a, b, c, d, e, f, g, h) \<Rightarrow>
        let s1 = rotate_right e 6 XOR rotate_right e 11 XOR rotate_right e 25;
            ch = (e AND f) XOR (NOT e AND g);
            temp1 = h + s1 + ch + kRoundConstants ! index + schedule ! index;
            s0 = rotate_right a 2 XOR rotate_right a 13 XOR rotate_right a 22;
            maj = (a AND b) XOR (a AND c) XOR (b AND c);
            temp2 = s0 + maj
        in (temp1 + temp2, a, b, c, d + temp1, e, f, g))"

definition compress :: "u32 list \<Rightarrow> bytes \<Rightarrow> u32 list" where
  "compress state block =
     (case fold (sha_round (message_schedule block)) [0..<64]
             (state ! 0, state ! 1, state ! 2, state ! 3, state ! 4, state ! 5, state ! 6, state ! 7)
      of (a, b, c, d, e, f, g, h) \<Rightarrow>
        [state ! 0 + a, state ! 1 + b, state ! 2 + c, state ! 3 + d,
         state ! 4 + e, state ! 5 + f, state ! 6 + g, state ! 7 + h])"

section \<open>The streaming hasher\<close>

text \<open>The \<^verbatim>\<open>buffer_\<close> array is modelled by its first \<^verbatim>\<open>buffered_\<close> bytes, the only ones that are
  ever read.\<close>

record Hasher =
  h_state :: "u32 list"
  h_buffer :: bytes
  h_total :: u64

definition new_hasher :: Hasher where
  "new_hasher = \<lparr>h_state = kInitialState, h_buffer = [], h_total = 0\<rparr>"

text \<open>The copy loop of \<^verbatim>\<open>Hasher::update\<close>: fill the buffer as far as it goes, compress when it is
  full, continue with the rest.  A buffer never holds more than 64 bytes; the guard only makes the
  recursion total on states that no hasher reaches.\<close>

function absorb :: "u32 list \<Rightarrow> bytes \<Rightarrow> bytes \<Rightarrow> u32 list \<times> bytes" where
  "absorb state buffer data =
     (if data = [] \<or> 64 < length buffer then (state, buffer)
      else let n = (if length data < 64 - length buffer then length data else 64 - length buffer);
               buffer' = buffer @ take n data;
               rest = drop n data
           in if length buffer' = 64 then absorb (compress state buffer') [] rest
              else absorb state buffer' rest)"
  by pat_completeness auto
termination
  by (relation "measure (\<lambda>(state, buffer, data). 2 * length data + (if length buffer < 64 then 0 else 1))")
    auto

declare absorb.simps [simp del]

definition hasher_update :: "bytes \<Rightarrow> Hasher \<Rightarrow> Hasher" where
  "hasher_update data hs =
     (case absorb (h_state hs) (h_buffer hs) data of (state, buffer) \<Rightarrow>
        \<lparr>h_state = state, h_buffer = buffer, h_total = h_total hs + of_nat (length data)\<rparr>)"

definition bytes_of_string :: "string \<Rightarrow> bytes" where
  "bytes_of_string text = map of_char text"

definition le_u16 :: "u16 \<Rightarrow> bytes" where
  "le_u16 value = [ucast (value AND 0xff), ucast (drop_bit 8 value AND 0xff)]"

definition le_u32 :: "u32 \<Rightarrow> bytes" where
  "le_u32 value = [ucast (value AND 0xff), ucast (drop_bit 8 value AND 0xff),
     ucast (drop_bit 16 value AND 0xff), ucast (drop_bit 24 value AND 0xff)]"

definition le_u64 :: "u64 \<Rightarrow> bytes" where
  "le_u64 value = le_u32 (ucast (value AND 0xffffffff)) @
     le_u32 (ucast (drop_bit 32 value AND 0xffffffff))"

definition update_u8 :: "u8 \<Rightarrow> Hasher \<Rightarrow> Hasher" where
  "update_u8 value = hasher_update [value]"

definition update_bool :: "bool \<Rightarrow> Hasher \<Rightarrow> Hasher" where
  "update_bool value = update_u8 (if value then 1 else 0)"

definition update_u16 :: "u16 \<Rightarrow> Hasher \<Rightarrow> Hasher" where
  "update_u16 value = hasher_update (le_u16 value)"

definition update_u32 :: "u32 \<Rightarrow> Hasher \<Rightarrow> Hasher" where
  "update_u32 value = hasher_update (le_u32 value)"

definition update_u64 :: "u64 \<Rightarrow> Hasher \<Rightarrow> Hasher" where
  "update_u64 value hs =
     update_u32 (ucast (drop_bit 32 value AND 0xffffffff))
       (update_u32 (ucast (value AND 0xffffffff)) hs)"

definition update_text :: "string \<Rightarrow> Hasher \<Rightarrow> Hasher" where
  "update_text text hs =
     hasher_update (bytes_of_string text) (update_u32 (of_nat (length text)) hs)"

text \<open>The padding loop feeds zero bytes until 56 bytes are buffered; the guard on a full buffer is
  never reached.\<close>

function pad_zeros :: "u32 list \<Rightarrow> bytes \<Rightarrow> u32 list \<times> bytes" where
  "pad_zeros state buffer =
     (if length buffer = 56 \<or> 64 \<le> length buffer then (state, buffer)
      else if length buffer = 63 then pad_zeros (compress state (buffer @ [0])) []
      else pad_zeros state (buffer @ [0]))"
  by pat_completeness auto
termination
  by (relation "measure (\<lambda>(state, buffer). if length buffer \<le> 56 then 56 - length buffer
      else 120 - length buffer)") auto

declare pad_zeros.simps [simp del]

definition be_u64 :: "u64 \<Rightarrow> bytes" where
  "be_u64 value = map (\<lambda>index. ucast (drop_bit (56 - 8 * index) value AND 0xff)) [0..<8]"

definition be_u32 :: "u32 \<Rightarrow> bytes" where
  "be_u32 word = [ucast (drop_bit 24 word AND 0xff), ucast (drop_bit 16 word AND 0xff),
     ucast (drop_bit 8 word AND 0xff), ucast (word AND 0xff)]"

definition finalize :: "Hasher \<Rightarrow> Digest" where
  "finalize hs =
     (let bit_count = h_total hs * 8;
          marked = absorb (h_state hs) (h_buffer hs) [0x80];
          padded = pad_zeros (fst marked) (snd marked);
          closed = absorb (fst padded) (snd padded) (be_u64 bit_count)
      in Digest (concat (map be_u32 (fst closed))))"

definition sha256 :: "bytes \<Rightarrow> Digest" where
  "sha256 data = finalize (hasher_update data new_hasher)"

section \<open>Chunking is unobservable\<close>

text \<open>Absorbing byte by byte, the reference the chunked loop is compared with.\<close>

definition absorb_byte :: "u8 \<Rightarrow> u32 list \<times> bytes \<Rightarrow> u32 list \<times> bytes" where
  "absorb_byte b sb =
     (case sb of (state, buffer) \<Rightarrow>
        if length (buffer @ [b]) = 64 then (compress state (buffer @ [b]), [])
        else (state, buffer @ [b]))"

lemma fold_absorb_short:
  "length buffer + length data < 64 \<Longrightarrow> fold absorb_byte data (state, buffer) = (state, buffer @ data)"
  by (induction data arbitrary: buffer) (auto simp: absorb_byte_def)

lemma fold_absorb_full:
  assumes "length buffer + length data = 64" and "data \<noteq> []"
  shows "fold absorb_byte data (state, buffer) = (compress state (buffer @ data), [])"
proof -
  obtain init b where data: "data = init @ [b]"
    using assms(2) by (cases data rule: rev_cases) auto
  then have "fold absorb_byte init (state, buffer) = (state, buffer @ init)"
    using assms(1) by (intro fold_absorb_short) simp
  with data assms(1) show ?thesis
    by (simp add: absorb_byte_def)
qed

lemma absorb_fold:
  "length buffer < 64 \<Longrightarrow> absorb state buffer data = fold absorb_byte data (state, buffer)"
proof (induction state buffer data rule: absorb.induct)
  case (1 state buffer data)
  show ?case
  proof (cases "data = []")
    case True
    then show ?thesis by (subst absorb.simps) simp
  next
    case False
    define n where "n = (if length data < 64 - length buffer then length data else 64 - length buffer)"
    have guard: "\<not> (data = [] \<or> 64 < length buffer)"
      using False "1.prems" by simp
    have split: "data = take n data @ drop n data" by simp
    have n: "0 < n" "n \<le> length data" "n \<le> 64 - length buffer"
      using False "1.prems" by (auto simp: n_def)
    show ?thesis
    proof (cases "length (buffer @ take n data) = 64")
      case True
      have "absorb state buffer data = absorb (compress state (buffer @ take n data)) [] (drop n data)"
        using guard True by (subst absorb.simps) (simp add: Let_def flip: n_def)
      also have "\<dots> = fold absorb_byte (drop n data) (compress state (buffer @ take n data), [])"
        using "1.IH"(1) [OF guard n_def refl refl True] by simp
      also have "\<dots> = fold absorb_byte (take n data @ drop n data) (state, buffer)"
        using True n False fold_absorb_full [of buffer "take n data" state] by (simp del: append_take_drop_id)
      finally show ?thesis by simp
    next
      case short: False
      then have len: "length (buffer @ take n data) < 64" using n by simp
      have "absorb state buffer data = absorb state (buffer @ take n data) (drop n data)"
        using guard short by (subst absorb.simps) (simp add: Let_def flip: n_def)
      also have "\<dots> = fold absorb_byte (drop n data) (state, buffer @ take n data)"
        using "1.IH"(2) [OF guard n_def refl refl short len] by simp
      also have "\<dots> = fold absorb_byte (take n data @ drop n data) (state, buffer)"
        using len fold_absorb_short [of buffer "take n data" state] by (simp del: append_take_drop_id)
      finally show ?thesis by simp
    qed
  qed
qed

lemma absorb_byte_buffer: "length (snd sb) < 64 \<Longrightarrow> length (snd (absorb_byte b sb)) < 64"
  by (auto simp: absorb_byte_def split: prod.splits)

lemma fold_absorb_buffer: "length (snd sb) < 64 \<Longrightarrow> length (snd (fold absorb_byte data sb)) < 64"
  by (induction data arbitrary: sb) (auto simp: absorb_byte_buffer)

definition hasher_ok :: "Hasher \<Rightarrow> bool" where
  "hasher_ok hs \<longleftrightarrow> length (h_buffer hs) < 64"

lemma hasher_ok_new [simp]: "hasher_ok new_hasher"
  by (simp add: hasher_ok_def new_hasher_def)

lemma hasher_ok_update [simp]: "hasher_ok hs \<Longrightarrow> hasher_ok (hasher_update data hs)"
  using fold_absorb_buffer [of "(h_state hs, h_buffer hs)" data]
  by (auto simp: hasher_ok_def hasher_update_def absorb_fold split: prod.splits)

lemma hasher_update_append:
  assumes "hasher_ok hs"
  shows "hasher_update ys (hasher_update xs hs) = hasher_update (xs @ ys) hs"
proof -
  obtain state buffer where step: "fold absorb_byte xs (h_state hs, h_buffer hs) = (state, buffer)"
    by fastforce
  have "length (snd (fold absorb_byte xs (h_state hs, h_buffer hs))) < 64"
    using assms by (intro fold_absorb_buffer) (simp add: hasher_ok_def)
  with assms step show ?thesis
    by (simp add: hasher_update_def hasher_ok_def absorb_fold split: prod.splits)
qed

lemma hasher_update_fold:
  "hasher_ok hs \<Longrightarrow> fold hasher_update chunks hs = hasher_update (concat chunks) hs"
proof (induction chunks arbitrary: hs)
  case Nil
  then show ?case
    by (simp add: hasher_update_def absorb_fold hasher_ok_def)
next
  case (Cons c cs)
  then show ?case by (simp add: hasher_update_append)
qed

text \<open>
  Streaming a message through \<^verbatim>\<open>Hasher::update\<close> in any sequence of chunks, of any lengths,
  finalizes to the one shot digest of the concatenated message: the buffering and the block
  boundaries of the update loop are unobservable.
\<close>

theorem sha256_streaming:
  "finalize (fold hasher_update chunks new_hasher) = sha256 (concat chunks)"
  by (simp add: sha256_def hasher_update_fold)

section \<open>Hexadecimal round trip\<close>

lemma hex_value_digit:
  assumes "n < 16"
  shows "hex_value (kDigits ! n) = Some n"
proof -
  have "list_all (\<lambda>i. hex_value (kDigits ! i) = Some i) [0..<16]"
    by code_simp
  with assms show ?thesis by (simp add: list_all_iff)
qed

lemma nibble_bound: "unat (v AND 15 :: u8) < 16"
proof -
  have "v AND 15 \<le> (15 :: u8)" by (rule word_and_le1)
  then show ?thesis by (simp add: word_le_nat_alt)
qed

lemma nibbles: "(drop_bit 4 v AND 15) * 16 + (v AND 15) = (v :: u8)"
proof -
  have mask: "w AND 15 = take_bit 4 w" for w :: u8
    by (simp add: take_bit_eq_mask mask_eq_exp_minus_1)
  have "take_bit 4 (drop_bit 4 v) = drop_bit 4 v"
    using take_bit_drop_bit [of 4 4 v] take_bit_length_eq [of v] by simp
  moreover have "drop_bit 4 v * 16 + take_bit 4 v = v"
    using bits_ident [of 4 v] by (simp add: push_bit_eq_mult)
  ultimately show ?thesis by (simp only: mask)
qed

lemma hex_pairs_render:
  "hex_pairs (concat (map (\<lambda>value. [kDigits ! unat (drop_bit 4 value AND 15),
     kDigits ! unat (value AND 15)]) bs)) = Some bs"
  by (induction bs) (auto simp: hex_value_digit nibble_bound nibbles)

text \<open>A digest of 32 bytes survives rendering as hexadecimal text and parsing it back.\<close>

theorem from_hex_to_hex: "length (digest_bytes d) = 32 \<Longrightarrow> from_hex (to_hex d) = Some d"
proof -
  assume "length (digest_bytes d) = 32"
  then have "length (to_hex d) = 64"
    by (simp add: to_hex_def length_concat comp_def sum_list_triv)
  then show ?thesis
    by (simp add: from_hex_def to_hex_def digest_byte_count_def hex_pairs_render)
qed

theorem from_hex_to_hex_witness:
  "length (digest_bytes zero_digest) = 32 \<and> from_hex (to_hex zero_digest) = Some zero_digest"
  using from_hex_to_hex [of zero_digest] by (simp add: zero_digest_def digest_byte_count_def)

end
