(* ===== verification/Texts.thy ===== *)
theory Texts
  imports LSF_Prelude
begin

text \<open>
  Bounded text (\<^verbatim>\<open>src/text.cpp\<close>) and the resource bounds of
  \<^verbatim>\<open>include/linkstate/limits.hpp\<close>.  Detail strings and reasons are admitted only when they are
  short, well formed UTF-8 and free of control characters.
\<close>

unbundle bit_operations_syntax

section \<open>Limits\<close>

definition max_detail_length :: nat where
  "max_detail_length = 256"

definition max_label_length :: nat where
  "max_label_length = 128"

definition max_evidence_metadata_bytes :: nat where
  "max_evidence_metadata_bytes = 2048"

definition max_authority_scope_links :: nat where
  "max_authority_scope_links = 65536"

definition max_links :: nat where
  "max_links = 1000000"

definition max_evidence_per_link :: nat where
  "max_evidence_per_link = 64"

definition max_publishers :: nat where
  "max_publishers = 65536"

definition max_snapshot_records :: nat where
  "max_snapshot_records = 1000000"

definition max_retained_snapshots :: nat where
  "max_retained_snapshots = 64"

definition max_history_per_link :: nat where
  "max_history_per_link = 32"

definition max_topology_batch :: nat where
  "max_topology_batch = 65536"

section \<open>UTF-8\<close>

text \<open>The lead byte decides the number of continuation bytes, the payload bits and the smallest
  code point the length may encode.\<close>

definition utf8_lead :: "nat \<Rightarrow> (nat \<times> nat \<times> nat) option" where
  "utf8_lead byte =
     (if byte AND 0xe0 = 0xc0 then Some (1, byte AND 0x1f, 0x80)
      else if byte AND 0xf0 = 0xe0 then Some (2, byte AND 0x0f, 0x800)
      else if byte AND 0xf8 = 0xf0 then Some (3, byte AND 0x07, 0x10000)
      else None)"

fun continuation :: "nat \<Rightarrow> nat \<Rightarrow> string \<Rightarrow> nat option" where
  "continuation 0 code_point _ = Some code_point"
| "continuation (Suc k) code_point [] = None"
| "continuation (Suc k) code_point (ch # rest) =
     (if of_char ch AND 0xc0 \<noteq> (0x80 :: nat) then None
      else continuation k (push_bit 6 code_point OR (of_char ch AND 0x3f)) rest)"

function is_valid_utf8 :: "string \<Rightarrow> bool" where
  "is_valid_utf8 [] = True"
| "is_valid_utf8 (ch # rest) =
     (if of_char ch < (0x80 :: nat) then is_valid_utf8 rest
      else (case utf8_lead (of_char ch) of
              None \<Rightarrow> False
            | Some (extra, payload, minimum) \<Rightarrow>
                if length rest < extra then False
                else (case continuation extra payload rest of
                        None \<Rightarrow> False
                      | Some code_point \<Rightarrow>
                          if code_point < minimum then False
                          else if code_point > 0x10ffff then False
                          else if code_point \<ge> 0xd800 \<and> code_point \<le> 0xdfff then False
                          else is_valid_utf8 (drop extra rest))))"
  by pat_completeness auto
termination
  by (relation "measure length") auto

declare is_valid_utf8.simps(2) [simp del]

text \<open>The result of \<^verbatim>\<open>validate_text\<close> is \<open>None\<close> for an accepted text and the error text
  otherwise.\<close>

definition validate_text :: "string \<Rightarrow> nat \<Rightarrow> string option" where
  "validate_text text max_length =
     (if length text > max_length
      then Some (''text exceeds maximum length '' @ format_nat max_length)
      else if \<not> is_valid_utf8 text then Some ''text is not well formed UTF-8''
      else if list_ex (\<lambda>ch. of_char ch < (0x20 :: nat) \<or> of_char ch = (0x7f :: nat)) text
      then Some ''text contains a control character''
      else None)"

definition single_line :: "string \<Rightarrow> string" where
  "single_line text =
     map (\<lambda>ch. if ch = CHR 0x0A \<or> ch = CHR 0x0D then CHR '' '' else ch) text"

end
