(* ===== verification/Evidence.thy ===== *)
theory Evidence
  imports Identifiers Generations States Digests Texts
begin

text \<open>
  Evidence (\<^verbatim>\<open>include/linkstate/evidence.hpp\<close>, \<^verbatim>\<open>src/evidence.cpp\<close>): the kinds, classes and
  claims of observations, the key of an evidence slot with its canonical order, the evidence record,
  and the deterministic digests of records and of evidence sets.
\<close>

datatype EvidenceKind = CarrierState | InterfaceOperationalState | DeviceReportedState
  | PortReportedState | RemoteEndpointState | ControlPlaneHeartbeat | HardwareErrorIndication
  | LossErrorThreshold | AdministrativeState | SyntheticTest | PlatformDiscovery

datatype EvidenceClass = Real | Synthetic | Unsupported

datatype EvidenceDirection = Bidirectional | Transmit | Receive

datatype EvidenceClaim = Unknown | Up | Down | Degraded | AdminDisabled | Draining | Faulted

datatype DegradationCause = NoCause | ErrorRateThresholdExceeded | ReducedNegotiatedSpeed
  | PartialLaneFailure | UnstableCarrier | Asymmetry | DegradedOpticalSignal
  | RestrictedForwarding | HardwareReportedImpairment

datatype EvidenceStatus = Current | Superseded | Withdrawn | StaleAuthority | StaleTopology
  | StaleSourceGeneration

section \<open>Enumeration values and renderings\<close>

primrec kind_index :: "EvidenceKind \<Rightarrow> nat" where
  "kind_index CarrierState = 0"
| "kind_index InterfaceOperationalState = 1"
| "kind_index DeviceReportedState = 2"
| "kind_index PortReportedState = 3"
| "kind_index RemoteEndpointState = 4"
| "kind_index ControlPlaneHeartbeat = 5"
| "kind_index HardwareErrorIndication = 6"
| "kind_index LossErrorThreshold = 7"
| "kind_index AdministrativeState = 8"
| "kind_index SyntheticTest = 9"
| "kind_index PlatformDiscovery = 10"

primrec class_index :: "EvidenceClass \<Rightarrow> nat" where
  "class_index Real = 0"
| "class_index Synthetic = 1"
| "class_index Unsupported = 2"

primrec direction_index :: "EvidenceDirection \<Rightarrow> nat" where
  "direction_index Bidirectional = 0"
| "direction_index Transmit = 1"
| "direction_index Receive = 2"

primrec claim_index :: "EvidenceClaim \<Rightarrow> nat" where
  "claim_index EvidenceClaim.Unknown = 0"
| "claim_index EvidenceClaim.Up = 1"
| "claim_index EvidenceClaim.Down = 2"
| "claim_index EvidenceClaim.Degraded = 3"
| "claim_index EvidenceClaim.AdminDisabled = 4"
| "claim_index EvidenceClaim.Draining = 5"
| "claim_index EvidenceClaim.Faulted = 6"

primrec cause_index :: "DegradationCause \<Rightarrow> nat" where
  "cause_index NoCause = 0"
| "cause_index ErrorRateThresholdExceeded = 1"
| "cause_index ReducedNegotiatedSpeed = 2"
| "cause_index PartialLaneFailure = 3"
| "cause_index UnstableCarrier = 4"
| "cause_index Asymmetry = 5"
| "cause_index DegradedOpticalSignal = 6"
| "cause_index RestrictedForwarding = 7"
| "cause_index HardwareReportedImpairment = 8"

primrec status_index :: "EvidenceStatus \<Rightarrow> nat" where
  "status_index Current = 0"
| "status_index Superseded = 1"
| "status_index Withdrawn = 2"
| "status_index StaleAuthority = 3"
| "status_index StaleTopology = 4"
| "status_index StaleSourceGeneration = 5"

primrec to_string_kind :: "EvidenceKind \<Rightarrow> string" where
  "to_string_kind CarrierState = ''CARRIER_STATE''"
| "to_string_kind InterfaceOperationalState = ''INTERFACE_OPERATIONAL_STATE''"
| "to_string_kind DeviceReportedState = ''DEVICE_REPORTED_STATE''"
| "to_string_kind PortReportedState = ''PORT_REPORTED_STATE''"
| "to_string_kind RemoteEndpointState = ''REMOTE_ENDPOINT_STATE''"
| "to_string_kind ControlPlaneHeartbeat = ''CONTROL_PLANE_HEARTBEAT''"
| "to_string_kind HardwareErrorIndication = ''HARDWARE_ERROR_INDICATION''"
| "to_string_kind LossErrorThreshold = ''LOSS_ERROR_THRESHOLD''"
| "to_string_kind AdministrativeState = ''ADMINISTRATIVE_STATE''"
| "to_string_kind SyntheticTest = ''SYNTHETIC_TEST''"
| "to_string_kind PlatformDiscovery = ''PLATFORM_DISCOVERY''"

text \<open>The candidates of the index loop of \<^verbatim>\<open>parse_evidence_kind\<close>, in order.\<close>

definition all_kinds :: "EvidenceKind list" where
  "all_kinds = [CarrierState, InterfaceOperationalState, DeviceReportedState, PortReportedState,
     RemoteEndpointState, ControlPlaneHeartbeat, HardwareErrorIndication, LossErrorThreshold,
     AdministrativeState, SyntheticTest, PlatformDiscovery]"

definition parse_evidence_kind :: "string \<Rightarrow> EvidenceKind option" where
  "parse_evidence_kind text = find (\<lambda>candidate. text = to_string_kind candidate) all_kinds"

primrec evidence_precedence :: "EvidenceKind \<Rightarrow> nat" where
  "evidence_precedence AdministrativeState = 1"
| "evidence_precedence HardwareErrorIndication = 2"
| "evidence_precedence CarrierState = 3"
| "evidence_precedence InterfaceOperationalState = 3"
| "evidence_precedence DeviceReportedState = 3"
| "evidence_precedence PortReportedState = 3"
| "evidence_precedence ControlPlaneHeartbeat = 3"
| "evidence_precedence LossErrorThreshold = 3"
| "evidence_precedence PlatformDiscovery = 3"
| "evidence_precedence RemoteEndpointState = 4"
| "evidence_precedence SyntheticTest = 5"

primrec to_string_class :: "EvidenceClass \<Rightarrow> string" where
  "to_string_class Real = ''REAL''"
| "to_string_class Synthetic = ''SYNTHETIC''"
| "to_string_class Unsupported = ''UNSUPPORTED''"

primrec to_string_direction :: "EvidenceDirection \<Rightarrow> string" where
  "to_string_direction Bidirectional = ''BIDIRECTIONAL''"
| "to_string_direction Transmit = ''TRANSMIT''"
| "to_string_direction Receive = ''RECEIVE''"

primrec to_string_claim :: "EvidenceClaim \<Rightarrow> string" where
  "to_string_claim EvidenceClaim.Unknown = ''UNKNOWN''"
| "to_string_claim EvidenceClaim.Up = ''UP''"
| "to_string_claim EvidenceClaim.Down = ''DOWN''"
| "to_string_claim EvidenceClaim.Degraded = ''DEGRADED''"
| "to_string_claim EvidenceClaim.AdminDisabled = ''ADMIN_DISABLED''"
| "to_string_claim EvidenceClaim.Draining = ''DRAINING''"
| "to_string_claim EvidenceClaim.Faulted = ''FAULTED''"

primrec to_string_cause :: "DegradationCause \<Rightarrow> string" where
  "to_string_cause NoCause = ''NONE''"
| "to_string_cause ErrorRateThresholdExceeded = ''ERROR_RATE_THRESHOLD_EXCEEDED''"
| "to_string_cause ReducedNegotiatedSpeed = ''REDUCED_NEGOTIATED_SPEED''"
| "to_string_cause PartialLaneFailure = ''PARTIAL_LANE_FAILURE''"
| "to_string_cause UnstableCarrier = ''UNSTABLE_CARRIER''"
| "to_string_cause Asymmetry = ''ASYMMETRY''"
| "to_string_cause DegradedOpticalSignal = ''DEGRADED_OPTICAL_SIGNAL''"
| "to_string_cause RestrictedForwarding = ''RESTRICTED_FORWARDING''"
| "to_string_cause HardwareReportedImpairment = ''HARDWARE_REPORTED_IMPAIRMENT''"

primrec to_string_status :: "EvidenceStatus \<Rightarrow> string" where
  "to_string_status Current = ''CURRENT''"
| "to_string_status Superseded = ''SUPERSEDED''"
| "to_string_status Withdrawn = ''WITHDRAWN''"
| "to_string_status StaleAuthority = ''STALE_AUTHORITY''"
| "to_string_status StaleTopology = ''STALE_TOPOLOGY''"
| "to_string_status StaleSourceGeneration = ''STALE_SOURCE_GENERATION''"

primrec state_from_claim :: "EvidenceClaim \<Rightarrow> LinkOperationalState option" where
  "state_from_claim EvidenceClaim.Unknown = Some LinkOperationalState.Unknown"
| "state_from_claim EvidenceClaim.Up = Some LinkOperationalState.Up"
| "state_from_claim EvidenceClaim.Down = Some LinkOperationalState.Down"
| "state_from_claim EvidenceClaim.Degraded = Some LinkOperationalState.Degraded"
| "state_from_claim EvidenceClaim.AdminDisabled = Some LinkOperationalState.AdminDisabled"
| "state_from_claim EvidenceClaim.Draining = Some LinkOperationalState.Draining"
| "state_from_claim EvidenceClaim.Faulted = Some LinkOperationalState.Faulted"

primrec claim_from_state :: "LinkOperationalState \<Rightarrow> EvidenceClaim option" where
  "claim_from_state LinkOperationalState.Unknown = Some EvidenceClaim.Unknown"
| "claim_from_state LinkOperationalState.Up = Some EvidenceClaim.Up"
| "claim_from_state LinkOperationalState.Down = Some EvidenceClaim.Down"
| "claim_from_state LinkOperationalState.Degraded = Some EvidenceClaim.Degraded"
| "claim_from_state LinkOperationalState.AdminDisabled = Some EvidenceClaim.AdminDisabled"
| "claim_from_state LinkOperationalState.Draining = Some EvidenceClaim.Draining"
| "claim_from_state LinkOperationalState.Faulted = Some EvidenceClaim.Faulted"
| "claim_from_state LinkOperationalState.RevalidationRequired = None"
| "claim_from_state LinkOperationalState.Retired = None"

section \<open>Evidence keys\<close>

datatype EvidenceKey = EvidenceKey (key_link: LinkId) (key_source: SourceId)
  (key_endpoint: EndpointId) (key_direction: EvidenceDirection) (key_kind: EvidenceKind)

text \<open>The canonical order, field by field as \<^verbatim>\<open>operator<\<close> compares them.\<close>

definition evidence_key_less :: "EvidenceKey \<Rightarrow> EvidenceKey \<Rightarrow> bool" where
  "evidence_key_less lhs rhs \<longleftrightarrow>
     (if key_link lhs \<noteq> key_link rhs then key_link lhs < key_link rhs
      else if key_source lhs \<noteq> key_source rhs then key_source lhs < key_source rhs
      else if key_endpoint lhs \<noteq> key_endpoint rhs then key_endpoint lhs < key_endpoint rhs
      else if key_direction lhs \<noteq> key_direction rhs
      then direction_index (key_direction lhs) < direction_index (key_direction rhs)
      else kind_index (key_kind lhs) < kind_index (key_kind rhs))"

definition evidence_key_to_string :: "EvidenceKey \<Rightarrow> string" where
  "evidence_key_to_string k =
     ''link='' @ id_value (key_link k) @ '' source='' @ id_value (key_source k) @
     '' endpoint='' @ (if valid (key_endpoint k) then id_value (key_endpoint k) else ''<link>'') @
     '' direction='' @ to_string_direction (key_direction k) @
     '' kind='' @ to_string_kind (key_kind k)"

lemma inj_kind_index: "kind_index a = kind_index b \<longleftrightarrow> a = b"
  by (cases a; cases b) simp_all

lemma inj_direction_index: "direction_index a = direction_index b \<longleftrightarrow> a = b"
  by (cases a; cases b) simp_all

text \<open>The rank of a key in the canonical order; \<open>evidence_key_less\<close> compares ranks.\<close>

definition key_rank :: "EvidenceKey \<Rightarrow> LinkId \<times> SourceId \<times> EndpointId \<times> nat \<times> nat" where
  "key_rank k = (key_link k, key_source k, key_endpoint k, direction_index (key_direction k),
     kind_index (key_kind k))"

lemma key_rank_inj: "key_rank a = key_rank b \<longleftrightarrow> a = b"
  by (cases a; cases b) (simp add: key_rank_def inj_kind_index inj_direction_index)

lemma evidence_key_less_rank: "evidence_key_less a b \<longleftrightarrow> key_rank a < key_rank b"
  by (auto simp: evidence_key_less_def key_rank_def less_prod_simp inj_direction_index less_le)

instantiation EvidenceKey :: linorder
begin

definition less_eq_EvidenceKey :: "EvidenceKey \<Rightarrow> EvidenceKey \<Rightarrow> bool" where
  "less_eq_EvidenceKey a b \<longleftrightarrow> a = b \<or> evidence_key_less a b"

definition less_EvidenceKey :: "EvidenceKey \<Rightarrow> EvidenceKey \<Rightarrow> bool" where
  "less_EvidenceKey a b \<longleftrightarrow> evidence_key_less a b"

instance
  by standard (auto simp: less_eq_EvidenceKey_def less_EvidenceKey_def evidence_key_less_rank
      key_rank_inj dest: less_trans)

end

section \<open>Evidence records\<close>

record EvidenceRecord =
  ev_key :: EvidenceKey
  ev_observation :: ObservationId
  ev_publisher :: PublisherId
  ev_worker_boot :: WorkerBootId
  ev_epoch :: CoordinatorEpoch
  ev_source_generation :: SourceGeneration
  ev_sequence :: u64
  ev_topology_generation :: TopologyGeneration
  ev_endpoint_generation :: EndpointGeneration
  ev_class :: EvidenceClass
  ev_claim :: EvidenceClaim
  ev_degradation_cause :: DegradationCause
  ev_observed_at_unix_nanos :: u64
  ev_detail :: string
  ev_metadata :: bytes
  ev_status :: EvidenceStatus
  ev_evidence_generation :: EvidenceGeneration
  ev_commit_sequence :: GlobalGeneration
  ev_record_digest :: Digest

abbreviation ev_link :: "EvidenceRecord \<Rightarrow> LinkId" where
  "ev_link e \<equiv> key_link (ev_key e)"

abbreviation ev_source :: "EvidenceRecord \<Rightarrow> SourceId" where
  "ev_source e \<equiv> key_source (ev_key e)"

abbreviation ev_endpoint :: "EvidenceRecord \<Rightarrow> EndpointId" where
  "ev_endpoint e \<equiv> key_endpoint (ev_key e)"

abbreviation ev_direction :: "EvidenceRecord \<Rightarrow> EvidenceDirection" where
  "ev_direction e \<equiv> key_direction (ev_key e)"

abbreviation ev_kind :: "EvidenceRecord \<Rightarrow> EvidenceKind" where
  "ev_kind e \<equiv> key_kind (ev_key e)"

text \<open>\<^verbatim>\<open>operator==\<close> ignores the observation time and the engine's bookkeeping.\<close>

definition evidence_eq :: "EvidenceRecord \<Rightarrow> EvidenceRecord \<Rightarrow> bool" where
  "evidence_eq lhs rhs \<longleftrightarrow>
     ev_key lhs = ev_key rhs \<and> ev_observation lhs = ev_observation rhs \<and>
     ev_publisher lhs = ev_publisher rhs \<and> ev_worker_boot lhs = ev_worker_boot rhs \<and>
     ev_epoch lhs = ev_epoch rhs \<and> ev_source_generation lhs = ev_source_generation rhs \<and>
     ev_sequence lhs = ev_sequence rhs \<and>
     ev_topology_generation lhs = ev_topology_generation rhs \<and>
     ev_endpoint_generation lhs = ev_endpoint_generation rhs \<and>
     ev_class lhs = ev_class rhs \<and> ev_claim lhs = ev_claim rhs \<and>
     ev_degradation_cause lhs = ev_degradation_cause rhs \<and> ev_detail lhs = ev_detail rhs \<and>
     ev_metadata lhs = ev_metadata rhs"

definition compute_digest :: "EvidenceRecord \<Rightarrow> Digest" where
  "compute_digest e =
     finalize
      (hasher_update (ev_metadata e)
      (update_u32 (of_nat (length (ev_metadata e)))
      (update_text (ev_detail e)
      (update_u8 (of_nat (cause_index (ev_degradation_cause e)))
      (update_u8 (of_nat (claim_index (ev_claim e)))
      (update_u8 (of_nat (class_index (ev_class e)))
      (update_u64 (gen_value (ev_endpoint_generation e))
      (update_u64 (gen_value (ev_topology_generation e))
      (update_u64 (ev_sequence e)
      (update_u64 (gen_value (ev_source_generation e))
      (update_u64 (gen_value (ev_epoch e))
      (update_text (id_value (ev_worker_boot e))
      (update_text (id_value (ev_publisher e))
      (update_text (id_value (ev_observation e))
      (update_u8 (of_nat (kind_index (ev_kind e)))
      (update_u8 (of_nat (direction_index (ev_direction e)))
      (update_text (id_value (ev_endpoint e))
      (update_text (id_value (ev_source e))
      (update_text (id_value (ev_link e)) new_hasher)))))))))))))))))))"

definition evidence_set_less :: "EvidenceRecord \<Rightarrow> EvidenceRecord \<Rightarrow> bool" where
  "evidence_set_less lhs rhs \<longleftrightarrow>
     (if ev_key lhs \<noteq> ev_key rhs then ev_key lhs < ev_key rhs
      else if ev_observation lhs \<noteq> ev_observation rhs then ev_observation lhs < ev_observation rhs
      else ev_sequence lhs < ev_sequence rhs)"

definition digest_evidence_set :: "EvidenceRecord list \<Rightarrow> Digest" where
  "digest_evidence_set records =
     (let ordered = std_sort evidence_set_less records
      in finalize (fold (\<lambda>record. hasher_update (digest_bytes (compute_digest record))) ordered
           (update_u32 (of_nat (length ordered)) new_hasher)))"

definition nl :: string where
  "nl = [CHR 0x0A]"

definition render_evidence :: "EvidenceRecord \<Rightarrow> string" where
  "render_evidence e =
     ''evidence '' @ id_value (ev_observation e) @ nl @
     ''  key              '' @ evidence_key_to_string (ev_key e) @ nl @
     ''  publisher        '' @ id_value (ev_publisher e) @ nl @
     ''  worker_boot      '' @ id_value (ev_worker_boot e) @ nl @
     ''  epoch            '' @ gen_to_string (ev_epoch e) @ nl @
     ''  source_generation '' @ gen_to_string (ev_source_generation e) @ nl @
     ''  sequence         '' @ format_u64 (ev_sequence e) @ nl @
     ''  topology_gen     '' @ gen_to_string (ev_topology_generation e) @ nl @
     ''  endpoint_gen     '' @ gen_to_string (ev_endpoint_generation e) @ nl @
     ''  class            '' @ to_string_class (ev_class e) @ nl @
     ''  claim            '' @ to_string_claim (ev_claim e) @ nl @
     ''  degradation      '' @ to_string_cause (ev_degradation_cause e) @ nl @
     ''  status           '' @ to_string_status (ev_status e) @ nl @
     ''  digest           '' @ to_hex (compute_digest e) @ nl @
     (if ev_detail e \<noteq> [] then ''  detail           '' @ single_line (ev_detail e) @ nl else [])"

section \<open>Claims, digests and their order independence\<close>

lemma state_from_claim_inverse: "claim_from_state s = Some c \<longleftrightarrow> state_from_claim c = Some s"
  by (cases c; cases s) simp_all

lemma evidence_eq_digest: "evidence_eq a b \<Longrightarrow> compute_digest a = compute_digest b"
  by (simp add: evidence_eq_def compute_digest_def)

definition evidence_rank :: "EvidenceRecord \<Rightarrow> EvidenceKey \<times> ObservationId \<times> u64" where
  "evidence_rank e = (ev_key e, ev_observation e, ev_sequence e)"

lemma evidence_set_sort: "std_sort evidence_set_less xs = sort_key evidence_rank xs"
  by (rule std_sort_key) (auto simp: evidence_set_less_def evidence_rank_def less_prod_simp less_le)

text \<open>
  The digest of an evidence set does not depend on the order its records are given in, as long
  as no two of them agree in key, observation and sequence (which the one record per key rule of the
  engine guarantees).
\<close>

theorem digest_evidence_set_order:
  assumes "mset xs = mset ys"
    and "inj_on (\<lambda>e. (ev_key e, ev_observation e, ev_sequence e)) (set xs)"
  shows "digest_evidence_set xs = digest_evidence_set ys"
proof -
  have "inj_on evidence_rank (set xs)"
    using assms(2) by (simp add: evidence_rank_def [abs_def])
  then have "sort_key evidence_rank xs = sort_key evidence_rank ys"
    by (rule sort_key_perm [OF assms(1)])
  then show ?thesis
    using mset_eq_length [OF assms(1)] by (simp add: digest_evidence_set_def evidence_set_sort)
qed

definition blank_evidence :: EvidenceRecord where
  "blank_evidence = \<lparr>ev_key = EvidenceKey null_id null_id null_id Bidirectional CarrierState,
     ev_observation = null_id, ev_publisher = null_id, ev_worker_boot = null_id,
     ev_epoch = gen_zero, ev_source_generation = gen_zero, ev_sequence = 0,
     ev_topology_generation = gen_zero, ev_endpoint_generation = gen_zero, ev_class = Real,
     ev_claim = EvidenceClaim.Unknown, ev_degradation_cause = NoCause,
     ev_observed_at_unix_nanos = 0, ev_detail = [], ev_metadata = [], ev_status = Current,
     ev_evidence_generation = gen_zero, ev_commit_sequence = gen_zero,
     ev_record_digest = zero_digest\<rparr>"

theorem digest_evidence_set_order_witness:
  "digest_evidence_set [blank_evidence, blank_evidence\<lparr>ev_sequence := 7\<rparr>] =
   digest_evidence_set [blank_evidence\<lparr>ev_sequence := 7\<rparr>, blank_evidence]"
  by (rule digest_evidence_set_order) (simp_all add: blank_evidence_def)

text \<open>The evidence kind renderings and their parser are inverse to each other.\<close>

theorem parse_evidence_kind_roundtrip:
  "parse_evidence_kind text = Some k \<longleftrightarrow> text = to_string_kind k"
  by (cases k) (auto simp: parse_evidence_kind_def all_kinds_def)

end
