(* ===== verification/Authority.thy ===== *)
theory Authority
  imports Identifiers Generations Texts
begin

text \<open>
  Publisher authority (\<^verbatim>\<open>include/linkstate/authority.hpp\<close>, \<^verbatim>\<open>src/authority.cpp\<close>): authority
  scopes with their normalisation and binary search, publisher incarnations and fences.
\<close>

record AuthorityScope =
  sc_fabric :: FabricId
  sc_links :: "LinkId list"

datatype AuthorityStatus = Active | Fenced | Superseded | EpochSuperseded

primrec to_string_authority :: "AuthorityStatus \<Rightarrow> string" where
  "to_string_authority Active = ''ACTIVE''"
| "to_string_authority Fenced = ''FENCED''"
| "to_string_authority AuthorityStatus.Superseded = ''SUPERSEDED''"
| "to_string_authority EpochSuperseded = ''EPOCH_SUPERSEDED''"

record PublisherRegistration =
  rg_publisher :: PublisherId
  rg_worker_boot :: WorkerBootId
  rg_source :: SourceId
  rg_scope :: AuthorityScope
  rg_epoch :: CoordinatorEpoch

record PublisherAuthority =
  pa_publisher :: PublisherId
  pa_worker_boot :: WorkerBootId
  pa_source :: SourceId
  pa_scope :: AuthorityScope
  pa_epoch :: CoordinatorEpoch
  pa_generation :: PublisherGeneration
  pa_status :: AuthorityStatus
  pa_live_evidence :: nat
  pa_accepted_publications :: u64
  pa_rejected_publications :: u64

record PublisherFence =
  fn_publisher :: PublisherId
  fn_worker_boot :: WorkerBootId
  fn_epoch :: CoordinatorEpoch
  fn_reason :: string

definition covers :: "AuthorityScope \<Rightarrow> LinkId \<Rightarrow> bool" where
  "covers scope link =
     (let links = sc_links scope in
      if links = [] then False
      else let found = lower_bound links link 0 (length links)
           in found < length links \<and> links ! found = link)"

text \<open>\<^verbatim>\<open>normalize\<close> works in place; the pair is the normalised scope and the verdict.\<close>

definition normalize :: "AuthorityScope \<Rightarrow> AuthorityScope \<times> bool" where
  "normalize scope =
     (let links = std_unique (std_sort (<) (sc_links scope))
      in (scope\<lparr>sc_links := links\<rparr>,
          \<not> (links = [] \<or> length links > max_authority_scope_links)))"

section \<open>Scopes after normalisation\<close>

definition scope_ok :: "AuthorityScope \<Rightarrow> bool" where
  "scope_ok scope \<longleftrightarrow> sorted (sc_links scope) \<and> distinct (sc_links scope) \<and> sc_links scope \<noteq> [] \<and>
     length (sc_links scope) \<le> max_authority_scope_links"

lemma covers_sorted: "sorted (sc_links scope) \<Longrightarrow> covers scope link \<longleftrightarrow> link \<in> set (sc_links scope)"
  using lower_bound_member [of "sc_links scope" link]
  by (auto simp: covers_def Let_def)

lemma normalize_links:
  "sorted (sc_links (fst (normalize scope)))" "distinct (sc_links (fst (normalize scope)))"
  "set (sc_links (fst (normalize scope))) = set (sc_links scope)"
  by (simp_all add: normalize_def Let_def std_sort_less sorted_std_unique distinct_std_unique_sorted)

lemma normalize_scope_ok: "snd (normalize scope) \<Longrightarrow> scope_ok (fst (normalize scope))"
  using normalize_links [of scope] by (simp add: scope_ok_def normalize_def Let_def)

text \<open>
  After normalisation the binary search of \<^verbatim>\<open>covers\<close> decides membership in the requested link
  set exactly: sorting and removing duplicates neither grants nor loses a link, and a scope that is
  empty or names more than 65536 distinct links is refused.
\<close>

theorem normalize_covers:
  "(covers (fst (normalize scope)) link \<longleftrightarrow> link \<in> set (sc_links scope)) \<and>
   (snd (normalize scope) \<longleftrightarrow> sc_links scope \<noteq> [] \<and> card (set (sc_links scope)) \<le> 65536)"
proof
  show "covers (fst (normalize scope)) link \<longleftrightarrow> link \<in> set (sc_links scope)"
    by (simp add: covers_sorted normalize_links)
  have "length (sc_links (fst (normalize scope))) = card (set (sc_links scope))"
    using normalize_links [of scope] by (metis distinct_card)
  moreover have "sc_links (fst (normalize scope)) = [] \<longleftrightarrow> sc_links scope = []"
    using normalize_links(3) [of scope] by (metis set_empty)
  ultimately show "snd (normalize scope) \<longleftrightarrow>
      sc_links scope \<noteq> [] \<and> card (set (sc_links scope)) \<le> 65536"
    by (simp add: normalize_def Let_def max_authority_scope_links_def not_less)
qed

end
