(* ===== verification/Outcomes.thy ===== *)
theory Outcomes
  imports Generations
begin

text \<open>
  Structured results of mutating operations (\<^verbatim>\<open>include/linkstate/outcome.hpp\<close>,
  \<^verbatim>\<open>src/outcome.cpp\<close>).
\<close>

datatype OutcomeCode = Committed | Idempotent | NoChange | StaleGeneration | StaleEvidence
  | StaleTopology | StaleAuthority | StaleCoordinatorEpoch | UnauthorizedScope
  | UnauthorizedPublisher | UnknownLink | RetiredLink | EvidenceConflict | RevalidationRequired
  | InvalidTransition | MalformedRequest | ResourceLimit | PersistenceCorrupt
  | PersistenceIoFailure | TransportFailure | UnsupportedCapability | UnsupportedState | NotFound
  | Invalidated

primrec to_string_outcome :: "OutcomeCode \<Rightarrow> string" where
  "to_string_outcome Committed = ''COMMITTED''"
| "to_string_outcome Idempotent = ''IDEMPOTENT''"
| "to_string_outcome NoChange = ''NO_CHANGE''"
| "to_string_outcome StaleGeneration = ''STALE_GENERATION''"
| "to_string_outcome StaleEvidence = ''STALE_EVIDENCE''"
| "to_string_outcome StaleTopology = ''STALE_TOPOLOGY''"
| "to_string_outcome StaleAuthority = ''STALE_AUTHORITY''"
| "to_string_outcome StaleCoordinatorEpoch = ''STALE_COORDINATOR_EPOCH''"
| "to_string_outcome UnauthorizedScope = ''UNAUTHORIZED_SCOPE''"
| "to_string_outcome UnauthorizedPublisher = ''UNAUTHORIZED_PUBLISHER''"
| "to_string_outcome UnknownLink = ''UNKNOWN_LINK''"
| "to_string_outcome RetiredLink = ''RETIRED_LINK''"
| "to_string_outcome EvidenceConflict = ''EVIDENCE_CONFLICT''"
| "to_string_outcome RevalidationRequired = ''REVALIDATION_REQUIRED''"
| "to_string_outcome InvalidTransition = ''INVALID_TRANSITION''"
| "to_string_outcome MalformedRequest = ''MALFORMED_REQUEST''"
| "to_string_outcome ResourceLimit = ''RESOURCE_LIMIT''"
| "to_string_outcome PersistenceCorrupt = ''PERSISTENCE_CORRUPT''"
| "to_string_outcome PersistenceIoFailure = ''PERSISTENCE_IO_FAILURE''"
| "to_string_outcome TransportFailure = ''TRANSPORT_FAILURE''"
| "to_string_outcome UnsupportedCapability = ''UNSUPPORTED_CAPABILITY''"
| "to_string_outcome UnsupportedState = ''UNSUPPORTED_STATE''"
| "to_string_outcome NotFound = ''NOT_FOUND''"
| "to_string_outcome Invalidated = ''INVALIDATED''"

record Outcome =
  oc_code :: OutcomeCode
  oc_detail :: string
  oc_state_generation :: LinkStateGeneration
  oc_global_generation :: GlobalGeneration
  oc_evidence_generation :: EvidenceGeneration
  oc_state_changed :: bool

definition make_outcome :: "OutcomeCode \<Rightarrow> string \<Rightarrow> Outcome" where
  "make_outcome code detail =
     \<lparr>oc_code = code, oc_detail = detail, oc_state_generation = gen_zero,
      oc_global_generation = gen_zero, oc_evidence_generation = gen_zero, oc_state_changed = False\<rparr>"

definition code_is_error :: "OutcomeCode \<Rightarrow> bool" where
  "code_is_error code \<longleftrightarrow>
     (case code of Committed \<Rightarrow> False | Idempotent \<Rightarrow> False | NoChange \<Rightarrow> False | _ \<Rightarrow> True)"

definition is_error :: "Outcome \<Rightarrow> bool" where
  "is_error outcome \<longleftrightarrow> code_is_error (oc_code outcome)"

definition outcome_committed :: "Outcome \<Rightarrow> bool" where
  "outcome_committed outcome \<longleftrightarrow> oc_code outcome = Committed \<or> oc_code outcome = NoChange"

definition outcome_to_string :: "Outcome \<Rightarrow> string" where
  "outcome_to_string outcome =
     to_string_outcome (oc_code outcome) @
     (if oc_detail outcome \<noteq> [] then '': '' @ oc_detail outcome else []) @
     (if \<not> is_zero (oc_state_generation outcome)
      then '' [state_gen='' @ gen_to_string (oc_state_generation outcome) @ '']'' else [])"

lemma make_outcome_sel [simp]:
  "oc_code (make_outcome c d) = c" "oc_detail (make_outcome c d) = d"
  "oc_state_changed (make_outcome c d) = False"
  by (simp_all add: make_outcome_def)

lemma code_is_error_iff:
  "code_is_error c \<longleftrightarrow> c \<noteq> Committed \<and> c \<noteq> Idempotent \<and> c \<noteq> NoChange"
  by (cases c) (simp_all add: code_is_error_def)

end
