(* ===== verification/Records.thy ===== *)
theory Records
  imports Evidence Authority Outcomes
begin

text \<open>
  The authoritative record of a link (\<^verbatim>\<open>include/linkstate/record.hpp\<close>, \<^verbatim>\<open>src/record.cpp\<close>): its
  structural binding, administrative intent, bounded history, and the canonical digests of one
  record and of a record set.
\<close>

record EndpointBinding =
  eb_local :: EndpointId
  eb_local_generation :: EndpointGeneration
  eb_local_device :: DeviceId
  eb_local_port :: PortId
  eb_remote :: EndpointId
  eb_remote_generation :: EndpointGeneration
  eb_remote_device :: DeviceId
  eb_remote_port :: PortId

definition has_remote :: "EndpointBinding \<Rightarrow> bool" where
  "has_remote endpoints \<longleftrightarrow> valid (eb_remote endpoints)"

record BackingReference =
  br_link :: LinkId
  br_generation :: TopologyGeneration

record TopologyBinding =
  tb_fabric :: FabricId
  tb_site :: SiteId
  tb_link :: LinkId
  tb_topology_generation :: TopologyGeneration
  tb_endpoints :: EndpointBinding
  tb_link_class :: LinkClass
  tb_symmetry :: LinkSymmetryGuarantee
  tb_member_links :: "LinkId list"
  tb_backing_links :: "BackingReference list"

record AdministrativeIntent =
  ai_state :: LinkOperationalState
  ai_publication :: PublicationId
  ai_publisher :: PublisherId
  ai_generation :: GlobalGeneration
  ai_cause :: DegradationCause

record StateHistoryEntry =
  hy_state_generation :: LinkStateGeneration
  hy_from_state :: LinkOperationalState
  hy_to_state :: LinkOperationalState
  hy_trigger :: TransitionTrigger
  hy_result_class :: StateResultClass
  hy_cause :: DegradationCause
  hy_publication :: PublicationId
  hy_publisher :: PublisherId
  hy_evidence_generation :: EvidenceGeneration
  hy_topology_generation :: TopologyGeneration
  hy_outcome :: OutcomeCode

record LinkStateRecord =
  lr_record :: LinkStateRecordId
  lr_binding :: TopologyBinding
  lr_state :: LinkOperationalState
  lr_result_class :: StateResultClass
  lr_degradation_cause :: DegradationCause
  lr_state_generation :: LinkStateGeneration
  lr_global_generation :: GlobalGeneration
  lr_evidence_generation :: EvidenceGeneration
  lr_last_publication :: PublicationId
  lr_last_transition :: StateTransitionId
  lr_last_publisher :: PublisherId
  lr_last_outcome :: OutcomeCode
  lr_ever_established :: bool
  lr_durable :: bool
  lr_admin_intent :: "AdministrativeIntent option"
  lr_provenance_digest :: Digest
  lr_history :: "StateHistoryEntry list"

record LinkStateView =
  vw_record :: LinkStateRecord
  vw_current_evidence :: nat
  vw_retained_dispositions :: nat
  vw_conflicted :: bool
  vw_synthetic_backed :: bool

section \<open>Enumeration values that are hashed\<close>

primrec link_class_index :: "LinkClass \<Rightarrow> nat" where
  "link_class_index LinkClass.Unknown = 0"
| "link_class_index EthernetLike = 1"
| "link_class_index InfiniBandLike = 2"
| "link_class_index HostNic = 3"
| "link_class_index SwitchToSwitch = 4"
| "link_class_index Logical = 5"
| "link_class_index TunnelBacked = 6"
| "link_class_index Optical = 7"
| "link_class_index FabricInterconnect = 8"
| "link_class_index BondedAggregate = 9"

primrec symmetry_index :: "LinkSymmetryGuarantee \<Rightarrow> nat" where
  "symmetry_index Unspecified = 0"
| "symmetry_index Symmetric = 1"
| "symmetry_index Directional = 2"

primrec result_class_index :: "StateResultClass \<Rightarrow> nat" where
  "result_class_index AuthoritativeUnknown = 0"
| "result_class_index AuthoritativeUp = 1"
| "result_class_index AuthoritativeDown = 2"
| "result_class_index AuthoritativeDegraded = 3"
| "result_class_index AuthoritativeAdminDisabled = 4"
| "result_class_index AuthoritativeDraining = 5"
| "result_class_index AuthoritativeFaulted = 6"
| "result_class_index Conflicted = 7"
| "result_class_index StateResultClass.RevalidationRequired = 8"
| "result_class_index StateResultClass.Retired = 9"

section \<open>Renderings\<close>

definition render_history :: "StateHistoryEntry \<Rightarrow> string" where
  "render_history h =
     ''gen='' @ gen_to_string (hy_state_generation h) @ '' '' @ to_string_state (hy_from_state h) @
     '' -> '' @ to_string_state (hy_to_state h) @ '' trigger='' @ to_string_trigger (hy_trigger h) @
     '' class='' @ to_string_result_class (hy_result_class h) @
     (if hy_cause h \<noteq> NoCause then '' cause='' @ to_string_cause (hy_cause h) else []) @
     '' evidence_gen='' @ gen_to_string (hy_evidence_generation h) @
     '' topology_gen='' @ gen_to_string (hy_topology_generation h) @
     (if valid (hy_publisher h) then '' publisher='' @ id_value (hy_publisher h) else []) @
     (if valid (hy_publication h) then '' publication='' @ id_value (hy_publication h) else []) @
     '' outcome='' @ to_string_outcome (hy_outcome h)"

definition render_record :: "LinkStateRecord \<Rightarrow> string" where
  "render_record r =
     ''link                  '' @ id_value (tb_link (lr_binding r)) @ nl @
     ''record                '' @
       (if valid (lr_record r) then id_value (lr_record r) else ''<unassigned>'') @ nl @
     ''state                 '' @ to_string_state (lr_state r) @ nl @
     ''result_class          '' @ to_string_result_class (lr_result_class r) @ nl @
     ''degradation_cause     '' @ to_string_cause (lr_degradation_cause r) @ nl @
     ''state_generation      '' @ gen_to_string (lr_state_generation r) @ nl @
     ''global_generation     '' @ gen_to_string (lr_global_generation r) @ nl @
     ''evidence_generation   '' @ gen_to_string (lr_evidence_generation r) @ nl @
     ''topology_generation   '' @ gen_to_string (tb_topology_generation (lr_binding r)) @ nl @
     ''link_class            '' @ to_string_link_class (tb_link_class (lr_binding r)) @ nl @
     ''symmetry              '' @ to_string_symmetry (tb_symmetry (lr_binding r)) @ nl @
     ''endpoint_local        '' @
       (if valid (eb_local (tb_endpoints (lr_binding r)))
        then id_value (eb_local (tb_endpoints (lr_binding r))) else ''<none>'') @ nl @
     ''endpoint_remote       '' @
       (if valid (eb_remote (tb_endpoints (lr_binding r)))
        then id_value (eb_remote (tb_endpoints (lr_binding r))) else ''<none>'') @ nl @
     ''ever_established      '' @ (if lr_ever_established r then ''true'' else ''false'') @ nl @
     ''provenance_digest     '' @ to_hex (lr_provenance_digest r) @ nl"

section \<open>Digests\<close>

definition hash_binding :: "TopologyBinding \<Rightarrow> Hasher \<Rightarrow> Hasher" where
  "hash_binding b hs =
     fold (\<lambda>backing hs. update_u64 (gen_value (br_generation backing))
             (update_text (id_value (br_link backing)) hs)) (tb_backing_links b)
     (update_u32 (of_nat (length (tb_backing_links b)))
     (fold (\<lambda>member. update_text (id_value member)) (tb_member_links b)
     (update_u32 (of_nat (length (tb_member_links b)))
     (update_u64 (gen_value (eb_remote_generation (tb_endpoints b)))
     (update_text (id_value (eb_remote (tb_endpoints b)))
     (update_u64 (gen_value (eb_local_generation (tb_endpoints b)))
     (update_text (id_value (eb_local (tb_endpoints b)))
     (update_u8 (of_nat (symmetry_index (tb_symmetry b)))
     (update_u8 (of_nat (link_class_index (tb_link_class b)))
     (update_u64 (gen_value (tb_topology_generation b))
     (update_text (id_value (tb_site b))
     (update_text (id_value (tb_fabric b))
     (update_text (id_value (tb_link b)) hs)))))))))))))"

definition hash_intent :: "AdministrativeIntent option \<Rightarrow> Hasher \<Rightarrow> Hasher" where
  "hash_intent intent hs =
     (case intent of
        None \<Rightarrow> update_bool False hs
      | Some ai \<Rightarrow>
          update_u64 (gen_value (ai_generation ai))
          (update_text (id_value (ai_publisher ai))
          (update_text (id_value (ai_publication ai))
          (update_u8 (of_nat (cause_index (ai_cause ai)))
          (update_u8 (of_nat (state_index (ai_state ai)))
          (update_bool True hs))))))"

definition digest_record :: "LinkStateRecord \<Rightarrow> Digest" where
  "digest_record r =
     finalize
     (hasher_update (digest_bytes (lr_provenance_digest r))
     (hash_intent (lr_admin_intent r)
     (update_u64 (gen_value (lr_evidence_generation r))
     (update_u64 (gen_value (lr_state_generation r))
     (update_u8 (of_nat (cause_index (lr_degradation_cause r)))
     (update_u8 (of_nat (result_class_index (lr_result_class r)))
     (update_u8 (of_nat (state_index (lr_state r)))
     (hash_binding (lr_binding r) new_hasher))))))))"

definition digest_records :: "LinkStateRecord list \<Rightarrow> Digest" where
  "digest_records records =
     (let ordered = std_sort (\<lambda>lhs rhs. tb_link (lr_binding lhs) < tb_link (lr_binding rhs)) records
      in finalize (fold (\<lambda>record. hasher_update (digest_bytes (digest_record record))) ordered
           (update_u32 (of_nat (length ordered)) new_hasher)))"

text \<open>
  The digest of a record set does not depend on the order the records are given in, as long as
  no link has two records.
\<close>

theorem digest_records_order:
  assumes "mset xs = mset ys" and "inj_on (\<lambda>r. tb_link (lr_binding r)) (set xs)"
  shows "digest_records xs = digest_records ys"
proof -
  have "std_sort (\<lambda>lhs rhs. tb_link (lr_binding lhs) < tb_link (lr_binding rhs)) rs =
      sort_key (\<lambda>r. tb_link (lr_binding r)) rs" for rs :: "LinkStateRecord list"
    by (rule std_sort_key) simp
  then show ?thesis
    using sort_key_perm [OF assms] mset_eq_length [OF assms(1)] by (simp add: digest_records_def)
qed

definition blank_binding :: "LinkId \<Rightarrow> TopologyBinding" where
  "blank_binding link = \<lparr>tb_fabric = null_id, tb_site = null_id, tb_link = link,
     tb_topology_generation = Gen 1,
     tb_endpoints = \<lparr>eb_local = null_id, eb_local_generation = gen_zero, eb_local_device = null_id,
       eb_local_port = null_id, eb_remote = null_id, eb_remote_generation = gen_zero,
       eb_remote_device = null_id, eb_remote_port = null_id\<rparr>,
     tb_link_class = LinkClass.Unknown, tb_symmetry = Unspecified, tb_member_links = [],
     tb_backing_links = []\<rparr>"

text \<open>The default constructed record, with its binding.\<close>

definition new_record :: "TopologyBinding \<Rightarrow> LinkStateRecord" where
  "new_record binding = \<lparr>lr_record = null_id, lr_binding = binding,
     lr_state = LinkOperationalState.Unknown, lr_result_class = AuthoritativeUnknown,
     lr_degradation_cause = NoCause, lr_state_generation = gen_zero,
     lr_global_generation = gen_zero, lr_evidence_generation = gen_zero,
     lr_last_publication = null_id, lr_last_transition = null_id, lr_last_publisher = null_id,
     lr_last_outcome = NoChange, lr_ever_established = False, lr_durable = False,
     lr_admin_intent = None, lr_provenance_digest = zero_digest, lr_history = []\<rparr>"

theorem digest_records_order_witness:
  "digest_records [new_record (blank_binding (StrongId ''a'')), new_record (blank_binding (StrongId ''b''))] =
   digest_records [new_record (blank_binding (StrongId ''b'')), new_record (blank_binding (StrongId ''a''))]"
  by (rule digest_records_order) (simp_all add: new_record_def blank_binding_def)

end
