(* ===== verification/Resolution.thy ===== *)
theory Resolution
  imports Records
begin

text \<open>
  The rules based evidence resolver (\<^verbatim>\<open>src/engine_resolution.cpp\<close>): \<open>resolve_link_state\<close> with one
  definition per stage of the C++ function, every recorded rule text, conflict note and disposition
  included.  A stage that returns early yields \<open>Inl\<close> the final resolution, a stage that falls
  through yields \<open>Inr\<close> the resolution so far.
\<close>

record EvidenceDisposition =
  dp_observation :: ObservationId
  dp_source :: SourceId
  dp_publisher :: PublisherId
  dp_worker_boot :: WorkerBootId
  dp_kind :: EvidenceKind
  dp_direction :: EvidenceDirection
  dp_claim :: EvidenceClaim
  dp_class :: EvidenceClass
  dp_status :: EvidenceStatus
  dp_precedence :: nat
  dp_counted :: bool
  dp_reason :: string

record Resolution =
  rs_state :: LinkOperationalState
  rs_result_class :: StateResultClass
  rs_cause :: DegradationCause
  rs_conflicted :: bool
  rs_synthetic_backed :: bool
  rs_rules :: "string list"
  rs_conflicts :: "string list"
  rs_dispositions :: "EvidenceDisposition list"

definition new_resolution :: Resolution where
  "new_resolution = \<lparr>rs_state = LinkOperationalState.Unknown,
     rs_result_class = AuthoritativeUnknown, rs_cause = NoCause, rs_conflicted = False,
     rs_synthetic_backed = False, rs_rules = [], rs_conflicts = [], rs_dispositions = []\<rparr>"

section \<open>Helpers\<close>

definition effective_precedence :: "EvidenceRecord \<Rightarrow> nat" where
  "effective_precedence e = (if ev_class e = Synthetic then 5 else evidence_precedence (ev_kind e))"

definition claim_is_operational :: "EvidenceClaim \<Rightarrow> bool" where
  "claim_is_operational claim \<longleftrightarrow> claim = EvidenceClaim.Up \<or> claim = EvidenceClaim.Degraded"

definition claim_is_fault_or_down :: "EvidenceClaim \<Rightarrow> bool" where
  "claim_is_fault_or_down claim \<longleftrightarrow> claim = EvidenceClaim.Down \<or> claim = EvidenceClaim.Faulted"

definition describe :: "EvidenceRecord \<Rightarrow> string" where
  "describe e =
     id_value (ev_source e) @ ''/'' @ to_string_kind (ev_kind e) @ ''/'' @
     to_string_direction (ev_direction e) @ '' -> '' @ to_string_claim (ev_claim e) @
     '' (observation '' @ id_value (ev_observation e) @ '')''"

definition disposition_for :: "EvidenceRecord \<Rightarrow> EvidenceDisposition" where
  "disposition_for e = \<lparr>dp_observation = ev_observation e, dp_source = ev_source e,
     dp_publisher = ev_publisher e, dp_worker_boot = ev_worker_boot e, dp_kind = ev_kind e,
     dp_direction = ev_direction e, dp_claim = ev_claim e, dp_class = ev_class e,
     dp_status = ev_status e, dp_precedence = effective_precedence e, dp_counted = False,
     dp_reason = []\<rparr>"

primrec class_for :: "EvidenceClaim \<Rightarrow> StateResultClass" where
  "class_for EvidenceClaim.Up = AuthoritativeUp"
| "class_for EvidenceClaim.Down = AuthoritativeDown"
| "class_for EvidenceClaim.Degraded = AuthoritativeDegraded"
| "class_for EvidenceClaim.AdminDisabled = AuthoritativeAdminDisabled"
| "class_for EvidenceClaim.Draining = AuthoritativeDraining"
| "class_for EvidenceClaim.Faulted = AuthoritativeFaulted"
| "class_for EvidenceClaim.Unknown = AuthoritativeUnknown"

definition set_state ::
    "LinkOperationalState \<Rightarrow> StateResultClass \<Rightarrow> DegradationCause \<Rightarrow> Resolution \<Rightarrow> Resolution" where
  "set_state state result_class cause r =
     r\<lparr>rs_state := state, rs_result_class := result_class, rs_cause := cause\<rparr>"

definition push_rule :: "string \<Rightarrow> Resolution \<Rightarrow> Resolution" where
  "push_rule rule r = r\<lparr>rs_rules := rs_rules r @ [rule]\<rparr>"

definition note_conflict :: "string \<Rightarrow> Resolution \<Rightarrow> Resolution" where
  "note_conflict text r = r\<lparr>rs_conflicts := rs_conflicts r @ [text]\<rparr>"

definition strongest_cause :: "EvidenceRecord list \<Rightarrow> DegradationCause" where
  "strongest_cause records =
     fold (\<lambda>record cause.
        if ev_claim record \<noteq> EvidenceClaim.Degraded then cause
        else if cause = NoCause \<or> cause_index (ev_degradation_cause record) < cause_index cause
        then ev_degradation_cause record
        else cause) records NoCause"

definition evidence_less :: "EvidenceRecord \<Rightarrow> EvidenceRecord \<Rightarrow> bool" where
  "evidence_less lhs rhs \<longleftrightarrow>
     (if ev_key lhs \<noteq> ev_key rhs then ev_key lhs < ev_key rhs
      else if ev_observation lhs \<noteq> ev_observation rhs then ev_observation lhs < ev_observation rhs
      else if ev_publisher lhs \<noteq> ev_publisher rhs then ev_publisher lhs < ev_publisher rhs
      else ev_sequence lhs < ev_sequence rhs)"

section \<open>Counting\<close>

definition counts :: "EvidenceRecord \<Rightarrow> bool" where
  "counts e \<longleftrightarrow> ev_status e = Current \<and> ev_class e \<noteq> Unsupported \<and> ev_claim e \<noteq> EvidenceClaim.Unknown"

definition classify_candidate :: "EvidenceRecord \<Rightarrow> EvidenceDisposition" where
  "classify_candidate e =
     (let d = disposition_for e in
      if ev_status e \<noteq> Current
      then d\<lparr>dp_reason := ''evidence status is '' @ to_string_status (ev_status e) @ '', not current''\<rparr>
      else if ev_class e = Unsupported
      then d\<lparr>dp_reason := ''unsupported capability evidence is never decisive''\<rparr>
      else if ev_claim e = EvidenceClaim.Unknown
      then d\<lparr>dp_reason := ''source reports no decisive claim''\<rparr>
      else d\<lparr>dp_counted := True,
             dp_reason := ''counted at precedence tier '' @ format_nat (dp_precedence d)\<rparr>)"

definition amend_dispositions ::
    "(EvidenceDisposition \<Rightarrow> bool) \<Rightarrow> (EvidenceDisposition \<Rightarrow> EvidenceDisposition) \<Rightarrow>
     Resolution \<Rightarrow> Resolution" where
  "amend_dispositions p f r =
     r\<lparr>rs_dispositions := map (\<lambda>d. if p d then f d else d) (rs_dispositions r)\<rparr>"

section \<open>The stages\<close>

definition apply_admin_intent :: "AdministrativeIntent \<Rightarrow> Resolution \<Rightarrow> Resolution" where
  "apply_admin_intent intent r =
     (let effective_claim =
            (case claim_from_state (ai_state intent) of
               Some claim \<Rightarrow> claim | None \<Rightarrow> EvidenceClaim.AdminDisabled)
      in amend_dispositions dp_counted
           (\<lambda>d. d\<lparr>dp_reason := dp_reason d @ ''; overridden by durable administrative intent''\<rparr>)
         (set_state (state_of (class_for effective_claim)) (class_for effective_claim)
           (ai_cause intent)
         (push_rule (''RULE_ADMIN_INTENT: durable administrative intent ('' @
            to_string_state (ai_state intent) @ '', publication '' @
            id_value (ai_publication intent) @ '', publisher '' @ id_value (ai_publisher intent) @
            '', global generation '' @ gen_to_string (ai_generation intent) @
            '') is in force; operational claims are recorded but do not override it'') r)))"

definition administrative_gate ::
    "EvidenceRecord list \<Rightarrow> Resolution \<Rightarrow> Resolution + Resolution" where
  "administrative_gate administrative r =
     (if administrative = [] then Inr r
      else
        let disabled = list_ex (\<lambda>e. ev_claim e = EvidenceClaim.AdminDisabled) administrative;
            draining = list_ex (\<lambda>e. ev_claim e = EvidenceClaim.Draining) administrative;
            winner = (if disabled then EvidenceClaim.AdminDisabled else EvidenceClaim.Draining);
            r' = (if disabled \<and> draining
                  then note_conflict (''RULE_ADMIN_RESTRICTIVENESS: administrative sources disagree '' @
                    ''(ADMIN_DISABLED and DRAINING); the more restrictive intent wins'') r
                  else r)
        in if disabled \<or> draining then
             Inl (amend_dispositions (\<lambda>d. dp_counted d \<and> dp_kind d \<noteq> AdministrativeState)
                (\<lambda>d. d\<lparr>dp_reason := dp_reason d @ ''; overridden by administrative intent''\<rparr>)
              (set_state (state_of (class_for winner)) (class_for winner) NoCause
              (push_rule (if disabled
                then ''RULE_ADMIN_DISABLE_GATE: current administrative evidence disables the link; '' @
                     ''operational claims are recorded but do not override administrative intent''
                else ''RULE_ADMIN_DRAIN_GATE: current administrative evidence drains the link; '' @
                     ''operational claims are recorded but do not override administrative intent'')
               r')))
           else
             Inr (amend_dispositions (\<lambda>d. dp_counted d \<and> dp_kind d = AdministrativeState)
                (\<lambda>d. d\<lparr>dp_counted := False, dp_reason := dp_reason d @
                   ''; administrative enablement is a constraint, not a state claim''\<rparr>)
              (push_rule (''RULE_ADMIN_ENABLED: administrative evidence reports the link as '' @
                 ''administratively enabled; enablement is not an operational assertion and does '' @
                 ''not establish UP'') r')))"

definition no_decisive_evidence :: "LinkStateRecord \<Rightarrow> Resolution \<Rightarrow> Resolution" where
  "no_decisive_evidence record r =
     (if lr_ever_established record then
        set_state LinkOperationalState.RevalidationRequired StateResultClass.RevalidationRequired
          NoCause
        (push_rule (''RULE_NO_DECISIVE_EVIDENCE_PRIOR_DURABLE: the link carries a durable prior '' @
           ''conclusion but no current decisive evidence; the stale conclusion is not presented '' @
           ''as current'') r)
      else
        set_state LinkOperationalState.Unknown AuthoritativeUnknown NoCause
        (push_rule (''RULE_NO_DECISIVE_EVIDENCE: no current decisive evidence and no durable '' @
           ''prior conclusion'') r))"

definition winning_tier :: "EvidenceRecord list \<Rightarrow> nat" where
  "winning_tier decisive = fold (\<lambda>e m. min m (effective_precedence e)) decisive 6"

definition tier_records :: "EvidenceRecord list \<Rightarrow> EvidenceRecord list" where
  "tier_records decisive =
     filter (\<lambda>e. effective_precedence e = winning_tier decisive) decisive"

definition mark_outranked :: "EvidenceRecord list \<Rightarrow> Resolution \<Rightarrow> Resolution" where
  "mark_outranked decisive r =
     fold (\<lambda>e. if effective_precedence e > winning_tier decisive
               then amend_dispositions (\<lambda>d. dp_observation d = ev_observation e)
                 (\<lambda>d. d\<lparr>dp_counted := False, dp_reason := dp_reason d @
                    ''; outranked by precedence tier '' @ format_nat (winning_tier decisive)\<rparr>)
               else id) decisive r"

definition mark_synthetic ::
    "EvidenceRecord list \<Rightarrow> EvidenceRecord list \<Rightarrow> Resolution \<Rightarrow> Resolution" where
  "mark_synthetic tier administrative r =
     (if list_ex (\<lambda>e. ev_class e = Synthetic) tier \<or>
         list_ex (\<lambda>e. ev_class e = Synthetic) administrative
      then r\<lparr>rs_synthetic_backed := True\<rparr> else r)"

definition asymmetric_records :: "EvidenceRecord list \<Rightarrow> EvidenceRecord list" where
  "asymmetric_records tier =
     filter (\<lambda>candidate. ev_direction candidate \<noteq> Bidirectional \<and>
       list_ex (\<lambda>peer. ev_source peer = ev_source candidate \<and>
         ev_endpoint peer = ev_endpoint candidate \<and>
         ev_direction peer \<noteq> ev_direction candidate \<and>
         claim_is_operational (ev_claim candidate) \<noteq> claim_is_operational (ev_claim peer)) tier) tier"

definition resolve_asymmetry ::
    "LinkStateRecord \<Rightarrow> EvidenceRecord \<Rightarrow> Resolution \<Rightarrow> Resolution" where
  "resolve_asymmetry record front r =
     (let note = ''RULE_DIRECTIONAL_ASYMMETRY: '' @ describe front @
            '' disagrees with its peer direction'';
          symmetry = tb_symmetry (lr_binding record)
      in if symmetry = Directional then
           set_state LinkOperationalState.Degraded AuthoritativeDegraded Asymmetry
           (push_rule (note @ ''; the link class supports asymmetric evidence, so the link is '' @
              ''DEGRADED with cause ASYMMETRY'') r)
         else
           (set_state LinkOperationalState.RevalidationRequired Conflicted NoCause
           (push_rule ''RULE_DIRECTIONAL_CONFLICT: directional evidence contradicts itself''
           (note_conflict (note @
              (if symmetry = Symmetric
               then ''; the link class guarantees symmetric behaviour, so the contradiction '' @
                    ''cannot be resolved''
               else ''; the link class does not declare a symmetry guarantee, so the '' @
                    ''contradiction cannot be resolved'')) r)))\<lparr>rs_conflicted := True\<rparr>)"

definition resolve_claims :: "EvidenceRecord list \<Rightarrow> Resolution \<Rightarrow> Resolution + Resolution" where
  "resolve_claims tier r =
     (let claims = remdups (map ev_claim tier) in
      if length claims = 1 then
        let claim = hd claims
        in Inr (set_state (state_of (class_for claim)) (class_for claim)
             (if claim = EvidenceClaim.Degraded then strongest_cause tier else NoCause)
           (push_rule (''RULE_UNANIMOUS_TIER: every current evidence record at the winning '' @
              ''precedence tier agrees'') r))
      else if list_all claim_is_operational claims then
        Inr (set_state LinkOperationalState.Degraded AuthoritativeDegraded (strongest_cause tier)
          (push_rule (''RULE_IMPAIRMENT_WINS: current evidence agrees the link is operational and '' @
             ''disagrees only about impairment; impairment evidence is stronger than an '' @
             ''unimpaired claim'') r))
      else if list_all claim_is_fault_or_down claims then
        Inr (set_state LinkOperationalState.Faulted AuthoritativeFaulted (strongest_cause tier)
          (push_rule (''RULE_FAULT_SPECIFICITY: current evidence agrees the link is not '' @
             ''operational and names a specific fault; the specific fault is reported'') r))
      else
        Inl ((set_state LinkOperationalState.RevalidationRequired Conflicted NoCause
          (push_rule (''RULE_OPERATIONALITY_CONFLICT: current evidence at the winning precedence '' @
             ''tier disagrees about whether the link is operational; the runtime refuses to '' @
             ''force a binary answer'')
          (fold (\<lambda>e. note_conflict (''RULE_OPERATIONALITY_CONFLICT: '' @ describe e)) tier r)))
          \<lparr>rs_conflicted := True\<rparr>))"

definition remote_cross_check ::
    "LinkStateRecord \<Rightarrow> EvidenceRecord list \<Rightarrow> Resolution \<Rightarrow> Resolution" where
  "remote_cross_check record decisive r =
     (let remote = filter (\<lambda>e. effective_precedence e = 4) decisive in
      if winning_tier decisive < 4 \<and> remote \<noteq> [] then
        let resolved_operational = is_operational_state (rs_state r);
            contradiction = list_ex (\<lambda>e. claim_is_operational (ev_claim e) \<noteq> resolved_operational) remote
        in if \<not> contradiction then
             push_rule (''RULE_REMOTE_CORROBORATION: remote endpoint evidence agrees with the '' @
               ''local resolution'') r
           else if tb_symmetry (lr_binding record) = Directional then
             set_state LinkOperationalState.Degraded AuthoritativeDegraded Asymmetry
             (fold (\<lambda>e. note_conflict (''RULE_REMOTE_ASYMMETRY: '' @ describe e)) remote
             (push_rule (''RULE_REMOTE_ASYMMETRY: the remote endpoint disagrees with the local '' @
                ''observation and the link class supports asymmetry; the link is DEGRADED with '' @
                ''cause ASYMMETRY'') r))
           else
             (set_state LinkOperationalState.RevalidationRequired Conflicted NoCause
             (push_rule (''RULE_REMOTE_CONFLICT: the remote endpoint contradicts the local '' @
                ''observation on a link class that does not support asymmetry; neither side is '' @
                ''authoritative'')
             (fold (\<lambda>e. note_conflict (''RULE_REMOTE_CONFLICT: '' @ describe e)) remote r)))
             \<lparr>rs_conflicted := True\<rparr>
      else r)"

definition resolve_decisive ::
    "LinkStateRecord \<Rightarrow> EvidenceRecord list \<Rightarrow> EvidenceRecord list \<Rightarrow> Resolution \<Rightarrow> Resolution" where
  "resolve_decisive record administrative decisive r =
     (let tier = tier_records decisive;
          asymmetry = asymmetric_records tier;
          r' = push_rule (''RULE_PRECEDENCE_TIER: resolution used precedence tier '' @
                 format_nat (winning_tier decisive) @ '' with '' @ format_nat (length tier) @
                 '' current evidence records'')
               (mark_synthetic tier administrative (mark_outranked decisive r))
      in if asymmetry \<noteq> [] then resolve_asymmetry record (hd asymmetry) r'
         else (case resolve_claims tier r' of
                 Inl final \<Rightarrow> final
               | Inr resolved \<Rightarrow> remote_cross_check record decisive resolved))"

definition resolve_link_state :: "EvidenceRecord list \<Rightarrow> LinkStateRecord \<Rightarrow> Resolution" where
  "resolve_link_state records record =
     (let ordered = std_sort evidence_less records;
          counted = filter counts ordered;
          r = new_resolution\<lparr>rs_dispositions := map classify_candidate ordered\<rparr>
      in case lr_admin_intent record of
           Some intent \<Rightarrow> apply_admin_intent intent r
         | None \<Rightarrow>
             let administrative = filter (\<lambda>e. ev_kind e = AdministrativeState) counted;
                 decisive = filter (\<lambda>e. ev_kind e \<noteq> AdministrativeState) counted
             in case administrative_gate administrative r of
                  Inl final \<Rightarrow> final
                | Inr r' \<Rightarrow>
                    if decisive = [] then no_decisive_evidence record r'
                    else resolve_decisive record administrative decisive r')"

section \<open>The resolution policy\<close>

text \<open>
  The documented policy, stated on the set of records: no order, no loops, no bookkeeping.  It
  yields the result class; \<open>state_of\<close> gives the state.
\<close>

definition decisive_set :: "EvidenceRecord set \<Rightarrow> EvidenceRecord set" where
  "decisive_set E = {e \<in> E. counts e \<and> ev_kind e \<noteq> AdministrativeState}"

definition admin_claimed :: "EvidenceRecord set \<Rightarrow> EvidenceClaim \<Rightarrow> bool" where
  "admin_claimed E claim \<longleftrightarrow>
     (\<exists>e\<in>E. counts e \<and> ev_kind e = AdministrativeState \<and> ev_claim e = claim)"

definition strongest_set :: "EvidenceRecord set \<Rightarrow> EvidenceRecord set" where
  "strongest_set D = {e \<in> D. \<forall>e'\<in>D. effective_precedence e \<le> effective_precedence e'}"

definition contradicts :: "EvidenceRecord \<Rightarrow> EvidenceRecord \<Rightarrow> bool" where
  "contradicts candidate peer \<longleftrightarrow>
     ev_direction candidate \<noteq> Bidirectional \<and> ev_source peer = ev_source candidate \<and>
     ev_endpoint peer = ev_endpoint candidate \<and> ev_direction peer \<noteq> ev_direction candidate \<and>
     claim_is_operational (ev_claim candidate) \<noteq> claim_is_operational (ev_claim peer)"

definition tier_class :: "EvidenceRecord set \<Rightarrow> StateResultClass" where
  "tier_class T =
     (if is_singleton (ev_claim ` T) then class_for (the_elem (ev_claim ` T))
      else if \<forall>c\<in>ev_claim ` T. claim_is_operational c then AuthoritativeDegraded
      else if \<forall>c\<in>ev_claim ` T. claim_is_fault_or_down c then AuthoritativeFaulted
      else Conflicted)"

definition remote_disagrees :: "EvidenceRecord set \<Rightarrow> StateResultClass \<Rightarrow> bool" where
  "remote_disagrees D local_class \<longleftrightarrow>
     local_class \<noteq> Conflicted \<and> (\<exists>e\<in>D. effective_precedence e < 4) \<and>
     (\<exists>e\<in>D. effective_precedence e = 4 \<and>
        claim_is_operational (ev_claim e) \<noteq> is_operational_state (state_of local_class))"

definition policy_class :: "LinkStateRecord \<Rightarrow> EvidenceRecord set \<Rightarrow> StateResultClass" where
  "policy_class record E =
     (case lr_admin_intent record of
        Some intent \<Rightarrow>
          (case claim_from_state (ai_state intent) of
             Some claim \<Rightarrow> class_for claim | None \<Rightarrow> AuthoritativeAdminDisabled)
      | None \<Rightarrow>
          let D = decisive_set E; T = strongest_set D;
              disagreement =
                (if tb_symmetry (lr_binding record) = Directional then AuthoritativeDegraded
                 else Conflicted)
          in if admin_claimed E EvidenceClaim.AdminDisabled then AuthoritativeAdminDisabled
             else if admin_claimed E EvidenceClaim.Draining then AuthoritativeDraining
             else if D = {} then
               (if lr_ever_established record then StateResultClass.RevalidationRequired
                else AuthoritativeUnknown)
             else if \<exists>e\<in>T. \<exists>e'\<in>T. contradicts e e' then disagreement
             else if remote_disagrees D (tier_class T) then disagreement
             else tier_class T)"

section \<open>The resolver implements the policy\<close>

text \<open>The part of a resolution that decides a commit; the bookkeeping stages leave it alone.\<close>

definition verdict :: "Resolution \<Rightarrow> StateResultClass \<times> LinkOperationalState \<times> bool" where
  "verdict r = (rs_result_class r, rs_state r, rs_conflicted r)"

definition verdict_of :: "StateResultClass \<Rightarrow> StateResultClass \<times> LinkOperationalState \<times> bool" where
  "verdict_of c = (c, state_of c, c = Conflicted)"

lemma verdict_bookkeeping [simp]:
  "verdict (amend_dispositions p f r) = verdict r"
  "verdict (push_rule t r) = verdict r"
  "verdict (note_conflict t r) = verdict r"
  "verdict (mark_synthetic ts as r) = verdict r"
  by (simp_all add: verdict_def amend_dispositions_def push_rule_def note_conflict_def
      mark_synthetic_def)

lemma conflicted_bookkeeping [simp]:
  "rs_conflicted (amend_dispositions p f r) = rs_conflicted r"
  "rs_conflicted (push_rule t r) = rs_conflicted r"
  "rs_conflicted (note_conflict t r) = rs_conflicted r"
  "rs_conflicted (mark_synthetic ts as r) = rs_conflicted r"
  "rs_conflicted (set_state s c k r) = rs_conflicted r"
  by (simp_all add: amend_dispositions_def push_rule_def note_conflict_def mark_synthetic_def
      set_state_def)

lemma verdict_fold_notes [simp]: "verdict (fold (\<lambda>e. note_conflict (f e)) es r) = verdict r"
  by (induction es arbitrary: r) simp_all

lemma conflicted_fold_notes [simp]:
  "rs_conflicted (fold (\<lambda>e. note_conflict (f e)) es r) = rs_conflicted r"
  by (induction es arbitrary: r) simp_all

lemma outranked_fold:
  "verdict (fold (\<lambda>e. if p e then amend_dispositions (q e) (f e) else id) es r) = verdict r"
  "rs_conflicted (fold (\<lambda>e. if p e then amend_dispositions (q e) (f e) else id) es r) =
     rs_conflicted r"
  by (induction es arbitrary: r) auto

lemma verdict_mark_outranked [simp]:
  "verdict (mark_outranked decisive r) = verdict r"
  "rs_conflicted (mark_outranked decisive r) = rs_conflicted r"
  unfolding mark_outranked_def by (rule outranked_fold)+

lemma verdict_set_state [simp]: "verdict (set_state s c k r) = (c, s, rs_conflicted r)"
  by (simp add: verdict_def set_state_def)

lemma verdict_conflicted [simp]:
  "verdict (r\<lparr>rs_conflicted := b\<rparr>) = (fst (verdict r), fst (snd (verdict r)), b)"
  by (simp add: verdict_def)

lemma effective_precedence_bound: "effective_precedence e \<le> 5"
  unfolding effective_precedence_def by (cases "ev_kind e") auto

lemma class_for_not [simp]:
  "class_for c \<noteq> Conflicted" "class_for c \<noteq> StateResultClass.Retired"
  "class_for c \<noteq> StateResultClass.RevalidationRequired"
  by (cases c; simp)+

lemma winning_tier_fold:
  "fold (\<lambda>e m. min m (f e)) es (k :: nat) = Min (insert k (f ` set es))"
proof (induction es arbitrary: k)
  case (Cons e es)
  then show ?case
    by (cases "es = []") (auto simp: min.assoc)
qed simp

lemma winning_tier_Min:
  "decisive \<noteq> [] \<Longrightarrow> winning_tier decisive = Min (effective_precedence ` set decisive)"
proof -
  assume "decisive \<noteq> []"
  then have "Min (effective_precedence ` set decisive) \<in> effective_precedence ` set decisive"
    by (intro Min_in) auto
  then have "Min (effective_precedence ` set decisive) \<le> 5"
    using effective_precedence_bound by force
  with \<open>decisive \<noteq> []\<close> show ?thesis
    by (simp add: winning_tier_def winning_tier_fold)
qed

lemma set_tier_records: "set (tier_records decisive) = strongest_set (set decisive)"
proof (cases "decisive = []")
  case False
  then have "effective_precedence e = winning_tier decisive \<longleftrightarrow>
      (\<forall>e'\<in>set decisive. effective_precedence e \<le> effective_precedence e')" if "e \<in> set decisive" for e
    using that by (subst winning_tier_Min) (auto simp: Min_eq_iff eq_commute [of _ "Min _"] Min_le_iff)
  then show ?thesis
    by (auto simp: tier_records_def strongest_set_def)
qed (simp add: tier_records_def strongest_set_def)

lemma strongest_nonempty: "decisive \<noteq> [] \<Longrightarrow> tier_records decisive \<noteq> []"
proof -
  assume "decisive \<noteq> []"
  then have "Min (effective_precedence ` set decisive) \<in> effective_precedence ` set decisive"
    by (intro Min_in) auto
  then obtain e where "e \<in> set decisive" "effective_precedence e = winning_tier decisive"
    using winning_tier_Min [OF \<open>decisive \<noteq> []\<close>] by (metis imageE)
  then show ?thesis
    by (auto simp: tier_records_def filter_empty_conv)
qed

lemma asymmetric_iff:
  "asymmetric_records tier = [] \<longleftrightarrow> \<not> (\<exists>e\<in>set tier. \<exists>e'\<in>set tier. contradicts e e')"
  by (auto simp: asymmetric_records_def contradicts_def filter_empty_conv list_ex_iff)

lemma remdups_single:
  assumes "xs \<noteq> []"
  shows "length (remdups xs) = 1 \<longleftrightarrow> is_singleton (set xs)"
    and "length (remdups xs) = 1 \<Longrightarrow> hd (remdups xs) = the_elem (set xs)"
proof -
  show "length (remdups xs) = 1 \<longleftrightarrow> is_singleton (set xs)"
    by (simp add: length_remdups_card_conv is_singleton_altdef)
  assume "length (remdups xs) = 1"
  then obtain a where "remdups xs = [a]"
    by (auto simp: length_Suc_conv)
  then show "hd (remdups xs) = the_elem (set xs)"
    by (metis list.sel(1) list.set(1) list.set(2) set_remdups the_elem_eq)
qed

lemma resolve_claims_verdict:
  assumes "tier \<noteq> []" and "\<not> rs_conflicted r"
  shows "(case resolve_claims tier r of
            Inl final \<Rightarrow> tier_class (set tier) = Conflicted \<and> verdict final = verdict_of Conflicted
          | Inr r' \<Rightarrow> tier_class (set tier) \<noteq> Conflicted \<and>
              verdict r' = verdict_of (tier_class (set tier)) \<and> \<not> rs_conflicted r')"
  using remdups_single [of "map ev_claim tier"] assms
  by (auto simp: resolve_claims_def tier_class_def Let_def verdict_of_def list_all_iff)

lemma winning_tier_less:
  "decisive \<noteq> [] \<Longrightarrow> winning_tier decisive < 4 \<longleftrightarrow> (\<exists>e\<in>set decisive. effective_precedence e < 4)"
  by (simp add: winning_tier_Min Min_less_iff)

lemma remote_cross_check_verdict:
  assumes "decisive \<noteq> []" and "verdict r = verdict_of c" and "c \<noteq> Conflicted"
  shows "verdict (remote_cross_check record decisive r) =
     verdict_of (if remote_disagrees (set decisive) c
       then if tb_symmetry (lr_binding record) = Directional then AuthoritativeDegraded else Conflicted
       else c)"
proof -
  have state: "rs_state r = state_of c" and conflicted: "\<not> rs_conflicted r"
    using assms by (auto simp: verdict_def verdict_of_def)
  have "remote_disagrees (set decisive) c \<longleftrightarrow>
      winning_tier decisive < 4 \<and>
      list_ex (\<lambda>e. claim_is_operational (ev_claim e) \<noteq> is_operational_state (rs_state r))
        (filter (\<lambda>e. effective_precedence e = 4) decisive)"
    using assms by (auto simp: remote_disagrees_def winning_tier_less list_ex_iff state)
  then show ?thesis
    using assms(2) conflicted
    by (auto simp: remote_cross_check_def Let_def verdict_of_def)
qed

lemma resolve_decisive_verdict:
  assumes "decisive \<noteq> []" and "\<not> rs_conflicted r"
  defines "D \<equiv> set decisive"
  shows "verdict (resolve_decisive record administrative decisive r) =
     verdict_of (let T = strongest_set D;
          disagreement = (if tb_symmetry (lr_binding record) = Directional
                          then AuthoritativeDegraded else Conflicted)
       in if \<exists>e\<in>T. \<exists>e'\<in>T. contradicts e e' then disagreement
          else if remote_disagrees D (tier_class T) then disagreement
          else tier_class T)"
proof -
  let ?tier = "tier_records decisive"
  define r' where "r' = push_rule (''RULE_PRECEDENCE_TIER: resolution used precedence tier '' @
     format_nat (winning_tier decisive) @ '' with '' @ format_nat (length ?tier) @
     '' current evidence records'') (mark_synthetic ?tier administrative (mark_outranked decisive r))"
  have r': "\<not> rs_conflicted r'" using assms(2) by (simp add: r'_def)
  have T: "set ?tier = strongest_set D" by (simp add: set_tier_records D_def)
  show ?thesis
  proof (cases "asymmetric_records ?tier = []")
    case False
    then have "verdict (resolve_decisive record administrative decisive r) =
        verdict_of (if tb_symmetry (lr_binding record) = Directional
                    then AuthoritativeDegraded else Conflicted)"
      using r' unfolding resolve_decisive_def Let_def r'_def [symmetric]
      by (simp add: resolve_asymmetry_def Let_def verdict_of_def)
    with False show ?thesis by (simp add: asymmetric_iff T Let_def)
  next
    case True
    have step: "resolve_decisive record administrative decisive r =
        (case resolve_claims ?tier r' of
           Inl final \<Rightarrow> final | Inr resolved \<Rightarrow> remote_cross_check record decisive resolved)"
      using True unfolding resolve_decisive_def Let_def r'_def [symmetric] by simp
    have no_pair: "\<not> (\<exists>e\<in>strongest_set D. \<exists>e'\<in>strongest_set D. contradicts e e')"
      using True by (simp add: asymmetric_iff T)
    have claims: "case resolve_claims ?tier r' of
            Inl final \<Rightarrow> tier_class (set ?tier) = Conflicted \<and> verdict final = verdict_of Conflicted
          | Inr r' \<Rightarrow> tier_class (set ?tier) \<noteq> Conflicted \<and>
              verdict r' = verdict_of (tier_class (set ?tier)) \<and> \<not> rs_conflicted r'"
      by (rule resolve_claims_verdict) (simp_all add: strongest_nonempty assms(1) r')
    show ?thesis
    proof (cases "resolve_claims ?tier r'")
      case (Inl final)
      with claims T no_pair show ?thesis
        by (simp add: step remote_disagrees_def Let_def)
    next
      case (Inr resolved)
      with claims T no_pair remote_cross_check_verdict [OF assms(1), of resolved "tier_class (strongest_set D)" "record"]
      show ?thesis
        by (simp add: step Let_def D_def)
    qed
  qed
qed

lemma set_counted:
  "set (filter (\<lambda>e. ev_kind e \<noteq> AdministrativeState) (filter counts (std_sort lt records))) =
     decisive_set (set records)"
  by (auto simp: decisive_set_def)

lemma administrative_gate_verdict:
  assumes "\<not> rs_conflicted r"
    and "set administrative = {e \<in> E. counts e \<and> ev_kind e = AdministrativeState}"
  shows "case administrative_gate administrative r of
       Inl final \<Rightarrow>
         (admin_claimed E EvidenceClaim.AdminDisabled \<or> admin_claimed E EvidenceClaim.Draining) \<and>
         verdict final = verdict_of (if admin_claimed E EvidenceClaim.AdminDisabled
           then AuthoritativeAdminDisabled else AuthoritativeDraining)
     | Inr r' \<Rightarrow> \<not> admin_claimed E EvidenceClaim.AdminDisabled \<and>
         \<not> admin_claimed E EvidenceClaim.Draining \<and> \<not> rs_conflicted r'"
proof -
  have claimed: "list_ex (\<lambda>e. ev_claim e = c) administrative \<longleftrightarrow> admin_claimed E c" for c
    using assms(2) by (auto simp: list_ex_iff admin_claimed_def)
  then have "administrative = [] \<Longrightarrow> \<not> admin_claimed E c" for c
    by (auto simp: list_ex_iff)
  then show ?thesis
    using assms(1)
    by (auto simp: administrative_gate_def Let_def claimed verdict_of_def)
qed

lemma resolve_verdict:
  "verdict (resolve_link_state records record) = verdict_of (policy_class record (set records))"
proof (cases "lr_admin_intent record")
  case (Some intent)
  then show ?thesis
    by (simp add: resolve_link_state_def apply_admin_intent_def Let_def policy_class_def
        new_resolution_def verdict_of_def split: option.splits)
next
  case None
  let ?E = "set records"
  define counted where "counted = filter counts (std_sort evidence_less records)"
  define administrative where "administrative = filter (\<lambda>e. ev_kind e = AdministrativeState) counted"
  define decisive where "decisive = filter (\<lambda>e. ev_kind e \<noteq> AdministrativeState) counted"
  define r where "r = new_resolution\<lparr>rs_dispositions :=
      map classify_candidate (std_sort evidence_less records)\<rparr>"
  have D: "set decisive = decisive_set ?E"
    unfolding decisive_def counted_def by (rule set_counted)
  have A: "set administrative = {e \<in> ?E. counts e \<and> ev_kind e = AdministrativeState}"
    by (auto simp: administrative_def counted_def)
  have r: "\<not> rs_conflicted r" by (simp add: r_def new_resolution_def)
  have step: "resolve_link_state records record =
      (case administrative_gate administrative r of
         Inl final \<Rightarrow> final
       | Inr r' \<Rightarrow> if decisive = [] then no_decisive_evidence record r'
                  else resolve_decisive record administrative decisive r')"
    using None unfolding resolve_link_state_def Let_def counted_def [symmetric]
      administrative_def [symmetric] decisive_def [symmetric] r_def [symmetric] by simp
  note gate = administrative_gate_verdict [OF r A]
  show ?thesis
  proof (cases "administrative_gate administrative r")
    case (Inl final)
    with gate None show ?thesis by (auto simp: step policy_class_def Let_def)
  next
    case (Inr r')
    show ?thesis
    proof (cases "decisive = []")
      case True
      then have "decisive_set ?E = {}" using D by simp
      with True Inr gate None show ?thesis
        by (simp add: step no_decisive_evidence_def policy_class_def Let_def verdict_of_def)
    next
      case False
      then have "decisive_set ?E \<noteq> {}" using D by auto
      with False Inr gate None resolve_decisive_verdict [OF False, of r' "record" administrative]
      show ?thesis by (simp add: step policy_class_def Let_def D)
    qed
  qed
qed

text \<open>
  C4: the resolver implements the documented policy.  For every list of evidence records and every
  durable record, the class it computes by sorting, looping and early returns is the class the
  order free policy assigns to the set of the records; the state it reports is the state of that
  class, and the conflict flag is raised exactly for CONFLICTED.
\<close>

theorem resolve_link_state_policy:
  "rs_result_class (resolve_link_state records record) = policy_class record (set records) \<and>
   rs_state (resolve_link_state records record) = state_of (policy_class record (set records)) \<and>
   (rs_conflicted (resolve_link_state records record) \<longleftrightarrow>
      policy_class record (set records) = Conflicted)"
  using resolve_verdict [of records "record"] by (simp add: verdict_def verdict_of_def)

lemma resolve_state [simp]:
  "rs_state (resolve_link_state records record) =
     state_of (rs_result_class (resolve_link_state records record))"
  using resolve_verdict [of records "record"] by (simp add: verdict_def verdict_of_def)

lemma resolve_class:
  "rs_result_class (resolve_link_state records record) = policy_class record (set records)"
  using resolve_verdict [of records "record"] by (simp add: verdict_def verdict_of_def)

section \<open>Consequences of the policy\<close>

lemma tier_class_cases:
  "tier_class T \<in> insert Conflicted (range class_for)"
  unfolding tier_class_def by (auto intro: rev_image_eqI [of EvidenceClaim.Degraded] rev_image_eqI [of EvidenceClaim.Faulted])

lemma policy_not_retired: "policy_class record E \<noteq> StateResultClass.Retired"
  using tier_class_cases [of "strongest_set (decisive_set E)"]
  by (auto simp: policy_class_def Let_def split: option.splits)

lemma state_of_Retired: "state_of c = LinkOperationalState.Retired \<longleftrightarrow> c = StateResultClass.Retired"
  by (cases c) simp_all

lemma resolve_not_retired [simp]:
  "rs_state (resolve_link_state records record) \<noteq> LinkOperationalState.Retired"
  by (simp add: state_of_Retired resolve_class policy_not_retired)

lemma decisive_claims: "e \<in> strongest_set (decisive_set E) \<Longrightarrow> ev_claim e \<noteq> EvidenceClaim.Unknown"
  by (simp add: strongest_set_def decisive_set_def counts_def)

lemma strongest_set_empty: "finite D \<Longrightarrow> strongest_set D = {} \<longleftrightarrow> D = {}"
proof -
  assume "finite D"
  then obtain xs where "D = set xs" using finite_list by blast
  then show ?thesis
    using set_tier_records [of xs, symmetric] strongest_nonempty [of xs]
    by (cases "xs = []") (auto simp: tier_records_def filter_empty_conv)
qed

lemma singleton_claims:
  "is_singleton (ev_claim ` T) \<Longrightarrow> the_elem (ev_claim ` T) = c \<longleftrightarrow> T \<noteq> {} \<and> (\<forall>e\<in>T. ev_claim e = c)"
  unfolding is_singleton_def by (metis image_is_empty imageI insert_not_empty singletonD the_elem_eq
      ex_in_conv)

lemma unanimous_singleton: "T \<noteq> {} \<Longrightarrow> \<forall>e\<in>T. ev_claim e = c \<Longrightarrow> ev_claim ` T = {c}"
  by auto

lemma class_for_eq [simp]:
  "class_for c = AuthoritativeUp \<longleftrightarrow> c = EvidenceClaim.Up"
  "class_for c = AuthoritativeUnknown \<longleftrightarrow> c = EvidenceClaim.Unknown"
  by (cases c; simp)+

lemma tier_class_Up: "tier_class T = AuthoritativeUp \<longleftrightarrow> T \<noteq> {} \<and> (\<forall>e\<in>T. ev_claim e = EvidenceClaim.Up)"
proof
  assume "tier_class T = AuthoritativeUp"
  then show "T \<noteq> {} \<and> (\<forall>e\<in>T. ev_claim e = EvidenceClaim.Up)"
    by (auto simp: tier_class_def singleton_claims split: if_splits)
next
  assume "T \<noteq> {} \<and> (\<forall>e\<in>T. ev_claim e = EvidenceClaim.Up)"
  then have "ev_claim ` T = {EvidenceClaim.Up}"
    by (intro unanimous_singleton) simp_all
  then show "tier_class T = AuthoritativeUp"
    by (simp add: tier_class_def)
qed

lemma tier_class_not_unknown:
  "\<forall>e\<in>T. ev_claim e \<noteq> EvidenceClaim.Unknown \<Longrightarrow> tier_class T \<noteq> AuthoritativeUnknown"
  by (auto simp: tier_class_def singleton_claims is_singleton_def split: if_splits)

lemma state_of_eq [simp]:
  "state_of c = LinkOperationalState.Up \<longleftrightarrow> c = AuthoritativeUp"
  "state_of c = LinkOperationalState.Unknown \<longleftrightarrow> c = AuthoritativeUnknown"
  by (cases c; simp)+

definition restricted :: "EvidenceRecord set \<Rightarrow> bool" where
  "restricted E \<longleftrightarrow> admin_claimed E EvidenceClaim.AdminDisabled \<or> admin_claimed E EvidenceClaim.Draining"

text \<open>
  Without administrative intent a link resolves to UP exactly when no counted administrative
  record restricts it, there is decisive evidence, every decisive record of the strongest tier claims
  UP, and (when that tier is a local one) every remote endpoint record claims an operational link.
  There is no other way to UP: no majority vote, no single dissent ignored within the tier.
\<close>

theorem resolve_up_iff:
  fixes records :: "EvidenceRecord list"
  defines "D \<equiv> decisive_set (set records)"
  assumes "lr_admin_intent record = None"
  shows "rs_state (resolve_link_state records record) = LinkOperationalState.Up \<longleftrightarrow>
     \<not> restricted (set records) \<and> D \<noteq> {} \<and> (\<forall>e\<in>strongest_set D. ev_claim e = EvidenceClaim.Up) \<and>
     ((\<exists>e\<in>D. effective_precedence e < 4) \<longrightarrow>
        (\<forall>e\<in>D. effective_precedence e = 4 \<longrightarrow> claim_is_operational (ev_claim e)))"
proof -
  have "finite D" by (simp add: D_def decisive_set_def)
  then have T: "strongest_set D = {} \<longleftrightarrow> D = {}" by (rule strongest_set_empty)
  have no_pair: "\<not> (\<exists>e\<in>strongest_set D. \<exists>e'\<in>strongest_set D. contradicts e e')"
    if "\<forall>e\<in>strongest_set D. ev_claim e = EvidenceClaim.Up"
    using that by (auto simp: contradicts_def)
  have up: "rs_state (resolve_link_state records record) = LinkOperationalState.Up \<longleftrightarrow>
      \<not> restricted (set records) \<and> D \<noteq> {} \<and> tier_class (strongest_set D) = AuthoritativeUp \<and>
      \<not> (\<exists>e\<in>strongest_set D. \<exists>e'\<in>strongest_set D. contradicts e e') \<and>
      \<not> remote_disagrees D AuthoritativeUp"
    using assms(2) by (auto simp: resolve_class policy_class_def Let_def restricted_def D_def)
  show ?thesis
    unfolding up tier_class_Up T remote_disagrees_def using no_pair
    by (auto simp: is_operational_state_def)
qed

text \<open>
  Without administrative intent UNKNOWN is reported exactly for a link that never had a decisive
  state, has no counted administrative restriction and no decisive evidence.
\<close>

theorem resolve_unknown_iff:
  assumes "lr_admin_intent record = None"
  shows "rs_state (resolve_link_state records record) = LinkOperationalState.Unknown \<longleftrightarrow>
     \<not> lr_ever_established record \<and> \<not> restricted (set records) \<and> decisive_set (set records) = {}"
  using assms tier_class_not_unknown [of "strongest_set (decisive_set (set records))"]
  by (auto simp: resolve_class policy_class_def Let_def restricted_def decisive_claims)

section \<open>Synthetic evidence\<close>

lemma policy_class_cong:
  assumes "\<And>c. admin_claimed E c = admin_claimed E' c"
    and "decisive_set E = {} \<longleftrightarrow> decisive_set E' = {}"
    and "strongest_set (decisive_set E) = strongest_set (decisive_set E')"
    and "\<And>c. remote_disagrees (decisive_set E) c = remote_disagrees (decisive_set E') c"
  shows "policy_class record E = policy_class record E'"
  unfolding policy_class_def Let_def by (simp only: assms)

lemma effective_real: "ev_class e \<noteq> Synthetic \<Longrightarrow> ev_kind e \<noteq> SyntheticTest \<Longrightarrow> effective_precedence e < 5"
  unfolding effective_precedence_def by (cases "ev_kind e") auto

lemma strongest_without_synthetic:
  assumes "r \<in> D" "ev_class r \<noteq> Synthetic" "ev_kind r \<noteq> SyntheticTest"
  shows "strongest_set {e \<in> D. ev_class e \<noteq> Synthetic} = strongest_set D"
proof -
  have r: "effective_precedence r < 5"
    using assms by (simp add: effective_real)
  have synthetic: "effective_precedence e = 5" if "ev_class e = Synthetic" for e
    using that by (simp add: effective_precedence_def)
  show ?thesis
  proof (rule Set.set_eqI, rule iffI)
    fix e assume "e \<in> strongest_set {e \<in> D. ev_class e \<noteq> Synthetic}"
    then have e: "e \<in> D" "\<And>e'. e' \<in> D \<Longrightarrow> ev_class e' \<noteq> Synthetic \<Longrightarrow>
        effective_precedence e \<le> effective_precedence e'"
      by (auto simp: strongest_set_def)
    have "effective_precedence e \<le> effective_precedence e'" if "e' \<in> D" for e'
      using e(2) [OF that] synthetic [of e'] effective_precedence_bound [of e] by fastforce
    with e show "e \<in> strongest_set D" by (simp add: strongest_set_def)
  next
    fix e assume "e \<in> strongest_set D"
    then have e: "e \<in> D" "\<And>e'. e' \<in> D \<Longrightarrow> effective_precedence e \<le> effective_precedence e'"
      by (auto simp: strongest_set_def)
    then have "ev_class e \<noteq> Synthetic"
      using e(2) [OF assms(1)] r synthetic [of e] by fastforce
    with e show "e \<in> strongest_set {e \<in> D. ev_class e \<noteq> Synthetic}"
      by (simp add: strongest_set_def)
  qed
qed

lemma remote_without_synthetic:
  "remote_disagrees {e \<in> D. ev_class e \<noteq> Synthetic} c \<longleftrightarrow> remote_disagrees D c"
proof -
  have "ev_class e \<noteq> Synthetic" if "effective_precedence e < 5" for e
    using that by (auto simp: effective_precedence_def)
  then show ?thesis
    unfolding remote_disagrees_def by fastforce
qed

text \<open>
  C39: synthetic evidence never outranks real evidence: if no administrative record is synthetic and
  at least one decisive record is real (and not of the synthetic test kind), the verdict is the one
  the real records alone give, whatever synthetic records are present.
\<close>

theorem synthetic_never_outranks_real:
  assumes "\<And>e. e \<in> set records \<Longrightarrow> ev_class e = Synthetic \<Longrightarrow> ev_kind e \<noteq> AdministrativeState"
    and "r \<in> decisive_set (set records)" "ev_class r \<noteq> Synthetic" "ev_kind r \<noteq> SyntheticTest"
  shows "rs_result_class (resolve_link_state records record) =
     rs_result_class (resolve_link_state (filter (\<lambda>e. ev_class e \<noteq> Synthetic) records) record)"
proof -
  let ?E = "set records" and ?R = "set (filter (\<lambda>e. ev_class e \<noteq> Synthetic) records)"
  have D: "decisive_set ?R = {e \<in> decisive_set ?E. ev_class e \<noteq> Synthetic}"
    by (auto simp: decisive_set_def)
  have admin: "admin_claimed ?R c = admin_claimed ?E c" for c
    using assms(1) by (auto simp: admin_claimed_def)
  have nonempty: "decisive_set ?E \<noteq> {}" "decisive_set ?R \<noteq> {}"
    using assms(2,3) unfolding D by auto
  show ?thesis
    unfolding resolve_class
  proof (rule policy_class_cong)
    show "strongest_set (decisive_set ?E) = strongest_set (decisive_set ?R)"
      using strongest_without_synthetic [OF assms(2-4)] by (simp only: D)
    show "remote_disagrees (decisive_set ?E) c = remote_disagrees (decisive_set ?R) c" for c
      by (simp only: D remote_without_synthetic)
  qed (simp_all only: admin nonempty)
qed

text \<open>
  C40: The administrative gate is the exception: it looks at the kind of a record and not at its
  class, so one synthetic administrative record disables a link whatever real evidence says.
\<close>

theorem synthetic_admin_gates_real:
  assumes "e \<in> set records" "counts e" "ev_class e = Synthetic" "ev_kind e = AdministrativeState"
    "ev_claim e = EvidenceClaim.AdminDisabled" and "lr_admin_intent record = None"
  shows "rs_state (resolve_link_state records record) = LinkOperationalState.AdminDisabled"
proof -
  have "admin_claimed (set records) EvidenceClaim.AdminDisabled"
    using assms by (auto simp: admin_claimed_def)
  then show ?thesis
    using assms(6) by (simp add: resolve_class policy_class_def Let_def)
qed

section \<open>Order independence and degradation causes\<close>

definition resolution_rank :: "EvidenceRecord \<Rightarrow> EvidenceKey \<times> ObservationId \<times> PublisherId \<times> u64" where
  "resolution_rank e = (ev_key e, ev_observation e, ev_publisher e, ev_sequence e)"

lemma evidence_less_sort: "std_sort evidence_less xs = sort_key resolution_rank xs"
  by (rule std_sort_key) (auto simp: evidence_less_def resolution_rank_def less_prod_simp less_le)

text \<open>
  C38: with one record per evidence key, as the engine keeps them, the whole resolution (rule texts,
  conflict notes and dispositions included) is independent of the order the records are supplied in.
\<close>

theorem resolve_order_independent:
  assumes "mset xs = mset ys" and "inj_on ev_key (set xs)"
  shows "resolve_link_state xs record = resolve_link_state ys record"
proof -
  have "inj_on resolution_rank (set xs)"
    using assms(2) by (auto simp: inj_on_def resolution_rank_def)
  then have "sort_key resolution_rank xs = sort_key resolution_rank ys"
    by (rule sort_key_perm [OF assms(1)])
  then show ?thesis
    by (simp add: resolve_link_state_def evidence_less_sort)
qed

definition cause_named :: "EvidenceRecord \<Rightarrow> bool" where
  "cause_named e \<longleftrightarrow> (ev_claim e = EvidenceClaim.Degraded \<longrightarrow> ev_degradation_cause e \<noteq> NoCause)"

lemma strongest_cause_fold:
  assumes "list_all cause_named es"
  shows "fold (\<lambda>record cause.
        if ev_claim record \<noteq> EvidenceClaim.Degraded then cause
        else if cause = NoCause \<or> cause_index (ev_degradation_cause record) < cause_index cause
        then ev_degradation_cause record
        else cause) es k = NoCause \<longleftrightarrow> k = NoCause \<and> (\<forall>e\<in>set es. ev_claim e \<noteq> EvidenceClaim.Degraded)"
  using assms by (induction es arbitrary: k) (auto simp: cause_named_def)

lemma strongest_cause_named:
  "list_all cause_named es \<Longrightarrow> e \<in> set es \<Longrightarrow> ev_claim e = EvidenceClaim.Degraded \<Longrightarrow>
     strongest_cause es \<noteq> NoCause"
  using strongest_cause_fold [of es NoCause] by (auto simp: strongest_cause_def)

definition cause_ok :: "Resolution \<Rightarrow> bool" where
  "cause_ok r \<longleftrightarrow> (rs_state r = LinkOperationalState.Degraded \<longrightarrow> rs_cause r \<noteq> NoCause)"

lemma cause_ok_simps [simp]:
  "cause_ok (amend_dispositions p f r) = cause_ok r"
  "cause_ok (push_rule t r) = cause_ok r"
  "cause_ok (note_conflict t r) = cause_ok r"
  "cause_ok (r\<lparr>rs_conflicted := b\<rparr>) = cause_ok r"
  "cause_ok (set_state s c k r) \<longleftrightarrow> (s = LinkOperationalState.Degraded \<longrightarrow> k \<noteq> NoCause)"
  by (simp_all add: cause_ok_def amend_dispositions_def push_rule_def note_conflict_def set_state_def)

lemma state_of_class_Degraded:
  "state_of (class_for c) = LinkOperationalState.Degraded \<longleftrightarrow> c = EvidenceClaim.Degraded"
  by (cases c) simp_all

lemma resolve_claims_cause:
  assumes "list_all cause_named tier" and "tier \<noteq> []"
  shows "case resolve_claims tier r of Inl r' \<Rightarrow> cause_ok r' | Inr r' \<Rightarrow> cause_ok r'"
proof -
  let ?claims = "remdups (map ev_claim tier)"
  have unanimous: "strongest_cause tier \<noteq> NoCause"
    if "hd ?claims = EvidenceClaim.Degraded"
  proof -
    have "EvidenceClaim.Degraded \<in> set ?claims"
      using that assms(2) by (metis hd_in_set list.map_disc_iff remdups_eq_nil_iff)
    then obtain e where "e \<in> set tier" "ev_claim e = EvidenceClaim.Degraded" by auto
    then show ?thesis using assms(1) by (intro strongest_cause_named)
  qed
  have impaired: "strongest_cause tier \<noteq> NoCause"
    if "length ?claims \<noteq> 1" "list_all claim_is_operational ?claims"
  proof -
    have "\<exists>e\<in>set tier. ev_claim e = EvidenceClaim.Degraded"
    proof (rule ccontr)
      assume "\<not> ?thesis"
      then have "\<forall>e\<in>set tier. ev_claim e = EvidenceClaim.Up"
        using that(2) by (auto simp: list_all_iff claim_is_operational_def)
      then have "set (map ev_claim tier) = {EvidenceClaim.Up}"
        using unanimous_singleton [of "set tier"] assms(2) by simp
      then show False
        using that(1) by (simp add: length_remdups_card_conv)
    qed
    then obtain e where "e \<in> set tier" "ev_claim e = EvidenceClaim.Degraded" by auto
    then show ?thesis using assms(1) by (intro strongest_cause_named)
  qed
  show ?thesis
    using unanimous impaired
    by (auto simp: resolve_claims_def Let_def state_of_class_Degraded)
qed

lemma resolve_decisive_cause:
  assumes "list_all cause_named decisive" and "decisive \<noteq> []"
  shows "cause_ok (resolve_decisive record administrative decisive r)"
proof -
  have "list_all cause_named (tier_records decisive)"
    using assms by (auto simp: tier_records_def list_all_iff)
  note claims = resolve_claims_cause [OF this strongest_nonempty [OF assms(2)]]
  have remote: "cause_ok r \<Longrightarrow> cause_ok (remote_cross_check record decisive r)" for r
    by (simp add: remote_cross_check_def Let_def)
  show ?thesis
    unfolding resolve_decisive_def Let_def
    using claims remote
    by (auto simp: resolve_asymmetry_def Let_def split: sum.splits if_splits)
      (metis sum.simps(5,6))+
qed

lemma resolve_cause:
  assumes "lr_admin_intent record = None" and "\<forall>e\<in>set records. cause_named e"
  shows "cause_ok (resolve_link_state records record)"
proof -
  have named: "list_all cause_named
      (filter (\<lambda>e. ev_kind e \<noteq> AdministrativeState) (filter counts (std_sort evidence_less records)))"
    using assms(2) by (auto simp: list_all_iff)
  have gate: "administrative_gate as r = Inl r' \<Longrightarrow> cause_ok r'" for as r r'
    by (auto simp: administrative_gate_def Let_def split: if_splits)
  show ?thesis
    using assms(1) resolve_decisive_cause [OF named]
    by (auto simp: resolve_link_state_def Let_def no_decisive_evidence_def dest: gate split: sum.splits)
qed

text \<open>
  A link without administrative intent whose degraded claims all name a cause never resolves to
  DEGRADED without a named cause.
\<close>

theorem resolve_degraded_cause:
  assumes "lr_admin_intent record = None"
    and "\<And>e. e \<in> set records \<Longrightarrow> ev_claim e = EvidenceClaim.Degraded \<Longrightarrow>
           ev_degradation_cause e \<noteq> NoCause"
    and "rs_state (resolve_link_state records record) = LinkOperationalState.Degraded"
  shows "rs_cause (resolve_link_state records record) \<noteq> NoCause"
  using resolve_cause [OF assms(1), of records] assms(2,3) by (simp add: cause_ok_def cause_named_def)

section \<open>Witnesses\<close>

definition ex_evidence :: "EvidenceKind \<Rightarrow> EvidenceClass \<Rightarrow> EvidenceClaim \<Rightarrow> EvidenceRecord" where
  "ex_evidence kind class claim =
     blank_evidence\<lparr>ev_key := EvidenceKey (StrongId ''l1'') (StrongId ''s1'') null_id Bidirectional kind,
       ev_class := class, ev_claim := claim\<rparr>"

definition ex_record :: LinkStateRecord where
  "ex_record = new_record (blank_binding (StrongId ''l1''))"

lemmas ex_resolution_defs = ex_evidence_def ex_record_def blank_evidence_def new_record_def

lemma ex_evidence_sel [simp]:
  "ev_key (ex_evidence k c cl) =
     EvidenceKey (StrongId ''l1'') (StrongId ''s1'') null_id Bidirectional k"
  "ev_class (ex_evidence k c cl) = c" "ev_claim (ex_evidence k c cl) = cl"
  "ev_status (ex_evidence k c cl) = Current"
  by (simp_all add: ex_resolution_defs)

lemma ex_record_sel [simp]: "lr_admin_intent ex_record = None" "\<not> lr_ever_established ex_record"
  by (simp_all add: ex_resolution_defs)

lemmas ex_policy_defs = decisive_set_def strongest_set_def counts_def
  effective_precedence_def admin_claimed_def restricted_def

theorem resolve_up_iff_witness:
  "rs_state (resolve_link_state
     [ex_evidence CarrierState Real EvidenceClaim.Up, ex_evidence LossErrorThreshold Real EvidenceClaim.Up]
     ex_record) = LinkOperationalState.Up"
  by (subst resolve_up_iff)
    (auto simp: ex_policy_defs intro: exI [of _ "ex_evidence CarrierState Real EvidenceClaim.Up"])

theorem resolve_unknown_iff_witness:
  "rs_state (resolve_link_state [ex_evidence CarrierState Unsupported EvidenceClaim.Up] ex_record) =
     LinkOperationalState.Unknown"
  by (subst resolve_unknown_iff) (auto simp: ex_policy_defs)

theorem synthetic_never_outranks_real_witness:
  "rs_result_class (resolve_link_state
     [ex_evidence CarrierState Real EvidenceClaim.Up,
      ex_evidence HardwareErrorIndication Synthetic EvidenceClaim.Down] ex_record) =
   rs_result_class (resolve_link_state [ex_evidence CarrierState Real EvidenceClaim.Up] ex_record)"
  by (subst synthetic_never_outranks_real [where r = "ex_evidence CarrierState Real EvidenceClaim.Up"])
    (auto simp: ex_policy_defs)

theorem synthetic_admin_gates_real_witness:
  "rs_state (resolve_link_state
     [ex_evidence CarrierState Real EvidenceClaim.Up,
      ex_evidence AdministrativeState Synthetic EvidenceClaim.AdminDisabled] ex_record) =
   LinkOperationalState.AdminDisabled"
  by (rule synthetic_admin_gates_real
      [where e = "ex_evidence AdministrativeState Synthetic EvidenceClaim.AdminDisabled"])
    (simp_all add: ex_policy_defs)

theorem resolve_order_independent_witness:
  "resolve_link_state
     [ex_evidence CarrierState Real EvidenceClaim.Up, ex_evidence LossErrorThreshold Real EvidenceClaim.Degraded]
     ex_record =
   resolve_link_state
     [ex_evidence LossErrorThreshold Real EvidenceClaim.Degraded, ex_evidence CarrierState Real EvidenceClaim.Up]
     ex_record"
  by (rule resolve_order_independent) (simp_all add: ex_resolution_defs)

definition ex_degraded :: EvidenceRecord where
  "ex_degraded = (ex_evidence LossErrorThreshold Real EvidenceClaim.Degraded)
     \<lparr>ev_degradation_cause := UnstableCarrier\<rparr>"

theorem resolve_degraded_cause_witness:
  "rs_cause (resolve_link_state [ex_degraded] ex_record) \<noteq> NoCause"
proof (rule resolve_degraded_cause)
  show "rs_state (resolve_link_state [ex_degraded] ex_record) = LinkOperationalState.Degraded"
    by code_simp
qed (simp_all add: ex_degraded_def)

end
