(* ===== verification/Snapshots.thy ===== *)
theory Snapshots
  imports Records
begin

text \<open>
  Immutable snapshots (\<^verbatim>\<open>include/linkstate/snapshot.hpp\<close>, \<^verbatim>\<open>src/snapshot.cpp\<close>): the selection
  request, the per link projection, the snapshot itself and its label free digest.
\<close>

record SnapshotRequest =
  sq_fabric :: FabricId
  sq_links :: "LinkId list"
  sq_state_filter :: "LinkOperationalState option"
  sq_max_records :: nat
  sq_label :: string

record SnapshotRecord =
  sr_link :: LinkId
  sr_state :: LinkOperationalState
  sr_result_class :: StateResultClass
  sr_state_generation :: LinkStateGeneration
  sr_evidence_generation :: EvidenceGeneration
  sr_topology_generation :: TopologyGeneration
  sr_current_evidence :: nat
  sr_conflicted :: bool
  sr_synthetic_backed :: bool
  sr_record_digest :: Digest

record Snapshot =
  sn_id :: SnapshotId
  sn_label :: string
  sn_global_generation :: GlobalGeneration
  sn_global_state_generation :: LinkStateGeneration
  sn_epoch :: CoordinatorEpoch
  sn_topology_generation :: TopologyGeneration
  sn_sequence :: u64
  sn_records :: "SnapshotRecord list"
  sn_digest :: Digest

definition hash_snapshot_record :: "SnapshotRecord \<Rightarrow> Hasher \<Rightarrow> Hasher" where
  "hash_snapshot_record r hs =
     hasher_update (digest_bytes (sr_record_digest r))
     (update_bool (sr_conflicted r)
     (update_u32 (of_nat (sr_current_evidence r))
     (update_u64 (gen_value (sr_topology_generation r))
     (update_u64 (gen_value (sr_evidence_generation r))
     (update_u64 (gen_value (sr_state_generation r))
     (update_u8 (of_nat (result_class_index (sr_result_class r)))
     (update_u8 (of_nat (state_index (sr_state r)))
     (update_text (id_value (sr_link r)) hs))))))))"

definition digest_snapshot ::
    "SnapshotRecord list \<Rightarrow> GlobalGeneration \<Rightarrow> LinkStateGeneration \<Rightarrow> CoordinatorEpoch \<Rightarrow> Digest" where
  "digest_snapshot records global_generation global_state_generation epoch =
     (let ordered = std_sort (\<lambda>lhs rhs. sr_link lhs < sr_link rhs) records
      in finalize (fold hash_snapshot_record ordered
           (update_u32 (of_nat (length ordered))
           (update_u64 (gen_value epoch)
           (update_u64 (gen_value global_state_generation)
           (update_u64 (gen_value global_generation) new_hasher))))))"

definition render_snapshot_record :: "SnapshotRecord \<Rightarrow> string" where
  "render_snapshot_record r =
     ''  '' @ id_value (sr_link r) @ '' state='' @ to_string_state (sr_state r) @
     '' state_gen='' @ gen_to_string (sr_state_generation r) @
     '' evidence_gen='' @ gen_to_string (sr_evidence_generation r) @
     '' topology_gen='' @ gen_to_string (sr_topology_generation r) @
     '' evidence='' @ format_nat (sr_current_evidence r) @
     (if sr_conflicted r then '' CONFLICTED'' else []) @ nl"

definition render_snapshot :: "Snapshot \<Rightarrow> string" where
  "render_snapshot s =
     ''snapshot '' @ id_value (sn_id s) @ nl @
     ''label                 '' @ sn_label s @ nl @
     ''global_generation     '' @ gen_to_string (sn_global_generation s) @ nl @
     ''global_state_gen      '' @ gen_to_string (sn_global_state_generation s) @ nl @
     ''coordinator_epoch     '' @ gen_to_string (sn_epoch s) @ nl @
     ''topology_generation   '' @ gen_to_string (sn_topology_generation s) @ nl @
     ''sequence              '' @ format_u64 (sn_sequence s) @ nl @
     ''records               '' @ format_nat (length (sn_records s)) @ nl @
     ''digest                '' @ to_hex (sn_digest s) @ nl @
     concat (map render_snapshot_record (sn_records s))"

lemma digest_snapshot_perm:
  assumes "mset xs = mset ys" and "inj_on sr_link (set xs)"
  shows "digest_snapshot xs g sg e = digest_snapshot ys g sg e"
proof -
  have "std_sort (\<lambda>lhs rhs. sr_link lhs < sr_link rhs) rs = sort_key sr_link rs"
    for rs :: "SnapshotRecord list"
    by (rule std_sort_key) simp
  then show ?thesis
    using sort_key_perm [OF assms] mset_eq_length [OF assms(1)] by (simp add: digest_snapshot_def)
qed

end
