(* ===== verification/Engine_Store.thy ===== *)
theory Engine_Store
  imports Resolution Snapshots
begin

text \<open>
  The engine's state (\<^verbatim>\<open>src/engine_internal.hpp\<close>, \<^verbatim>\<open>include/linkstate/config.hpp\<close>,
  \<^verbatim>\<open>src/config.cpp\<close>): configuration, one entry per link, the store with its indexes, and the
  engine proper.  \<open>Impl\<close> extends \<open>EngineStore\<close>, which is the member \<^verbatim>\<open>store\<close> of the C++ class;
  the mutex that serialises the operations is not part of the state.
\<close>

record EngineConfig =
  cf_max_links :: nat
  cf_max_evidence_per_link :: nat
  cf_max_publishers :: nat
  cf_max_retained_snapshots :: nat
  cf_max_history_per_link :: nat
  cf_max_batch_size :: nat
  cf_fence_retention_per_publisher :: nat
  cf_initial_epoch :: CoordinatorEpoch
  cf_initial_topology_generation :: TopologyGeneration
  cf_retain_history :: bool

definition max_batch_size :: nat where
  "max_batch_size = 4096"

definition default_config :: EngineConfig where
  "default_config = \<lparr>cf_max_links = max_links, cf_max_evidence_per_link = max_evidence_per_link,
     cf_max_publishers = max_publishers, cf_max_retained_snapshots = max_retained_snapshots,
     cf_max_history_per_link = max_history_per_link, cf_max_batch_size = max_batch_size,
     cf_fence_retention_per_publisher = 64, cf_initial_epoch = gen_zero,
     cf_initial_topology_generation = gen_zero, cf_retain_history = True\<rparr>"

text \<open>The empty text means that the configuration is valid.\<close>

definition validate_config :: "EngineConfig \<Rightarrow> string" where
  "validate_config c =
     (if cf_max_links c = 0 \<or> cf_max_links c > max_links
      then ''max_links must be between 1 and limits::max_links''
      else if cf_max_evidence_per_link c = 0 \<or> cf_max_evidence_per_link c > max_evidence_per_link
      then ''max_evidence_per_link must be between 1 and limits::max_evidence_per_link''
      else if cf_max_publishers c = 0 \<or> cf_max_publishers c > max_publishers
      then ''max_publishers must be between 1 and limits::max_publishers''
      else if cf_max_retained_snapshots c > max_retained_snapshots
      then ''max_retained_snapshots exceeds limits::max_retained_snapshots''
      else if cf_max_history_per_link c > max_history_per_link
      then ''max_history_per_link exceeds limits::max_history_per_link''
      else if cf_max_batch_size c = 0 \<or> cf_max_batch_size c > max_batch_size
      then ''max_batch_size must be between 1 and limits::max_batch_size''
      else if cf_fence_retention_per_publisher c = 0 \<or> cf_fence_retention_per_publisher c > 4096
      then ''fence_retention_per_publisher must be between 1 and 4096''
      else [])"

record LinkEntry =
  le_record :: LinkStateRecord
  le_current :: "EvidenceRecord list"
  le_dispositions :: "EvidenceDisposition list"
  le_conflicted :: bool
  le_synthetic_backed :: bool

record EngineStore =
  st_links :: "(LinkId, LinkEntry) umap"
  st_by_state :: "(LinkOperationalState, LinkId) ubuckets"
  st_by_endpoint :: "(EndpointId, LinkId) ubuckets"
  st_publishers :: "(PublisherId, PublisherAuthority) umap"
  st_publisher_links :: "(PublisherId, LinkId) ubuckets"
  st_observations :: "(ObservationId, EvidenceKey) umap"
  st_dependents :: "(LinkId, LinkId) ubuckets"
  st_fenced_boots :: "(PublisherId, WorkerBootId) ubuckets"
  st_fences :: "PublisherFence list"
  st_snapshots :: "(SnapshotId, Snapshot) umap"
  st_snapshot_order :: "SnapshotId list"

record EngineStats =
  es_links :: nat
  es_evidence_records :: nat
  es_current_evidence :: nat
  es_publishers :: nat
  es_active_publishers :: nat
  es_fenced_publishers :: nat
  es_conflicts :: nat
  es_revalidation_required :: nat
  es_retired :: nat
  es_retained_snapshots :: nat
  es_committed_publications :: u64
  es_idempotent_publications :: u64
  es_rejected_publications :: u64
  es_transitions :: u64

definition no_stats :: EngineStats where
  "no_stats = \<lparr>es_links = 0, es_evidence_records = 0, es_current_evidence = 0, es_publishers = 0,
     es_active_publishers = 0, es_fenced_publishers = 0, es_conflicts = 0,
     es_revalidation_required = 0, es_retired = 0, es_retained_snapshots = 0,
     es_committed_publications = 0, es_idempotent_publications = 0,
     es_rejected_publications = 0, es_transitions = 0\<rparr>"

record Impl = EngineStore +
  im_config :: EngineConfig
  im_global_generation :: GlobalGeneration
  im_global_state_generation :: LinkStateGeneration
  im_epoch :: CoordinatorEpoch
  im_topology_generation :: TopologyGeneration
  im_transition_counter :: u64
  im_snapshot_counter :: u64
  im_counters :: EngineStats

definition new_impl :: "EngineConfig \<Rightarrow> Impl" where
  "new_impl config = \<lparr>st_links = [], st_by_state = [], st_by_endpoint = [], st_publishers = [],
     st_publisher_links = [], st_observations = [], st_dependents = [], st_fenced_boots = [],
     st_fences = [], st_snapshots = [], st_snapshot_order = [], im_config = config,
     im_global_generation = gen_zero, im_global_state_generation = gen_zero,
     im_epoch = cf_initial_epoch config,
     im_topology_generation = cf_initial_topology_generation config, im_transition_counter = 0,
     im_snapshot_counter = 0, im_counters = no_stats\<rparr>"

section \<open>Results and access to entries\<close>

record LinkMutationResult =
  mr_outcome :: Outcome
  mr_view :: "LinkStateView option"

definition find_link :: "LinkId \<Rightarrow> 'a EngineStore_scheme \<Rightarrow> LinkEntry option" where
  "find_link link store = map_of (st_links store) link"

text \<open>A \<^verbatim>\<open>LinkEntry&\<close> of the C++ code refers into the map; its updates are written back here.\<close>

definition put_entry :: "LinkId \<Rightarrow> LinkEntry \<Rightarrow> 'a EngineStore_scheme \<Rightarrow> 'a EngineStore_scheme" where
  "put_entry link entry store = store\<lparr>st_links := AList.update link entry (st_links store)\<rparr>"

definition find_publisher :: "PublisherId \<Rightarrow> 'a EngineStore_scheme \<Rightarrow> PublisherAuthority option" where
  "find_publisher publisher store = map_of (st_publishers store) publisher"

definition failure :: "OutcomeCode \<Rightarrow> string \<Rightarrow> Outcome" where
  "failure code detail_text = make_outcome code detail_text"

definition failed :: "OutcomeCode \<Rightarrow> string \<Rightarrow> LinkMutationResult" where
  "failed code detail_text = \<lparr>mr_outcome = failure code detail_text, mr_view = None\<rparr>"

definition plain_result :: "OutcomeCode \<Rightarrow> string \<Rightarrow> LinkMutationResult" where
  "plain_result code detail_text = \<lparr>mr_outcome = failure code detail_text, mr_view = None\<rparr>"

definition make_view :: "LinkEntry \<Rightarrow> LinkStateView" where
  "make_view entry = \<lparr>vw_record = le_record entry, vw_current_evidence = length (le_current entry),
     vw_retained_dispositions = length (le_dispositions entry),
     vw_conflicted = le_conflicted entry, vw_synthetic_backed = le_synthetic_backed entry\<rparr>"

definition result_for :: "OutcomeCode \<Rightarrow> string \<Rightarrow> LinkEntry \<Rightarrow> bool \<Rightarrow> LinkMutationResult" where
  "result_for code detail_text entry state_changed =
     \<lparr>mr_outcome = (failure code detail_text)
        \<lparr>oc_state_generation := lr_state_generation (le_record entry),
         oc_global_generation := lr_global_generation (le_record entry),
         oc_evidence_generation := lr_evidence_generation (le_record entry),
         oc_state_changed := state_changed\<rparr>,
      mr_view = Some (make_view entry)\<rparr>"

lemma find_link_put [simp]:
  "find_link l (put_entry k e s) = (if l = k then Some e else find_link l s)"
  by (simp add: find_link_def put_entry_def)

lemma find_link_new [simp]: "find_link l (new_impl config) = None"
  by (simp add: find_link_def new_impl_def)

lemma find_publisher_new [simp]: "find_publisher p (new_impl config) = None"
  by (simp add: find_publisher_def new_impl_def)

lemma result_codes [simp]:
  "oc_code (mr_outcome (failed c d)) = c"
  "oc_code (mr_outcome (plain_result c d)) = c"
  "oc_code (mr_outcome (result_for c d e b)) = c"
  by (simp_all add: failed_def plain_result_def result_for_def failure_def make_outcome_def)

end
