(* ===== verification/Engine_Support.thy ===== *)
theory Engine_Support
  imports Engine_Store
begin

text \<open>
  The shared machinery of the mutating operations (\<^verbatim>\<open>src/engine_support.cpp\<close>): identifiers minted
  by the engine, structural validation, index maintenance, the bounded disposition and history
  rings, authorization, and the two phase commit of a resolution (\<open>prepare_commit\<close> checks,
  \<open>commit_prepared\<close> applies).  A check that fills an error text returns it as an option.
\<close>

section \<open>Minted identifiers and structural checks\<close>

definition record_id_for :: "LinkId \<Rightarrow> string" where
  "record_id_for link = ''lsr.'' @ id_value link"

definition transition_id_for :: "LinkId \<Rightarrow> LinkStateGeneration \<Rightarrow> string" where
  "transition_id_for link generation = ''st.'' @ id_value link @ ''.'' @ gen_to_string generation"

definition publication_id_for :: "string \<Rightarrow> u64 \<Rightarrow> string" where
  "publication_id_for prefix sequence = ''pub.'' @ prefix @ ''.'' @ format_u64 sequence"

definition same_structure :: "TopologyBinding \<Rightarrow> TopologyBinding \<Rightarrow> bool" where
  "same_structure lhs rhs \<longleftrightarrow>
     tb_fabric lhs = tb_fabric rhs \<and> tb_site lhs = tb_site rhs \<and> tb_link lhs = tb_link rhs \<and>
     tb_link_class lhs = tb_link_class rhs \<and> tb_symmetry lhs = tb_symmetry rhs \<and>
     tb_endpoints lhs = tb_endpoints rhs \<and> tb_member_links lhs = tb_member_links rhs \<and>
     tb_backing_links lhs = tb_backing_links rhs"

fun backing_scan :: "'a EngineStore_scheme \<Rightarrow> BackingReference list \<Rightarrow> string option" where
  "backing_scan store [] = None"
| "backing_scan store (backing # rest) =
     (case find_link (br_link backing) store of
        None \<Rightarrow> Some (''backing link '' @ id_value (br_link backing) @ '' is not bound in this engine'')
      | Some entry \<Rightarrow>
          if lr_state (le_record entry) = LinkOperationalState.Retired
          then Some (''backing link '' @ id_value (br_link backing) @ '' is retired'')
          else let current = tb_topology_generation (lr_binding (le_record entry))
               in if current \<noteq> br_generation backing
                  then Some (''backing link '' @ id_value (br_link backing) @
                    '' was bound at topology generation '' @ gen_to_string (br_generation backing) @
                    '' but is now at generation '' @ gen_to_string current)
                  else backing_scan store rest)"

definition backing_stale :: "'a EngineStore_scheme \<Rightarrow> TopologyBinding \<Rightarrow> string option" where
  "backing_stale store binding = backing_scan store (tb_backing_links binding)"

definition sort_links :: "LinkId list \<Rightarrow> LinkId list" where
  "sort_links links = std_unique (std_sort (<) links)"

text \<open>\<^verbatim>\<open>BackingReference\<close> is ordered by its link only; equal neighbours are removed.\<close>

definition sort_backing :: "BackingReference list \<Rightarrow> BackingReference list" where
  "sort_backing backing = std_unique (std_sort (\<lambda>lhs rhs. br_link lhs < br_link rhs) backing)"

definition normalize_binding :: "TopologyBinding \<Rightarrow> TopologyBinding" where
  "normalize_binding binding =
     binding\<lparr>tb_member_links := sort_links (tb_member_links binding),
             tb_backing_links := sort_backing (tb_backing_links binding)\<rparr>"

fun backing_error :: "BackingReference list \<Rightarrow> string option" where
  "backing_error [] = None"
| "backing_error (backing # rest) =
     (if \<not> valid (br_link backing) then Some ''backing link identity is malformed''
      else if is_zero (br_generation backing)
      then Some ''backing link generation must be greater than zero''
      else backing_error rest)"

definition valid_binding :: "TopologyBinding \<Rightarrow> string option" where
  "valid_binding binding =
     (if \<not> valid (tb_link binding) then Some ''link identity is missing or malformed''
      else if \<not> valid (eb_local (tb_endpoints binding))
      then Some ''local endpoint identity is missing or malformed''
      else if is_zero (tb_topology_generation binding)
      then Some ''topology generation must be greater than zero''
      else if list_ex (\<lambda>member. \<not> valid member) (tb_member_links binding)
      then Some ''member link identity is malformed''
      else backing_error (tb_backing_links binding))"

section \<open>Index maintenance\<close>

definition index_link ::
    "LinkId \<Rightarrow> LinkOperationalState \<Rightarrow> 'a EngineStore_scheme \<Rightarrow> 'a EngineStore_scheme" where
  "index_link link state store = store\<lparr>st_by_state := bucket_insert state link (st_by_state store)\<rparr>"

definition reindex_state ::
    "LinkId \<Rightarrow> LinkOperationalState \<Rightarrow> LinkOperationalState \<Rightarrow>
     'a EngineStore_scheme \<Rightarrow> 'a EngineStore_scheme" where
  "reindex_state link from_state to_state store =
     (if from_state = to_state then store
      else store\<lparr>st_by_state :=
        bucket_insert to_state link (bucket_erase from_state link (st_by_state store))\<rparr>)"

definition bound_endpoints :: "TopologyBinding \<Rightarrow> EndpointId list" where
  "bound_endpoints binding =
     filter valid [eb_local (tb_endpoints binding), eb_remote (tb_endpoints binding)]"

definition index_endpoints ::
    "TopologyBinding \<Rightarrow> bool \<Rightarrow> 'a EngineStore_scheme \<Rightarrow> 'a EngineStore_scheme" where
  "index_endpoints binding add store =
     store\<lparr>st_by_endpoint :=
       fold (\<lambda>endpoint. (if add then bucket_insert else bucket_erase) endpoint (tb_link binding))
         (bound_endpoints binding) (st_by_endpoint store)\<rparr>"

definition push_disposition ::
    "EvidenceRecord \<Rightarrow> EvidenceStatus \<Rightarrow> string \<Rightarrow> nat \<Rightarrow> LinkEntry \<Rightarrow> LinkEntry" where
  "push_disposition e status reason cap entry =
     (let disposition = \<lparr>dp_observation = ev_observation e, dp_source = ev_source e,
            dp_publisher = ev_publisher e, dp_worker_boot = ev_worker_boot e, dp_kind = ev_kind e,
            dp_direction = ev_direction e, dp_claim = ev_claim e, dp_class = ev_class e,
            dp_status = status, dp_precedence = evidence_precedence (ev_kind e),
            dp_counted = False, dp_reason = reason\<rparr>;
          dispositions = disposition # le_dispositions entry
      in entry\<lparr>le_dispositions := (if cap = 0 then [] else take cap dispositions)\<rparr>)"

definition erase_observation ::
    "EvidenceRecord \<Rightarrow> 'a EngineStore_scheme \<Rightarrow> 'a EngineStore_scheme" where
  "erase_observation e store =
     (if map_of (st_observations store) (ev_observation e) = Some (ev_key e)
      then store\<lparr>st_observations := AList.delete (ev_observation e) (st_observations store)\<rparr>
      else store)"

definition push_history :: "StateHistoryEntry \<Rightarrow> nat \<Rightarrow> LinkStateRecord \<Rightarrow> LinkStateRecord" where
  "push_history history cap r =
     (if cap = 0 then r
      else let entries = lr_history r @ [history]
           in r\<lparr>lr_history := (if length entries > cap then drop (length entries - cap) entries
                              else entries)\<rparr>)"

section \<open>Authorization\<close>

definition authorize ::
    "'a EngineStore_scheme \<Rightarrow> PublisherId \<Rightarrow> WorkerBootId \<Rightarrow> SourceId \<Rightarrow> CoordinatorEpoch \<Rightarrow>
     CoordinatorEpoch \<Rightarrow> LinkId \<Rightarrow> TopologyBinding \<Rightarrow> OutcomeCode \<times> string" where
  "authorize store publisher worker_boot source request_epoch engine_epoch link binding =
     (case find_publisher publisher store of
        None \<Rightarrow> (UnauthorizedPublisher, ''publisher is not registered with this engine'')
      | Some authority \<Rightarrow>
          if request_epoch \<noteq> engine_epoch \<or> pa_epoch authority \<noteq> engine_epoch
          then (StaleCoordinatorEpoch, ''coordinator epoch '' @ gen_to_string request_epoch @
            '' is not the current epoch '' @ gen_to_string engine_epoch)
          else if pa_worker_boot authority \<noteq> worker_boot
          then (OutcomeCode.StaleAuthority, ''worker boot '' @ id_value worker_boot @
            '' was superseded by '' @ id_value (pa_worker_boot authority))
          else if pa_status authority = Fenced
          then (OutcomeCode.StaleAuthority, ''publisher incarnation is fenced'')
          else if pa_status authority = AuthorityStatus.Superseded
          then (OutcomeCode.StaleAuthority, ''publisher incarnation was superseded by a newer boot'')
          else if pa_status authority = EpochSuperseded
          then (StaleCoordinatorEpoch,
            ''publisher incarnation belongs to a superseded coordinator epoch'')
          else if valid source \<and> valid (pa_source authority) \<and> source \<noteq> pa_source authority
          then (UnauthorizedScope, ''source '' @ id_value source @
            '' is not the registered source of publisher '' @ id_value publisher)
          else if valid (sc_fabric (pa_scope authority)) \<and> valid (tb_fabric binding) \<and>
            sc_fabric (pa_scope authority) \<noteq> tb_fabric binding
          then (UnauthorizedScope, ''publisher authority does not cover fabric '' @
            id_value (tb_fabric binding))
          else if \<not> covers (pa_scope authority) link
          then (UnauthorizedScope, ''publisher authority does not cover link '' @ id_value link)
          else (Committed, []))"

section \<open>Two phase commit\<close>

record PreparedCommit =
  pc_ok :: bool
  pc_code :: OutcomeCode
  pc_detail :: string
  pc_resolution :: Resolution
  pc_effective_trigger :: TransitionTrigger
  pc_target_state :: LinkOperationalState
  pc_state_changed :: bool

definition class_is_decisive :: "StateResultClass \<Rightarrow> bool" where
  "class_is_decisive c \<longleftrightarrow>
     c \<noteq> Conflicted \<and> c \<noteq> StateResultClass.RevalidationRequired \<and> c \<noteq> AuthoritativeUnknown \<and>
     c \<noteq> StateResultClass.Retired"

definition effective_trigger :: "StateResultClass \<Rightarrow> TransitionTrigger \<Rightarrow> TransitionTrigger" where
  "effective_trigger c trigger =
     (if class_is_decisive c then EvidenceResolution
      else if c = AuthoritativeUnknown then EvidenceResolution
      else trigger)"

definition prepare_commit ::
    "LinkStateGeneration \<Rightarrow> LinkEntry \<Rightarrow> EvidenceRecord list \<Rightarrow> TransitionTrigger \<Rightarrow> PreparedCommit" where
  "prepare_commit global_state_generation entry prospective trigger =
     (let resolution = resolve_link_state prospective (le_record entry);
          effective = effective_trigger (rs_result_class resolution) trigger;
          target = rs_state resolution;
          state = lr_state (le_record entry);
          prepared = \<lparr>pc_ok = False, pc_code = Committed, pc_detail = [],
            pc_resolution = resolution, pc_effective_trigger = effective,
            pc_target_state = target, pc_state_changed = False\<rparr>
      in if state = LinkOperationalState.Retired
         then prepared\<lparr>pc_code := RetiredLink,
                pc_detail := ''link state record is retired and terminal''\<rparr>
         else (case evaluate_transition state target effective of
                 Legal \<Rightarrow>
                   if next_gen (lr_state_generation (le_record entry)) = None \<or>
                      next_gen global_state_generation = None
                   then prepared\<lparr>pc_state_changed := True, pc_code := ResourceLimit,
                          pc_detail := ''state generation counter is exhausted''\<rparr>
                   else prepared\<lparr>pc_ok := True, pc_state_changed := True\<rparr>
               | SameState \<Rightarrow> prepared\<lparr>pc_ok := True\<rparr>
               | FromRetired \<Rightarrow> prepared\<lparr>pc_code := RetiredLink,
                   pc_detail := ''retired link state records never return to a live state''\<rparr>
               | RetirementRequired \<Rightarrow> prepared\<lparr>pc_code := InvalidTransition,
                   pc_detail := ''only an explicit retirement may retire a link state record''\<rparr>
               | _ \<Rightarrow> prepared\<lparr>pc_code := InvalidTransition,
                   pc_detail := ''transition '' @ to_string_state state @ '' -> '' @
                     to_string_state target @ '' is not permitted for trigger '' @
                     to_string_trigger effective\<rparr>))"

text \<open>The part of \<^verbatim>\<open>commit_prepared\<close> before the generations advance.\<close>

definition apply_resolution ::
    "Resolution \<Rightarrow> PublicationId \<Rightarrow> PublisherId \<Rightarrow> LinkEntry \<Rightarrow> LinkEntry" where
  "apply_resolution resolution publication publisher entry =
     entry\<lparr>le_conflicted := rs_conflicted resolution,
           le_synthetic_backed := rs_synthetic_backed resolution,
           le_record := (le_record entry)
             \<lparr>lr_provenance_digest := digest_evidence_set (le_current entry),
              lr_last_publication := publication, lr_last_publisher := publisher,
              lr_result_class := rs_result_class resolution,
              lr_degradation_cause := rs_cause resolution\<rparr>\<rparr>"

definition history_of ::
    "PreparedCommit \<Rightarrow> PublicationId \<Rightarrow> PublisherId \<Rightarrow> LinkStateRecord \<Rightarrow> StateHistoryEntry" where
  "history_of prepared publication publisher r =
     \<lparr>hy_state_generation = lr_state_generation r, hy_from_state = lr_state r,
      hy_to_state = pc_target_state prepared, hy_trigger = pc_effective_trigger prepared,
      hy_result_class = rs_result_class (pc_resolution prepared),
      hy_cause = rs_cause (pc_resolution prepared), hy_publication = publication,
      hy_publisher = publisher, hy_evidence_generation = lr_evidence_generation r,
      hy_topology_generation = tb_topology_generation (lr_binding r), hy_outcome = Committed\<rparr>"

definition stamp_transition :: "OutcomeCode \<Rightarrow> LinkStateRecord \<Rightarrow> LinkStateRecord" where
  "stamp_transition code r =
     r\<lparr>lr_last_transition :=
         from_validated (transition_id_for (tb_link (lr_binding r)) (lr_state_generation r)),
       lr_last_outcome := code\<rparr>"

definition count_transition :: "Impl \<Rightarrow> Impl" where
  "count_transition impl =
     impl\<lparr>im_counters := (im_counters impl)\<lparr>es_transitions := es_transitions (im_counters impl) + 1\<rparr>\<rparr>"

definition commit_prepared ::
    "PreparedCommit \<Rightarrow> PublicationId \<Rightarrow> PublisherId \<Rightarrow> Impl \<Rightarrow> LinkEntry \<Rightarrow> Impl \<times> LinkEntry" where
  "commit_prepared prepared publication publisher impl entry =
     (let entry0 = apply_resolution (pc_resolution prepared) publication publisher entry;
          r0 = le_record entry0;
          previous = lr_state r0;
          target = pc_target_state prepared
      in if pc_state_changed prepared then
           (case advance (lr_state_generation r0) of
              (_, False) \<Rightarrow> (impl, entry0)
            | (sg, True) \<Rightarrow>
                (let r1 = r0\<lparr>lr_state_generation := sg\<rparr> in
                 case advance (im_global_state_generation impl) of
                   (_, False) \<Rightarrow> (impl, entry0\<lparr>le_record := r1\<rparr>)
                 | (gsg, True) \<Rightarrow>
                     (let r2 = r1\<lparr>lr_state := target,
                            lr_ever_established :=
                              (if target \<noteq> LinkOperationalState.Unknown \<and>
                                  target \<noteq> LinkOperationalState.RevalidationRequired
                               then True else lr_ever_established r1)\<rparr>;
                          r3 = push_history (history_of prepared publication publisher r0)
                                 (cf_max_history_per_link (im_config impl)) r2
                      in (count_transition (reindex_state (tb_link (lr_binding r3)) previous target
                            (impl\<lparr>im_global_state_generation := gsg\<rparr>)),
                          entry0\<lparr>le_record := stamp_transition (pc_code prepared) r3\<rparr>))))
         else (impl, entry0\<lparr>le_record :=
                 stamp_transition (pc_code prepared) (r0\<lparr>lr_state := target\<rparr>)\<rparr>))"

text \<open>\<^verbatim>\<open>recompute_link\<close> reports its code and whether the state changed.\<close>

definition recompute_link ::
    "TransitionTrigger \<Rightarrow> PublicationId \<Rightarrow> PublisherId \<Rightarrow> Impl \<Rightarrow> LinkEntry \<Rightarrow>
     (OutcomeCode \<times> bool) \<times> Impl \<times> LinkEntry" where
  "recompute_link trigger publication publisher impl entry =
     (let prepared = prepare_commit (im_global_state_generation impl) entry (le_current entry) trigger
      in if \<not> pc_ok prepared then ((pc_code prepared, False), impl, entry)
         else ((Committed, pc_state_changed prepared),
               commit_prepared prepared publication publisher impl entry))"

section \<open>Steps shared by the operations\<close>

text \<open>
  The erase loop over \<^verbatim>\<open>entry.current\<close>: every record that satisfies the predicate leaves a
  disposition, releases its observation identity and is erased; the others stay, in order.
\<close>

definition drop_evidence ::
    "(EvidenceRecord \<Rightarrow> bool) \<Rightarrow> (EvidenceRecord \<Rightarrow> EvidenceStatus) \<Rightarrow> (EvidenceRecord \<Rightarrow> string) \<Rightarrow>
     Impl \<Rightarrow> LinkEntry \<Rightarrow> Impl \<times> LinkEntry" where
  "drop_evidence p status reason impl entry =
     (let dropped = filter p (le_current entry);
          cap = cf_max_history_per_link (im_config impl)
      in (fold erase_observation dropped impl,
          (fold (\<lambda>e. push_disposition e (status e) (reason e) cap) dropped entry)
            \<lparr>le_current := filter (\<lambda>e. \<not> p e) (le_current entry)\<rparr>))"

definition clear_evidence ::
    "EvidenceStatus \<Rightarrow> string \<Rightarrow> Impl \<Rightarrow> LinkEntry \<Rightarrow> Impl \<times> LinkEntry" where
  "clear_evidence status reason = drop_evidence (\<lambda>_. True) (\<lambda>_. status) (\<lambda>_. reason)"

definition stamp_global :: "Impl \<Rightarrow> LinkEntry \<Rightarrow> LinkEntry" where
  "stamp_global impl entry =
     entry\<lparr>le_record := (le_record entry)\<lparr>lr_global_generation := im_global_generation impl\<rparr>\<rparr>"

text \<open>The short circuit \<^verbatim>\<open>!advance(evidence_generation) || !advance(global_generation)\<close> of the
  invalidation paths; the flag is the success.  The record is stamped afterwards.\<close>

definition advance_evidence_global :: "Impl \<Rightarrow> LinkEntry \<Rightarrow> bool \<times> Impl \<times> LinkEntry" where
  "advance_evidence_global impl entry =
     (case advance (lr_evidence_generation (le_record entry)) of
        (_, False) \<Rightarrow> (False, impl, entry)
      | (eg, True) \<Rightarrow>
          (let entry' = entry\<lparr>le_record := (le_record entry)\<lparr>lr_evidence_generation := eg\<rparr>\<rparr> in
           case advance (im_global_generation impl) of
             (_, False) \<Rightarrow> (False, impl, entry')
           | (gg, True) \<Rightarrow> (True, impl\<lparr>im_global_generation := gg\<rparr>, entry')))"

text \<open>The publication paths advance the global generation first.\<close>

definition advance_global_evidence :: "Impl \<Rightarrow> LinkEntry \<Rightarrow> bool \<times> Impl \<times> LinkEntry" where
  "advance_global_evidence impl entry =
     (case advance (im_global_generation impl) of
        (_, False) \<Rightarrow> (False, impl, entry)
      | (gg, True) \<Rightarrow>
          (let impl' = impl\<lparr>im_global_generation := gg\<rparr> in
           case advance (lr_evidence_generation (le_record entry)) of
             (_, False) \<Rightarrow> (False, impl', entry)
           | (eg, True) \<Rightarrow>
               (True, impl', entry\<lparr>le_record := (le_record entry)\<lparr>lr_evidence_generation := eg\<rparr>\<rparr>)))"

definition minted_publication :: "string \<Rightarrow> Impl \<Rightarrow> PublicationId" where
  "minted_publication prefix impl =
     from_validated (publication_id_for prefix (gen_value (im_global_generation impl)))"

text \<open>What an invalidation path does after it removed evidence from a link: advance the generations
  and, when that succeeds, re-resolve; the entry is written back in every case.\<close>

definition invalidate_entry ::
    "string \<Rightarrow> TransitionTrigger \<Rightarrow> LinkId \<Rightarrow> Impl \<Rightarrow> LinkEntry \<Rightarrow> Impl" where
  "invalidate_entry prefix trigger link impl entry =
     (case advance_evidence_global impl entry of
        (False, impl', entry') \<Rightarrow> put_entry link entry' impl'
      | (True, impl', entry') \<Rightarrow>
          (case recompute_link trigger (minted_publication prefix impl') null_id impl'
                  (stamp_global impl' entry') of
             (_, impl'', entry'') \<Rightarrow> put_entry link entry'' impl''))"

end
