(* ===== verification/Engine_Topology.thy ===== *)
theory Engine_Topology
  imports Engine_Support
begin

text \<open>
  Structural operations (\<^verbatim>\<open>src/engine.cpp\<close>): binding a link, superseding its topology, retiring
  it, and the invalidation of dependents whose backing reference went stale.  Every operation maps
  the engine to the engine and the result the caller receives.
\<close>

record SupersedeTopologyRequest =
  su_link :: LinkId
  su_new_topology_generation :: TopologyGeneration
  su_replacement :: "TopologyBinding option"
  su_reason :: string

record RetireLinkRequest =
  rt_link :: LinkId
  rt_topology_generation :: TopologyGeneration
  rt_publication :: PublicationId
  rt_publisher :: PublisherId
  rt_worker_boot :: WorkerBootId
  rt_epoch :: CoordinatorEpoch
  rt_reason :: string

definition index_dependents ::
    "TopologyBinding \<Rightarrow> bool \<Rightarrow> 'a EngineStore_scheme \<Rightarrow> 'a EngineStore_scheme" where
  "index_dependents binding add store =
     store\<lparr>st_dependents :=
       fold (\<lambda>backing. (if add then bucket_insert else bucket_erase) (br_link backing) (tb_link binding))
         (tb_backing_links binding) (st_dependents store)\<rparr>"

text \<open>The loop body of \<^verbatim>\<open>invalidate_stale_dependents\<close>.\<close>

definition invalidate_dependent :: "LinkId \<Rightarrow> Impl \<Rightarrow> Impl" where
  "invalidate_dependent dependent impl =
     (case find_link dependent impl of
        None \<Rightarrow> impl
      | Some entry \<Rightarrow>
          if lr_state (le_record entry) = LinkOperationalState.Retired \<or> le_current entry = []
          then impl
          else (case backing_stale impl (lr_binding (le_record entry)) of
                  None \<Rightarrow> impl
                | Some reason \<Rightarrow>
                    (case clear_evidence EvidenceStatus.StaleTopology reason impl entry of
                       (impl', entry') \<Rightarrow>
                         invalidate_entry ''backing'' TopologyInvalidation dependent impl' entry')))"

definition invalidate_stale_dependents :: "LinkId \<Rightarrow> Impl \<Rightarrow> Impl" where
  "invalidate_stale_dependents backing_link impl =
     fold invalidate_dependent (std_sort (<) (bucket (st_dependents impl) backing_link)) impl"

text \<open>Whether a current record still describes the structure of a binding.\<close>

definition describes_binding :: "TopologyBinding \<Rightarrow> EvidenceRecord \<Rightarrow> bool" where
  "describes_binding binding e \<longleftrightarrow>
     ev_topology_generation e = tb_topology_generation binding \<and>
     (if valid (ev_endpoint e) then
        if ev_endpoint e = eb_local (tb_endpoints binding)
        then ev_endpoint_generation e = eb_local_generation (tb_endpoints binding)
        else if valid (eb_remote (tb_endpoints binding)) \<and>
                ev_endpoint e = eb_remote (tb_endpoints binding)
        then ev_endpoint_generation e = eb_remote_generation (tb_endpoints binding)
        else False
      else is_zero (ev_endpoint_generation e))"

definition raise_topology :: "TopologyGeneration \<Rightarrow> Impl \<Rightarrow> Impl" where
  "raise_topology generation impl =
     (if im_topology_generation impl < generation
      then impl\<lparr>im_topology_generation := generation\<rparr> else impl)"

definition rebind_entry :: "TopologyBinding \<Rightarrow> Impl \<Rightarrow> LinkEntry \<Rightarrow> Impl \<times> LinkEntry" where
  "rebind_entry binding impl entry =
     (let old = lr_binding (le_record entry)
      in (index_dependents binding True (index_endpoints binding True
            (index_dependents old False (index_endpoints old False impl))),
          entry\<lparr>le_record := (le_record entry)\<lparr>lr_binding := binding\<rparr>\<rparr>))"

definition apply_rebinding ::
    "LinkId \<Rightarrow> TopologyBinding \<Rightarrow> string \<Rightarrow> Impl \<Rightarrow> LinkEntry \<Rightarrow> Impl \<times> LinkMutationResult" where
  "apply_rebinding link binding reason impl entry =
     (let previous_generation = tb_topology_generation (lr_binding (le_record entry));
          (impl1, entry1) = drop_evidence (\<lambda>e. \<not> describes_binding binding e)
            (\<lambda>_. EvidenceStatus.StaleTopology)
            (\<lambda>e. ''bound to topology generation '' @ gen_to_string (ev_topology_generation e) @
               '', current generation is '' @ gen_to_string (tb_topology_generation binding))
            impl entry;
          (impl2, entry2) = rebind_entry binding impl1 entry1
      in case advance_evidence_global impl2 entry2 of
           (False, impl3, entry3) \<Rightarrow>
             (put_entry link entry3 impl3,
              failed ResourceLimit ''generation counter is exhausted'')
         | (True, impl3, entry3) \<Rightarrow>
             (let impl4 = raise_topology (tb_topology_generation binding) impl3 in
              case recompute_link TopologyInvalidation (minted_publication ''topology'' impl4) null_id
                     impl4 (stamp_global impl3 entry3) of
                ((code, state_changed), impl5, entry5) \<Rightarrow>
                  let impl6 = put_entry link entry5 impl5 in
                  if code \<noteq> Committed
                  then (impl6, failed code ''topology supersession could not be committed'')
                  else (invalidate_stale_dependents (tb_link (lr_binding (le_record entry5))) impl6,
                        result_for Committed
                          (reason @ '' (topology generation '' @ gen_to_string previous_generation @
                           '' -> '' @ gen_to_string (tb_topology_generation binding) @ '')'')
                          entry5 state_changed)))"

definition fresh_entry :: "TopologyBinding \<Rightarrow> LinkEntry" where
  "fresh_entry binding =
     \<lparr>le_record = (new_record binding)\<lparr>lr_record := from_validated (record_id_for (tb_link binding)),
        lr_durable := True, lr_provenance_digest := digest_evidence_set []\<rparr>,
      le_current = [], le_dispositions = [], le_conflicted = False, le_synthetic_backed = False\<rparr>"

definition bind_new_link :: "TopologyBinding \<Rightarrow> Impl \<Rightarrow> Impl \<times> LinkMutationResult" where
  "bind_new_link binding impl =
     (if length (st_links impl) \<ge> cf_max_links (im_config impl)
      then (impl, failed ResourceLimit ''link capacity of this engine is exhausted'')
      else
        (case advance (im_global_generation impl) of
           (_, False) \<Rightarrow> (impl, failed ResourceLimit ''global generation counter is exhausted'')
         | (gg, True) \<Rightarrow>
             (let impl' = impl\<lparr>im_global_generation := gg\<rparr>;
                  link = tb_link binding;
                  entry = stamp_global impl' (fresh_entry binding);
                  entry' = entry\<lparr>le_record := (le_record entry)\<lparr>lr_last_transition :=
                     from_validated (transition_id_for link (lr_state_generation (le_record entry)))\<rparr>\<rparr>
              in (raise_topology (tb_topology_generation binding)
                   (index_dependents binding True
                   (index_endpoints binding True
                   (index_link link LinkOperationalState.Unknown
                   (put_entry link entry' impl')))),
                  result_for Committed [] entry' False))))"

definition bind_link :: "TopologyBinding \<Rightarrow> Impl \<Rightarrow> Impl \<times> LinkMutationResult" where
  "bind_link requested impl =
     (let binding = normalize_binding requested in
      case valid_binding binding of
        Some error \<Rightarrow> (impl, failed MalformedRequest error)
      | None \<Rightarrow>
          (case find_link (tb_link binding) impl of
             None \<Rightarrow> bind_new_link binding impl
           | Some entry \<Rightarrow>
               if lr_state (le_record entry) = LinkOperationalState.Retired
               then (impl, failed RetiredLink
                 (''link state record is retired; structural rebinding requires a new link '' @
                  ''identity or an explicit topology supersession''))
               else
                 let current = tb_topology_generation (lr_binding (le_record entry)) in
                 if tb_topology_generation binding < current
                 then (impl, failed OutcomeCode.StaleTopology
                   (''topology generation '' @ gen_to_string (tb_topology_generation binding) @
                    '' is older than the bound generation '' @ gen_to_string current))
                 else if tb_topology_generation binding = current
                 then (if same_structure (lr_binding (le_record entry)) binding
                       then (impl, result_for Idempotent [] entry False)
                       else (impl, failed MalformedRequest
                         ''structural change requires a new topology generation''))
                 else apply_rebinding (tb_link binding) binding ''topology generation advanced''
                        impl entry))"

definition supersede_topology :: "SupersedeTopologyRequest \<Rightarrow> Impl \<Rightarrow> Impl \<times> LinkMutationResult" where
  "supersede_topology request impl =
     (if \<not> valid (su_link request)
      then (impl, failed MalformedRequest ''link identity is malformed'')
      else case find_link (su_link request) impl of
        None \<Rightarrow> (impl, failed UnknownLink ''link is not bound in this engine'')
      | Some entry \<Rightarrow>
          if lr_state (le_record entry) = LinkOperationalState.Retired
          then (impl, failed RetiredLink ''link state record is retired and terminal'')
          else if \<not> tb_topology_generation (lr_binding (le_record entry)) <
                     su_new_topology_generation request
          then (impl, failed OutcomeCode.StaleTopology
            (''new topology generation '' @ gen_to_string (su_new_topology_generation request) @
             '' must be greater than the bound generation '' @
             gen_to_string (tb_topology_generation (lr_binding (le_record entry)))))
          else
            let checked = (case su_replacement request of
                  None \<Rightarrow> Inr (lr_binding (le_record entry))
                | Some replacement \<Rightarrow>
                    (let binding = normalize_binding replacement in
                     case valid_binding binding of
                       Some error \<Rightarrow> Inl error
                     | None \<Rightarrow>
                         if tb_link binding \<noteq> su_link request
                         then Inl ''replacement binding describes a different link identity''
                         else Inr binding))
            in case checked of
                 Inl error \<Rightarrow> (impl, failed MalformedRequest error)
               | Inr binding \<Rightarrow>
                   apply_rebinding (su_link request)
                     (binding\<lparr>tb_topology_generation := su_new_topology_generation request\<rparr>)
                     (''topology supersession'' @
                        (if su_reason request \<noteq> [] then '': '' @ su_reason request else []))
                     impl entry)"

text \<open>The short circuit of four generation advances of \<^verbatim>\<open>retire_link\<close>.\<close>

definition advance_all :: "Impl \<Rightarrow> LinkEntry \<Rightarrow> bool \<times> Impl \<times> LinkEntry" where
  "advance_all impl entry =
     (case advance_evidence_global impl entry of
        (False, impl1, entry1) \<Rightarrow> (False, impl1, entry1)
      | (True, impl1, entry1) \<Rightarrow>
          (case advance (lr_state_generation (le_record entry1)) of
             (_, False) \<Rightarrow> (False, impl1, entry1)
           | (sg, True) \<Rightarrow>
               (let entry2 = entry1\<lparr>le_record := (le_record entry1)\<lparr>lr_state_generation := sg\<rparr>\<rparr> in
                case advance (im_global_state_generation impl1) of
                  (_, False) \<Rightarrow> (False, impl1, entry2)
                | (gsg, True) \<Rightarrow> (True, impl1\<lparr>im_global_state_generation := gsg\<rparr>, entry2))))"

definition retired_record ::
    "RetireLinkRequest \<Rightarrow> nat \<Rightarrow> LinkEntry \<Rightarrow> LinkEntry" where
  "retired_record request cap entry =
     (let r = (le_record entry)\<lparr>lr_provenance_digest := digest_evidence_set (le_current entry)\<rparr>;
          history = \<lparr>hy_state_generation = lr_state_generation r, hy_from_state = lr_state r,
            hy_to_state = LinkOperationalState.Retired, hy_trigger = Retirement,
            hy_result_class = StateResultClass.Retired, hy_cause = NoCause,
            hy_publication = rt_publication request, hy_publisher = rt_publisher request,
            hy_evidence_generation = lr_evidence_generation r,
            hy_topology_generation = tb_topology_generation (lr_binding r),
            hy_outcome = Committed\<rparr>;
          r' = (push_history history cap r)
            \<lparr>lr_state := LinkOperationalState.Retired, lr_result_class := StateResultClass.Retired,
             lr_degradation_cause := NoCause, lr_ever_established := False,
             lr_last_publication := rt_publication request,
             lr_last_publisher := rt_publisher request\<rparr>
      in entry\<lparr>le_record := stamp_transition Committed r', le_conflicted := False\<rparr>)"

definition retire_commit ::
    "RetireLinkRequest \<Rightarrow> Impl \<Rightarrow> LinkEntry \<Rightarrow> Impl \<times> LinkMutationResult" where
  "retire_commit request impl entry =
     (let link = rt_link request;
          previous = lr_state (le_record entry);
          (impl1, entry1) = clear_evidence EvidenceStatus.Superseded
            ''link state record retired by explicit retirement'' impl entry
      in case advance_all impl1 entry1 of
           (False, impl2, entry2) \<Rightarrow>
             (put_entry link entry2 impl2, failed ResourceLimit ''generation counter is exhausted'')
         | (True, impl2, entry2) \<Rightarrow>
             (let entry3 = retired_record request (cf_max_history_per_link (im_config impl2))
                    (stamp_global impl2 entry2);
                  bound = tb_link (lr_binding (le_record entry3));
                  impl3 = count_transition
                    (reindex_state bound previous LinkOperationalState.Retired impl2);
                  impl4 = invalidate_stale_dependents bound (put_entry link entry3 impl3);
                  final = (case find_link link impl4 of Some e \<Rightarrow> e | None \<Rightarrow> entry3)
              in (impl4,
                  result_for Committed
                    (''link state record retired'' @
                       (if rt_reason request \<noteq> [] then '': '' @ rt_reason request else []))
                    final True)))"

definition retire_link :: "RetireLinkRequest \<Rightarrow> Impl \<Rightarrow> Impl \<times> LinkMutationResult" where
  "retire_link request impl =
     (if \<not> valid (rt_link request) \<or> \<not> valid (rt_publication request)
      then (impl, failed MalformedRequest ''link identity and publication identity are required'')
      else case find_link (rt_link request) impl of
        None \<Rightarrow> (impl, failed UnknownLink ''link is not bound in this engine'')
      | Some entry \<Rightarrow>
          (case authorize impl (rt_publisher request) (rt_worker_boot request) null_id
                  (rt_epoch request) (im_epoch impl) (rt_link request) (lr_binding (le_record entry)) of
             (authorized, error) \<Rightarrow>
               if authorized \<noteq> Committed then (impl, failed authorized error)
               else if lr_state (le_record entry) = LinkOperationalState.Retired
               then (impl, result_for Idempotent ''link state record is already retired'' entry False)
               else if rt_topology_generation request < tb_topology_generation (lr_binding (le_record entry))
               then (impl, failed OutcomeCode.StaleTopology
                 ''retirement refers to an older topology generation'')
               else if evaluate_transition (lr_state (le_record entry)) LinkOperationalState.Retired
                         Retirement \<noteq> Legal
               then (impl, failed InvalidTransition
                 ''retirement is not permitted from the current state'')
               else retire_commit request impl entry))"

text \<open>Batches run one request after the other; an oversized batch runs none.\<close>

fun run_each :: "('r \<Rightarrow> Impl \<Rightarrow> Impl \<times> 'o) \<Rightarrow> 'r list \<Rightarrow> Impl \<Rightarrow> Impl \<times> 'o list" where
  "run_each f [] impl = (impl, [])"
| "run_each f (r # rs) impl =
     (case f r impl of (impl', result) \<Rightarrow>
        case run_each f rs impl' of (impl'', results) \<Rightarrow> (impl'', result # results))"

definition run_batch ::
    "('r \<Rightarrow> Impl \<Rightarrow> Impl \<times> LinkMutationResult) \<Rightarrow> 'r list \<Rightarrow> Impl \<Rightarrow> Impl \<times> LinkMutationResult list" where
  "run_batch f requests impl =
     (if length requests > cf_max_batch_size (im_config impl)
      then (impl, [failed ResourceLimit ''batch size exceeds the limit''])
      else run_each f requests impl)"

definition bind_links :: "TopologyBinding list \<Rightarrow> Impl \<Rightarrow> Impl \<times> LinkMutationResult list" where
  "bind_links = run_batch bind_link"

definition supersede_topology_batch ::
    "SupersedeTopologyRequest list \<Rightarrow> Impl \<Rightarrow> Impl \<times> LinkMutationResult list" where
  "supersede_topology_batch = run_batch supersede_topology"

end
