(* ===== verification/Engine_Authority.thy ===== *)
theory Engine_Authority
  imports Engine_Topology
begin

text \<open>
  Publisher authority operations (\<^verbatim>\<open>src/engine.cpp\<close>): registration and supersession of worker
  incarnations, fencing, coordinator epochs, and reconciliation.
\<close>

record InvalidatePublisherRequest =
  iv_publisher :: PublisherId
  iv_worker_boot :: "WorkerBootId option"
  iv_epoch :: CoordinatorEpoch
  iv_reason :: string

record AdvanceEpochRequest =
  ae_new_epoch :: CoordinatorEpoch
  ae_reason :: string

definition boot_is_fenced :: "PublisherId \<Rightarrow> WorkerBootId \<Rightarrow> 'a EngineStore_scheme \<Rightarrow> bool" where
  "boot_is_fenced publisher boot store \<longleftrightarrow> bucket_mem (st_fenced_boots store) publisher boot"

text \<open>\<^verbatim>\<open>operator[]\<close> creates the registry when it is missing; the oldest boots leave first.\<close>

definition remember_fenced_boot :: "PublisherId \<Rightarrow> WorkerBootId \<Rightarrow> Impl \<Rightarrow> Impl" where
  "remember_fenced_boot publisher boot impl =
     (let registry = bucket (st_fenced_boots impl) publisher;
          cap = cf_fence_retention_per_publisher (im_config impl);
          registry' = (if boot \<in> set registry then registry
                       else let longer = registry @ [boot] in drop (length longer - cap) longer)
      in impl\<lparr>st_fenced_boots := AList.update publisher registry' (st_fenced_boots impl)\<rparr>)"

definition set_authority_status :: "PublisherId \<Rightarrow> AuthorityStatus \<Rightarrow> Impl \<Rightarrow> Impl" where
  "set_authority_status publisher status impl =
     (case find_publisher publisher impl of
        None \<Rightarrow> impl
      | Some authority \<Rightarrow>
          impl\<lparr>st_publishers := AList.update publisher (authority\<lparr>pa_status := status\<rparr>)
             (st_publishers impl)\<rparr>)"

definition push_fence :: "PublisherFence \<Rightarrow> Impl \<Rightarrow> Impl" where
  "push_fence fence impl =
     (let fences = st_fences impl @ [fence];
          fence_cap = cf_max_publishers (im_config impl)
      in impl\<lparr>st_fences := (if length fences > fence_cap
           then drop (length fences - fence_cap) fences else fences)\<rparr>)"

text \<open>The loop body over the links of the fenced publisher.\<close>

definition fence_link ::
    "PublisherId \<Rightarrow> WorkerBootId \<Rightarrow> bool \<Rightarrow> string \<Rightarrow> LinkId \<Rightarrow> Impl \<Rightarrow> Impl" where
  "fence_link publisher boot all_boots reason link impl =
     (case find_link link impl of
        None \<Rightarrow> impl
      | Some entry \<Rightarrow>
          let owned = (\<lambda>e. ev_publisher e = publisher \<and> (all_boots \<or> ev_worker_boot e = boot)) in
          if \<not> list_ex owned (le_current entry) then impl
          else (case drop_evidence owned (\<lambda>_. EvidenceStatus.StaleAuthority)
                       (\<lambda>e. reason @ '' (worker boot '' @ id_value (ev_worker_boot e) @ '')'')
                       impl entry of
                  (impl', entry') \<Rightarrow>
                    invalidate_entry ''fence'' PublisherFenced link impl' entry'))"

definition owns_evidence_on :: "PublisherId \<Rightarrow> LinkId \<Rightarrow> 'a EngineStore_scheme \<Rightarrow> bool" where
  "owns_evidence_on publisher link store \<longleftrightarrow>
     (case find_link link store of
        None \<Rightarrow> False
      | Some entry \<Rightarrow> list_ex (\<lambda>e. ev_publisher e = publisher) (le_current entry))"

definition forget_links :: "PublisherId \<Rightarrow> LinkId list \<Rightarrow> Impl \<Rightarrow> Impl" where
  "forget_links publisher links impl =
     impl\<lparr>st_publisher_links :=
       fold (\<lambda>link. bucket_erase publisher link)
         (filter (\<lambda>link. \<not> owns_evidence_on publisher link impl) links) (st_publisher_links impl)\<rparr>"

definition fence_publisher ::
    "PublisherId \<Rightarrow> WorkerBootId \<Rightarrow> bool \<Rightarrow> AuthorityStatus \<Rightarrow> string \<Rightarrow> Impl \<Rightarrow> Impl" where
  "fence_publisher publisher boot all_boots status reason impl =
     (let impl1 = (if valid boot then remember_fenced_boot publisher boot impl else impl);
          impl2 = set_authority_status publisher status impl1;
          impl3 = push_fence \<lparr>fn_publisher = publisher, fn_worker_boot = boot,
                    fn_epoch = im_epoch impl2, fn_reason = reason\<rparr> impl2;
          links = std_sort (<) (bucket (st_publisher_links impl3) publisher);
          impl4 = fold (fence_link publisher boot all_boots reason) links impl3
      in forget_links publisher links impl4)"

definition fresh_authority ::
    "PublisherRegistration \<Rightarrow> AuthorityScope \<Rightarrow> CoordinatorEpoch \<Rightarrow> PublisherGeneration \<Rightarrow>
     PublisherAuthority" where
  "fresh_authority registration scope epoch generation =
     \<lparr>pa_publisher = rg_publisher registration, pa_worker_boot = rg_worker_boot registration,
      pa_source = rg_source registration, pa_scope = scope, pa_epoch = epoch,
      pa_generation = generation, pa_status = Active, pa_live_evidence = 0,
      pa_accepted_publications = 0, pa_rejected_publications = 0\<rparr>"

definition put_authority :: "PublisherId \<Rightarrow> PublisherAuthority \<Rightarrow> Impl \<Rightarrow> Impl" where
  "put_authority publisher authority impl =
     impl\<lparr>st_publishers := AList.update publisher authority (st_publishers impl)\<rparr>"

definition register_publisher :: "PublisherRegistration \<Rightarrow> Impl \<Rightarrow> Impl \<times> LinkMutationResult" where
  "register_publisher registration impl =
     (let publisher = rg_publisher registration;
          boot = rg_worker_boot registration;
          (scope, normalized) = normalize (rg_scope registration)
      in if \<not> valid publisher \<or> \<not> valid boot \<or> \<not> valid (rg_source registration)
         then (impl, failed MalformedRequest ''publisher, worker boot and source identities are required'')
         else if \<not> normalized
         then (impl, failed ResourceLimit
           ''authority scope is empty or exceeds the maximum number of links'')
         else if rg_epoch registration \<noteq> im_epoch impl
         then (impl, failed StaleCoordinatorEpoch
           (''registration epoch '' @ gen_to_string (rg_epoch registration) @
            '' is not the current coordinator epoch '' @ gen_to_string (im_epoch impl)))
         else if boot_is_fenced publisher boot impl
         then (impl, failed OutcomeCode.StaleAuthority
           (''worker boot '' @ id_value boot @
            '' was fenced and can never become active again; a restarted worker must present a '' @
            ''fresh boot identity''))
         else case find_publisher publisher impl of
           Some authority \<Rightarrow>
             if pa_worker_boot authority = boot then
               (case advance (pa_generation authority) of
                  (_, False) \<Rightarrow> (impl, failed ResourceLimit ''publisher generation is exhausted'')
                | (generation, True) \<Rightarrow>
                    (put_authority publisher
                       (authority\<lparr>pa_generation := generation, pa_scope := scope,
                          pa_source := rg_source registration\<rparr>) impl,
                     plain_result Committed ''publisher incarnation refreshed''))
             else
               let impl' = fence_publisher publisher (pa_worker_boot authority) True
                     AuthorityStatus.Superseded (''superseded by worker boot '' @ id_value boot) impl
               in (case advance (pa_generation authority) of
                     (_, False) \<Rightarrow> (impl', failed ResourceLimit ''publisher generation is exhausted'')
                   | (generation, True) \<Rightarrow>
                       (put_authority publisher
                          (fresh_authority registration scope (im_epoch impl') generation) impl',
                        plain_result Committed
                          ''worker incarnation superseded; previous evidence is no longer current''))
         | None \<Rightarrow>
             if length (st_publishers impl) \<ge> cf_max_publishers (im_config impl)
             then (impl, failed ResourceLimit ''publisher capacity is exhausted'')
             else (put_authority publisher
                     (fresh_authority registration scope (im_epoch impl) (Gen 1)) impl,
                   plain_result Committed ''publisher incarnation registered''))"

definition invalidate_publisher ::
    "InvalidatePublisherRequest \<Rightarrow> Impl \<Rightarrow> Impl \<times> LinkMutationResult" where
  "invalidate_publisher request impl =
     (if \<not> valid (iv_publisher request)
      then (impl, failed MalformedRequest ''publisher identity is malformed'')
      else case find_publisher (iv_publisher request) impl of
        None \<Rightarrow> (impl, failed UnauthorizedPublisher ''publisher is not registered with this engine'')
      | Some authority \<Rightarrow>
          if iv_worker_boot request \<noteq> None \<and> iv_worker_boot request \<noteq> Some (pa_worker_boot authority)
          then (impl, failed OutcomeCode.StaleAuthority
            ''the requested worker boot was already superseded'')
          else if pa_status authority \<noteq> Active
          then (impl, plain_result Idempotent ''publisher incarnation is already fenced'')
          else if iv_epoch request \<noteq> im_epoch impl
          then (impl, failed StaleCoordinatorEpoch
            ''invalidation epoch is not the current coordinator epoch'')
          else (fence_publisher (iv_publisher request) (pa_worker_boot authority) True Fenced
                  (''publisher invalidated'' @
                     (if iv_reason request \<noteq> [] then '': '' @ iv_reason request else [])) impl,
                plain_result Committed
                  ''publisher incarnation fenced; its evidence is no longer current''))"

text \<open>The loop body over the publishers of an older epoch.\<close>

definition supersede_epoch :: "PublisherId \<Rightarrow> Impl \<Rightarrow> Impl" where
  "supersede_epoch publisher impl =
     (case find_publisher publisher impl of
        None \<Rightarrow> impl
      | Some authority \<Rightarrow>
          fence_publisher publisher (pa_worker_boot authority) True EpochSuperseded
            (''coordinator epoch advanced to '' @ gen_to_string (im_epoch impl)) impl)"

definition stale_publishers :: "Impl \<Rightarrow> PublisherId list" where
  "stale_publishers impl =
     std_sort (<) (map fst (filter (\<lambda>(_, authority). pa_epoch authority < im_epoch impl)
       (st_publishers impl)))"

definition advance_coordinator_epoch ::
    "AdvanceEpochRequest \<Rightarrow> Impl \<Rightarrow> Impl \<times> LinkMutationResult" where
  "advance_coordinator_epoch request impl =
     (if ae_new_epoch request < im_epoch impl
      then (impl, failed StaleGeneration
        (''coordinator epoch '' @ gen_to_string (ae_new_epoch request) @
         '' is older than the current epoch '' @ gen_to_string (im_epoch impl)))
      else if ae_new_epoch request = im_epoch impl
      then (impl, plain_result Idempotent ''coordinator epoch is already current'')
      else
        let impl1 = impl\<lparr>im_epoch := ae_new_epoch request\<rparr>;
            stale = stale_publishers impl1;
            impl2 = fold supersede_epoch stale impl1
        in (impl2, plain_result Committed
             (''coordinator epoch advanced to '' @ gen_to_string (im_epoch impl2) @ ''; '' @
              format_nat (length stale) @ '' publisher incarnations were superseded'')))"

section \<open>Reconciliation\<close>

text \<open>The loop body of \<^verbatim>\<open>reconcile\<close>, with the running number of state changes.\<close>

definition reconcile_link :: "LinkId \<Rightarrow> Impl \<times> nat \<Rightarrow> Impl \<times> nat" where
  "reconcile_link link acc =
     (case acc of (impl, changed) \<Rightarrow>
        case find_link link impl of
          None \<Rightarrow> acc
        | Some entry \<Rightarrow>
            if lr_state (le_record entry) = LinkOperationalState.Retired then acc
            else (case recompute_link EvidenceResolution (minted_publication ''reconcile'' impl)
                         null_id impl entry of
                    ((code, state_changed), impl', entry') \<Rightarrow>
                      (put_entry link entry' impl',
                       if code = Committed \<and> state_changed then Suc changed else changed)))"

definition reconcile :: "Impl \<Rightarrow> Impl \<times> Outcome" where
  "reconcile impl =
     (let links = std_sort (<) (map fst (st_links impl)) in
      case fold reconcile_link links (impl, 0) of
        (impl', changed) \<Rightarrow>
          (impl', make_outcome Committed (''reconciled '' @ format_nat (length links) @ '' links, '' @
             format_nat changed @ '' state changes'')))"

end
