(* ===== verification/Engine_Publish.thy ===== *)
theory Engine_Publish
  imports Engine_Authority
begin

text \<open>
  Evidence publication, withdrawal and explicit transitions (\<^verbatim>\<open>src/engine_publish.cpp\<close>).  The
  checks of an operation are one definition that yields the first refusal, in the order of the
  source; its commit is a second one.
\<close>

record PublishEvidenceRequest =
  pe_observation :: EvidenceRecord
  pe_expected_evidence_generation :: "EvidenceGeneration option"
  pe_expected_state_generation :: "LinkStateGeneration option"
  pe_publication :: PublicationId

record WithdrawEvidenceRequest =
  wd_key :: EvidenceKey
  wd_observation :: ObservationId
  wd_publisher :: PublisherId
  wd_worker_boot :: WorkerBootId
  wd_epoch :: CoordinatorEpoch
  wd_source_generation :: SourceGeneration
  wd_sequence :: u64
  wd_reason :: string

record TransitionStateRequest =
  ts_link :: LinkId
  ts_target :: LinkOperationalState
  ts_publication :: PublicationId
  ts_publisher :: PublisherId
  ts_worker_boot :: WorkerBootId
  ts_epoch :: CoordinatorEpoch
  ts_expected_state_generation :: "LinkStateGeneration option"
  ts_degradation_cause :: DegradationCause
  ts_reason :: string

record MarkRevalidationRequest =
  mk_link :: LinkId
  mk_publication :: PublicationId
  mk_publisher :: PublisherId
  mk_worker_boot :: WorkerBootId
  mk_epoch :: CoordinatorEpoch
  mk_expected_state_generation :: "LinkStateGeneration option"
  mk_reason :: string

definition validate_observation :: "EvidenceRecord \<Rightarrow> PublicationId \<Rightarrow> string option" where
  "validate_observation observation publication =
     (if \<not> valid publication then Some ''publication identity is required''
      else if \<not> valid (ev_link observation) \<or> \<not> valid (ev_source observation)
      then Some ''evidence key link and source identities are required''
      else if \<not> valid (ev_observation observation) then Some ''observation identity is required''
      else if \<not> valid (ev_publisher observation) \<or> \<not> valid (ev_worker_boot observation)
      then Some ''publisher and worker boot identities are required''
      else if ev_class observation = Unsupported
      then Some ''unsupported capability evidence cannot be published''
      else if ev_claim observation = EvidenceClaim.Degraded \<and>
              ev_degradation_cause observation = NoCause
      then Some ''a DEGRADED claim requires a named degradation cause''
      else if ev_claim observation \<noteq> EvidenceClaim.Degraded \<and>
              ev_degradation_cause observation \<noteq> NoCause
      then Some ''a degradation cause is only valid with a DEGRADED claim''
      else case validate_text (ev_detail observation) max_detail_length of
        Some error \<Rightarrow> Some error
      | None \<Rightarrow>
          if length (ev_metadata observation) > max_evidence_metadata_bytes
          then Some ''evidence metadata exceeds the maximum size''
          else None)"

definition find_slot :: "LinkEntry \<Rightarrow> EvidenceKey \<Rightarrow> EvidenceRecord option" where
  "find_slot entry key = find (\<lambda>e. ev_key e = key) (le_current entry)"

definition note_rejection :: "PublisherId \<Rightarrow> Impl \<Rightarrow> Impl" where
  "note_rejection publisher impl =
     (let impl' = (case find_publisher publisher impl of
            None \<Rightarrow> impl
          | Some authority \<Rightarrow> put_authority publisher
              (authority\<lparr>pa_rejected_publications := pa_rejected_publications authority + 1\<rparr>) impl)
      in impl'\<lparr>im_counters := (im_counters impl')
           \<lparr>es_rejected_publications := es_rejected_publications (im_counters impl') + 1\<rparr>\<rparr>)"

section \<open>Publication\<close>

text \<open>The endpoint check: \<open>None\<close> when the observation names an endpoint of the link at its current
  generation, or no endpoint and no endpoint generation.\<close>

definition endpoint_refusal :: "EvidenceRecord \<Rightarrow> TopologyBinding \<Rightarrow> (OutcomeCode \<times> string) option" where
  "endpoint_refusal observation binding =
     (if valid (ev_endpoint observation) then
        let endpoints = tb_endpoints binding;
            expected = (if ev_endpoint observation = eb_local endpoints
                        then Some (eb_local_generation endpoints)
                        else if valid (eb_remote endpoints) \<and> ev_endpoint observation = eb_remote endpoints
                        then Some (eb_remote_generation endpoints)
                        else None)
        in case expected of
             None \<Rightarrow> Some (MalformedRequest, ''endpoint is not bound to this link in the current topology'')
           | Some generation \<Rightarrow>
               if ev_endpoint_generation observation \<noteq> generation
               then Some (OutcomeCode.StaleTopology,
                 ''observation is bound to endpoint generation '' @
                 gen_to_string (ev_endpoint_generation observation) @
                 '', the current generation is '' @ gen_to_string generation)
               else None
      else if \<not> is_zero (ev_endpoint_generation observation)
      then Some (MalformedRequest, ''an endpoint generation requires an endpoint scoped observation'')
      else None)"

text \<open>What the recorded slot says about the observation.\<close>

datatype slot_verdict = SlotRefused OutcomeCode string | SlotReplay | SlotAccepts

definition slot_check :: "EvidenceRecord \<Rightarrow> EvidenceRecord option \<Rightarrow> slot_verdict" where
  "slot_check observation slot =
     (case slot of
        None \<Rightarrow> SlotAccepts
      | Some recorded \<Rightarrow>
          if ev_source_generation observation < ev_source_generation recorded
          then SlotRefused StaleEvidence
            (''source generation '' @ gen_to_string (ev_source_generation observation) @
             '' is older than the recorded generation '' @
             gen_to_string (ev_source_generation recorded))
          else if ev_source_generation observation = ev_source_generation recorded then
            (if ev_sequence observation < ev_sequence recorded
             then SlotRefused StaleEvidence
               (''observation sequence '' @ format_u64 (ev_sequence observation) @
                '' is older than the recorded sequence '' @ format_u64 (ev_sequence recorded))
             else if ev_sequence observation = ev_sequence recorded then
               (if \<not> evidence_eq observation recorded
                then SlotRefused StaleEvidence
                  ''observation sequence is already consumed by different observation content''
                else SlotReplay)
             else SlotAccepts)
          else SlotAccepts)"

definition replaced_by :: "EvidenceRecord \<Rightarrow> EvidenceRecord \<Rightarrow> bool" where
  "replaced_by observation e \<longleftrightarrow> ev_key e = ev_key observation"

definition source_superseded_by :: "EvidenceRecord \<Rightarrow> EvidenceRecord \<Rightarrow> bool" where
  "source_superseded_by observation e \<longleftrightarrow>
     ev_key e \<noteq> ev_key observation \<and> ev_source e = ev_source observation \<and>
     ev_source_generation e < ev_source_generation observation"

definition prospective_evidence :: "EvidenceRecord \<Rightarrow> LinkEntry \<Rightarrow> EvidenceRecord list" where
  "prospective_evidence observation entry =
     filter (\<lambda>e. \<not> (replaced_by observation e \<or> source_superseded_by observation e)) (le_current entry)
     @ [observation]"

text \<open>The refusals of \<^verbatim>\<open>publish_evidence\<close> after validation, in order.  Every one of them is counted
  by \<open>note_rejection\<close>.\<close>

datatype publish_verdict =
  PublishRefused OutcomeCode string
| PublishReplay LinkEntry
| PublishAccepted LinkEntry PreparedCommit

definition publish_verdict_for :: "PublishEvidenceRequest \<Rightarrow> Impl \<Rightarrow> publish_verdict" where
  "publish_verdict_for request impl =
     (let observation = pe_observation request in
      case find_link (ev_link observation) impl of
        None \<Rightarrow> PublishRefused UnknownLink ''link is not bound in this engine''
      | Some entry \<Rightarrow>
          let record = le_record entry; binding = lr_binding record in
          if lr_state record = LinkOperationalState.Retired
          then PublishRefused RetiredLink ''link state record is retired and accepts no further evidence''
          else (case authorize impl (ev_publisher observation) (ev_worker_boot observation)
                       (ev_source observation) (ev_epoch observation) (im_epoch impl)
                       (ev_link observation) binding of (authorized, error) \<Rightarrow>
          if authorized \<noteq> Committed then PublishRefused authorized error
          else (case backing_stale impl binding of
            Some backing_detail \<Rightarrow> PublishRefused OutcomeCode.StaleTopology backing_detail
          | None \<Rightarrow>
          if ev_topology_generation observation \<noteq> tb_topology_generation binding
          then PublishRefused OutcomeCode.StaleTopology
            (''observation is bound to topology generation '' @
             gen_to_string (ev_topology_generation observation) @
             '', the current generation of link '' @ id_value (ev_link observation) @ '' is '' @
             gen_to_string (tb_topology_generation binding))
          else (case endpoint_refusal observation binding of
            Some (code, text) \<Rightarrow> PublishRefused code text
          | None \<Rightarrow>
          if pe_expected_evidence_generation request \<noteq> None \<and>
             pe_expected_evidence_generation request \<noteq> Some (lr_evidence_generation record)
          then PublishRefused StaleGeneration
            (''expected evidence generation '' @
             gen_to_string (the (pe_expected_evidence_generation request)) @
             '' is not the current evidence generation '' @
             gen_to_string (lr_evidence_generation record))
          else if pe_expected_state_generation request \<noteq> None \<and>
             pe_expected_state_generation request \<noteq> Some (lr_state_generation record)
          then PublishRefused StaleGeneration
            (''expected state generation '' @
             gen_to_string (the (pe_expected_state_generation request)) @
             '' is not the current state generation '' @ gen_to_string (lr_state_generation record))
          else if map_of (st_observations impl) (ev_observation observation) \<noteq> None \<and>
             map_of (st_observations impl) (ev_observation observation) \<noteq> Some (ev_key observation)
          then PublishRefused MalformedRequest
            ''observation identity is already used by a different evidence key''
          else (case slot_check observation (find_slot entry (ev_key observation)) of
            SlotRefused code text \<Rightarrow> PublishRefused code text
          | SlotReplay \<Rightarrow> PublishReplay entry
          | SlotAccepts \<Rightarrow>
          let purged = length (filter (source_superseded_by observation) (le_current entry)) in
          if find_slot entry (ev_key observation) = None \<and>
             length (le_current entry) - purged \<ge> cf_max_evidence_per_link (im_config impl)
          then PublishRefused ResourceLimit ''evidence capacity of this link is exhausted''
          else
            let prepared = prepare_commit (im_global_state_generation impl) entry
                  (prospective_evidence observation entry) EvidenceResolution
            in if \<not> pc_ok prepared then PublishRefused (pc_code prepared) (pc_detail prepared)
               else PublishAccepted entry prepared)))))"

definition stored_evidence :: "EvidenceRecord \<Rightarrow> Impl \<Rightarrow> LinkEntry \<Rightarrow> EvidenceRecord" where
  "stored_evidence observation impl entry =
     (let stored = observation\<lparr>ev_status := Current, ev_commit_sequence := im_global_generation impl,
            ev_evidence_generation := lr_evidence_generation (le_record entry)\<rparr>
      in stored\<lparr>ev_record_digest := compute_digest stored\<rparr>)"

definition insert_evidence :: "EvidenceRecord \<Rightarrow> LinkEntry \<Rightarrow> LinkEntry" where
  "insert_evidence stored entry =
     entry\<lparr>le_current := std_sort evidence_less (le_current entry @ [stored])\<rparr>"

definition register_observation :: "EvidenceRecord \<Rightarrow> Impl \<Rightarrow> Impl" where
  "register_observation observation impl =
     impl\<lparr>st_observations :=
            AList.update (ev_observation observation) (ev_key observation) (st_observations impl),
          st_publisher_links :=
            bucket_insert (ev_publisher observation) (ev_link observation) (st_publisher_links impl)\<rparr>"

definition note_acceptance :: "PublisherId \<Rightarrow> Impl \<Rightarrow> Impl" where
  "note_acceptance publisher impl =
     (case find_publisher publisher impl of
        None \<Rightarrow> impl
      | Some authority \<Rightarrow> put_authority publisher
          (authority\<lparr>pa_accepted_publications := pa_accepted_publications authority + 1\<rparr>) impl)"

definition count_publication :: "Impl \<Rightarrow> Impl" where
  "count_publication impl =
     impl\<lparr>im_counters := (im_counters impl)
       \<lparr>es_committed_publications := es_committed_publications (im_counters impl) + 1\<rparr>\<rparr>"

definition commit_publication ::
    "PublishEvidenceRequest \<Rightarrow> Impl \<Rightarrow> LinkEntry \<Rightarrow> PreparedCommit \<Rightarrow> Impl \<times> LinkMutationResult" where
  "commit_publication request impl entry prepared =
     (let observation = pe_observation request;
          link = ev_link observation;
          (impl1, entry1) = drop_evidence
            (\<lambda>e. replaced_by observation e \<or> source_superseded_by observation e)
            (\<lambda>e. if replaced_by observation e then EvidenceStatus.Superseded else StaleSourceGeneration)
            (\<lambda>e. if replaced_by observation e
                 then ''superseded by a newer observation of the same evidence key''
                 else ''source generation superseded by a newer incarnation of the same source'')
            impl entry
      in case advance_global_evidence impl1 entry1 of
           (False, impl2, entry2) \<Rightarrow>
             (put_entry link entry2 impl2, failed ResourceLimit ''generation counter is exhausted'')
         | (True, impl2, entry2) \<Rightarrow>
             (let entry3 = insert_evidence (stored_evidence observation impl2 entry2)
                    (stamp_global impl2 entry2);
                  impl3 = count_publication (note_acceptance (ev_publisher observation)
                    (register_observation observation impl2));
                  code = (if rs_conflicted (pc_resolution prepared) then EvidenceConflict else Committed)
              in case commit_prepared prepared (pe_publication request) (ev_publisher observation)
                        impl3 entry3 of
                   (impl4, entry4) \<Rightarrow>
                     (put_entry link entry4 impl4,
                      result_for code
                        (if code = EvidenceConflict
                         then ''evidence committed; current evidence conflicts so the link requires '' @
                              ''revalidation''
                         else [])
                        entry4 (pc_state_changed prepared))))"

definition publish_evidence :: "PublishEvidenceRequest \<Rightarrow> Impl \<Rightarrow> Impl \<times> LinkMutationResult" where
  "publish_evidence request impl =
     (let observation = pe_observation request in
      case validate_observation observation (pe_publication request) of
        Some error \<Rightarrow> (impl, failed MalformedRequest error)
      | None \<Rightarrow>
          (case publish_verdict_for request impl of
             PublishRefused code text \<Rightarrow>
               (note_rejection (ev_publisher observation) impl, failed code text)
           | PublishReplay entry \<Rightarrow>
               (impl, result_for Idempotent ''exact replay of an already committed observation''
                  entry False)
           | PublishAccepted entry prepared \<Rightarrow> commit_publication request impl entry prepared))"

definition publish_evidence_batch ::
    "PublishEvidenceRequest list \<Rightarrow> Impl \<Rightarrow> Impl \<times> LinkMutationResult list" where
  "publish_evidence_batch = run_batch publish_evidence"

section \<open>Withdrawal\<close>

text \<open>Forget that a publisher has evidence on a link when none remains on its entry.\<close>

definition release_link :: "PublisherId \<Rightarrow> LinkId \<Rightarrow> LinkEntry \<Rightarrow> Impl \<Rightarrow> Impl" where
  "release_link publisher link entry impl =
     (if list_ex (\<lambda>e. ev_publisher e = publisher) (le_current entry) then impl
      else impl\<lparr>st_publisher_links := bucket_erase publisher link (st_publisher_links impl)\<rparr>)"

definition withdraw_refusal ::
    "WithdrawEvidenceRequest \<Rightarrow> Impl \<Rightarrow> LinkEntry \<Rightarrow> (OutcomeCode \<times> string) option" where
  "withdraw_refusal request impl entry =
     (if lr_state (le_record entry) = LinkOperationalState.Retired
      then Some (RetiredLink, ''link state record is retired and accepts no withdrawal'')
      else case authorize impl (wd_publisher request) (wd_worker_boot request)
                  (key_source (wd_key request)) (wd_epoch request) (im_epoch impl)
                  (key_link (wd_key request)) (lr_binding (le_record entry)) of (authorized, error) \<Rightarrow>
        if authorized \<noteq> Committed then Some (authorized, error)
        else case find_slot entry (wd_key request) of
          None \<Rightarrow> Some (NotFound, ''evidence key has no current record on this link'')
        | Some slot \<Rightarrow>
            if ev_publisher slot \<noteq> wd_publisher request \<or> ev_worker_boot slot \<noteq> wd_worker_boot request
            then Some (OutcomeCode.StaleAuthority,
              ''the current record of this evidence key is owned by another publisher incarnation'')
            else if ev_observation slot \<noteq> wd_observation request
            then Some (MalformedRequest,
              ''withdrawal must reference the current observation of the evidence key'')
            else if wd_source_generation request < ev_source_generation slot
            then Some (StaleEvidence,
              ''withdrawal source generation is older than the recorded generation'')
            else if wd_sequence request \<le> ev_sequence slot
            then Some (StaleEvidence,
              ''withdrawal sequence must be newer than the sequence of the withdrawn observation'')
            else None)"

definition withdraw_commit ::
    "WithdrawEvidenceRequest \<Rightarrow> Impl \<Rightarrow> LinkEntry \<Rightarrow> Impl \<times> LinkMutationResult" where
  "withdraw_commit request impl entry =
     (let key = wd_key request;
          link = key_link key;
          prepared = prepare_commit (im_global_state_generation impl) entry
            (filter (\<lambda>e. ev_key e \<noteq> key) (le_current entry)) EvidenceWithdrawal
      in if \<not> pc_ok prepared then (impl, failed (pc_code prepared) (pc_detail prepared))
         else
           let (impl1, entry1) = drop_evidence (\<lambda>e. ev_key e = key) (\<lambda>_. EvidenceStatus.Withdrawn)
                 (\<lambda>_. if wd_reason request = [] then ''withdrawn by its publisher''
                      else ''withdrawn by its publisher: '' @ wd_reason request)
                 impl entry
           in case advance_global_evidence impl1 entry1 of
                (False, impl2, entry2) \<Rightarrow>
                  (put_entry link entry2 impl2,
                   failed ResourceLimit ''generation counter is exhausted'')
              | (True, impl2, entry2) \<Rightarrow>
                  (case commit_prepared prepared null_id (wd_publisher request)
                          (release_link (wd_publisher request) link entry2 impl2)
                          (stamp_global impl2 entry2) of
                     (impl3, entry3) \<Rightarrow>
                       (put_entry link entry3 (count_publication impl3),
                        result_for Committed [] entry3 (pc_state_changed prepared))))"

definition withdraw_evidence :: "WithdrawEvidenceRequest \<Rightarrow> Impl \<Rightarrow> Impl \<times> LinkMutationResult" where
  "withdraw_evidence request impl =
     (let key = wd_key request; link = key_link key in
      if \<not> valid link \<or> \<not> valid (key_source key) \<or> \<not> valid (wd_observation request) \<or>
         \<not> valid (wd_publisher request) \<or> \<not> valid (wd_worker_boot request)
      then (impl, failed MalformedRequest
        ''evidence key, observation, publisher and worker boot are required'')
      else case find_link link impl of
        None \<Rightarrow> (impl, failed UnknownLink ''link is not bound in this engine'')
      | Some entry \<Rightarrow>
          (case withdraw_refusal request impl entry of
             Some (code, text) \<Rightarrow> (impl, failed code text)
           | None \<Rightarrow> withdraw_commit request impl entry))"

section \<open>Explicit transitions\<close>

definition set_intent :: "AdministrativeIntent option \<Rightarrow> LinkEntry \<Rightarrow> LinkEntry" where
  "set_intent intent entry =
     entry\<lparr>le_record := (le_record entry)\<lparr>lr_admin_intent := intent\<rparr>\<rparr>"

definition transition_refusal ::
    "TransitionStateRequest \<Rightarrow> Impl \<Rightarrow> LinkEntry \<Rightarrow> (OutcomeCode \<times> string) option" where
  "transition_refusal request impl entry =
     (let record = le_record entry in
      if lr_state record = LinkOperationalState.Retired
      then Some (RetiredLink, ''link state record is retired and terminal'')
      else if ts_target request = LinkOperationalState.Unknown
      then Some (InvalidTransition,
        ''UNKNOWN is never asserted; it is reached only when no decisive evidence exists'')
      else if ts_target request = LinkOperationalState.RevalidationRequired
      then Some (InvalidTransition, ''use mark_revalidation_required to require revalidation'')
      else case authorize impl (ts_publisher request) (ts_worker_boot request) null_id
                  (ts_epoch request) (im_epoch impl) (ts_link request) (lr_binding record) of
        (authorized, error) \<Rightarrow>
          if authorized \<noteq> Committed then Some (authorized, error)
          else if ts_expected_state_generation request \<noteq> None \<and>
                  ts_expected_state_generation request \<noteq> Some (lr_state_generation record)
          then Some (StaleGeneration, ''expected state generation '' @
            gen_to_string (the (ts_expected_state_generation request)) @
            '' is not the current state generation '' @ gen_to_string (lr_state_generation record))
          else None)"

definition clear_intent ::
    "TransitionStateRequest \<Rightarrow> Impl \<Rightarrow> LinkEntry \<Rightarrow> Impl \<times> LinkMutationResult" where
  "clear_intent request impl entry =
     (if lr_admin_intent (le_record entry) = None
      then (impl, result_for NoChange
        ''no administrative intent is in force; UP is established only by evidence'' entry False)
      else
        let prepared = prepare_commit (im_global_state_generation impl) (set_intent None entry)
              (le_current entry) RevalidationOutcome
        in if \<not> pc_ok prepared then (impl, failed (pc_code prepared) (pc_detail prepared))
           else
             let entry1 = set_intent None entry in
             case advance (im_global_generation impl) of
               (_, False) \<Rightarrow>
                 (put_entry (ts_link request) entry1 impl,
                  failed ResourceLimit ''global generation counter is exhausted'')
             | (gg, True) \<Rightarrow>
                 (let impl1 = impl\<lparr>im_global_generation := gg\<rparr> in
                  case commit_prepared prepared (ts_publication request) (ts_publisher request) impl1
                         (stamp_global impl1 entry1) of
                    (impl2, entry2) \<Rightarrow>
                      (put_entry (ts_link request) entry2 impl2,
                       result_for Committed
                         ''administrative intent cleared; the state now follows current evidence''
                         entry2 (pc_state_changed prepared))))"

definition requested_intent :: "TransitionStateRequest \<Rightarrow> GlobalGeneration \<Rightarrow> AdministrativeIntent" where
  "requested_intent request generation =
     \<lparr>ai_state = ts_target request, ai_publication = ts_publication request,
      ai_publisher = ts_publisher request, ai_generation = generation,
      ai_cause = ts_degradation_cause request\<rparr>"

definition record_intent ::
    "TransitionStateRequest \<Rightarrow> Impl \<Rightarrow> LinkEntry \<Rightarrow> Impl \<times> LinkMutationResult" where
  "record_intent request impl entry =
     (let target = ts_target request in
      if target \<noteq> LinkOperationalState.AdminDisabled \<and> target \<noteq> LinkOperationalState.Draining \<and>
         target \<noteq> LinkOperationalState.Down \<and> target \<noteq> LinkOperationalState.Degraded \<and>
         target \<noteq> LinkOperationalState.Faulted
      then (impl, failed InvalidTransition ''explicit transitions may only restrict a link'')
      else if target = LinkOperationalState.Degraded \<and> ts_degradation_cause request = NoCause
      then (impl, failed MalformedRequest
        ''an explicit DEGRADED transition requires a named degradation cause'')
      else
        let prepared = prepare_commit (im_global_state_generation impl)
              (set_intent (Some (requested_intent request (im_global_generation impl))) entry)
              (le_current entry) ExplicitAdministrative
        in if \<not> pc_ok prepared then (impl, failed (pc_code prepared) (pc_detail prepared))
           else case advance (im_global_generation impl) of
             (_, False) \<Rightarrow> (impl, failed ResourceLimit ''global generation counter is exhausted'')
           | (gg, True) \<Rightarrow>
               (let impl1 = impl\<lparr>im_global_generation := gg\<rparr>;
                    entry1 = set_intent (Some (requested_intent request gg)) (stamp_global impl1 entry)
                in case commit_prepared prepared (ts_publication request) (ts_publisher request)
                          impl1 entry1 of
                     (impl2, entry2) \<Rightarrow>
                       (put_entry (ts_link request) entry2 impl2,
                        result_for Committed
                          (''administrative intent recorded ('' @ to_string_state target @ '')'')
                          entry2 (pc_state_changed prepared))))"

definition transition_state :: "TransitionStateRequest \<Rightarrow> Impl \<Rightarrow> Impl \<times> LinkMutationResult" where
  "transition_state request impl =
     (if \<not> valid (ts_link request) \<or> \<not> valid (ts_publication request) \<or>
         \<not> valid (ts_publisher request) \<or> \<not> valid (ts_worker_boot request)
      then (impl, failed MalformedRequest ''link, publication, publisher and worker boot are required'')
      else case find_link (ts_link request) impl of
        None \<Rightarrow> (impl, failed UnknownLink ''link is not bound in this engine'')
      | Some entry \<Rightarrow>
          (case transition_refusal request impl entry of
             Some (code, text) \<Rightarrow> (impl, failed code text)
           | None \<Rightarrow>
               if ts_target request = LinkOperationalState.Up then clear_intent request impl entry
               else record_intent request impl entry))"

definition mark_refusal ::
    "MarkRevalidationRequest \<Rightarrow> Impl \<Rightarrow> LinkEntry \<Rightarrow> (OutcomeCode \<times> string) option" where
  "mark_refusal request impl entry =
     (if lr_state (le_record entry) = LinkOperationalState.Retired
      then Some (RetiredLink, ''link state record is retired and terminal'')
      else case authorize impl (mk_publisher request) (mk_worker_boot request) null_id
                  (mk_epoch request) (im_epoch impl) (mk_link request)
                  (lr_binding (le_record entry)) of
        (authorized, error) \<Rightarrow>
          if authorized \<noteq> Committed then Some (authorized, error)
          else if mk_expected_state_generation request \<noteq> None \<and>
                  mk_expected_state_generation request \<noteq> Some (lr_state_generation (le_record entry))
          then Some (StaleGeneration,
            ''expected state generation is not the current state generation'')
          else None)"

definition mark_commit ::
    "MarkRevalidationRequest \<Rightarrow> Impl \<Rightarrow> LinkEntry \<Rightarrow> Impl \<times> LinkMutationResult" where
  "mark_commit request impl entry =
     (let link = mk_link request;
          publisher = mk_publisher request;
          prepared = prepare_commit (im_global_state_generation impl) entry
            (filter (\<lambda>e. ev_publisher e \<noteq> publisher) (le_current entry)) EvidenceWithdrawal
      in if \<not> pc_ok prepared then (impl, failed (pc_code prepared) (pc_detail prepared))
         else
           let reason = ''publisher requires revalidation'' @
                 (if mk_reason request \<noteq> [] then '': '' @ mk_reason request else []);
               (impl1, entry1) = drop_evidence (\<lambda>e. ev_publisher e = publisher)
                 (\<lambda>_. EvidenceStatus.Withdrawn) (\<lambda>_. reason) impl entry
           in case advance_global_evidence (release_link publisher link entry1 impl1) entry1 of
                (False, impl2, entry2) \<Rightarrow>
                  (put_entry link entry2 impl2,
                   failed ResourceLimit ''generation counter is exhausted'')
              | (True, impl2, entry2) \<Rightarrow>
                  (case commit_prepared prepared (mk_publication request) publisher impl2
                          (stamp_global impl2 entry2) of
                     (impl3, entry3) \<Rightarrow>
                       (put_entry link entry3 impl3,
                        result_for Committed reason entry3 (pc_state_changed prepared))))"

definition mark_revalidation_required ::
    "MarkRevalidationRequest \<Rightarrow> Impl \<Rightarrow> Impl \<times> LinkMutationResult" where
  "mark_revalidation_required request impl =
     (if \<not> valid (mk_link request) \<or> \<not> valid (mk_publication request) \<or>
         \<not> valid (mk_publisher request) \<or> \<not> valid (mk_worker_boot request)
      then (impl, failed MalformedRequest ''link, publication, publisher and worker boot are required'')
      else case find_link (mk_link request) impl of
        None \<Rightarrow> (impl, failed UnknownLink ''link is not bound in this engine'')
      | Some entry \<Rightarrow>
          (case mark_refusal request impl entry of
             Some (code, text) \<Rightarrow> (impl, failed code text)
           | None \<Rightarrow>
               if \<not> list_ex (\<lambda>e. ev_publisher e = mk_publisher request) (le_current entry)
               then (impl, result_for NoChange
                 ''publisher holds no current evidence for this link; nothing to invalidate'' entry False)
               else mark_commit request impl entry))"

end
