(* ===== verification/Engine_Queries.thy ===== *)
theory Engine_Queries
  imports Engine_Publish
begin

text \<open>
  Queries and snapshots (\<^verbatim>\<open>src/engine_queries.cpp\<close>).  Queries read the engine; \<open>take_snapshot\<close>
  (\<^verbatim>\<open>LinkStateEngine::snapshot\<close>) also files the snapshot in the bounded registry.
\<close>

definition sorted_links :: "LinkId list \<Rightarrow> LinkId list" where
  "sorted_links links = std_sort (<) links"

definition link_state :: "LinkId \<Rightarrow> Impl \<Rightarrow> LinkStateView option" where
  "link_state link impl = map_option make_view (find_link link impl)"

definition record_of :: "LinkId \<Rightarrow> Impl \<Rightarrow> LinkStateRecord option" where
  "record_of link impl = map_option le_record (find_link link impl)"

definition entries_in_state :: "LinkOperationalState \<Rightarrow> LinkId list \<Rightarrow> Impl \<Rightarrow> LinkEntry list" where
  "entries_in_state state links impl =
     concat (map (\<lambda>link. case find_link link impl of
         Some entry \<Rightarrow> if lr_state (le_record entry) = state then [entry] else []
       | None \<Rightarrow> []) links)"

definition links_in_state :: "LinkOperationalState \<Rightarrow> Impl \<Rightarrow> LinkStateView list" where
  "links_in_state state impl =
     map make_view (entries_in_state state (sorted_links (bucket (st_by_state impl) state)) impl)"

definition in_state :: "LinkOperationalState \<Rightarrow> Impl \<Rightarrow> LinkId \<Rightarrow> bool" where
  "in_state state impl link \<longleftrightarrow>
     (case find_link link impl of
        Some entry \<Rightarrow> lr_state (le_record entry) = state
      | None \<Rightarrow> False)"

definition links_requiring_revalidation :: "Impl \<Rightarrow> LinkId list" where
  "links_requiring_revalidation impl =
     std_sort (<) (filter (in_state LinkOperationalState.RevalidationRequired impl)
       (bucket (st_by_state impl) LinkOperationalState.RevalidationRequired))"

definition links_for_endpoint :: "EndpointId \<Rightarrow> Impl \<Rightarrow> LinkId list" where
  "links_for_endpoint endpoint impl = std_sort (<) (bucket (st_by_endpoint impl) endpoint)"

definition matching_links ::
    "(EndpointBinding \<Rightarrow> bool) \<Rightarrow> LinkId list \<Rightarrow> Impl \<Rightarrow> LinkId list" where
  "matching_links p links impl =
     filter (\<lambda>link. case find_link link impl of
        None \<Rightarrow> False
      | Some entry \<Rightarrow> p (tb_endpoints (lr_binding (le_record entry)))) links"

definition unique_view :: "LinkId list \<Rightarrow> Impl \<Rightarrow> LinkStateView option" where
  "unique_view matches impl = (if length matches \<noteq> 1 then None else link_state (hd matches) impl)"

definition link_by_endpoints :: "EndpointId \<Rightarrow> EndpointId \<Rightarrow> Impl \<Rightarrow> LinkStateView option" where
  "link_by_endpoints a b impl =
     unique_view (matching_links (\<lambda>endpoints.
        eb_local endpoints = a \<and> eb_remote endpoints = b \<or>
        eb_local endpoints = b \<and> eb_remote endpoints = a) (bucket (st_by_endpoint impl) a) impl) impl"

definition link_by_remote_endpoint :: "EndpointId \<Rightarrow> EndpointId \<Rightarrow> Impl \<Rightarrow> LinkStateView option" where
  "link_by_remote_endpoint local_endpoint remote impl =
     unique_view (matching_links (\<lambda>endpoints.
        eb_local endpoints = local_endpoint \<and> eb_remote endpoints = remote)
        (bucket (st_by_endpoint impl) local_endpoint) impl) impl"

definition evidence_for_link :: "LinkId \<Rightarrow> Impl \<Rightarrow> EvidenceRecord list" where
  "evidence_for_link link impl =
     (case find_link link impl of
        None \<Rightarrow> []
      | Some entry \<Rightarrow> std_sort evidence_less (le_current entry))"

definition owned_evidence :: "PublisherId \<Rightarrow> Impl \<Rightarrow> EvidenceRecord list" where
  "owned_evidence publisher impl =
     concat (map (\<lambda>link. case find_link link impl of
         None \<Rightarrow> []
       | Some entry \<Rightarrow> filter (\<lambda>e. ev_publisher e = publisher) (le_current entry))
       (bucket (st_publisher_links impl) publisher))"

definition evidence_for_publisher :: "PublisherId \<Rightarrow> Impl \<Rightarrow> EvidenceRecord list" where
  "evidence_for_publisher publisher impl = std_sort evidence_less (owned_evidence publisher impl)"

definition with_live_evidence :: "PublisherId \<Rightarrow> PublisherAuthority \<Rightarrow> Impl \<Rightarrow> PublisherAuthority" where
  "with_live_evidence publisher authority impl =
     authority\<lparr>pa_live_evidence := length (owned_evidence publisher impl)\<rparr>"

definition publisher_authority :: "PublisherId \<Rightarrow> Impl \<Rightarrow> PublisherAuthority option" where
  "publisher_authority publisher impl =
     map_option (\<lambda>authority. with_live_evidence publisher authority impl)
       (find_publisher publisher impl)"

definition publishers :: "Impl \<Rightarrow> PublisherAuthority list" where
  "publishers impl =
     std_sort (\<lambda>lhs rhs. pa_publisher lhs < pa_publisher rhs)
       (map (\<lambda>(publisher, authority). with_live_evidence publisher authority impl) (st_publishers impl))"

definition fences :: "Impl \<Rightarrow> PublisherFence list" where
  "fences impl = st_fences impl"

definition topology_binding :: "LinkId \<Rightarrow> Impl \<Rightarrow> TopologyBinding option" where
  "topology_binding link impl = map_option (\<lambda>e. lr_binding (le_record e)) (find_link link impl)"

definition link_evidence_generation :: "LinkId \<Rightarrow> Impl \<Rightarrow> EvidenceGeneration" where
  "link_evidence_generation link impl =
     (case find_link link impl of
        None \<Rightarrow> gen_zero
      | Some entry \<Rightarrow> lr_evidence_generation (le_record entry))"

definition link_count :: "Impl \<Rightarrow> nat" where
  "link_count impl = length (st_links impl)"

definition evidence_count :: "Impl \<Rightarrow> nat" where
  "evidence_count impl = sum_list (map (\<lambda>(_, entry). length (le_current entry)) (st_links impl))"

definition stats :: "Impl \<Rightarrow> EngineStats" where
  "stats impl = (im_counters impl)
     \<lparr>es_links := length (st_links impl),
      es_evidence_records := evidence_count impl,
      es_current_evidence := evidence_count impl,
      es_conflicts := length (filter (\<lambda>(_, entry). le_conflicted entry) (st_links impl)),
      es_retained_snapshots := length (st_snapshots impl),
      es_publishers := length (st_publishers impl),
      es_active_publishers := length (filter (\<lambda>(_, a). pa_status a = Active) (st_publishers impl)),
      es_fenced_publishers := length (filter (\<lambda>(_, a). pa_status a \<noteq> Active) (st_publishers impl))\<rparr>"

definition state_digest :: "Impl \<Rightarrow> Digest" where
  "state_digest impl = digest_records (map (\<lambda>(_, entry). le_record entry) (st_links impl))"

section \<open>Snapshots\<close>

definition snapshot_record :: "LinkId \<Rightarrow> LinkEntry \<Rightarrow> SnapshotRecord" where
  "snapshot_record link entry =
     \<lparr>sr_link = link, sr_state = lr_state (le_record entry),
      sr_result_class = lr_result_class (le_record entry),
      sr_state_generation = lr_state_generation (le_record entry),
      sr_evidence_generation = lr_evidence_generation (le_record entry),
      sr_topology_generation = tb_topology_generation (lr_binding (le_record entry)),
      sr_current_evidence = length (le_current entry), sr_conflicted = le_conflicted entry,
      sr_synthetic_backed = le_synthetic_backed entry,
      sr_record_digest = digest_record (le_record entry)\<rparr>"

definition snapshot_selects :: "SnapshotRequest \<Rightarrow> LinkEntry \<Rightarrow> bool" where
  "snapshot_selects request entry \<longleftrightarrow>
     \<not> (valid (sq_fabric request) \<and> valid (tb_fabric (lr_binding (le_record entry))) \<and>
        tb_fabric (lr_binding (le_record entry)) \<noteq> sq_fabric request) \<and>
     \<not> (sq_state_filter request \<noteq> None \<and> sq_state_filter request \<noteq> Some (lr_state (le_record entry)))"

text \<open>The selection loop stops as soon as the limit is reached.\<close>

fun collect_snapshot ::
    "SnapshotRequest \<Rightarrow> nat \<Rightarrow> Impl \<Rightarrow> LinkId list \<Rightarrow> SnapshotRecord list \<Rightarrow> SnapshotRecord list" where
  "collect_snapshot request limit impl [] acc = acc"
| "collect_snapshot request limit impl (link # rest) acc =
     (if length acc \<ge> limit then acc
      else case find_link link impl of
        None \<Rightarrow> collect_snapshot request limit impl rest acc
      | Some entry \<Rightarrow>
          if snapshot_selects request entry
          then collect_snapshot request limit impl rest (acc @ [snapshot_record link entry])
          else collect_snapshot request limit impl rest acc)"

definition snapshot_header :: "SnapshotRequest \<Rightarrow> Impl \<Rightarrow> Snapshot" where
  "snapshot_header request impl =
     \<lparr>sn_id = from_validated (''snap.'' @ gen_to_string (im_global_state_generation impl) @ ''.'' @
        format_u64 (im_snapshot_counter impl)),
      sn_label = sq_label request, sn_global_generation = im_global_generation impl,
      sn_global_state_generation = im_global_state_generation impl, sn_epoch = im_epoch impl,
      sn_topology_generation = im_topology_generation impl,
      sn_sequence = im_snapshot_counter impl, sn_records = [], sn_digest = zero_digest\<rparr>"

text \<open>\<^verbatim>\<open>emplace\<close> keeps a snapshot that is already filed under the identity.\<close>

definition retain_snapshot :: "Snapshot \<Rightarrow> Impl \<Rightarrow> Impl" where
  "retain_snapshot snap impl =
     (let filed = (case map_of (st_snapshots impl) (sn_id snap) of
            None \<Rightarrow> AList.update (sn_id snap) snap (st_snapshots impl)
          | Some _ \<Rightarrow> st_snapshots impl);
          order = st_snapshot_order impl @ [sn_id snap];
          excess = length order - cf_max_retained_snapshots (im_config impl)
      in impl\<lparr>st_snapshots := fold AList.delete (take excess order) filed,
              st_snapshot_order := drop excess order\<rparr>)"

definition take_snapshot :: "SnapshotRequest \<Rightarrow> Impl \<Rightarrow> Impl \<times> Snapshot" where
  "take_snapshot request impl0 =
     (let impl = impl0\<lparr>im_snapshot_counter := im_snapshot_counter impl0 + 1\<rparr>;
          snap = snapshot_header request impl
      in if sq_links request \<noteq> [] \<and> length (sq_links request) > max_snapshot_records
         then (impl, snap)
         else
           let selected = (if sq_links request \<noteq> [] then sort_links (sq_links request)
                           else std_sort (<) (map fst (st_links impl)));
               cap = cf_max_links (im_config impl);
               limit = (if sq_max_records request = 0 \<or> sq_max_records request > cap then cap
                        else sq_max_records request);
               records = collect_snapshot request limit impl selected [];
               snap' = snap\<lparr>sn_records := records,
                 sn_digest := digest_snapshot records (sn_global_generation snap)
                   (sn_global_state_generation snap) (sn_epoch snap)\<rparr>
           in (retain_snapshot snap' impl, snap'))"

definition retained_snapshot :: "SnapshotId \<Rightarrow> Impl \<Rightarrow> Snapshot option" where
  "retained_snapshot snapshot_id impl = map_of (st_snapshots impl) snapshot_id"

definition retained_snapshot_ids :: "Impl \<Rightarrow> SnapshotId list" where
  "retained_snapshot_ids impl = st_snapshot_order impl"

definition snapshot_is_current :: "Snapshot \<Rightarrow> Impl \<Rightarrow> bool" where
  "snapshot_is_current snap impl \<longleftrightarrow>
     sn_global_state_generation snap = im_global_state_generation impl \<and> sn_epoch snap = im_epoch impl"

end
