(* ===== verification/Engine_Frames.thy ===== *)
theory Engine_Frames
  imports Engine_Queries
begin

text \<open>
  What the building blocks of the operations do, seen from outside: which fields of the engine and
  of the entry they write, and the relation between the old and the new values.  The invariant
  proofs use these facts only and never unfold the building blocks again.
\<close>

section \<open>Selectors\<close>

lemma put_entry_sel [simp]:
  "st_by_state (put_entry l e s) = st_by_state s"
  "st_by_endpoint (put_entry l e s) = st_by_endpoint s"
  "st_publishers (put_entry l e s) = st_publishers s"
  "st_publisher_links (put_entry l e s) = st_publisher_links s"
  "st_observations (put_entry l e s) = st_observations s"
  "st_dependents (put_entry l e s) = st_dependents s"
  "st_fenced_boots (put_entry l e s) = st_fenced_boots s"
  "st_fences (put_entry l e s) = st_fences s"
  "st_snapshots (put_entry l e s) = st_snapshots s"
  "st_snapshot_order (put_entry l e s) = st_snapshot_order s"
  by (simp_all add: put_entry_def)

lemma put_entry_impl_sel [simp]:
  "im_config (put_entry l e i) = im_config i"
  "im_global_generation (put_entry l e i) = im_global_generation i"
  "im_global_state_generation (put_entry l e i) = im_global_state_generation i"
  "im_epoch (put_entry l e i) = im_epoch i"
  "im_topology_generation (put_entry l e i) = im_topology_generation i"
  "im_snapshot_counter (put_entry l e i) = im_snapshot_counter i"
  "im_counters (put_entry l e i) = im_counters i"
  by (simp_all add: put_entry_def)

lemma find_publisher_put_entry [simp]: "find_publisher p (put_entry l e s) = find_publisher p s"
  by (simp add: find_publisher_def)

lemma find_link_frame:
  "st_links s' = st_links s \<Longrightarrow> find_link l s' = find_link l s"
  by (simp add: find_link_def)

lemma find_publisher_frame:
  "st_publishers s' = st_publishers s \<Longrightarrow> find_publisher p s' = find_publisher p s"
  by (simp add: find_publisher_def)

lemma distinct_keys_put_entry [simp]:
  "distinct (map fst (st_links s)) \<Longrightarrow> distinct (map fst (st_links (put_entry l e s)))"
  by (simp add: put_entry_def)

lemma length_put_entry:
  "find_link l s = Some e' \<Longrightarrow> length (st_links (put_entry l e s)) = length (st_links s)"
  by (simp add: put_entry_def find_link_def length_update_present)

section \<open>Dropping evidence\<close>

text \<open>The observation index after the identities of some records were released.\<close>

definition released :: "EvidenceRecord set \<Rightarrow> (ObservationId, EvidenceKey) umap \<Rightarrow>
    (ObservationId, EvidenceKey) umap \<Rightarrow> bool" where
  "released E obs obs' \<longleftrightarrow>
     (\<forall>x k. map_of obs' x = Some k \<longleftrightarrow>
        map_of obs x = Some k \<and> \<not> (\<exists>e\<in>E. ev_observation e = x \<and> ev_key e = k)) \<and>
     (distinct (map fst obs) \<longrightarrow> distinct (map fst obs'))"

lemma erase_observation_released:
  obtains obs where "erase_observation e s = s\<lparr>st_observations := obs\<rparr>"
    "released {e} (st_observations s) obs"
proof (rule that)
  show "erase_observation e s = s\<lparr>st_observations := st_observations (erase_observation e s)\<rparr>"
    by (simp add: erase_observation_def)
  show "released {e} (st_observations s) (st_observations (erase_observation e s))"
    by (auto simp: erase_observation_def released_def)
qed

lemma released_trans: "released E a b \<Longrightarrow> released F b c \<Longrightarrow> released (E \<union> F) a c"
  unfolding released_def by auto

lemma erase_observations:
  obtains obs where "fold erase_observation es s = s\<lparr>st_observations := obs\<rparr>"
    "released (set es) (st_observations s) obs"
proof -
  have "\<exists>obs. fold erase_observation es s = s\<lparr>st_observations := obs\<rparr> \<and>
      released (set es) (st_observations s) obs"
  proof (induction es arbitrary: s)
    case Nil
    show ?case by (rule exI [of _ "st_observations s"]) (simp add: released_def)
  next
    case (Cons e es)
    obtain obs1 where step: "erase_observation e s = s\<lparr>st_observations := obs1\<rparr>"
      "released {e} (st_observations s) obs1"
      by (rule erase_observation_released)
    obtain obs where obs: "fold erase_observation es (s\<lparr>st_observations := obs1\<rparr>) =
        s\<lparr>st_observations := obs\<rparr>" "released (set es) obs1 obs"
      using Cons.IH [of "s\<lparr>st_observations := obs1\<rparr>"] by auto
    have "released (set (e # es)) (st_observations s) obs"
      using released_trans [OF step(2) obs(2)] by simp
    with step(1) obs(1) show ?case by auto
  qed
  then show thesis using that by blast
qed

lemma push_dispositions:
  obtains ds where
    "fold (\<lambda>e. push_disposition e (status e) (reason e) cap) es entry = entry\<lparr>le_dispositions := ds\<rparr>"
    "length (le_dispositions entry) \<le> cap \<Longrightarrow> length ds \<le> cap"
proof -
  have "\<exists>ds. fold (\<lambda>e. push_disposition e (status e) (reason e) cap) es entry =
      entry\<lparr>le_dispositions := ds\<rparr> \<and> (length (le_dispositions entry) \<le> cap \<longrightarrow> length ds \<le> cap)"
  proof (induction es arbitrary: entry)
    case Nil
    show ?case by (rule exI [of _ "le_dispositions entry"]) simp
  next
    case (Cons e es)
    let ?entry = "push_disposition e (status e) (reason e) cap entry"
    obtain ds where ds: "fold (\<lambda>e. push_disposition e (status e) (reason e) cap) es ?entry =
        ?entry\<lparr>le_dispositions := ds\<rparr>" "length (le_dispositions ?entry) \<le> cap \<longrightarrow> length ds \<le> cap"
      using Cons.IH [of ?entry] by auto
    moreover have "length (le_dispositions ?entry) \<le> cap"
      by (simp add: push_disposition_def Let_def)
    moreover have "?entry\<lparr>le_dispositions := ds\<rparr> = entry\<lparr>le_dispositions := ds\<rparr>"
      by (simp add: push_disposition_def Let_def)
    ultimately show ?case by auto
  qed
  then show thesis using that by blast
qed

lemma drop_evidence_cases:
  obtains obs ds where
    "drop_evidence p status reason impl entry =
       (impl\<lparr>st_observations := obs\<rparr>,
        entry\<lparr>le_dispositions := ds, le_current := filter (\<lambda>e. \<not> p e) (le_current entry)\<rparr>)"
    "released {e \<in> set (le_current entry). p e} (st_observations impl) obs"
    "length (le_dispositions entry) \<le> cf_max_history_per_link (im_config impl) \<Longrightarrow>
       length ds \<le> cf_max_history_per_link (im_config impl)"
proof -
  let ?es = "filter p (le_current entry)" and ?cap = "cf_max_history_per_link (im_config impl)"
  obtain obs where obs: "fold erase_observation ?es impl = impl\<lparr>st_observations := obs\<rparr>"
    "released (set ?es) (st_observations impl) obs"
    by (rule erase_observations)
  obtain ds where ds: "fold (\<lambda>e. push_disposition e (status e) (reason e) ?cap) ?es entry =
      entry\<lparr>le_dispositions := ds\<rparr>" "length (le_dispositions entry) \<le> ?cap \<Longrightarrow> length ds \<le> ?cap"
    by (rule push_dispositions [of status reason ?cap ?es entry]) blast
  have "set ?es = {e \<in> set (le_current entry). p e}" by auto
  with obs ds show thesis
    by (intro that [of obs ds]) (simp_all add: drop_evidence_def Let_def)
qed

section \<open>Committing a resolution\<close>

definition established_state :: "LinkOperationalState \<Rightarrow> bool" where
  "established_state s \<longleftrightarrow>
     s \<noteq> LinkOperationalState.Unknown \<and> s \<noteq> LinkOperationalState.RevalidationRequired"

text \<open>The relation between an entry and the entry that commits the result class \<open>c\<close>.\<close>

definition commits_record :: "StateResultClass \<Rightarrow> LinkStateRecord \<Rightarrow> LinkStateRecord \<Rightarrow> bool" where
  "commits_record c r r' \<longleftrightarrow>
     lr_record r' = lr_record r \<and> lr_binding r' = lr_binding r \<and>
     lr_admin_intent r' = lr_admin_intent r \<and>
     lr_evidence_generation r' = lr_evidence_generation r \<and>
     lr_global_generation r' = lr_global_generation r \<and> lr_durable r' = lr_durable r \<and>
     lr_state r' = state_of c \<and> lr_result_class r' = c \<and>
     (lr_ever_established r' \<longleftrightarrow>
        lr_ever_established r \<or> lr_state r \<noteq> state_of c \<and> established_state (state_of c)) \<and>
     (if lr_state r = state_of c then lr_state_generation r' = lr_state_generation r
      else next_gen (lr_state_generation r) = Some (lr_state_generation r'))"

definition commits :: "StateResultClass \<Rightarrow> Impl \<Rightarrow> LinkEntry \<Rightarrow> Impl \<Rightarrow> LinkEntry \<Rightarrow> bool" where
  "commits c impl entry impl' entry' \<longleftrightarrow>
     (\<exists>bs g k. impl' = impl\<lparr>st_by_state := bs, im_global_state_generation := g, im_counters := k\<rparr> \<and>
        es_idempotent_publications k = es_idempotent_publications (im_counters impl) \<and>
        es_revalidation_required k = es_revalidation_required (im_counters impl) \<and>
        es_retired k = es_retired (im_counters impl)) \<and>
     le_current entry' = le_current entry \<and> le_dispositions entry' = le_dispositions entry \<and>
     (le_conflicted entry' \<longleftrightarrow> c = Conflicted) \<and>
     commits_record c (le_record entry) (le_record entry') \<and>
     (length (lr_history (le_record entry)) \<le> cf_max_history_per_link (im_config impl) \<longrightarrow>
        length (lr_history (le_record entry')) \<le> cf_max_history_per_link (im_config impl)) \<and>
     st_by_state impl' = st_by_state (reindex_state (tb_link (lr_binding (le_record entry)))
        (lr_state (le_record entry)) (state_of c) impl) \<and>
     (if lr_state (le_record entry) = state_of c
      then im_global_state_generation impl' = im_global_state_generation impl
      else next_gen (im_global_state_generation impl) = Some (im_global_state_generation impl'))"

lemma prepare_commit_sel [simp]:
  "pc_resolution (prepare_commit g entry prospective trigger) =
     resolve_link_state prospective (le_record entry)"
  "pc_target_state (prepare_commit g entry prospective trigger) =
     state_of (policy_class (le_record entry) (set prospective))"
  by (simp_all add: prepare_commit_def Let_def resolve_class split: TransitionLegality.splits)

lemma prepare_commit_ok:
  assumes "pc_ok (prepare_commit g entry prospective trigger)"
  defines "c \<equiv> policy_class (le_record entry) (set prospective)"
  shows "lr_state (le_record entry) \<noteq> LinkOperationalState.Retired"
    and "pc_code (prepare_commit g entry prospective trigger) = Committed"
    and "pc_state_changed (prepare_commit g entry prospective trigger) \<longleftrightarrow>
           lr_state (le_record entry) \<noteq> state_of c"
    and "lr_state (le_record entry) \<noteq> state_of c \<Longrightarrow>
           next_gen (lr_state_generation (le_record entry)) \<noteq> None \<and> next_gen g \<noteq> None"
  using assms unfolding c_def
  by (auto simp: prepare_commit_def Let_def resolve_class evaluate_transition_cases
      split: TransitionLegality.splits if_splits)

lemma advance_next: "next_gen g = Some g' \<Longrightarrow> advance g = (g', True)"
  by (simp add: advance_def)

lemma push_history_cases:
  obtains hs where "push_history h cap r = r\<lparr>lr_history := hs\<rparr>"
    "length (lr_history r) \<le> cap \<Longrightarrow> length hs \<le> cap"
proof (rule that)
  show "push_history h cap r = r\<lparr>lr_history := lr_history (push_history h cap r)\<rparr>"
    by (simp add: push_history_def Let_def)
  show "length (lr_history r) \<le> cap \<Longrightarrow> length (lr_history (push_history h cap r)) \<le> cap"
    by (cases "cap = 0") (auto simp: push_history_def Let_def)
qed

text \<open>A commit that changes the state, when both state generations can advance.\<close>

lemma commit_prepared_changed:
  assumes "pc_state_changed prepared"
    and "next_gen (lr_state_generation (le_record entry)) = Some sg"
    and "next_gen (im_global_state_generation impl) = Some gsg"
  obtains r hs where
    "commit_prepared prepared publication publisher impl entry =
       (count_transition (reindex_state (tb_link (lr_binding (le_record entry)))
          (lr_state (le_record entry)) (pc_target_state prepared)
          (impl\<lparr>im_global_state_generation := gsg\<rparr>)),
        (apply_resolution (pc_resolution prepared) publication publisher entry)
          \<lparr>le_record := stamp_transition (pc_code prepared) (r\<lparr>lr_history := hs\<rparr>)\<rparr>)"
    "r = (le_record (apply_resolution (pc_resolution prepared) publication publisher entry))
          \<lparr>lr_state_generation := sg, lr_state := pc_target_state prepared,
           lr_ever_established := lr_ever_established (le_record entry) \<or>
             established_state (pc_target_state prepared)\<rparr>"
    "length (lr_history (le_record entry)) \<le> cf_max_history_per_link (im_config impl) \<Longrightarrow>
       length hs \<le> cf_max_history_per_link (im_config impl)"
proof -
  let ?r = "(le_record (apply_resolution (pc_resolution prepared) publication publisher entry))
          \<lparr>lr_state_generation := sg, lr_state := pc_target_state prepared,
           lr_ever_established := lr_ever_established (le_record entry) \<or>
             established_state (pc_target_state prepared)\<rparr>"
  obtain hs where hs: "push_history (history_of prepared publication publisher
      (le_record (apply_resolution (pc_resolution prepared) publication publisher entry)))
      (cf_max_history_per_link (im_config impl)) ?r = ?r\<lparr>lr_history := hs\<rparr>"
    "length (lr_history ?r) \<le> cf_max_history_per_link (im_config impl) \<Longrightarrow>
       length hs \<le> cf_max_history_per_link (im_config impl)"
    by (rule push_history_cases) blast
  have sel: "lr_history ?r = lr_history (le_record entry)"
    "lr_state_generation (le_record (apply_resolution (pc_resolution prepared) publication publisher
       entry)) = lr_state_generation (le_record entry)"
    "lr_state (le_record (apply_resolution (pc_resolution prepared) publication publisher entry)) =
       lr_state (le_record entry)"
    "tb_link (lr_binding ?r) = tb_link (lr_binding (le_record entry))"
    "lr_ever_established (le_record (apply_resolution (pc_resolution prepared) publication publisher
       entry)) = lr_ever_established (le_record entry)"
    by (simp_all add: apply_resolution_def)
  have ever: "(if target \<noteq> LinkOperationalState.Unknown \<and>
      target \<noteq> LinkOperationalState.RevalidationRequired then True else b) =
      (b \<or> established_state target)" for b target
    by (simp add: established_state_def)
  show thesis
  proof (rule that)
    show "commit_prepared prepared publication publisher impl entry =
       (count_transition (reindex_state (tb_link (lr_binding (le_record entry)))
          (lr_state (le_record entry)) (pc_target_state prepared)
          (impl\<lparr>im_global_state_generation := gsg\<rparr>)),
        (apply_resolution (pc_resolution prepared) publication publisher entry)
          \<lparr>le_record := stamp_transition (pc_code prepared) (?r\<lparr>lr_history := hs\<rparr>)\<rparr>)"
      unfolding commit_prepared_def Let_def ever
      using assms hs(1) sel by (simp add: advance_next)
  qed (use hs sel in simp_all)
qed

lemma commit_prepared_commits:
  assumes "pc_ok (prepare_commit (im_global_state_generation impl) shadow prospective trigger)"
    and "lr_state (le_record shadow) = lr_state (le_record entry)"
    and "lr_state_generation (le_record shadow) = lr_state_generation (le_record entry)"
    and "commit_prepared (prepare_commit (im_global_state_generation impl) shadow prospective trigger)
           publication publisher impl entry = (impl', entry')"
  shows "commits (policy_class (le_record shadow) (set prospective)) impl entry impl' entry'"
proof -
  define prepared where
    "prepared = prepare_commit (im_global_state_generation impl) shadow prospective trigger"
  let ?c = "policy_class (le_record shadow) (set prospective)"
  note ok = prepare_commit_ok [OF assms(1), folded prepared_def, unfolded assms(2,3)]
  have verdict: "rs_result_class (pc_resolution prepared) = ?c"
    "rs_conflicted (pc_resolution prepared) \<longleftrightarrow> ?c = Conflicted" "pc_target_state prepared = state_of ?c"
    using resolve_verdict [of prospective "le_record shadow"]
    by (simp_all add: prepared_def verdict_def verdict_of_def)
  show ?thesis
  proof (cases "lr_state (le_record entry) = state_of ?c")
    case True
    then have "\<not> pc_state_changed prepared" using ok(3) by simp
    then show ?thesis
      using assms(4) [folded prepared_def] verdict True unfolding commits_def
      by (intro conjI exI [of _ "st_by_state impl'"] exI [of _ "im_global_state_generation impl'"]
          exI [of _ "im_counters impl'"])
        (auto simp: commit_prepared_def Let_def commits_record_def stamp_transition_def
          apply_resolution_def reindex_state_def)
  next
    case False
    then have changed: "pc_state_changed prepared" using ok(3) by simp
    obtain sg gsg where sg: "next_gen (lr_state_generation (le_record entry)) = Some sg"
      and gsg: "next_gen (im_global_state_generation impl) = Some gsg"
      using ok(4) [OF False] by auto
    obtain r hs where raw: "commit_prepared prepared publication publisher impl entry =
       (count_transition (reindex_state (tb_link (lr_binding (le_record entry)))
          (lr_state (le_record entry)) (pc_target_state prepared)
          (impl\<lparr>im_global_state_generation := gsg\<rparr>)),
        (apply_resolution (pc_resolution prepared) publication publisher entry)
          \<lparr>le_record := stamp_transition (pc_code prepared) (r\<lparr>lr_history := hs\<rparr>)\<rparr>)"
      and r: "r = (le_record (apply_resolution (pc_resolution prepared) publication publisher entry))
          \<lparr>lr_state_generation := sg, lr_state := pc_target_state prepared,
           lr_ever_established := lr_ever_established (le_record entry) \<or>
             established_state (pc_target_state prepared)\<rparr>"
      and hs: "length (lr_history (le_record entry)) \<le> cf_max_history_per_link (im_config impl) \<Longrightarrow>
         length hs \<le> cf_max_history_per_link (im_config impl)"
      by (rule commit_prepared_changed [OF changed sg gsg, of publication publisher]) blast
    note result = assms(4) [folded prepared_def, unfolded raw, unfolded verdict(3) prod.inject,
        THEN conjunct1, symmetric] assms(4) [folded prepared_def, unfolded raw, unfolded prod.inject,
        THEN conjunct2, symmetric] r [unfolded verdict(3)] hs
    have frame: "impl' = impl\<lparr>st_by_state := st_by_state impl',
        im_global_state_generation := gsg, im_counters := im_counters impl'\<rparr>"
      "im_global_state_generation impl' = gsg"
      "st_by_state impl' = st_by_state (reindex_state (tb_link (lr_binding (le_record entry)))
        (lr_state (le_record entry)) (state_of ?c) impl)"
      "es_idempotent_publications (im_counters impl') = es_idempotent_publications (im_counters impl)"
      "es_revalidation_required (im_counters impl') = es_revalidation_required (im_counters impl)"
      "es_retired (im_counters impl') = es_retired (im_counters impl)"
      by (simp_all add: result(1) count_transition_def reindex_state_def)
    have "commits_record ?c (le_record entry) (le_record entry')"
      unfolding result(2,3) commits_record_def using False sg verdict(1)
      by (simp add: stamp_transition_def apply_resolution_def)
    moreover have "le_current entry' = le_current entry" "le_dispositions entry' = le_dispositions entry"
      "le_conflicted entry' \<longleftrightarrow> ?c = Conflicted" "lr_history (le_record entry') = hs"
      unfolding result(2,3) using verdict(2) by (simp_all add: stamp_transition_def apply_resolution_def)
    ultimately show ?thesis
      unfolding commits_def using frame False gsg result(4)
      by (intro conjI exI [of _ "st_by_state impl'"] exI [of _ gsg] exI [of _ "im_counters impl'"])
        simp_all
  qed
qed

section \<open>When a commit is refused\<close>

definition invalidating :: "TransitionTrigger \<Rightarrow> bool" where
  "invalidating trigger \<longleftrightarrow>
     trigger \<in> set (inbound_triggers LinkOperationalState.RevalidationRequired)"

lemma effective_trigger_inbound:
  assumes "c \<noteq> StateResultClass.Retired" and "invalidating trigger \<or> class_is_decisive c"
  shows "effective_trigger c trigger \<in> set (inbound_triggers (state_of c))"
  using assms
  by (cases c) (auto simp: effective_trigger_def class_is_decisive_def invalidating_def)

lemma prepare_commit_refused:
  assumes "\<not> pc_ok (prepare_commit g entry prospective trigger)"
    and "invalidating trigger \<or> class_is_decisive (policy_class (le_record entry) (set prospective))"
  shows "pc_code (prepare_commit g entry prospective trigger) =
       (if lr_state (le_record entry) = LinkOperationalState.Retired then RetiredLink else ResourceLimit)"
    and "lr_state (le_record entry) \<noteq> LinkOperationalState.Retired \<Longrightarrow>
       next_gen (lr_state_generation (le_record entry)) = None \<or> next_gen g = None"
proof -
  let ?c = "policy_class (le_record entry) (set prospective)"
  have inbound: "effective_trigger ?c trigger \<in> set (inbound_triggers (state_of ?c))"
    using assms(2) by (intro effective_trigger_inbound) (simp_all add: policy_not_retired)
  show "pc_code (prepare_commit g entry prospective trigger) =
       (if lr_state (le_record entry) = LinkOperationalState.Retired then RetiredLink else ResourceLimit)"
    "lr_state (le_record entry) \<noteq> LinkOperationalState.Retired \<Longrightarrow>
       next_gen (lr_state_generation (le_record entry)) = None \<or> next_gen g = None"
    using assms(1) inbound
    by (auto simp: prepare_commit_def Let_def resolve_class evaluate_transition_cases
        split: if_splits)
qed

lemma recompute_link_cases:
  obtains (committed) changed impl' entry' where
    "recompute_link trigger publication publisher impl entry = ((Committed, changed), impl', entry')"
    "commits (policy_class (le_record entry) (set (le_current entry))) impl entry impl' entry'"
    "lr_state (le_record entry) \<noteq> LinkOperationalState.Retired"
    "changed \<longleftrightarrow> lr_state (le_record entry) \<noteq> lr_state (le_record entry')"
  | (refused) code where
    "recompute_link trigger publication publisher impl entry = ((code, False), impl, entry)"
    "\<not> pc_ok (prepare_commit (im_global_state_generation impl) entry (le_current entry) trigger)"
proof -
  let ?prepared = "prepare_commit (im_global_state_generation impl) entry (le_current entry) trigger"
  show thesis
  proof (cases "pc_ok ?prepared")
    case True
    obtain impl' entry' where result:
      "commit_prepared ?prepared publication publisher impl entry = (impl', entry')"
      by fastforce
    have c: "commits (policy_class (le_record entry) (set (le_current entry))) impl entry impl' entry'"
      by (rule commit_prepared_commits [OF True refl refl result])
    show thesis
      by (rule committed [OF _ c])
        (use True result c prepare_commit_ok [OF True] in
          \<open>auto simp: recompute_link_def Let_def commits_def commits_record_def\<close>)
  next
    case False
    then show thesis
      by (intro refused [of "pc_code ?prepared"]) (simp_all add: recompute_link_def Let_def)
  qed
qed

section \<open>Advancing generations\<close>

definition set_evidence_generation :: "EvidenceGeneration \<Rightarrow> LinkEntry \<Rightarrow> LinkEntry" where
  "set_evidence_generation g entry =
     entry\<lparr>le_record := (le_record entry)\<lparr>lr_evidence_generation := g\<rparr>\<rparr>"

lemma next_gen_top [simp]: "next_gen (Gen (- 1)) = None"
  by (simp add: next_gen_def)

lemma advance_evidence_global_cases:
  obtains (advanced) eg gg where
    "advance_evidence_global impl entry =
       (True, impl\<lparr>im_global_generation := gg\<rparr>, set_evidence_generation eg entry)"
    "next_gen (lr_evidence_generation (le_record entry)) = Some eg"
    "next_gen (im_global_generation impl) = Some gg"
  | (evidence_exhausted) "advance_evidence_global impl entry = (False, impl, entry)"
    "lr_evidence_generation (le_record entry) = Gen (- 1)"
  | (global_exhausted) eg where
    "advance_evidence_global impl entry = (False, impl, set_evidence_generation eg entry)"
    "next_gen (lr_evidence_generation (le_record entry)) = Some eg"
    "im_global_generation impl = Gen (- 1)"
proof (cases "next_gen (lr_evidence_generation (le_record entry))")
  case None
  then show thesis
    by (intro evidence_exhausted)
      (simp_all add: advance_evidence_global_def advance_def generation.step_None)
next
  case eg: (Some eg)
  show thesis
  proof (cases "next_gen (im_global_generation impl)")
    case None
    with eg show thesis
      by (intro global_exhausted) (simp_all add: advance_evidence_global_def advance_def
          generation.step_None set_evidence_generation_def Let_def)
  next
    case (Some gg)
    with eg show thesis
      by (intro advanced) (simp_all add: advance_evidence_global_def advance_def
          set_evidence_generation_def Let_def)
  qed
qed

lemma advance_global_evidence_cases:
  obtains (advanced) eg gg where
    "advance_global_evidence impl entry =
       (True, impl\<lparr>im_global_generation := gg\<rparr>, set_evidence_generation eg entry)"
    "next_gen (lr_evidence_generation (le_record entry)) = Some eg"
    "next_gen (im_global_generation impl) = Some gg"
  | (global_exhausted) "advance_global_evidence impl entry = (False, impl, entry)"
    "im_global_generation impl = Gen (- 1)"
  | (evidence_exhausted) gg where
    "advance_global_evidence impl entry = (False, impl\<lparr>im_global_generation := gg\<rparr>, entry)"
    "lr_evidence_generation (le_record entry) = Gen (- 1)"
    "next_gen (im_global_generation impl) = Some gg"
proof (cases "next_gen (im_global_generation impl)")
  case None
  then show thesis
    by (intro global_exhausted)
      (simp_all add: advance_global_evidence_def advance_def generation.step_None)
next
  case gg: (Some gg)
  show thesis
  proof (cases "next_gen (lr_evidence_generation (le_record entry))")
    case None
    with gg show thesis
      by (intro evidence_exhausted) (simp_all add: advance_global_evidence_def advance_def
          generation.step_None Let_def)
  next
    case (Some eg)
    with gg show thesis
      by (intro advanced) (simp_all add: advance_global_evidence_def advance_def
          set_evidence_generation_def Let_def)
  qed
qed

lemma stamp_global_sel [simp]:
  "le_current (stamp_global i e) = le_current e" "le_dispositions (stamp_global i e) = le_dispositions e"
  "lr_state (le_record (stamp_global i e)) = lr_state (le_record e)"
  "lr_binding (le_record (stamp_global i e)) = lr_binding (le_record e)"
  "lr_admin_intent (le_record (stamp_global i e)) = lr_admin_intent (le_record e)"
  "lr_result_class (le_record (stamp_global i e)) = lr_result_class (le_record e)"
  "lr_state_generation (le_record (stamp_global i e)) = lr_state_generation (le_record e)"
  "lr_evidence_generation (le_record (stamp_global i e)) = lr_evidence_generation (le_record e)"
  "lr_global_generation (le_record (stamp_global i e)) = im_global_generation i"
  "lr_ever_established (le_record (stamp_global i e)) = lr_ever_established (le_record e)"
  "lr_history (le_record (stamp_global i e)) = lr_history (le_record e)"
  by (simp_all add: stamp_global_def)

lemma set_evidence_generation_sel [simp]:
  "le_current (set_evidence_generation g e) = le_current e"
  "le_dispositions (set_evidence_generation g e) = le_dispositions e"
  "lr_state (le_record (set_evidence_generation g e)) = lr_state (le_record e)"
  "lr_binding (le_record (set_evidence_generation g e)) = lr_binding (le_record e)"
  "lr_admin_intent (le_record (set_evidence_generation g e)) = lr_admin_intent (le_record e)"
  "lr_result_class (le_record (set_evidence_generation g e)) = lr_result_class (le_record e)"
  "lr_state_generation (le_record (set_evidence_generation g e)) = lr_state_generation (le_record e)"
  "lr_evidence_generation (le_record (set_evidence_generation g e)) = g"
  "lr_global_generation (le_record (set_evidence_generation g e)) = lr_global_generation (le_record e)"
  "lr_ever_established (le_record (set_evidence_generation g e)) = lr_ever_established (le_record e)"
  "lr_history (le_record (set_evidence_generation g e)) = lr_history (le_record e)"
  by (simp_all add: set_evidence_generation_def)

end
