(* ===== verification/Engine_Invariants.thy ===== *)
theory Engine_Invariants
  imports Engine_Frames
begin

text \<open>
  The structural invariant of the engine and its preservation by every building block.  A mutation
  works on an entry outside the map and writes it back at the end; \<open>inv_at X l e impl\<close> says that the
  invariant holds of the engine with the entry \<open>e\<close> in place at \<open>l\<close>.  While publishers are being
  fenced their evidence is still present although they are no longer active: \<open>X\<close> names them, and is
  empty between operations.
\<close>

section \<open>The invariant\<close>

definition owned_ok :: "Impl \<Rightarrow> EvidenceRecord \<Rightarrow> bool" where
  "owned_ok impl v \<longleftrightarrow>
     (\<exists>a. find_publisher (ev_publisher v) impl = Some a \<and> pa_status a = Active \<and>
        pa_worker_boot a = ev_worker_boot v) \<and>
     ev_epoch v = im_epoch impl"

definition slot_ok :: "(PublisherId \<Rightarrow> bool) \<Rightarrow> Impl \<Rightarrow> LinkId \<Rightarrow> TopologyBinding \<Rightarrow> EvidenceRecord \<Rightarrow> bool" where
  "slot_ok X impl l binding v \<longleftrightarrow>
     ev_link v = l \<and> ev_status v = Current \<and> ev_class v \<noteq> Unsupported \<and> cause_named v \<and>
     describes_binding binding v \<and> bucket_mem (st_publisher_links impl) (ev_publisher v) l \<and>
     (X (ev_publisher v) \<or> owned_ok impl v) \<and> ev_commit_sequence v \<le> im_global_generation impl"

definition generations_ok :: "Impl \<Rightarrow> LinkStateRecord \<Rightarrow> bool" where
  "generations_ok impl r \<longleftrightarrow>
     gen_value (lr_state_generation r) \<le> gen_value (im_global_state_generation impl) \<and>
     gen_value (lr_evidence_generation r) \<le> gen_value (im_global_generation impl) \<and>
     lr_global_generation r \<le> im_global_generation impl"

definition rings_ok :: "EngineConfig \<Rightarrow> LinkEntry \<Rightarrow> bool" where
  "rings_ok config e \<longleftrightarrow>
     length (lr_history (le_record e)) \<le> cf_max_history_per_link config \<and>
     length (le_dispositions e) \<le> cf_max_history_per_link config"

definition intent_ok :: "LinkStateRecord \<Rightarrow> bool" where
  "intent_ok r \<longleftrightarrow>
     (case lr_admin_intent r of
        None \<Rightarrow> True
      | Some i \<Rightarrow> ai_state i \<in> {LinkOperationalState.AdminDisabled, LinkOperationalState.Draining,
          LinkOperationalState.Down, LinkOperationalState.Degraded, LinkOperationalState.Faulted})"

definition entry_ok :: "(PublisherId \<Rightarrow> bool) \<Rightarrow> Impl \<Rightarrow> LinkId \<Rightarrow> LinkEntry \<Rightarrow> bool" where
  "entry_ok X impl l e \<longleftrightarrow>
     valid l \<and> tb_link (lr_binding (le_record e)) = l \<and>
     distinct (map ev_key (le_current e)) \<and>
     length (le_current e) \<le> cf_max_evidence_per_link (im_config impl) \<and>
     (\<forall>v\<in>set (le_current e). slot_ok X impl l (lr_binding (le_record e)) v) \<and>
     (lr_state (le_record e) = LinkOperationalState.Retired \<longrightarrow> le_current e = []) \<and>
     lr_state (le_record e) = state_of (lr_result_class (le_record e)) \<and>
     generations_ok impl (le_record e) \<and> rings_ok (im_config impl) e \<and> intent_ok (le_record e)"

definition backing_ids :: "TopologyBinding \<Rightarrow> LinkId list" where
  "backing_ids binding = map br_link (tb_backing_links binding)"

definition indexes_ok :: "Impl \<Rightarrow> bool" where
  "indexes_ok impl \<longleftrightarrow>
     index_agrees bucket_mem (st_by_state impl)
       (\<lambda>l s. \<exists>e. find_link l impl = Some e \<and> lr_state (le_record e) = s) \<and>
     index_agrees bucket_mem (st_by_endpoint impl)
       (\<lambda>l p. \<exists>e. find_link l impl = Some e \<and> p \<in> set (bound_endpoints (lr_binding (le_record e)))) \<and>
     index_agrees bucket_mem (st_dependents impl)
       (\<lambda>l b. \<exists>e. find_link l impl = Some e \<and> b \<in> set (backing_ids (lr_binding (le_record e)))) \<and>
     buckets_ok (st_by_state impl) \<and> buckets_ok (st_by_endpoint impl) \<and>
     buckets_ok (st_dependents impl) \<and> buckets_ok (st_publisher_links impl)"

definition observations_ok :: "Impl \<Rightarrow> bool" where
  "observations_ok impl \<longleftrightarrow>
     distinct (map fst (st_observations impl)) \<and>
     (\<forall>x k. map_of (st_observations impl) x = Some k \<longleftrightarrow>
        (\<exists>e v. find_link (key_link k) impl = Some e \<and> v \<in> set (le_current e) \<and>
           ev_observation v = x \<and> ev_key v = k))"

definition authority_ok :: "(PublisherId \<Rightarrow> bool) \<Rightarrow> Impl \<Rightarrow> PublisherId \<Rightarrow> PublisherAuthority \<Rightarrow> bool" where
  "authority_ok X impl p a \<longleftrightarrow>
     pa_publisher a = p \<and> valid p \<and> valid (pa_worker_boot a) \<and> scope_ok (pa_scope a) \<and>
     pa_epoch a \<le> im_epoch impl \<and>
     (pa_status a = Active \<longrightarrow> X p \<or> pa_epoch a = im_epoch impl)"

definition publishers_ok :: "(PublisherId \<Rightarrow> bool) \<Rightarrow> Impl \<Rightarrow> bool" where
  "publishers_ok X impl \<longleftrightarrow>
     distinct (map fst (st_publishers impl)) \<and>
     length (st_publishers impl) \<le> cf_max_publishers (im_config impl) \<and>
     length (st_fences impl) \<le> cf_max_publishers (im_config impl) \<and>
     (\<forall>p a. find_publisher p impl = Some a \<longrightarrow> authority_ok X impl p a)"

definition store_inv :: "(PublisherId \<Rightarrow> bool) \<Rightarrow> Impl \<Rightarrow> bool" where
  "store_inv X impl \<longleftrightarrow>
     distinct (map fst (st_links impl)) \<and> length (st_links impl) \<le> cf_max_links (im_config impl) \<and>
     (\<forall>l e. find_link l impl = Some e \<longrightarrow> entry_ok X impl l e) \<and>
     indexes_ok impl \<and> observations_ok impl \<and> publishers_ok X impl"

abbreviation nobody :: "PublisherId \<Rightarrow> bool" where
  "nobody \<equiv> \<lambda>_. False"

definition inv_at :: "(PublisherId \<Rightarrow> bool) \<Rightarrow> LinkId \<Rightarrow> LinkEntry \<Rightarrow> Impl \<Rightarrow> bool" where
  "inv_at X l e impl \<longleftrightarrow> (\<exists>e0. find_link l impl = Some e0) \<and> store_inv X (put_entry l e impl)"

section \<open>The transaction rule\<close>

lemma update_same: "map_of m k = Some v \<Longrightarrow> AList.update k v m = m"
  by (induction m) (auto split: if_splits)

lemma put_entry_same: "find_link l impl = Some e \<Longrightarrow> put_entry l e impl = impl"
  by (simp add: put_entry_def find_link_def update_same)

lemma keys_put_entry:
  "find_link l s = Some e0 \<Longrightarrow> map fst (st_links (put_entry l e s)) = map fst (st_links s)"
proof -
  have "map_of m l = Some e0 \<Longrightarrow> map fst (AList.update l e m) = map fst m" for m
    by (induction m) (auto split: if_splits)
  then show "find_link l s = Some e0 \<Longrightarrow> map fst (st_links (put_entry l e s)) = map fst (st_links s)"
    by (simp add: put_entry_def find_link_def)
qed

lemma inv_at_current: "store_inv X impl \<Longrightarrow> find_link l impl = Some e \<Longrightarrow> inv_at X l e impl"
  by (simp add: inv_at_def put_entry_same)

lemma inv_at_inv: "inv_at X l e impl \<Longrightarrow> store_inv X (put_entry l e impl)"
  by (simp add: inv_at_def)

lemma entry_ok_put [simp]: "entry_ok X (put_entry k e' impl) l e = entry_ok X impl l e"
  by (simp add: entry_ok_def slot_ok_def owned_ok_def generations_ok_def)

lemma publishers_ok_put [simp]: "publishers_ok X (put_entry k e' impl) = publishers_ok X impl"
  by (simp add: publishers_ok_def authority_ok_def)

lemma inv_at_entry: "inv_at X l e impl \<Longrightarrow> entry_ok X impl l e"
  by (auto simp: inv_at_def store_inv_def)

text \<open>What a transaction on link \<open>l\<close> must respect so that the other entries stay well formed.\<close>

definition extends :: "LinkId \<Rightarrow> Impl \<Rightarrow> Impl \<Rightarrow> bool" where
  "extends l impl impl' \<longleftrightarrow>
     im_config impl' = im_config impl \<and> im_epoch impl' = im_epoch impl \<and>
     im_global_generation impl \<le> im_global_generation impl' \<and>
     im_global_state_generation impl \<le> im_global_state_generation impl' \<and>
     (\<forall>p a. find_publisher p impl = Some a \<longrightarrow>
        (\<exists>a'. find_publisher p impl' = Some a' \<and> pa_status a' = pa_status a \<and>
           pa_worker_boot a' = pa_worker_boot a)) \<and>
     (\<forall>p k. k \<noteq> l \<longrightarrow> bucket_mem (st_publisher_links impl) p k \<longrightarrow>
        bucket_mem (st_publisher_links impl') p k)"

lemma gen_value_mono: "a \<le> b \<Longrightarrow> gen_value a \<le> gen_value b"
  by (simp add: less_eq_StrongGeneration_def)

lemma owned_ok_extends: "extends l impl impl' \<Longrightarrow> owned_ok impl v \<Longrightarrow> owned_ok impl' v"
  unfolding owned_ok_def extends_def by metis

lemma generations_ok_mono:
  "generations_ok impl r \<Longrightarrow> im_global_generation impl \<le> im_global_generation impl' \<Longrightarrow>
     im_global_state_generation impl \<le> im_global_state_generation impl' \<Longrightarrow> generations_ok impl' r"
  using order_trans by (auto simp: generations_ok_def less_eq_StrongGeneration_def)

lemma entry_ok_extends:
  assumes "extends l impl impl'" and "k \<noteq> l" and "entry_ok X impl k e"
  shows "entry_ok X impl' k e"
proof -
  have "slot_ok X impl' k b v" if "slot_ok X impl k b v" for b v
    using that assms(1,2) owned_ok_extends [OF assms(1), of v]
    by (auto simp: slot_ok_def extends_def intro: order_trans)
  then show ?thesis
    using assms(1,3) generations_ok_mono by (auto simp: entry_ok_def extends_def)
qed

text \<open>The observation index files exactly the current records of \<open>l\<close>, and is unchanged elsewhere.\<close>

definition filed :: "LinkId \<Rightarrow> EvidenceRecord list \<Rightarrow> (ObservationId, EvidenceKey) umap \<Rightarrow>
    (ObservationId, EvidenceKey) umap \<Rightarrow> bool" where
  "filed l current obs obs' \<longleftrightarrow>
     (\<forall>x k. map_of obs' x = Some k \<longleftrightarrow>
        (if key_link k = l then \<exists>v\<in>set current. ev_observation v = x \<and> ev_key v = k
         else map_of obs x = Some k))"

lemma inv_at_step:
  assumes "inv_at X l e impl" and "st_links impl' = st_links impl" and "extends l impl impl'"
    and "entry_ok X impl' l e'" and "publishers_ok X impl'"
    and "lr_binding (le_record e') = lr_binding (le_record e)"
    and "st_by_endpoint impl' = st_by_endpoint impl" and "st_dependents impl' = st_dependents impl"
    and "st_by_state impl' = st_by_state (reindex_state l (lr_state (le_record e)) (lr_state (le_record e')) impl)"
    and "buckets_ok (st_publisher_links impl')"
    and "distinct (map fst (st_observations impl'))"
    and "filed l (le_current e') (st_observations impl) (st_observations impl')"
  shows "inv_at X l e' impl'"
proof -
  let ?old = "put_entry l e impl" and ?new = "put_entry l e' impl'"
  have store_inv: "store_inv X ?old" and present: "\<exists>e0. find_link l impl = Some e0"
    using assms(1) by (simp_all add: inv_at_def)
  have find: "find_link k impl' = find_link k impl" for k
    using assms(2) by (rule find_link_frame)
  have state: "st_by_state impl' =
      (if lr_state (le_record e) = lr_state (le_record e') then st_by_state impl
       else bucket_insert (lr_state (le_record e')) l
         (bucket_erase (lr_state (le_record e)) l (st_by_state impl)))"
    using assms(9) by (simp add: reindex_state_def)
  have indexes: "indexes_ok ?old" using store_inv by (simp add: store_inv_def)
  have "index_agrees bucket_mem (st_by_state ?new)
       (\<lambda>l s. \<exists>e. find_link l ?new = Some e \<and> lr_state (le_record e) = s)"
    using indexes state
    by (auto simp: indexes_ok_def index_agrees_def find bucket_mem_insert bucket_mem_erase)
  moreover have "buckets_ok (st_by_state ?new)"
    using indexes state by (simp add: indexes_ok_def)
  ultimately have "indexes_ok ?new"
    using indexes assms(6,7,8,10) by (simp add: indexes_ok_def index_agrees_def find)
  moreover have "observations_ok ?new"
    using store_inv assms(11,12) by (auto simp: store_inv_def observations_ok_def filed_def find)
  moreover have "entry_ok X ?new k f" if "find_link k ?new = Some f" for k f
    using that assms(4) store_inv entry_ok_extends [OF assms(3), of k X f]
    by (auto simp: store_inv_def find split: if_splits)
  moreover have "map fst (st_links ?new) = map fst (st_links ?old)"
    using present assms(2) by (auto simp: keys_put_entry find)
  moreover have "length (st_links ?new) = length (st_links ?old)"
    using present assms(2) by (auto simp: length_put_entry find)
  moreover have "im_config ?new = im_config ?old" using assms(3) by (simp add: extends_def)
  ultimately show ?thesis
    using store_inv present assms(5) unfolding inv_at_def store_inv_def by (simp add: find)
qed

section \<open>Preservation by the building blocks\<close>

lemma extends_refl [simp]: "extends l impl impl"
  by (simp add: extends_def)

lemma inv_at_filed:
  "inv_at X l e impl \<Longrightarrow> filed l (le_current e) (st_observations impl) (st_observations impl)"
  by (auto simp: inv_at_def store_inv_def observations_ok_def filed_def)

lemma inv_at_parts:
  assumes "inv_at X l e impl"
  shows "publishers_ok X impl" and "buckets_ok (st_publisher_links impl)"
    and "distinct (map fst (st_observations impl))"
  using assms by (simp_all add: inv_at_def store_inv_def indexes_ok_def observations_ok_def)

text \<open>A step that only rewrites the record of the entry, keeping its state and binding.\<close>

lemma inv_at_record:
  assumes "inv_at X l e impl" and "entry_ok X impl l e'"
    and "le_current e' = le_current e" and "lr_state (le_record e') = lr_state (le_record e)"
    and "lr_binding (le_record e') = lr_binding (le_record e)"
  shows "inv_at X l e' impl"
  by (rule inv_at_step [OF assms(1) refl extends_refl assms(2)])
    (use assms(3-) inv_at_parts [OF assms(1)] inv_at_filed [OF assms(1)] in
      \<open>simp_all add: reindex_state_def\<close>)

lemma released_filed:
  assumes "filed l es obs obs" and "released {v \<in> set es. p v} obs obs'"
    and "distinct (map ev_key es)" and "\<And>v. v \<in> set es \<Longrightarrow> ev_link v = l"
  shows "filed l (filter (\<lambda>v. \<not> p v) es) obs obs'"
  unfolding filed_def
proof (intro allI)
  fix x k
  have unique: "v = w" if "v \<in> set es" "w \<in> set es" "ev_key v = ev_key w" for v w
    using assms(3) that by (auto simp: distinct_map inj_on_def)
  have old: "map_of obs x = Some k \<longleftrightarrow> (\<exists>v\<in>set es. ev_observation v = x \<and> ev_key v = k)"
    if "key_link k = l"
    using assms(1) [unfolded filed_def, rule_format, of x k] that by simp
  have new: "map_of obs' x = Some k \<longleftrightarrow> map_of obs x = Some k \<and>
      \<not> (\<exists>v\<in>set es. p v \<and> ev_observation v = x \<and> ev_key v = k)"
    using assms(2) by (auto simp: released_def)
  show "map_of obs' x = Some k \<longleftrightarrow>
      (if key_link k = l
       then \<exists>v\<in>set (filter (\<lambda>v. \<not> p v) es). ev_observation v = x \<and> ev_key v = k
       else map_of obs x = Some k)"
  proof (cases "key_link k = l")
    case True
    then show ?thesis using old new unique by auto
  next
    case False
    then show ?thesis using new assms(4) by auto
  qed
qed

lemma inv_at_drop:
  assumes "inv_at X l e impl" and "drop_evidence p status reason impl e = (impl', e')"
  shows "inv_at X l e' impl'"
proof -
  obtain obs ds where drop: "impl' = impl\<lparr>st_observations := obs\<rparr>"
    "e' = e\<lparr>le_dispositions := ds, le_current := filter (\<lambda>v. \<not> p v) (le_current e)\<rparr>"
    and released: "released {v \<in> set (le_current e). p v} (st_observations impl) obs"
    and ds: "length (le_dispositions e) \<le> cf_max_history_per_link (im_config impl) \<Longrightarrow>
       length ds \<le> cf_max_history_per_link (im_config impl)"
    using assms(2) by (rule_tac drop_evidence_cases [of p status reason impl e]) auto
  have entry: "entry_ok X impl l e" by (rule inv_at_entry [OF assms(1)])
  have short: "length (filter (\<lambda>v. \<not> p v) (le_current e)) \<le> cf_max_evidence_per_link (im_config impl)"
    using entry by (auto simp: entry_ok_def intro: order_trans [OF length_filter_le])
  have slots: "slot_ok X impl' l b v = slot_ok X impl l b v" for b v
    by (simp add: drop slot_ok_def owned_ok_def find_publisher_def)
  have ok: "entry_ok X impl' l e'"
    using entry ds short slots
    by (auto simp: drop entry_ok_def generations_ok_def rings_ok_def intro: distinct_map_filter)
  have "filed l (filter (\<lambda>v. \<not> p v) (le_current e)) (st_observations impl) obs"
    by (rule released_filed [OF inv_at_filed [OF assms(1)] released])
      (use entry in \<open>auto simp: entry_ok_def slot_ok_def\<close>)
  then show ?thesis
    by (intro inv_at_step [OF assms(1) _ _ ok])
      (use inv_at_parts [OF assms(1)] released in
        \<open>simp_all add: drop extends_def publishers_ok_def authority_ok_def find_publisher_def
           reindex_state_def released_def\<close>)
qed

lemma drop_evidence_sel:
  assumes "drop_evidence p status reason impl e = (impl', e')"
  shows "le_record e' = le_record e" and "le_current e' = filter (\<lambda>v. \<not> p v) (le_current e)"
    and "le_conflicted e' = le_conflicted e"
    and "\<exists>obs. impl' = impl\<lparr>st_observations := obs\<rparr> \<and>
           released {v \<in> set (le_current e). p v} (st_observations impl) obs"
  using assms by (rule_tac drop_evidence_cases [of p status reason impl e], auto)+

lemma next_gen_value: "next_gen g = Some g' \<Longrightarrow> gen_value g' = gen_value g + 1 \<and> gen_value g \<noteq> - 1"
  by (auto simp: next_gen_def split: if_splits)

lemma next_gen_cross:
  assumes "gen_value a \<le> gen_value b" and "next_gen a = Some a'" and "next_gen b = Some b'"
  shows "gen_value a' \<le> gen_value b'"
proof -
  have "gen_value b < gen_value b + 1"
    using next_gen_value [OF assms(3)] by (simp add: word_step_less)
  then have "gen_value a < gen_value b + 1" using assms(1) by simp
  then show ?thesis
    using next_gen_value [OF assms(2)] next_gen_value [OF assms(3)] by (simp add: inc_le)
qed

lemma gen_value_top: "gen_value g \<le> gen_value (Gen (- 1))"
  by (simp add: word_order.extremum)

lemma next_gen_le: "next_gen g = Some g' \<Longrightarrow> g \<le> g'"
  by (rule less_imp_le) (rule generation.step_less)

text \<open>Changes of the generation counters of the engine together with those of the entry.\<close>

lemma inv_at_generations:
  assumes "inv_at X l e impl"
    and "impl' = impl\<lparr>im_global_generation := gg, im_global_state_generation := gsg\<rparr>"
    and "im_global_generation impl \<le> gg" and "im_global_state_generation impl \<le> gsg"
    and "le_current e' = le_current e" "le_dispositions e' = le_dispositions e"
    and "lr_state (le_record e') = lr_state (le_record e)"
    and "lr_result_class (le_record e') = lr_result_class (le_record e)"
    and "lr_binding (le_record e') = lr_binding (le_record e)"
    and "lr_history (le_record e') = lr_history (le_record e)"
    and "lr_admin_intent (le_record e') = lr_admin_intent (le_record e)"
    and "generations_ok impl' (le_record e')"
  shows "inv_at X l e' impl'"
proof -
  have slots: "slot_ok X impl' l b v" if "slot_ok X impl l b v" for b v
    using that assms(2-3) by (auto simp: slot_ok_def owned_ok_def find_publisher_def)
  have ok: "entry_ok X impl' l e'"
    using inv_at_entry [OF assms(1)] assms(2,5-12) slots
    by (auto simp: entry_ok_def rings_ok_def intent_ok_def)
  have frame: "st_links impl' = st_links impl" "extends l impl impl'" "publishers_ok X impl'"
    using assms(2-4) inv_at_parts(1) [OF assms(1)]
    by (auto simp: extends_def find_publisher_def publishers_ok_def authority_ok_def)
  show ?thesis
    by (rule inv_at_step [OF assms(1) frame(1,2) ok frame(3)])
      (use assms(2,5,7,9) inv_at_parts [OF assms(1)] inv_at_filed [OF assms(1)] in
        \<open>simp_all add: reindex_state_def\<close>)
qed

lemma inv_at_global:
  assumes "inv_at X l e impl" and "next_gen (im_global_generation impl) = Some gg"
  shows "inv_at X l e (impl\<lparr>im_global_generation := gg\<rparr>)"
proof -
  have "generations_ok (impl\<lparr>im_global_generation := gg\<rparr>) (le_record e)"
    using inv_at_entry [OF assms(1)] next_gen_le [OF assms(2)]
    by (auto simp: entry_ok_def intro: generations_ok_mono)
  then show ?thesis
    by (intro inv_at_generations [OF assms(1), where gsg = "im_global_state_generation impl"])
      (use next_gen_le [OF assms(2)] in simp_all)
qed

lemma inv_at_advance_evidence_global:
  assumes "inv_at X l e impl" and "advance_evidence_global impl e = (b, impl', e')"
  shows "inv_at X l e' impl'"
proof -
  have gens: "generations_ok impl (le_record e)"
    using inv_at_entry [OF assms(1)] by (simp add: entry_ok_def)
  show ?thesis
  proof (cases rule: advance_evidence_global_cases [of impl e])
    case (advanced eg gg)
    have "generations_ok impl' (le_record e')"
      using gens advanced assms(2) next_gen_cross [OF _ advanced(2,3)] next_gen_le [OF advanced(3)]
      by (auto simp: generations_ok_def)
    then show ?thesis
      by (intro inv_at_generations [OF assms(1), where gg = gg and gsg = "im_global_state_generation impl"])
        (use advanced assms(2) next_gen_le [OF advanced(3)] in auto)
  next
    case evidence_exhausted
    then show ?thesis using assms by simp
  next
    case (global_exhausted eg)
    have "generations_ok impl' (le_record e')"
      using gens global_exhausted assms(2) by (auto simp: generations_ok_def word_order.extremum)
    then show ?thesis
      by (intro inv_at_generations [OF assms(1), where gg = "im_global_generation impl"
            and gsg = "im_global_state_generation impl"])
        (use global_exhausted assms(2) in auto)
  qed
qed

lemma inv_at_advance_global_evidence:
  assumes "inv_at X l e impl" and "advance_global_evidence impl e = (b, impl', e')"
  shows "inv_at X l e' impl'"
proof -
  have gens: "generations_ok impl (le_record e)"
    using inv_at_entry [OF assms(1)] by (simp add: entry_ok_def)
  show ?thesis
  proof (cases rule: advance_global_evidence_cases [of impl e])
    case (advanced eg gg)
    have "generations_ok impl' (le_record e')"
      using gens advanced assms(2) next_gen_cross [OF _ advanced(2,3)] next_gen_le [OF advanced(3)]
      by (auto simp: generations_ok_def)
    then show ?thesis
      by (intro inv_at_generations [OF assms(1), where gg = gg and gsg = "im_global_state_generation impl"])
        (use advanced assms(2) next_gen_le [OF advanced(3)] in auto)
  next
    case global_exhausted
    then show ?thesis using assms by simp
  next
    case (evidence_exhausted gg)
    then show ?thesis
      using inv_at_global [OF assms(1) evidence_exhausted(3)] assms(2) by simp
  qed
qed

lemma inv_at_stamp: "inv_at X l e impl \<Longrightarrow> inv_at X l (stamp_global impl e) impl"
proof -
  assume store_inv: "inv_at X l e impl"
  have "entry_ok X impl l (stamp_global impl e)"
    using inv_at_entry [OF store_inv]
    by (simp add: entry_ok_def generations_ok_def rings_ok_def intent_ok_def)
  then show ?thesis by (intro inv_at_record [OF store_inv]) simp_all
qed

lemma commits_frame:
  assumes "commits c impl e impl' e'"
  shows "st_links impl' = st_links impl" "st_by_endpoint impl' = st_by_endpoint impl"
    "st_dependents impl' = st_dependents impl" "st_publishers impl' = st_publishers impl"
    "st_publisher_links impl' = st_publisher_links impl"
    "st_observations impl' = st_observations impl" "st_fences impl' = st_fences impl"
    "st_fenced_boots impl' = st_fenced_boots impl" "im_config impl' = im_config impl"
    "im_epoch impl' = im_epoch impl" "im_global_generation impl' = im_global_generation impl"
    "im_topology_generation impl' = im_topology_generation impl"
proof -
  obtain bs g k where impl': "impl' = impl\<lparr>st_by_state := bs, im_global_state_generation := g, im_counters := k\<rparr>"
    using assms unfolding commits_def by blast
  show "st_links impl' = st_links impl" "st_by_endpoint impl' = st_by_endpoint impl"
    "st_dependents impl' = st_dependents impl" "st_publishers impl' = st_publishers impl"
    "st_publisher_links impl' = st_publisher_links impl"
    "st_observations impl' = st_observations impl" "st_fences impl' = st_fences impl"
    "st_fenced_boots impl' = st_fenced_boots impl" "im_config impl' = im_config impl"
    "im_epoch impl' = im_epoch impl" "im_global_generation impl' = im_global_generation impl"
    "im_topology_generation impl' = im_topology_generation impl"
    by (simp_all add: impl')
qed

lemma commits_entry:
  assumes "commits c impl e impl' e'"
  shows "le_current e' = le_current e" "le_dispositions e' = le_dispositions e"
    "lr_binding (le_record e') = lr_binding (le_record e)"
    "lr_state (le_record e') = state_of c" "lr_result_class (le_record e') = c"
    "lr_admin_intent (le_record e') = lr_admin_intent (le_record e)"
    "lr_evidence_generation (le_record e') = lr_evidence_generation (le_record e)"
    "lr_global_generation (le_record e') = lr_global_generation (le_record e)"
    "length (lr_history (le_record e)) \<le> cf_max_history_per_link (im_config impl) \<Longrightarrow>
       length (lr_history (le_record e')) \<le> cf_max_history_per_link (im_config impl)"
    "st_by_state impl' = st_by_state (reindex_state (tb_link (lr_binding (le_record e)))
        (lr_state (le_record e)) (state_of c) impl)"
  using assms unfolding commits_def commits_record_def by simp_all

lemma commits_state_generation:
  assumes "commits c impl e impl' e'"
  shows "im_global_state_generation impl \<le> im_global_state_generation impl'"
    and "lr_state_generation (le_record e) \<le> lr_state_generation (le_record e')"
    and "gen_value (lr_state_generation (le_record e)) \<le> gen_value (im_global_state_generation impl) \<Longrightarrow>
           gen_value (lr_state_generation (le_record e')) \<le> gen_value (im_global_state_generation impl')"
proof -
  consider (same) "lr_state_generation (le_record e') = lr_state_generation (le_record e)"
      "im_global_state_generation impl' = im_global_state_generation impl"
    | (step) "next_gen (lr_state_generation (le_record e)) = Some (lr_state_generation (le_record e'))"
      "next_gen (im_global_state_generation impl) = Some (im_global_state_generation impl')"
    using assms unfolding commits_def commits_record_def by (auto split: if_splits)
  note cases = this
  show "im_global_state_generation impl \<le> im_global_state_generation impl'"
    by (cases rule: cases) (simp_all add: next_gen_le)
  show "lr_state_generation (le_record e) \<le> lr_state_generation (le_record e')"
    by (cases rule: cases) (simp_all add: next_gen_le)
  show "gen_value (lr_state_generation (le_record e)) \<le> gen_value (im_global_state_generation impl) \<Longrightarrow>
      gen_value (lr_state_generation (le_record e')) \<le> gen_value (im_global_state_generation impl')"
    by (cases rule: cases) (simp_all add: next_gen_cross)
qed

lemma inv_at_commits:
  assumes "inv_at X l e impl" and "commits c impl e impl' e'"
    and "lr_state (le_record e) \<noteq> LinkOperationalState.Retired" and "c \<noteq> StateResultClass.Retired"
  shows "inv_at X l e' impl'"
proof -
  note frame = commits_frame [OF assms(2)] commits_entry(1-8) [OF assms(2)]
    and gens = commits_state_generation [OF assms(2)]
  have entry: "entry_ok X impl l e" by (rule inv_at_entry [OF assms(1)])
  have publishers: "find_publisher p impl' = find_publisher p impl" for p
    by (rule find_publisher_frame) (rule frame)
  have slots: "slot_ok X impl' l b v = slot_ok X impl l b v" for b v
    by (simp add: slot_ok_def owned_ok_def publishers frame)
  have "rings_ok (im_config impl') e'"
    using entry commits_entry(9) [OF assms(2)] by (simp add: entry_ok_def rings_ok_def frame)
  moreover have "generations_ok impl' (le_record e')"
    using entry gens(3) by (simp add: entry_ok_def generations_ok_def frame)
  ultimately have ok: "entry_ok X impl' l e'"
    using entry assms(4) by (auto simp: entry_ok_def slots frame intent_ok_def state_of_Retired)
  have "tb_link (lr_binding (le_record e)) = l"
    using entry by (simp add: entry_ok_def)
  then have state: "st_by_state impl' =
      st_by_state (reindex_state l (lr_state (le_record e)) (lr_state (le_record e')) impl)"
    using commits_entry(10) [OF assms(2)] by (simp add: frame)
  have "publishers_ok X impl'"
    using inv_at_parts(1) [OF assms(1)]
    by (simp add: publishers_ok_def authority_ok_def publishers frame)
  then show ?thesis
    by (intro inv_at_step [OF assms(1) frame(1) _ ok _ _ _ _ state])
      (use inv_at_parts [OF assms(1)] inv_at_filed [OF assms(1)] gens in
        \<open>simp_all add: extends_def publishers frame\<close>)
qed

lemma inv_at_recompute:
  assumes "inv_at X l e impl"
    and "recompute_link trigger publication publisher impl e = (r, impl', e')"
  shows "inv_at X l e' impl'"
proof (cases rule: recompute_link_cases [of trigger publication publisher impl e])
  case (committed changed impl'' e'')
  then show ?thesis
    using inv_at_commits [OF assms(1) committed(2,3) policy_not_retired] assms(2) by simp
next
  case (refused code)
  then show ?thesis using assms by simp
qed

lemma inv_at_intent:
  assumes "inv_at X l e impl" and "intent_ok (le_record (set_intent intent e))"
  shows "inv_at X l (set_intent intent e) impl"
proof -
  have "entry_ok X impl l (set_intent intent e)"
    using inv_at_entry [OF assms(1)] assms(2)
    by (simp add: entry_ok_def set_intent_def generations_ok_def rings_ok_def)
  then show ?thesis by (intro inv_at_record [OF assms(1)]) (simp_all add: set_intent_def)
qed

lemma inv_invalidate_entry:
  assumes "inv_at X l e impl"
  shows "store_inv X (invalidate_entry prefix trigger l impl e)"
proof -
  obtain b impl' e' where adv: "advance_evidence_global impl e = (b, impl', e')"
    by (metis prod_cases3)
  have store_inv: "inv_at X l e' impl'" by (rule inv_at_advance_evidence_global [OF assms adv])
  show ?thesis
  proof (cases b)
    case True
    obtain r impl'' e'' where rec: "recompute_link trigger (minted_publication prefix impl') null_id impl'
        (stamp_global impl' e') = (r, impl'', e'')"
      by (metis prod_cases3)
    have "inv_at X l e'' impl''" by (rule inv_at_recompute [OF inv_at_stamp [OF store_inv] rec])
    then show ?thesis
      using adv True rec by (simp add: invalidate_entry_def inv_at_inv)
  next
    case False
    then show ?thesis
      using adv store_inv by (simp add: invalidate_entry_def inv_at_inv)
  qed
qed

end
