(* ===== verification/Engine_Preservation.thy ===== *)
theory Engine_Preservation
  imports Engine_Invariants
begin

text \<open>
  The structural invariant is preserved by every operation of the engine, on every branch: refused
  requests, exhausted counters and successful commits.
\<close>

section \<open>Changes outside the links\<close>

text \<open>A step that leaves the links and their indexes alone.\<close>

lemma inv_frame:
  assumes "store_inv X impl" and "st_links impl' = st_links impl" and "\<And>l. extends l impl impl'"
    and "publishers_ok X impl'" and "st_by_endpoint impl' = st_by_endpoint impl"
    and "st_dependents impl' = st_dependents impl" and "st_by_state impl' = st_by_state impl"
    and "buckets_ok (st_publisher_links impl')" and "st_observations impl' = st_observations impl"
  shows "store_inv X impl'"
proof -
  have find: "find_link l impl' = find_link l impl" for l
    using assms(2) by (rule find_link_frame)
  have "entry_ok X impl' l e" if "find_link l impl' = Some e" for l e
  proof -
    have "l \<noteq> StrongId (CHR ''x'' # id_value l)" by (cases l) simp
    then show ?thesis
      using entry_ok_extends [OF assms(3)] that assms(1) by (auto simp: store_inv_def find)
  qed
  then show ?thesis
    using assms by (simp add: store_inv_def indexes_ok_def observations_ok_def find extends_def)
qed

lemma inv_publishers: "store_inv X impl \<Longrightarrow> publishers_ok X impl \<and> buckets_ok (st_publisher_links impl)"
  by (simp add: store_inv_def indexes_ok_def)

lemma find_publisher_put_authority [simp]:
  "find_publisher q (put_authority p a impl) = (if q = p then Some a else find_publisher q impl)"
  by (simp add: find_publisher_def put_authority_def)

text \<open>Rewriting a registered authority without touching its identity, scope validity or status.\<close>

lemma inv_put_authority:
  assumes "store_inv X impl" and "find_publisher p impl = Some a"
    and "pa_status a' = pa_status a" "pa_worker_boot a' = pa_worker_boot a"
    and "pa_epoch a' = pa_epoch a" "pa_publisher a' = pa_publisher a" "scope_ok (pa_scope a')"
  shows "store_inv X (put_authority p a' impl)"
proof -
  have publishers: "publishers_ok X impl" using assms(1) by (simp add: store_inv_def)
  have "authority_ok X impl p a" using publishers assms(2) by (simp add: publishers_ok_def)
  then have "authority_ok X impl p a'" using assms(3-7) by (auto simp: authority_ok_def)
  moreover have "length (st_publishers (put_authority p a' impl)) = length (st_publishers impl)"
    using assms(2) by (simp add: put_authority_def find_publisher_def length_update_present)
  ultimately have "publishers_ok X (put_authority p a' impl)"
    using publishers by (auto simp: publishers_ok_def authority_ok_def put_authority_def find_publisher_def)
  then show ?thesis
    by (intro inv_frame [OF assms(1)])
      (use assms inv_publishers [OF assms(1)] in \<open>auto simp: extends_def put_authority_def find_publisher_def\<close>)
qed

lemma inv_counters [simp]: "store_inv X (impl\<lparr>im_counters := k\<rparr>) = store_inv X impl"
  by (simp add: store_inv_def indexes_ok_def observations_ok_def publishers_ok_def authority_ok_def
      entry_ok_def slot_ok_def owned_ok_def generations_ok_def find_link_def find_publisher_def)

lemma inv_scope_ok: "store_inv X impl \<Longrightarrow> find_publisher p impl = Some a \<Longrightarrow> scope_ok (pa_scope a)"
  by (auto simp: store_inv_def publishers_ok_def authority_ok_def)

lemma inv_note_rejection: "store_inv X impl \<Longrightarrow> store_inv X (note_rejection p impl)"
  by (auto simp: note_rejection_def Let_def inv_scope_ok intro: inv_put_authority split: option.splits)

lemma put_entry_counters: "put_entry l e (impl\<lparr>im_counters := k\<rparr>) = (put_entry l e impl)\<lparr>im_counters := k\<rparr>"
  by (simp add: put_entry_def)

lemma inv_at_counters: "inv_at X l e impl \<Longrightarrow> inv_at X l e (impl\<lparr>im_counters := k\<rparr>)"
  by (simp add: inv_at_def find_link_def put_entry_counters)

lemma inv_at_count: "inv_at X l e impl \<Longrightarrow> inv_at X l e (count_publication impl)"
  unfolding count_publication_def by (rule inv_at_counters)

lemma put_entry_authority: "put_entry l e (put_authority p a impl) = put_authority p a (put_entry l e impl)"
  by (simp add: put_entry_def put_authority_def)

lemma inv_at_acceptance: "inv_at X l e impl \<Longrightarrow> inv_at X l e (note_acceptance p impl)"
proof -
  assume store_inv: "inv_at X l e impl"
  show ?thesis
  proof (cases "find_publisher p impl")
    case None
    then show ?thesis using store_inv by (simp add: note_acceptance_def)
  next
    case (Some a)
    let ?a = "a\<lparr>pa_accepted_publications := pa_accepted_publications a + 1\<rparr>"
    have "store_inv X (put_authority p ?a (put_entry l e impl))"
      by (rule inv_put_authority [OF inv_at_inv [OF store_inv], of p a])
        (use Some inv_scope_ok [OF inv_at_inv [OF store_inv], of p a] in simp_all)
    moreover have "find_link l (put_authority p ?a impl) = find_link l impl"
      by (simp add: find_link_def put_authority_def)
    ultimately show ?thesis
      using Some store_inv by (simp add: note_acceptance_def inv_at_def put_entry_authority)
  qed
qed

lemma inv_at_release:
  assumes "inv_at X l e impl"
  shows "inv_at X l e (release_link p l e impl)"
proof (cases "list_ex (\<lambda>v. ev_publisher v = p) (le_current e)")
  case True
  then show ?thesis using assms by (simp add: release_link_def)
next
  case False
  let ?impl = "impl\<lparr>st_publisher_links := bucket_erase p l (st_publisher_links impl)\<rparr>"
  have slots: "slot_ok X ?impl l b v" if "slot_ok X impl l b v" "v \<in> set (le_current e)" for b v
    using that False by (auto simp: slot_ok_def owned_ok_def find_publisher_def bucket_mem_erase list_ex_iff)
  have ok: "entry_ok X ?impl l e"
    using inv_at_entry [OF assms] slots by (auto simp: entry_ok_def generations_ok_def)
  have "inv_at X l e ?impl"
    by (rule inv_at_step [OF assms _ _ ok])
      (use inv_at_parts [OF assms] inv_at_filed [OF assms] in
        \<open>simp_all add: extends_def find_publisher_def bucket_mem_erase publishers_ok_def authority_ok_def
           reindex_state_def\<close>)
  then show ?thesis using False by (simp add: release_link_def)
qed

section \<open>Publication\<close>

lemma authorize_Committed:
  assumes "authorize store p boot source epoch engine_epoch link binding = (Committed, err)"
  obtains a where "find_publisher p store = Some a" "epoch = engine_epoch" "pa_epoch a = engine_epoch"
    "pa_worker_boot a = boot" "pa_status a = Active" "covers (pa_scope a) link"
    "valid source \<Longrightarrow> valid (pa_source a) \<Longrightarrow> source = pa_source a"
proof (cases "find_publisher p store")
  case None
  then show thesis using assms by (simp add: authorize_def)
next
  case (Some a)
  show thesis
    by (rule that [OF Some]; cases "pa_status a")
      (use assms Some in \<open>auto simp: authorize_def split: if_splits\<close>)
qed

lemma publish_accepted:
  assumes "publish_verdict_for request impl = PublishAccepted entry prepared"
  defines "v \<equiv> pe_observation request"
  shows "find_link (ev_link v) impl = Some entry"
    and "\<exists>err. authorize impl (ev_publisher v) (ev_worker_boot v) (ev_source v) (ev_epoch v)
           (im_epoch impl) (ev_link v) (lr_binding (le_record entry)) = (Committed, err)"
    and "backing_stale impl (lr_binding (le_record entry)) = None"
    and "ev_topology_generation v = tb_topology_generation (lr_binding (le_record entry))"
    and "endpoint_refusal v (lr_binding (le_record entry)) = None"
    and "\<forall>k. map_of (st_observations impl) (ev_observation v) = Some k \<longrightarrow> k = ev_key v"
    and "slot_check v (find_slot entry (ev_key v)) = SlotAccepts"
    and "find_slot entry (ev_key v) = None \<Longrightarrow>
           length (le_current entry) - length (filter (source_superseded_by v) (le_current entry))
             < cf_max_evidence_per_link (im_config impl)"
    and "prepared = prepare_commit (im_global_state_generation impl) entry
           (prospective_evidence v entry) EvidenceResolution"
    and "pc_ok prepared"
  using assms
  by (auto simp: publish_verdict_for_def Let_def split: option.splits if_splits prod.splits
      slot_verdict.splits)

lemma endpoint_accepted:
  "endpoint_refusal v binding = None \<Longrightarrow> ev_topology_generation v = tb_topology_generation binding \<Longrightarrow>
     describes_binding binding v"
  by (auto simp: endpoint_refusal_def describes_binding_def Let_def split: if_splits option.splits)

lemma describes_binding_stored [simp]:
  "describes_binding binding (stored_evidence v impl e) = describes_binding binding v"
  by (simp add: stored_evidence_def describes_binding_def Let_def)

lemma stored_evidence_sel [simp]:
  "ev_key (stored_evidence v impl e) = ev_key v"
  "ev_observation (stored_evidence v impl e) = ev_observation v"
  "ev_publisher (stored_evidence v impl e) = ev_publisher v"
  "ev_worker_boot (stored_evidence v impl e) = ev_worker_boot v"
  "ev_epoch (stored_evidence v impl e) = ev_epoch v"
  "ev_source_generation (stored_evidence v impl e) = ev_source_generation v"
  "ev_sequence (stored_evidence v impl e) = ev_sequence v"
  "ev_class (stored_evidence v impl e) = ev_class v"
  "ev_claim (stored_evidence v impl e) = ev_claim v"
  "ev_degradation_cause (stored_evidence v impl e) = ev_degradation_cause v"
  "ev_status (stored_evidence v impl e) = Current"
  "ev_commit_sequence (stored_evidence v impl e) = im_global_generation impl"
  by (simp_all add: stored_evidence_def Let_def)

lemma insert_evidence_sel [simp]:
  "le_record (insert_evidence v e) = le_record e"
  "le_dispositions (insert_evidence v e) = le_dispositions e"
  "set (le_current (insert_evidence v e)) = insert v (set (le_current e))"
  "length (le_current (insert_evidence v e)) = Suc (length (le_current e))"
  by (auto simp: insert_evidence_def)

lemma distinct_keys_insert:
  "distinct (map ev_key (le_current (insert_evidence v e))) \<longleftrightarrow>
     distinct (map ev_key (le_current e)) \<and> ev_key v \<notin> ev_key ` set (le_current e)"
proof -
  have "mset (map ev_key (le_current (insert_evidence v e))) = mset (ev_key v # map ev_key (le_current e))"
    by (simp add: insert_evidence_def)
  then have "distinct (map ev_key (le_current (insert_evidence v e))) =
      distinct (ev_key v # map ev_key (le_current e))"
    by (rule mset_eq_imp_distinct_iff)
  then show ?thesis by auto
qed

lemma filed_insert:
  assumes "filed l es obs obs" and "map_of obs (ev_observation v) = None" and "ev_link v = l"
    and "set es' = insert w (set es)" "ev_observation w = ev_observation v" "ev_key w = ev_key v"
  shows "filed l es' obs (AList.update (ev_observation v) (ev_key v) obs)"
  unfolding filed_def
proof (intro allI)
  fix x k
  note old = assms(1) [unfolded filed_def, rule_format, of x k]
  show "map_of (AList.update (ev_observation v) (ev_key v) obs) x = Some k \<longleftrightarrow>
      (if key_link k = l then \<exists>v\<in>set es'. ev_observation v = x \<and> ev_key v = k else map_of obs x = Some k)"
  proof (cases "x = ev_observation v")
    case True
    then show ?thesis using old assms(2-) by (auto split: if_splits)
  next
    case False
    then show ?thesis using old assms(2-) by (auto split: if_splits)
  qed
qed

lemma inv_at_insert:
  assumes "inv_at X l e impl" and "ev_link v = l" and "ev_class v \<noteq> Unsupported" and "cause_named v"
    and "describes_binding (lr_binding (le_record e)) v" and "owned_ok impl v"
    and "lr_state (le_record e) \<noteq> LinkOperationalState.Retired"
    and "ev_key v \<notin> ev_key ` set (le_current e)"
    and "length (le_current e) < cf_max_evidence_per_link (im_config impl)"
    and "map_of (st_observations impl) (ev_observation v) = None"
  shows "inv_at X l (insert_evidence (stored_evidence v impl e') e) (register_observation v impl)"
proof -
  let ?s = "stored_evidence v impl e'" and ?impl = "register_observation v impl"
  let ?e = "insert_evidence ?s e"
  have sel: "st_publishers ?impl = st_publishers impl" "im_epoch ?impl = im_epoch impl"
    "im_config ?impl = im_config impl" "im_global_generation ?impl = im_global_generation impl"
    "im_global_state_generation ?impl = im_global_state_generation impl"
    "st_publisher_links ?impl = bucket_insert (ev_publisher v) l (st_publisher_links impl)"
    using assms(2) by (simp_all add: register_observation_def)
  have publishers: "find_publisher p ?impl = find_publisher p impl" for p
    by (rule find_publisher_frame) (rule sel)
  have slots: "slot_ok X ?impl l b w" if "slot_ok X impl l b w" for b w
    using that by (simp add: slot_ok_def owned_ok_def sel publishers bucket_mem_insert)
  have "slot_ok X ?impl l (lr_binding (le_record e)) ?s"
    using assms(2-6)
    by (simp add: slot_ok_def owned_ok_def sel publishers bucket_mem_insert cause_named_def)
  then have ok: "entry_ok X ?impl l ?e"
    using inv_at_entry [OF assms(1)] slots assms(7-9)
    by (simp add: entry_ok_def distinct_keys_insert generations_ok_def rings_ok_def sel)
  have "filed l (le_current ?e) (st_observations impl) (st_observations ?impl)"
    using filed_insert [OF inv_at_filed [OF assms(1)] assms(10,2), of "le_current ?e" ?s]
    by (simp add: register_observation_def)
  then show ?thesis
    by (intro inv_at_step [OF assms(1) _ _ ok])
      (use inv_at_parts [OF assms(1)] in
        \<open>simp_all add: extends_def publishers sel bucket_mem_insert publishers_ok_def authority_ok_def
           reindex_state_def, simp_all add: register_observation_def\<close>)
qed

lemma validated_observation:
  assumes "validate_observation v publication = None"
  shows "ev_class v \<noteq> Unsupported" and "cause_named v" and "valid (ev_link v)"
    and "valid (ev_publisher v)" and "valid (ev_worker_boot v)" and "valid (ev_source v)"
  using assms by (auto simp: validate_observation_def cause_named_def split: if_splits option.splits)

lemma advance_global_evidence_frame:
  assumes "advance_global_evidence impl e = (b, impl', e')"
  shows "\<exists>gg. impl' = impl\<lparr>im_global_generation := gg\<rparr>" and "\<exists>eg. e' = set_evidence_generation eg e"
  using assms
  by (cases rule: advance_global_evidence_cases [of impl e],
      auto intro: exI [of _ "im_global_generation impl"]
        exI [of _ "lr_evidence_generation (le_record e)"] simp: set_evidence_generation_def)+

lemma find_slot_None: "find_slot entry key = None \<longleftrightarrow> (\<forall>w\<in>set (le_current entry). ev_key w \<noteq> key)"
  by (auto simp: find_slot_def find_None_iff)

lemma room_after_drop:
  assumes "length (le_current e) \<le> cap"
    and "find_slot e (ev_key v) = None \<Longrightarrow>
           length (le_current e) - length (filter (source_superseded_by v) (le_current e)) < cap"
  shows "length (filter (\<lambda>w. \<not> (replaced_by v w \<or> source_superseded_by v w)) (le_current e)) < cap"
proof (cases "find_slot e (ev_key v) = None")
  case True
  then have "filter (\<lambda>w. \<not> (replaced_by v w \<or> source_superseded_by v w)) (le_current e) =
      filter (\<lambda>w. \<not> source_superseded_by v w) (le_current e)"
    by (intro filter_cong) (auto simp: find_slot_None replaced_by_def)
  then show ?thesis
    using assms(2) [OF True] sum_length_filter_compl [of "source_superseded_by v" "le_current e"] by simp
next
  case False
  then obtain w where "w \<in> set (le_current e)" "replaced_by v w"
    by (auto simp: find_slot_None replaced_by_def)
  then have "length (filter (\<lambda>w. \<not> (replaced_by v w \<or> source_superseded_by v w)) (le_current e)) <
      length (le_current e)"
    by (intro length_filter_less [of w]) auto
  then show ?thesis using assms(1) by simp
qed

lemma observation_free_after_drop:
  assumes "filed l es obs obs" and "released {w \<in> set es. replaced_by v w \<or> source_superseded_by v w} obs obs'"
    and "\<forall>k. map_of obs (ev_observation v) = Some k \<longrightarrow> k = ev_key v" and "ev_link v = l"
  shows "map_of obs' (ev_observation v) = None"
proof (rule ccontr)
  assume "map_of obs' (ev_observation v) \<noteq> None"
  then obtain k where k: "map_of obs (ev_observation v) = Some k"
    and kept: "\<not> (\<exists>w\<in>{w \<in> set es. replaced_by v w \<or> source_superseded_by v w}.
      ev_observation w = ev_observation v \<and> ev_key w = k)"
    using assms(2) by (auto simp: released_def)
  then have "k = ev_key v" using assms(3) by simp
  moreover have "\<exists>w\<in>set es. ev_observation w = ev_observation v \<and> ev_key w = k"
    using assms(1) [unfolded filed_def, rule_format, of "ev_observation v" k] k \<open>k = ev_key v\<close> assms(4)
    by simp
  ultimately show False using kept by (auto simp: replaced_by_def)
qed

lemma inv_commit_publication:
  assumes "store_inv X impl" and "publish_verdict_for request impl = PublishAccepted entry prepared"
    and "validate_observation (pe_observation request) (pe_publication request) = None"
  shows "store_inv X (fst (commit_publication request impl entry prepared))"
proof -
  define v where "v = pe_observation request"
  define l where "l = ev_link v"
  define gone where "gone = (\<lambda>w. replaced_by v w \<or> source_superseded_by v w)"
  note accepted = publish_accepted [OF assms(2), folded v_def, folded l_def]
  note valid = validated_observation [OF assms(3), folded v_def]
  have at: "inv_at X l entry impl" using assms(1) accepted(1) by (rule inv_at_current)
  obtain impl1 e1 where drop: "drop_evidence gone
      (\<lambda>e. if replaced_by v e then EvidenceStatus.Superseded else StaleSourceGeneration)
      (\<lambda>e. if replaced_by v e
           then ''superseded by a newer observation of the same evidence key''
           else ''source generation superseded by a newer incarnation of the same source'')
      impl entry = (impl1, e1)"
    by fastforce
  obtain obs where impl1: "impl1 = impl\<lparr>st_observations := obs\<rparr>"
    and released: "released {w \<in> set (le_current entry). gone w} (st_observations impl) obs"
    using drop_evidence_sel(4) [OF drop] by blast
  note e1 = drop_evidence_sel [OF drop]
  obtain b impl2 e2 where adv: "advance_global_evidence impl1 e1 = (b, impl2, e2)"
    by (metis prod_cases3)
  obtain gg eg where impl2: "impl2 = impl1\<lparr>im_global_generation := gg\<rparr>"
    and e2: "e2 = set_evidence_generation eg e1"
    using advance_global_evidence_frame [OF adv] by blast
  have at2: "inv_at X l e2 impl2"
    by (rule inv_at_advance_global_evidence [OF inv_at_drop [OF at drop] adv])
  show ?thesis
  proof (cases b)
    case False
    then show ?thesis
      using drop adv at2 unfolding commit_publication_def Let_def
      by (simp add: inv_at_inv flip: v_def l_def gone_def)
  next
    case True
    let ?e3 = "insert_evidence (stored_evidence v impl2 e2) (stamp_global impl2 e2)"
    let ?impl3 = "count_publication (note_acceptance (ev_publisher v) (register_observation v impl2))"
    have entry: "entry_ok X impl l entry" by (rule inv_at_entry [OF at])
    obtain a where a: "find_publisher (ev_publisher v) impl = Some a" "pa_status a = Active"
      "pa_worker_boot a = ev_worker_boot v" "ev_epoch v = im_epoch impl"
      using accepted(2) by (auto elim: authorize_Committed)
    have "inv_at X l ?e3 (register_observation v impl2)"
    proof (rule inv_at_insert [OF inv_at_stamp [OF at2]])
      show "describes_binding (lr_binding (le_record (stamp_global impl2 e2))) v"
        using endpoint_accepted [OF accepted(5,4)] by (simp add: e2 e1)
      show "owned_ok impl2 v"
        using a by (auto simp: owned_ok_def impl2 impl1 find_publisher_def)
      show "lr_state (le_record (stamp_global impl2 e2)) \<noteq> LinkOperationalState.Retired"
        using prepare_commit_ok(1) [of _ entry] accepted(9,10) by (simp add: e2 e1)
      show "ev_key v \<notin> ev_key ` set (le_current (stamp_global impl2 e2))"
        by (auto simp: e2 e1 gone_def replaced_by_def)
      show "length (le_current (stamp_global impl2 e2)) < cf_max_evidence_per_link (im_config impl2)"
        using room_after_drop [of entry _ v] entry accepted(8)
        by (simp add: e2 e1 impl2 impl1 entry_ok_def gone_def)
      show "map_of (st_observations impl2) (ev_observation v) = None"
        using observation_free_after_drop [OF inv_at_filed [OF at] released [unfolded gone_def]]
          accepted(6) by (simp add: impl2 impl1 l_def)
    qed (use valid in \<open>simp_all add: l_def\<close>)
    then have at3: "inv_at X l ?e3 ?impl3"
      by (intro inv_at_count inv_at_acceptance)
    have gsg: "im_global_state_generation ?impl3 = im_global_state_generation impl"
      by (simp add: count_publication_def note_acceptance_def register_observation_def put_authority_def
          impl2 impl1 split: option.splits)
    obtain impl4 e4 where commit: "commit_prepared prepared (pe_publication request) (ev_publisher v)
        ?impl3 ?e3 = (impl4, e4)"
      by fastforce
    have "commits (policy_class (le_record entry) (set (prospective_evidence v entry))) ?impl3 ?e3 impl4 e4"
      by (rule commit_prepared_commits [where trigger = EvidenceResolution and publication = "pe_publication request"
            and publisher = "ev_publisher v"])
        (use accepted(9,10) commit in \<open>simp_all add: gsg e2 e1\<close>)
    then have "inv_at X l e4 impl4"
      by (rule inv_at_commits [OF at3])
        (use prepare_commit_ok(1) [of _ entry] accepted(9,10) in \<open>simp_all add: e2 e1 policy_not_retired\<close>)
    then show ?thesis
      using drop adv True commit unfolding commit_publication_def Let_def
      by (simp add: inv_at_inv flip: v_def l_def gone_def)
  qed
qed

end
