(* ===== verification/Engine_Operations.thy ===== *)
theory Engine_Operations
  imports Engine_Preservation
begin

text \<open>
  The structural invariant is preserved by the operations of a publisher: publication, withdrawal,
  explicit transitions and revalidation requests.
\<close>

lemma inv_publish_evidence: "store_inv X impl \<Longrightarrow> store_inv X (fst (publish_evidence request impl))"
  unfolding publish_evidence_def Let_def
  by (auto simp: inv_note_rejection inv_commit_publication split: option.splits publish_verdict.splits)

section \<open>Withdrawal and explicit transitions\<close>

lemma inv_run_each:
  assumes "\<And>r impl. store_inv X impl \<Longrightarrow> store_inv X (fst (f r impl))" and "store_inv X impl"
  shows "store_inv X (fst (run_each f rs impl))"
  using assms(2)
proof (induction rs arbitrary: impl)
  case (Cons r rs)
  then show ?case
    using assms(1) [OF Cons.prems, of r] Cons.IH by (auto split: prod.splits) (metis fst_conv)
qed simp

lemma inv_run_batch:
  assumes "\<And>r impl. store_inv X impl \<Longrightarrow> store_inv X (fst (f r impl))" and "store_inv X impl"
  shows "store_inv X (fst (run_batch f rs impl))"
  using inv_run_each [of X f, OF assms(1) assms(2)] assms(2) by (simp add: run_batch_def)

text \<open>The common tail of the operations that remove evidence and commit a prepared resolution.\<close>

lemma inv_at_commit_prepared:
  assumes "inv_at X l e impl"
    and "pc_ok (prepare_commit (im_global_state_generation impl) shadow prospective trigger)"
    and "lr_state (le_record shadow) = lr_state (le_record e)"
    and "lr_state_generation (le_record shadow) = lr_state_generation (le_record e)"
    and "commit_prepared (prepare_commit (im_global_state_generation impl) shadow prospective trigger)
           publication publisher impl e = (impl', e')"
  shows "inv_at X l e' impl'"
  by (rule inv_at_commits [OF assms(1) commit_prepared_commits [OF assms(2-5)]])
    (use prepare_commit_ok(1) [OF assms(2)] assms(3) in \<open>simp_all add: policy_not_retired\<close>)

lemma release_link_sel:
  "\<exists>pl. release_link p l e impl = impl\<lparr>st_publisher_links := pl\<rparr>"
  by (cases "list_ex (\<lambda>v. ev_publisher v = p) (le_current e)")
    (auto simp: release_link_def intro: exI [of _ "st_publisher_links impl"])

lemma release_link_gsg [simp]:
  "im_global_state_generation (release_link p l e impl) = im_global_state_generation impl"
  by (simp add: release_link_def)

lemma advance_global_evidence_sel:
  assumes "advance_global_evidence impl e = (b, impl', e')"
  shows "im_global_state_generation impl' = im_global_state_generation impl"
    and "lr_state (le_record e') = lr_state (le_record e)"
    and "lr_state_generation (le_record e') = lr_state_generation (le_record e)"
    and "le_current e' = le_current e" and "lr_binding (le_record e') = lr_binding (le_record e)"
  using advance_global_evidence_frame [OF assms] by auto

lemma drop_evidence_gsg:
  "drop_evidence p s r impl e = (impl', e') \<Longrightarrow>
     im_global_state_generation impl' = im_global_state_generation impl"
  by (drule drop_evidence_sel(4)) auto

lemma inv_withdraw_commit:
  assumes "store_inv X impl" and "find_link (key_link (wd_key request)) impl = Some e"
  shows "store_inv X (fst (withdraw_commit request impl e))"
proof -
  define key where "key = wd_key request"
  define l where "l = key_link key"
  define prepared where "prepared = prepare_commit (im_global_state_generation impl) e
      (filter (\<lambda>v. ev_key v \<noteq> key) (le_current e)) EvidenceWithdrawal"
  obtain impl1 e1 where drop: "drop_evidence (\<lambda>v. ev_key v = key) (\<lambda>_. EvidenceStatus.Withdrawn)
      (\<lambda>_. if wd_reason request = [] then ''withdrawn by its publisher''
           else ''withdrawn by its publisher: '' @ wd_reason request) impl e = (impl1, e1)"
    by fastforce
  obtain b impl2 e2 where adv: "advance_global_evidence impl1 e1 = (b, impl2, e2)"
    by (metis prod_cases3)
  have at: "inv_at X l e impl"
    using assms by (auto simp: l_def key_def intro: inv_at_current)
  have at2: "inv_at X l e2 impl2"
    by (rule inv_at_advance_global_evidence [OF inv_at_drop [OF at drop] adv])
  obtain impl3 e3 where commit: "commit_prepared prepared null_id (wd_publisher request)
      (release_link (wd_publisher request) l e2 impl2) (stamp_global impl2 e2) = (impl3, e3)"
    by fastforce
  have "inv_at X l (stamp_global impl2 e2) (release_link (wd_publisher request) l e2 impl2)"
    using inv_at_release [OF inv_at_stamp [OF at2]] by (simp add: release_link_def)
  then have "inv_at X l e3 impl3" if "pc_ok prepared"
    by (rule inv_at_commit_prepared [where publication = null_id and publisher = "wd_publisher request"
          and trigger = EvidenceWithdrawal and shadow = e])
      (use that commit in \<open>simp_all add: prepared_def advance_global_evidence_sel [OF adv]
        drop_evidence_sel [OF drop] drop_evidence_gsg [OF drop]\<close>)
  then have "store_inv X (put_entry l e3 (count_publication impl3))" if "pc_ok prepared"
    using that by (intro inv_at_inv inv_at_count)
  then show ?thesis
    unfolding withdraw_commit_def Let_def key_def [symmetric] l_def [symmetric] prepared_def [symmetric]
    using drop adv commit assms(1) at2 by (cases b) (simp_all add: inv_at_inv)
qed

lemma inv_withdraw_evidence: "store_inv X impl \<Longrightarrow> store_inv X (fst (withdraw_evidence request impl))"
  by (auto simp: withdraw_evidence_def Let_def inv_withdraw_commit split: option.splits)

lemma inv_mark_commit:
  assumes "store_inv X impl" and "find_link (mk_link request) impl = Some e"
  shows "store_inv X (fst (mark_commit request impl e))"
proof -
  define l where "l = mk_link request"
  define p where "p = mk_publisher request"
  define reason where "reason = ''publisher requires revalidation'' @
      (if mk_reason request \<noteq> [] then '': '' @ mk_reason request else [])"
  define prepared where "prepared = prepare_commit (im_global_state_generation impl) e
      (filter (\<lambda>v. ev_publisher v \<noteq> p) (le_current e)) EvidenceWithdrawal"
  obtain impl1 e1 where drop: "drop_evidence (\<lambda>v. ev_publisher v = p) (\<lambda>_. EvidenceStatus.Withdrawn)
      (\<lambda>_. reason) impl e = (impl1, e1)"
    by fastforce
  obtain b impl2 e2 where adv: "advance_global_evidence (release_link p l e1 impl1) e1 = (b, impl2, e2)"
    by (metis prod_cases3)
  have at: "inv_at X l e impl" using assms by (simp add: l_def inv_at_current)
  have at2: "inv_at X l e2 impl2"
    by (rule inv_at_advance_global_evidence [OF inv_at_release [OF inv_at_drop [OF at drop]] adv])
  obtain impl3 e3 where commit: "commit_prepared prepared (mk_publication request) p impl2
      (stamp_global impl2 e2) = (impl3, e3)"
    by fastforce
  have "inv_at X l e3 impl3" if "pc_ok prepared"
    by (rule inv_at_commit_prepared [OF inv_at_stamp [OF at2], where publication = "mk_publication request"
          and publisher = p and trigger = EvidenceWithdrawal and shadow = e])
      (use that commit in \<open>simp_all add: prepared_def advance_global_evidence_sel [OF adv]
        drop_evidence_sel [OF drop] drop_evidence_gsg [OF drop]\<close>)
  then show ?thesis
    unfolding mark_commit_def Let_def l_def [symmetric] p_def [symmetric] prepared_def [symmetric]
      reason_def [symmetric]
    using drop adv commit assms(1) at2 by (cases b) (simp_all add: inv_at_inv)
qed

lemma inv_mark_revalidation_required:
  "store_inv X impl \<Longrightarrow> store_inv X (fst (mark_revalidation_required request impl))"
  by (auto simp: mark_revalidation_required_def inv_mark_commit split: option.splits)

lemma set_intent_sel [simp]:
  "le_current (set_intent i e) = le_current e"
  "lr_state (le_record (set_intent i e)) = lr_state (le_record e)"
  "lr_state_generation (le_record (set_intent i e)) = lr_state_generation (le_record e)"
  "lr_binding (le_record (set_intent i e)) = lr_binding (le_record e)"
  "lr_admin_intent (le_record (set_intent i e)) = i"
  "lr_ever_established (le_record (set_intent i e)) = lr_ever_established (le_record e)"
  by (simp_all add: set_intent_def)

lemma inv_clear_intent:
  assumes "store_inv X impl" and "find_link (ts_link request) impl = Some e"
  shows "store_inv X (fst (clear_intent request impl e))"
proof -
  define l where "l = ts_link request"
  define prepared where "prepared = prepare_commit (im_global_state_generation impl) (set_intent None e)
      (le_current e) RevalidationOutcome"
  have at: "inv_at X l (set_intent None e) impl"
    using assms by (intro inv_at_intent inv_at_current) (simp_all add: l_def intent_ok_def)
  have "store_inv X (put_entry l e2 impl2)"
    if ok: "pc_ok prepared" and gg: "next_gen (im_global_generation impl) = Some gg"
      and commit: "commit_prepared prepared (ts_publication request) (ts_publisher request)
        (impl\<lparr>im_global_generation := gg\<rparr>)
        (stamp_global (impl\<lparr>im_global_generation := gg\<rparr>) (set_intent None e)) = (impl2, e2)" for gg impl2 e2
    by (rule inv_at_inv, rule inv_at_commit_prepared [OF inv_at_stamp [OF inv_at_global [OF at gg]],
          where publication = "ts_publication request" and publisher = "ts_publisher request"
          and trigger = RevalidationOutcome and shadow = "set_intent None e"])
      (use ok commit in \<open>simp_all add: prepared_def\<close>)
  then show ?thesis
    unfolding clear_intent_def Let_def l_def [symmetric] prepared_def [symmetric]
    using assms(1) at
    by (cases "im_global_generation impl" rule: advance_cases)
      (auto simp: inv_at_inv split: prod.splits)
qed

lemma inv_record_intent:
  assumes "store_inv X impl" and "find_link (ts_link request) impl = Some e"
  shows "store_inv X (fst (record_intent request impl e))"
proof -
  define l where "l = ts_link request"
  define shadow where "shadow = set_intent (Some (requested_intent request (im_global_generation impl))) e"
  define prepared where "prepared = prepare_commit (im_global_state_generation impl) shadow
      (le_current e) ExplicitAdministrative"
  have at: "inv_at X l e impl" using assms by (simp add: l_def inv_at_current)
  have "store_inv X (put_entry l e2 impl2)"
    if target: "ts_target request \<in> {LinkOperationalState.AdminDisabled, LinkOperationalState.Draining,
        LinkOperationalState.Down, LinkOperationalState.Degraded, LinkOperationalState.Faulted}"
      and ok: "pc_ok prepared" and gg: "next_gen (im_global_generation impl) = Some gg"
      and commit: "commit_prepared prepared (ts_publication request) (ts_publisher request)
        (impl\<lparr>im_global_generation := gg\<rparr>)
        (set_intent (Some (requested_intent request gg))
           (stamp_global (impl\<lparr>im_global_generation := gg\<rparr>) e)) = (impl2, e2)" for gg impl2 e2
  proof -
    have "inv_at X l (set_intent (Some (requested_intent request gg))
        (stamp_global (impl\<lparr>im_global_generation := gg\<rparr>) e)) (impl\<lparr>im_global_generation := gg\<rparr>)"
      by (rule inv_at_intent [OF inv_at_stamp [OF inv_at_global [OF at gg]]])
        (use target in \<open>simp add: intent_ok_def requested_intent_def\<close>)
    then show ?thesis
      by (intro inv_at_inv, elim inv_at_commit_prepared [where publication = "ts_publication request"
            and publisher = "ts_publisher request" and trigger = ExplicitAdministrative and shadow = shadow])
        (use ok commit in \<open>simp_all add: prepared_def shadow_def\<close>)
  qed
  then show ?thesis
    unfolding record_intent_def Let_def l_def [symmetric] shadow_def [symmetric] prepared_def [symmetric]
    using assms(1)
    by (cases "im_global_generation impl" rule: advance_cases) (auto split: prod.splits)
qed

lemma inv_transition_state: "store_inv X impl \<Longrightarrow> store_inv X (fst (transition_state request impl))"
  by (auto simp: transition_state_def inv_clear_intent inv_record_intent split: option.splits)

end
