(* ===== verification/Engine_Fencing.thy ===== *)
theory Engine_Fencing
  imports Engine_Operations
begin

text \<open>
  Invalidation and fencing: what invalidating one link leaves alone, that a fence removes every
  current record of the publisher it names, and that registration, invalidation, epoch advance,
  reconciliation and snapshots preserve the structural invariant.
\<close>

section \<open>Invalidation\<close>

text \<open>The fields an invalidation of one link leaves alone.\<close>

definition same_authority :: "Impl \<Rightarrow> Impl \<Rightarrow> bool" where
  "same_authority impl impl' \<longleftrightarrow>
     st_publishers impl' = st_publishers impl \<and> st_publisher_links impl' = st_publisher_links impl \<and>
     st_fences impl' = st_fences impl \<and> st_fenced_boots impl' = st_fenced_boots impl \<and>
     im_config impl' = im_config impl \<and> im_epoch impl' = im_epoch impl \<and>
     st_dependents impl' = st_dependents impl \<and> st_by_endpoint impl' = st_by_endpoint impl"

lemma same_authority_refl [simp]: "same_authority impl impl"
  by (simp add: same_authority_def)

lemma same_authority_trans:
  "same_authority a b \<Longrightarrow> same_authority b c \<Longrightarrow> same_authority a c"
  by (simp add: same_authority_def)

definition kept :: "LinkEntry \<Rightarrow> LinkEntry \<Rightarrow> bool" where
  "kept e e' \<longleftrightarrow> le_current e' = le_current e \<and> lr_binding (le_record e') = lr_binding (le_record e) \<and>
     lr_admin_intent (le_record e') = lr_admin_intent (le_record e) \<and>
     (lr_state (le_record e') = LinkOperationalState.Retired \<longleftrightarrow>
        lr_state (le_record e) = LinkOperationalState.Retired)"

lemma recompute_link_frame:
  assumes "recompute_link trigger publication publisher impl e = (r, impl', e')"
  shows "same_authority impl impl'" and "st_links impl' = st_links impl" and "kept e e'"
proof -
  have "same_authority impl impl' \<and> st_links impl' = st_links impl \<and> kept e e'"
  proof (cases rule: recompute_link_cases [of trigger publication publisher impl e])
    case (committed changed impl'' e'')
    then show ?thesis
      using assms commits_frame [OF committed(2)] commits_entry(1-8) [OF committed(2)]
      by (simp add: same_authority_def kept_def state_of_Retired policy_not_retired)
  next
    case (refused code)
    then show ?thesis using assms by (simp add: kept_def)
  qed
  then show "same_authority impl impl'" "st_links impl' = st_links impl" "kept e e'" by simp_all
qed

lemma advance_evidence_global_frame:
  assumes "advance_evidence_global impl e = (b, impl', e')"
  shows "same_authority impl impl'" and "st_links impl' = st_links impl" and "kept e e'"
    and "st_observations impl' = st_observations impl"
    and "im_global_state_generation impl' = im_global_state_generation impl"
    and "lr_state_generation (le_record e') = lr_state_generation (le_record e)"
    and "lr_state (le_record e') = lr_state (le_record e)"
    and "lr_result_class (le_record e') = lr_result_class (le_record e)"
    and "lr_ever_established (le_record e') = lr_ever_established (le_record e)"
    and "lr_history (le_record e') = lr_history (le_record e)"
    and "le_dispositions e' = le_dispositions e"
  using assms
  by (cases rule: advance_evidence_global_cases [of impl e], auto simp: same_authority_def kept_def)+

lemma invalidate_entry_frame:
  obtains e' where "\<And>k. find_link k (invalidate_entry prefix trigger l impl e) =
      (if k = l then Some e' else find_link k impl)" "kept e e'"
    "same_authority impl (invalidate_entry prefix trigger l impl e)"
proof -
  obtain b impl1 e1 where adv: "advance_evidence_global impl e = (b, impl1, e1)"
    by (metis prod_cases3)
  note frame = advance_evidence_global_frame [OF adv]
  obtain r impl2 e2 where rec: "recompute_link trigger (minted_publication prefix impl1) null_id impl1
      (stamp_global impl1 e1) = (r, impl2, e2)"
    by (metis prod_cases3)
  note frame2 = recompute_link_frame [OF rec]
  let ?e = "if b then e2 else e1" and ?impl = "if b then impl2 else impl1"
  have result: "invalidate_entry prefix trigger l impl e = put_entry l ?e ?impl"
    using adv rec by (simp add: invalidate_entry_def split: bool.splits)
  have "st_links ?impl = st_links impl" using frame(2) frame2(2) by simp
  then have find: "find_link k ?impl = find_link k impl" for k by (rule find_link_frame)
  have kept: "kept e ?e" using frame(3) frame2(3) by (auto simp: kept_def)
  have same: "same_authority impl ?impl" using frame(1) frame2(1) same_authority_trans by auto
  show thesis
  proof (rule that [of ?e])
    show "\<And>k. find_link k (invalidate_entry prefix trigger l impl e) =
        (if k = l then Some ?e else find_link k impl)"
      by (simp add: result find)
    show "same_authority impl (invalidate_entry prefix trigger l impl e)"
      using same unfolding result by (simp add: same_authority_def)
  qed (rule kept)
qed

section \<open>Fencing\<close>

definition holds :: "PublisherId \<Rightarrow> Impl \<Rightarrow> LinkId \<Rightarrow> bool" where
  "holds p impl l \<longleftrightarrow> (\<exists>e v. find_link l impl = Some e \<and> v \<in> set (le_current e) \<and> ev_publisher v = p)"

lemma inv_fence_link: "store_inv X impl \<Longrightarrow> store_inv X (fence_link p boot all_boots reason l impl)"
  by (auto simp: fence_link_def Let_def intro!: inv_invalidate_entry
      elim!: inv_at_drop [OF inv_at_current] split: option.splits prod.splits)

lemma fence_link_frame:
  "same_authority impl (fence_link p boot True reason l impl)"
  "holds q (fence_link p boot True reason l impl) k \<longleftrightarrow> holds q impl k \<and> \<not> (q = p \<and> k = l)"
proof -
  let ?impl = "fence_link p boot True reason l impl"
  have "same_authority impl ?impl \<and> (holds q ?impl k \<longleftrightarrow> holds q impl k \<and> \<not> (q = p \<and> k = l))"
  proof (cases "find_link l impl")
    case None
    then show ?thesis by (auto simp: fence_link_def holds_def)
  next
    case (Some e)
    show ?thesis
    proof (cases "list_ex (\<lambda>v. ev_publisher v = p) (le_current e)")
      case False
      then show ?thesis using Some by (auto simp: fence_link_def holds_def list_ex_iff)
    next
      case True
      obtain impl1 e1 where drop: "drop_evidence (\<lambda>v. ev_publisher v = p)
          (\<lambda>_. EvidenceStatus.StaleAuthority)
          (\<lambda>e. reason @ '' (worker boot '' @ id_value (ev_worker_boot e) @ '')'') impl e = (impl1, e1)"
        by fastforce
      obtain obs where impl1: "impl1 = impl\<lparr>st_observations := obs\<rparr>"
        using drop_evidence_sel(4) [OF drop] by blast
      have result: "?impl = invalidate_entry ''fence'' PublisherFenced l impl1 e1"
        using Some True drop by (simp add: fence_link_def)
      obtain e' where e': "\<And>k. find_link k ?impl = (if k = l then Some e' else find_link k impl1)"
          "kept e1 e'" "same_authority impl1 ?impl"
        unfolding result by (rule invalidate_entry_frame) blast
      have "find_link j impl1 = find_link j impl" for j by (simp add: impl1 find_link_def)
      then have "holds q ?impl k \<longleftrightarrow> holds q impl k \<and> \<not> (q = p \<and> k = l)"
        using e'(1,2) drop_evidence_sel(2) [OF drop] Some by (auto simp: holds_def kept_def)
      moreover have "same_authority impl ?impl"
        using e'(3) by (simp add: impl1 same_authority_def)
      ultimately show ?thesis by simp
    qed
  qed
  then show "same_authority impl ?impl"
    "holds q ?impl k \<longleftrightarrow> holds q impl k \<and> \<not> (q = p \<and> k = l)" by simp_all
qed

lemma fence_links_frame:
  shows "same_authority impl (fold (fence_link p boot True reason) ls impl)" (is ?same)
    and "holds q (fold (fence_link p boot True reason) ls impl) k \<longleftrightarrow>
      holds q impl k \<and> \<not> (q = p \<and> k \<in> set ls)" (is ?holds)
    and "store_inv X impl \<Longrightarrow> store_inv X (fold (fence_link p boot True reason) ls impl)"
proof -
  have "?same \<and> ?holds \<and> (store_inv X impl \<longrightarrow> store_inv X (fold (fence_link p boot True reason) ls impl))"
  proof (induction ls arbitrary: impl)
    case (Cons l ls)
    note step = fence_link_frame [where impl = impl and p = p and boot = boot and reason = reason and l = l]
    show ?case
      using Cons.IH [of "fence_link p boot True reason l impl"] same_authority_trans [OF step(1)]
        step(2) [of q k] inv_fence_link [of X impl p boot True reason l] by auto
  qed simp
  then show ?same ?holds
    "store_inv X impl \<Longrightarrow> store_inv X (fold (fence_link p boot True reason) ls impl)" by blast+
qed

text \<open>A step that leaves the links alone and may change who is exempt, the authorities and the
  publisher index.\<close>

lemma inv_retarget:
  assumes "store_inv X impl" and "st_links impl' = st_links impl"
    and "im_config impl' = im_config impl"
    and "im_global_generation impl' = im_global_generation impl"
    and "im_global_state_generation impl' = im_global_state_generation impl"
    and "st_by_endpoint impl' = st_by_endpoint impl" "st_dependents impl' = st_dependents impl"
    and "st_by_state impl' = st_by_state impl" "st_observations impl' = st_observations impl"
    and "publishers_ok Y impl'" and "buckets_ok (st_publisher_links impl')"
    and "\<And>l e v. find_link l impl = Some e \<Longrightarrow> v \<in> set (le_current e) \<Longrightarrow> slot_ok X impl l (lr_binding (le_record e)) v \<Longrightarrow>
      bucket_mem (st_publisher_links impl') (ev_publisher v) l \<and> (Y (ev_publisher v) \<or> owned_ok impl' v)"
  shows "store_inv Y impl'"
proof -
  have find: "find_link l impl' = find_link l impl" for l
    using assms(2) by (rule find_link_frame)
  have "entry_ok Y impl' l e" if "find_link l impl' = Some e" for l e
  proof -
    have entry: "entry_ok X impl l e" using assms(1) that by (simp add: store_inv_def find)
    have "slot_ok Y impl' l (lr_binding (le_record e)) v" if "v \<in> set (le_current e)" for v
      using entry that assms(4) assms(12) [of l e v] \<open>find_link l impl' = Some e\<close>
      by (auto simp: entry_ok_def slot_ok_def find)
    then show ?thesis using entry assms(3-5) by (simp add: entry_ok_def generations_ok_def)
  qed
  then show ?thesis
    using assms(1,2,3,6-11) by (simp add: store_inv_def indexes_ok_def observations_ok_def find)
qed

lemma bucket_mem_forget:
  "bucket_mem (fold (\<lambda>x. bucket_erase k x) xs m) k' x' \<longleftrightarrow>
     bucket_mem m k' x' \<and> \<not> (k' = k \<and> x' \<in> set xs)"
  by (induction xs arbitrary: m) (auto simp: bucket_mem_erase)

lemma buckets_ok_forget: "buckets_ok m \<Longrightarrow> buckets_ok (fold (\<lambda>x. bucket_erase k x) xs m)"
  by (induction xs arbitrary: m) auto

text \<open>The bookkeeping a fence does before it visits the links.\<close>

definition begin_fence :: "PublisherId \<Rightarrow> WorkerBootId \<Rightarrow> AuthorityStatus \<Rightarrow> string \<Rightarrow> Impl \<Rightarrow> Impl" where
  "begin_fence p boot status reason impl =
     (let impl1 = (if valid boot then remember_fenced_boot p boot impl else impl);
          impl2 = set_authority_status p status impl1
      in push_fence \<lparr>fn_publisher = p, fn_worker_boot = boot, fn_epoch = im_epoch impl2,
           fn_reason = reason\<rparr> impl2)"

definition fence_targets :: "PublisherId \<Rightarrow> Impl \<Rightarrow> LinkId list" where
  "fence_targets p impl = std_sort (<) (bucket (st_publisher_links impl) p)"

lemma fence_publisher_stages:
  "fence_publisher p boot True status reason impl =
     (let impl3 = begin_fence p boot status reason impl
      in forget_links p (fence_targets p impl3) (fold (fence_link p boot True reason) (fence_targets p impl3) impl3))"
  by (simp add: fence_publisher_def begin_fence_def fence_targets_def Let_def)

lemma begin_fence_sel:
  "st_links (begin_fence p boot status reason impl) = st_links impl"
  "st_by_state (begin_fence p boot status reason impl) = st_by_state impl"
  "st_by_endpoint (begin_fence p boot status reason impl) = st_by_endpoint impl"
  "st_dependents (begin_fence p boot status reason impl) = st_dependents impl"
  "st_observations (begin_fence p boot status reason impl) = st_observations impl"
  "st_publisher_links (begin_fence p boot status reason impl) = st_publisher_links impl"
  "im_config (begin_fence p boot status reason impl) = im_config impl"
  "im_epoch (begin_fence p boot status reason impl) = im_epoch impl"
  "im_global_generation (begin_fence p boot status reason impl) = im_global_generation impl"
  "im_global_state_generation (begin_fence p boot status reason impl) = im_global_state_generation impl"
  "im_topology_generation (begin_fence p boot status reason impl) = im_topology_generation impl"
  by (simp_all add: begin_fence_def Let_def push_fence_def set_authority_status_def
      remember_fenced_boot_def split: option.split)

lemma begin_fence_publisher:
  "find_publisher q (begin_fence p boot status reason impl) =
     (if q = p then map_option (\<lambda>a. a\<lparr>pa_status := status\<rparr>) (find_publisher p impl)
      else find_publisher q impl)"
  by (auto simp: begin_fence_def Let_def push_fence_def set_authority_status_def
      remember_fenced_boot_def find_publisher_def split: option.split)

lemma begin_fence_publishers:
  "map fst (st_publishers (begin_fence p boot status reason impl)) = map fst (st_publishers impl)"
  "length (st_fences impl) \<le> cf_max_publishers (im_config impl) \<Longrightarrow>
     length (st_fences (begin_fence p boot status reason impl)) \<le> cf_max_publishers (im_config impl)"
proof -
  have keys: "map_of m k = Some w \<Longrightarrow> map fst (AList.update k v m) = map fst m" for m :: "(PublisherId, PublisherAuthority) umap" and k v w
    by (induction m) (auto split: if_splits)
  show "map fst (st_publishers (begin_fence p boot status reason impl)) = map fst (st_publishers impl)"
    by (auto simp: begin_fence_def Let_def push_fence_def set_authority_status_def
        remember_fenced_boot_def find_publisher_def keys split: option.split)
  show "length (st_fences impl) \<le> cf_max_publishers (im_config impl) \<Longrightarrow>
     length (st_fences (begin_fence p boot status reason impl)) \<le> cf_max_publishers (im_config impl)"
    by (auto simp: begin_fence_def Let_def push_fence_def set_authority_status_def
        remember_fenced_boot_def split: option.split)
qed

lemma publishers_ok_begin_fence:
  assumes "publishers_ok X impl" and "status \<noteq> Active"
  shows "publishers_ok (\<lambda>q. X q \<and> q \<noteq> p) (begin_fence p boot status reason impl)"
proof -
  let ?impl = "begin_fence p boot status reason impl"
  have "authority_ok (\<lambda>q. X q \<and> q \<noteq> p) ?impl q a" if "find_publisher q ?impl = Some a" for q a
    using that assms
    by (auto simp: publishers_ok_def authority_ok_def begin_fence_publisher begin_fence_sel split: if_splits)
  moreover have "length (st_publishers ?impl) = length (st_publishers impl)"
    using begin_fence_publishers(1) by (metis length_map)
  ultimately show ?thesis
    using assms(1) by (simp add: publishers_ok_def begin_fence_sel begin_fence_publishers)
qed

lemma publishers_ok_mono: "publishers_ok X impl \<Longrightarrow> (\<And>p. X p \<Longrightarrow> Y p) \<Longrightarrow> publishers_ok Y impl"
  unfolding publishers_ok_def authority_ok_def by blast

lemma publishers_ok_same: "same_authority impl impl' \<Longrightarrow> publishers_ok X impl' = publishers_ok X impl"
  by (simp add: same_authority_def publishers_ok_def authority_ok_def find_publisher_def)

lemma inv_begin_fence:
  assumes "store_inv X impl" and "status \<noteq> Active"
  shows "store_inv (\<lambda>q. X q \<or> q = p) (begin_fence p boot status reason impl)"
proof (rule inv_retarget [OF assms(1)])
  show "publishers_ok (\<lambda>q. X q \<or> q = p) (begin_fence p boot status reason impl)"
    by (rule publishers_ok_mono [OF publishers_ok_begin_fence [where X = X]])
      (use inv_publishers [OF assms(1)] assms(2) in auto)
qed (use inv_publishers [OF assms(1)] in
      \<open>auto simp: begin_fence_sel slot_ok_def owned_ok_def begin_fence_publisher\<close>)

lemma inv_holds_bucket: "store_inv X impl \<Longrightarrow> holds p impl l \<Longrightarrow> bucket_mem (st_publisher_links impl) p l"
  by (auto simp: store_inv_def entry_ok_def slot_ok_def holds_def)

lemma forget_links_sel:
  "forget_links p ls impl = impl\<lparr>st_publisher_links := st_publisher_links (forget_links p ls impl)\<rparr>"
  by (simp add: forget_links_def)

lemma bucket_mem_forget_links:
  "bucket_mem (st_publisher_links (forget_links p ls impl)) q l \<longleftrightarrow>
     bucket_mem (st_publisher_links impl) q l \<and> \<not> (q = p \<and> l \<in> set ls \<and> \<not> holds p impl l)"
  by (auto simp: forget_links_def bucket_mem_forget owns_evidence_on_def holds_def list_ex_iff
      split: option.splits)

lemma inv_forget_links:
  assumes "store_inv X impl" and "\<And>l. \<not> holds p impl l" and "publishers_ok (\<lambda>q. X q \<and> q \<noteq> p) impl"
  shows "store_inv (\<lambda>q. X q \<and> q \<noteq> p) (forget_links p ls impl)"
proof (rule inv_retarget [OF assms(1)])
  fix l e v
  assume entry: "find_link l impl = Some e" "v \<in> set (le_current e)"
    and slot: "slot_ok X impl l (lr_binding (le_record e)) v"
  have owned: "owned_ok (forget_links p ls impl) v = owned_ok impl v"
    by (simp add: owned_ok_def forget_links_def find_publisher_def)
  have "ev_publisher v \<noteq> p" using entry assms(2) [of l] by (auto simp: holds_def)
  then show "bucket_mem (st_publisher_links (forget_links p ls impl)) (ev_publisher v) l \<and>
      (X (ev_publisher v) \<and> ev_publisher v \<noteq> p \<or> owned_ok (forget_links p ls impl) v)"
    using slot by (simp add: slot_ok_def bucket_mem_forget_links owned)
next
  show "publishers_ok (\<lambda>q. X q \<and> q \<noteq> p) (forget_links p ls impl)"
    using assms(3) by (simp add: publishers_ok_def authority_ok_def forget_links_def find_publisher_def)
qed (use inv_publishers [OF assms(1)] in \<open>simp_all add: forget_links_def buckets_ok_forget\<close>)

lemma holds_frame: "st_links impl' = st_links impl \<Longrightarrow> holds p impl' l = holds p impl l"
  by (simp add: holds_def find_link_def)

text \<open>What a fence of every boot of a publisher achieves.\<close>

lemma fence_publisher_effect:
  fixes p boot status reason impl
  defines "impl' \<equiv> fence_publisher p boot True status reason impl"
  assumes "store_inv X impl" and "status \<noteq> Active"
  shows "store_inv (\<lambda>q. X q \<and> q \<noteq> p) impl'"
    and "\<not> holds p impl' l" and "q \<noteq> p \<Longrightarrow> holds q impl' l \<longleftrightarrow> holds q impl l"
    and "im_config impl' = im_config impl" and "im_epoch impl' = im_epoch impl"
    and "find_publisher q impl' =
      (if q = p then map_option (\<lambda>a. a\<lparr>pa_status := status\<rparr>) (find_publisher p impl)
       else find_publisher q impl)"
    and "map fst (st_publishers impl') = map fst (st_publishers impl)"
    and "valid boot \<Longrightarrow> st_fenced_boots impl' = st_fenced_boots (remember_fenced_boot p boot impl)"
proof -
  let ?three = "begin_fence p boot status reason impl"
  let ?ls = "fence_targets p ?three"
  let ?four = "fold (fence_link p boot True reason) ?ls ?three"
  have impl': "impl' = forget_links p ?ls ?four"
    by (simp add: impl'_def fence_publisher_stages Let_def)
  have three: "store_inv (\<lambda>q. X q \<or> q = p) ?three" by (rule inv_begin_fence) fact+
  have four: "store_inv (\<lambda>q. X q \<or> q = p) ?four"
    by (rule fence_links_frame(3) [OF three])
  have same: "same_authority ?three ?four" by (rule fence_links_frame(1))
  have held: "holds q ?four k \<longleftrightarrow> holds q impl k \<and> \<not> (q = p \<and> k \<in> set ?ls)" for q k
    by (simp add: fence_links_frame(2) holds_frame [of ?three impl] begin_fence_sel)
  have none: "\<not> holds p ?four k" for k
    using inv_holds_bucket [OF assms(2), of p k]
    unfolding held by (simp add: fence_targets_def begin_fence_sel bucket_mem_def)
  have publishers: "publishers_ok (\<lambda>q. X q \<and> q \<noteq> p) ?four"
    unfolding publishers_ok_same [OF same]
    by (rule publishers_ok_begin_fence) (use inv_publishers [OF assms(2)] assms(3) in auto)
  have "store_inv (\<lambda>q. (X q \<or> q = p) \<and> q \<noteq> p) impl'"
    unfolding impl'
    by (rule inv_forget_links [OF four none]) (use publishers in \<open>auto elim: publishers_ok_mono\<close>)
  moreover have "(\<lambda>q. (X q \<or> q = p) \<and> q \<noteq> p) = (\<lambda>q. X q \<and> q \<noteq> p)" by auto
  ultimately show "store_inv (\<lambda>q. X q \<and> q \<noteq> p) impl'" by simp
  have links: "st_links impl' = st_links ?four" by (simp add: impl' forget_links_def)
  show "\<not> holds p impl' l" using none by (simp add: holds_frame [OF links])
  show "q \<noteq> p \<Longrightarrow> holds q impl' l \<longleftrightarrow> holds q impl l" by (simp add: holds_frame [OF links] held)
  have authority: "st_publishers impl' = st_publishers ?three" "im_config impl' = im_config ?three"
    "im_epoch impl' = im_epoch ?three" "st_fenced_boots impl' = st_fenced_boots ?three"
    using same by (simp_all add: impl' forget_links_def same_authority_def)
  show "im_config impl' = im_config impl" "im_epoch impl' = im_epoch impl"
    "map fst (st_publishers impl') = map fst (st_publishers impl)"
    by (simp_all add: authority begin_fence_sel begin_fence_publishers)
  have "find_publisher q impl' = find_publisher q ?three"
    by (simp add: find_publisher_def authority)
  then show "find_publisher q impl' = (if q = p then map_option (\<lambda>a. a\<lparr>pa_status := status\<rparr>)
      (find_publisher p impl) else find_publisher q impl)"
    by (simp add: begin_fence_publisher)
  show "valid boot \<Longrightarrow> st_fenced_boots impl' = st_fenced_boots (remember_fenced_boot p boot impl)"
    by (simp add: authority begin_fence_def Let_def push_fence_def set_authority_status_def
        split: option.split)
qed

lemma nobody_but: "(\<lambda>q. nobody q \<and> q \<noteq> p) = nobody"
  by simp

lemma store_inv_mono: "store_inv X impl \<Longrightarrow> (\<And>p. X p \<Longrightarrow> Y p) \<Longrightarrow> store_inv Y impl"
  unfolding store_inv_def entry_ok_def slot_ok_def using publishers_ok_mono by blast

section \<open>Registration and invalidation of publishers\<close>

text \<open>Installing an authority for a publisher that holds no evidence.\<close>

lemma inv_install_authority:
  assumes "store_inv nobody impl" and "\<And>l. \<not> holds p impl l" and "authority_ok nobody impl p a"
    and "find_publisher p impl = None \<Longrightarrow> length (st_publishers impl) < cf_max_publishers (im_config impl)"
  shows "store_inv nobody (put_authority p a impl)"
proof (rule inv_retarget [OF assms(1)])
  let ?impl = "put_authority p a impl"
  have publishers: "publishers_ok nobody impl" using assms(1) by (simp add: store_inv_def)
  have "length (st_publishers ?impl) \<le> cf_max_publishers (im_config impl)"
    using publishers assms(4)
    by (cases "find_publisher p impl")
      (auto simp: publishers_ok_def put_authority_def find_publisher_def length_update_present length_update_absent)
  moreover have "authority_ok nobody ?impl q b" if "find_publisher q ?impl = Some b" for q b
    using that publishers assms(3)
    by (auto simp: publishers_ok_def authority_ok_def put_authority_def find_publisher_def split: if_splits)
  ultimately show "publishers_ok nobody ?impl"
    using publishers by (simp add: publishers_ok_def put_authority_def)
next
  fix l e v
  assume "find_link l impl = Some e" "v \<in> set (le_current e)"
    and "slot_ok nobody impl l (lr_binding (le_record e)) v"
  moreover from this have "ev_publisher v \<noteq> p" using assms(2) [of l] by (auto simp: holds_def)
  ultimately show "bucket_mem (st_publisher_links (put_authority p a impl)) (ev_publisher v) l \<and>
      (nobody (ev_publisher v) \<or> owned_ok (put_authority p a impl) v)"
    by (simp add: slot_ok_def owned_ok_def put_authority_def find_publisher_def)
qed (use inv_publishers [OF assms(1)] in \<open>simp_all add: put_authority_def\<close>)

lemma inv_slot:
  "store_inv X impl \<Longrightarrow> find_link l impl = Some e \<Longrightarrow> v \<in> set (le_current e) \<Longrightarrow>
     slot_ok X impl l (lr_binding (le_record e)) v"
  by (simp add: store_inv_def entry_ok_def)

lemma inv_holder: "store_inv nobody impl \<Longrightarrow> holds p impl l \<Longrightarrow> \<exists>a. find_publisher p impl = Some a \<and> pa_status a = Active"
  unfolding holds_def using inv_slot [of nobody impl l] by (force simp: slot_ok_def owned_ok_def)

lemma inv_register_publisher:
  assumes "store_inv nobody impl"
  shows "store_inv nobody (fst (register_publisher registration impl))"
proof -
  define p where "p = rg_publisher registration"
  define boot where "boot = rg_worker_boot registration"
  obtain scope normalized where norm: "normalize (rg_scope registration) = (scope, normalized)"
    by fastforce
  note unfold = register_publisher_def Let_def p_def [symmetric] boot_def [symmetric] norm
  show ?thesis
  proof (cases "valid p \<and> valid boot \<and> normalized")
    case False
    then show ?thesis using assms unfolding unfold by simp
  next
    case True
    then have scope: "scope_ok scope"
      using normalize_scope_ok [of "rg_scope registration"] by (simp add: norm)
    have fresh: "authority_ok nobody impl' p (fresh_authority registration scope (im_epoch impl') g)" for impl' g
      using True scope by (simp add: authority_ok_def fresh_authority_def p_def boot_def)
    show ?thesis
    proof (cases "find_publisher p impl")
      case None
      then have "\<not> holds p impl l" for l using inv_holder [OF assms] by fastforce
      then have "store_inv nobody (put_authority p (fresh_authority registration scope (im_epoch impl) (Gen 1)) impl)"
        if "length (st_publishers impl) < cf_max_publishers (im_config impl)"
        using that by (intro inv_install_authority [OF assms _ fresh])
      then show ?thesis using None assms unfolding unfold by simp
    next
      case (Some a)
      define reason where "reason = ''superseded by worker boot '' @ id_value boot"
      define impl1 where
        "impl1 = fence_publisher p (pa_worker_boot a) True AuthorityStatus.Superseded reason impl"
      note fenced = fence_publisher_effect [OF assms, where status = AuthorityStatus.Superseded and p = p
          and boot = "pa_worker_boot a" and reason = reason,
          unfolded nobody_but impl1_def [symmetric], simplified]
      have "store_inv nobody (put_authority p (fresh_authority registration scope (im_epoch impl1) g) impl1)" for g
        by (rule inv_install_authority [OF fenced(1,2) fresh]) (use Some fenced(6) [of p] in simp)
      moreover have "store_inv nobody (put_authority p (a\<lparr>pa_generation := g, pa_scope := scope,
          pa_source := rg_source registration\<rparr>) impl)" for g
        by (rule inv_put_authority [OF assms Some]) (simp_all add: scope)
      ultimately show ?thesis
        using Some fenced(1) assms unfolding unfold reason_def [symmetric]
        by (cases "pa_generation a" rule: advance_cases) (simp_all add: impl1_def [symmetric])
    qed
  qed
qed

lemma inv_invalidate_publisher:
  assumes "store_inv nobody impl"
  shows "store_inv nobody (fst (invalidate_publisher request impl))"
  using assms fence_publisher_effect(1) [OF assms, where status = Fenced, unfolded nobody_but]
  by (auto simp: invalidate_publisher_def split: option.splits)

section \<open>Coordinator epochs\<close>

lemma set_stale_publishers:
  "distinct (map fst (st_publishers impl)) \<Longrightarrow>
     p \<in> set (stale_publishers impl) \<longleftrightarrow> (\<exists>a. find_publisher p impl = Some a \<and> pa_epoch a < im_epoch impl)"
  by (force simp: stale_publishers_def find_publisher_def map_of_eq_Some_iff)

lemma inv_epoch:
  assumes "store_inv nobody impl" and "im_epoch impl < epoch"
  defines "impl1 \<equiv> impl\<lparr>im_epoch := epoch\<rparr>"
  shows "store_inv (\<lambda>p. p \<in> set (stale_publishers impl1)) impl1"
    and "find_publisher p impl1 = Some a \<Longrightarrow> p \<in> set (stale_publishers impl1)"
proof -
  have publishers: "publishers_ok nobody impl" using assms(1) by (simp add: store_inv_def)
  have find: "find_publisher p impl1 = find_publisher p impl" for p
    by (simp add: impl1_def find_publisher_def)
  have epochs: "pa_epoch a < epoch" if "find_publisher p impl = Some a" for p a
    using that publishers order_le_less_trans [OF _ assms(2), of "pa_epoch a"]
    by (auto simp: publishers_ok_def authority_ok_def)
  have stale: "p \<in> set (stale_publishers impl1) \<longleftrightarrow> (\<exists>a. find_publisher p impl = Some a)" for p
    using publishers epochs set_stale_publishers [of impl1 p] unfolding find
    by (auto simp: impl1_def publishers_ok_def)
  show "find_publisher p impl1 = Some a \<Longrightarrow> p \<in> set (stale_publishers impl1)"
    by (simp add: stale find)
  show "store_inv (\<lambda>p. p \<in> set (stale_publishers impl1)) impl1"
  proof (rule inv_retarget [OF assms(1)])
    show "publishers_ok (\<lambda>p. p \<in> set (stale_publishers impl1)) impl1"
      using publishers less_imp_le [OF epochs]
      by (auto simp: publishers_ok_def authority_ok_def stale find) (auto simp: impl1_def)
  qed (use inv_publishers [OF assms(1)] in
      \<open>auto simp: stale slot_ok_def owned_ok_def\<close>, simp_all add: impl1_def)
qed

lemma supersede_epochs:
  assumes "store_inv (\<lambda>p. p \<in> set ps) impl" and "\<And>p. p \<in> set ps \<Longrightarrow> find_publisher p impl \<noteq> None"
  defines "impl' \<equiv> fold supersede_epoch ps impl"
  shows "store_inv nobody impl'" and "im_epoch impl' = im_epoch impl"
    and "find_publisher q impl' = map_option (\<lambda>a. if q \<in> set ps then a\<lparr>pa_status := EpochSuperseded\<rparr> else a)
           (find_publisher q impl)"
    and "im_config impl' = im_config impl"
proof -
  have "store_inv nobody (fold supersede_epoch ps impl) \<and> im_epoch (fold supersede_epoch ps impl) = im_epoch impl \<and>
     im_config (fold supersede_epoch ps impl) = im_config impl \<and>
     find_publisher q (fold supersede_epoch ps impl) =
       map_option (\<lambda>a. if q \<in> set ps then a\<lparr>pa_status := EpochSuperseded\<rparr> else a) (find_publisher q impl)"
    using assms(1,2)
  proof (induction ps arbitrary: impl)
    case Nil
    then show ?case by (simp add: option.map_ident)
  next
    case (Cons p ps)
    obtain a where a: "find_publisher p impl = Some a" using Cons.prems(2) [of p] by auto
    define reason where "reason = ''coordinator epoch advanced to '' @ gen_to_string (im_epoch impl)"
    define impl1 where "impl1 = fence_publisher p (pa_worker_boot a) True EpochSuperseded reason impl"
    have step: "supersede_epoch p impl = impl1"
      by (simp add: supersede_epoch_def a impl1_def reason_def)
    note fenced = fence_publisher_effect [OF Cons.prems(1), where status = EpochSuperseded and p = p
          and boot = "pa_worker_boot a" and reason = reason, unfolded impl1_def [symmetric], simplified]
    have "store_inv (\<lambda>q. q \<in> set ps) impl1"
      by (rule store_inv_mono [OF fenced(1)]) auto
    moreover have "find_publisher r impl1 \<noteq> None" if "r \<in> set ps" for r
      using that Cons.prems(2) [of r] a by (simp add: fenced(6) [of r])
    ultimately show ?case
      using Cons.IH [of impl1] fenced(4,5) fenced(6) [of q] a
      by (simp add: step option.map_comp)
  qed
  then show "store_inv nobody impl'" "im_epoch impl' = im_epoch impl" "im_config impl' = im_config impl"
    "find_publisher q impl' = map_option (\<lambda>a. if q \<in> set ps then a\<lparr>pa_status := EpochSuperseded\<rparr> else a)
           (find_publisher q impl)"
    by (simp_all add: impl'_def)
qed

lemma advance_epoch_effect:
  assumes "store_inv nobody impl" and "im_epoch impl < ae_new_epoch request"
  defines "impl' \<equiv> fst (advance_coordinator_epoch request impl)"
  shows "store_inv nobody impl'" and "im_epoch impl' = ae_new_epoch request"
    and "find_publisher q impl' = map_option (\<lambda>a. a\<lparr>pa_status := EpochSuperseded\<rparr>) (find_publisher q impl)"
proof -
  define impl1 where "impl1 = impl\<lparr>im_epoch := ae_new_epoch request\<rparr>"
  note epoch = inv_epoch [OF assms(1,2), folded impl1_def]
  have registered: "find_publisher p impl1 \<noteq> None" if "p \<in> set (stale_publishers impl1)" for p
    using that assms(1) set_stale_publishers [of impl1 p]
    by (auto simp: store_inv_def publishers_ok_def impl1_def)
  have impl': "impl' = fold supersede_epoch (stale_publishers impl1) impl1"
    using assms(2) by (simp add: impl'_def advance_coordinator_epoch_def Let_def impl1_def)
  note superseded = supersede_epochs [OF epoch(1) registered, folded impl']
  show "store_inv nobody impl'" "im_epoch impl' = ae_new_epoch request"
    using superseded(1,2) by (simp_all add: impl1_def)
  have "find_publisher q impl1 = find_publisher q impl" by (simp add: impl1_def find_publisher_def)
  then show "find_publisher q impl' = map_option (\<lambda>a. a\<lparr>pa_status := EpochSuperseded\<rparr>) (find_publisher q impl)"
    using superseded(3) [of q] epoch(2) [of q] by (cases "find_publisher q impl") simp_all
qed

lemma inv_advance_coordinator_epoch:
  assumes "store_inv nobody impl"
  shows "store_inv nobody (fst (advance_coordinator_epoch request impl))"
proof (cases "im_epoch impl < ae_new_epoch request")
  case True
  then show ?thesis by (rule advance_epoch_effect(1) [OF assms])
next
  case False
  then show ?thesis using assms by (auto simp: advance_coordinator_epoch_def)
qed

section \<open>Reconciliation and snapshots\<close>

lemma inv_reconcile_link:
  assumes "store_inv X impl"
  shows "store_inv X (fst (reconcile_link l (impl, n)))"
proof (cases "find_link l impl")
  case None
  then show ?thesis using assms by (simp add: reconcile_link_def)
next
  case (Some e)
  obtain code changed impl' e' where rec: "recompute_link EvidenceResolution
      (minted_publication ''reconcile'' impl) null_id impl e = ((code, changed), impl', e')"
    by (metis surj_pair)
  have "store_inv X (put_entry l e' impl')"
    by (rule inv_at_inv [OF inv_at_recompute [OF inv_at_current [OF assms Some] rec]])
  then show ?thesis using Some rec assms by (simp add: reconcile_link_def)
qed

lemma inv_reconcile:
  assumes "store_inv X impl"
  shows "store_inv X (fst (reconcile impl))"
proof -
  have "store_inv X (fst (fold reconcile_link ls (impl, n)))" for ls n
    using assms
  proof (induction ls arbitrary: impl n)
    case (Cons l ls)
    obtain impl1 n1 where step: "reconcile_link l (impl, n) = (impl1, n1)" by fastforce
    then show ?case using Cons.IH [of impl1 n1] inv_reconcile_link [OF Cons.prems, of l n] by simp
  qed simp
  then show ?thesis by (simp add: reconcile_def Let_def split: prod.split) (metis fst_conv)
qed

lemma inv_snapshot_fields [simp]:
  "store_inv X (impl\<lparr>st_snapshots := a, st_snapshot_order := b\<rparr>) = store_inv X impl"
  "store_inv X (impl\<lparr>im_snapshot_counter := c\<rparr>) = store_inv X impl"
  by (simp_all add: store_inv_def indexes_ok_def observations_ok_def publishers_ok_def authority_ok_def
      entry_ok_def slot_ok_def owned_ok_def generations_ok_def find_link_def find_publisher_def)

lemma inv_take_snapshot: "store_inv X impl \<Longrightarrow> store_inv X (fst (take_snapshot request impl))"
  by (simp add: take_snapshot_def Let_def retain_snapshot_def)

end
