(* ===== verification/Engine_Rebinding.thy ===== *)
theory Engine_Rebinding
  imports Engine_Fencing
begin

text \<open>
  The structural operations preserve the invariant: binding a new link, rebinding an existing one at
  a newer topology generation, retiring a link, and the invalidation of dependents that follows.
\<close>

section \<open>Dependents\<close>

lemma inv_invalidate_dependent: "store_inv X impl \<Longrightarrow> store_inv X (invalidate_dependent l impl)"
  by (auto simp: invalidate_dependent_def clear_evidence_def intro!: inv_invalidate_entry
      elim!: inv_at_drop [OF inv_at_current] split: option.splits prod.splits)

lemma inv_invalidate_stale_dependents:
  assumes "store_inv X impl"
  shows "store_inv X (invalidate_stale_dependents l impl)"
proof -
  have "store_inv X impl \<Longrightarrow> store_inv X (fold invalidate_dependent ls impl)" for ls impl
    by (induction ls arbitrary: impl) (simp_all add: inv_invalidate_dependent)
  then show ?thesis using assms by (simp add: invalidate_stale_dependents_def)
qed

section \<open>Rebinding\<close>

lemma index_endpoints_sel:
  "index_endpoints b True s = s\<lparr>st_by_endpoint :=
     fold (\<lambda>k. bucket_insert k (tb_link b)) (bound_endpoints b) (st_by_endpoint s)\<rparr>"
  "index_endpoints b False s = s\<lparr>st_by_endpoint :=
     fold (\<lambda>k. bucket_erase k (tb_link b)) (bound_endpoints b) (st_by_endpoint s)\<rparr>"
  by (simp_all add: index_endpoints_def)

lemma index_dependents_sel:
  "index_dependents b True s = s\<lparr>st_dependents :=
     fold (\<lambda>k. bucket_insert k (tb_link b)) (backing_ids b) (st_dependents s)\<rparr>"
  "index_dependents b False s = s\<lparr>st_dependents :=
     fold (\<lambda>k. bucket_erase k (tb_link b)) (backing_ids b) (st_dependents s)\<rparr>"
  by (simp_all add: index_dependents_def backing_ids_def fold_map comp_def)

lemma buckets_ok_fold_insert: "buckets_ok m \<Longrightarrow> buckets_ok (fold (\<lambda>k. bucket_insert k x) ks m)"
  by (induction ks arbitrary: m) auto

lemma buckets_ok_fold_erase: "buckets_ok m \<Longrightarrow> buckets_ok (fold (\<lambda>k. bucket_erase k x) ks m)"
  by (induction ks arbitrary: m) auto

lemma rebind_entry_sel:
  assumes "rebind_entry binding impl e = (impl', e')"
    and "tb_link binding = l" and "tb_link (lr_binding (le_record e)) = l"
  shows "e' = e\<lparr>le_record := (le_record e)\<lparr>lr_binding := binding\<rparr>\<rparr>"
    and "st_by_endpoint impl' = fold (\<lambda>k. bucket_insert k l) (bound_endpoints binding)
          (fold (\<lambda>k. bucket_erase k l) (bound_endpoints (lr_binding (le_record e))) (st_by_endpoint impl))"
    and "st_dependents impl' = fold (\<lambda>k. bucket_insert k l) (backing_ids binding)
          (fold (\<lambda>k. bucket_erase k l) (backing_ids (lr_binding (le_record e))) (st_dependents impl))"
    and "impl' = impl\<lparr>st_by_endpoint := st_by_endpoint impl', st_dependents := st_dependents impl'\<rparr>"
  using assms by (auto simp: rebind_entry_def Let_def index_endpoints_sel index_dependents_sel)

text \<open>Moving a link to other endpoints and backing links keeps the indexes in step.\<close>

lemma indexes_ok_rebind:
  assumes "indexes_ok (put_entry l e impl)" and "rebind_entry binding impl e = (impl', e')"
    and "tb_link binding = l" and "tb_link (lr_binding (le_record e)) = l"
  shows "indexes_ok (put_entry l e' impl')"
proof -
  let ?old = "put_entry l e impl" and ?new = "put_entry l e' impl'"
  note rebind = rebind_entry_sel [OF assms(2-4)]
  have sel: "st_links impl' = st_links impl" "st_by_state impl' = st_by_state impl"
    "st_publisher_links impl' = st_publisher_links impl"
    by (subst rebind(4), simp)+
  have find: "find_link k impl' = find_link k impl" for k by (simp add: find_link_def sel)
  have "index_agrees bucket_mem (st_by_endpoint impl') (\<lambda>k p. \<exists>f. find_link k ?new = Some f \<and>
      p \<in> set (bound_endpoints (lr_binding (le_record f))))"
    unfolding rebind(2) by (rule buckets.agrees_rekey [where R = "\<lambda>k p. \<exists>f. find_link k ?old = Some f \<and>
        p \<in> set (bound_endpoints (lr_binding (le_record f)))"])
      (use assms(1) in \<open>simp_all add: indexes_ok_def rebind(1) find\<close>)
  moreover have "index_agrees bucket_mem (st_dependents impl') (\<lambda>k b. \<exists>f. find_link k ?new = Some f \<and>
      b \<in> set (backing_ids (lr_binding (le_record f))))"
    unfolding rebind(3) by (rule buckets.agrees_rekey [where R = "\<lambda>k b. \<exists>f. find_link k ?old = Some f \<and>
        b \<in> set (backing_ids (lr_binding (le_record f)))"])
      (use assms(1) in \<open>simp_all add: indexes_ok_def rebind(1) find\<close>)
  moreover have "index_agrees bucket_mem (st_by_state impl') (\<lambda>k s. \<exists>f. find_link k ?new = Some f \<and>
      lr_state (le_record f) = s)"
    using assms(1) by (auto simp: indexes_ok_def index_agrees_def find sel rebind(1))
  moreover have "buckets_ok (st_by_endpoint impl')" "buckets_ok (st_dependents impl')"
    using assms(1) by (simp_all add: indexes_ok_def rebind(2,3) buckets_ok_fold_insert buckets_ok_fold_erase)
  ultimately show ?thesis
    using assms(1) by (simp add: indexes_ok_def sel)
qed

lemma inv_at_rebind:
  assumes "inv_at X l e impl" and "le_current e = []" and "tb_link binding = l"
    and "rebind_entry binding impl e = (impl', e')"
  shows "inv_at X l e' impl'"
proof -
  let ?old = "put_entry l e impl" and ?new = "put_entry l e' impl'"
  have inv: "store_inv X ?old" and present: "\<exists>e0. find_link l impl = Some e0"
    using assms(1) by (simp_all add: inv_at_def)
  have old: "tb_link (lr_binding (le_record e)) = l"
    using inv_at_entry [OF assms(1)] by (simp add: entry_ok_def)
  note rebind = rebind_entry_sel [OF assms(4,3) old]
  have sel: "st_links impl' = st_links impl" "st_publisher_links impl' = st_publisher_links impl"
    "st_observations impl' = st_observations impl" "st_publishers impl' = st_publishers impl"
    "st_fences impl' = st_fences impl" "im_config impl' = im_config impl" "im_epoch impl' = im_epoch impl"
    "im_global_generation impl' = im_global_generation impl"
    "im_global_state_generation impl' = im_global_state_generation impl"
    by (subst rebind(4), simp)+
  have find: "find_link k impl' = find_link k impl" for k by (simp add: find_link_def sel)
  have publishers: "find_publisher p impl' = find_publisher p impl" for p
    by (simp add: find_publisher_def sel)
  have same: "entry_ok X impl' k f = entry_ok X impl k f" for k f
    by (simp add: entry_ok_def slot_ok_def owned_ok_def generations_ok_def publishers sel)
  have "entry_ok X impl l e'"
    using inv_at_entry [OF assms(1)] assms(2,3)
    by (simp add: rebind(1) entry_ok_def generations_ok_def rings_ok_def intent_ok_def)
  then have "entry_ok X ?new k f" if "find_link k ?new = Some f" for k f
    using that inv same by (auto simp: store_inv_def find split: if_splits)
  moreover have "observations_ok ?new"
    using inv assms(2) by (simp add: store_inv_def observations_ok_def find sel rebind(1))
  moreover have "indexes_ok ?new"
    by (rule indexes_ok_rebind [OF _ assms(4,3) old]) (use inv in \<open>simp add: store_inv_def\<close>)
  moreover have "map fst (st_links ?new) = map fst (st_links ?old)"
    "length (st_links ?new) = length (st_links ?old)"
    using present by (auto simp: keys_put_entry length_put_entry find sel)
  moreover have "publishers_ok X impl'"
    using inv by (simp add: store_inv_def publishers_ok_def authority_ok_def publishers sel)
  ultimately show ?thesis
    using inv present unfolding inv_at_def store_inv_def by (simp add: find sel)
qed

lemma raise_topology_sel: "\<exists>t. raise_topology g impl = impl\<lparr>im_topology_generation := t\<rparr>"
  by (auto simp: raise_topology_def intro: exI [of _ "im_topology_generation impl"])

lemma inv_topology_field [simp]: "store_inv X (impl\<lparr>im_topology_generation := t\<rparr>) = store_inv X impl"
  by (simp add: store_inv_def indexes_ok_def observations_ok_def publishers_ok_def authority_ok_def
      entry_ok_def slot_ok_def owned_ok_def generations_ok_def find_link_def find_publisher_def)

lemma inv_raise_topology: "store_inv X (raise_topology g impl) = store_inv X impl"
  using raise_topology_sel [of g impl] by auto

lemma inv_at_raise_topology: "inv_at X l e impl \<Longrightarrow> inv_at X l e (raise_topology g impl)"
proof -
  obtain t where t: "raise_topology g impl = impl\<lparr>im_topology_generation := t\<rparr>"
    using raise_topology_sel by blast
  have "put_entry l e (impl\<lparr>im_topology_generation := t\<rparr>) = (put_entry l e impl)\<lparr>im_topology_generation := t\<rparr>"
    by (simp add: put_entry_def)
  then show "inv_at X l e impl \<Longrightarrow> inv_at X l e (raise_topology g impl)"
    by (simp add: inv_at_def t find_link_def)
qed

lemma not_describes_newer:
  "describes_binding old v \<Longrightarrow> tb_topology_generation old \<noteq> tb_topology_generation new \<Longrightarrow>
     \<not> describes_binding new v"
  by (auto simp: describes_binding_def)

lemma inv_apply_rebinding:
  assumes "store_inv X impl" and "find_link l impl = Some e" and "tb_link binding = l"
    and "tb_topology_generation (lr_binding (le_record e)) \<noteq> tb_topology_generation binding"
  shows "store_inv X (fst (apply_rebinding l binding reason impl e))"
proof -
  define why :: "EvidenceRecord \<Rightarrow> string" where "why = (\<lambda>v. ''bound to topology generation '' @ gen_to_string (ev_topology_generation v) @
      '', current generation is '' @ gen_to_string (tb_topology_generation binding))"
  obtain impl1 e1 where drop: "drop_evidence (\<lambda>v. \<not> describes_binding binding v)
      (\<lambda>_. EvidenceStatus.StaleTopology) why impl e = (impl1, e1)" by fastforce
  obtain impl2 e2 where rebind: "rebind_entry binding impl1 e1 = (impl2, e2)" by fastforce
  obtain b impl3 e3 where adv: "advance_evidence_global impl2 e2 = (b, impl3, e3)" by (metis prod_cases3)
  define impl4 where "impl4 = raise_topology (tb_topology_generation binding) impl3"
  obtain code changed impl5 e5 where rec: "recompute_link TopologyInvalidation
      (minted_publication ''topology'' impl4) null_id impl4 (stamp_global impl3 e3) = ((code, changed), impl5, e5)"
    by (metis surj_pair)
  have at1: "inv_at X l e1 impl1"
    by (rule inv_at_drop [OF inv_at_current [OF assms(1,2)] drop])
  have "describes_binding (lr_binding (le_record e)) v" if "v \<in> set (le_current e)" for v
    using inv_slot [OF assms(1,2) that] by (simp add: slot_ok_def)
  then have empty: "le_current e1 = []"
    using not_describes_newer [OF _ assms(4)] by (simp add: drop_evidence_sel(2) [OF drop] filter_empty_conv)
  have at3: "inv_at X l e3 impl3"
    by (rule inv_at_advance_evidence_global [OF inv_at_rebind [OF at1 empty assms(3) rebind] adv])
  have "inv_at X l (stamp_global impl3 e3) impl4"
    unfolding impl4_def by (intro inv_at_raise_topology inv_at_stamp at3)
  then have "store_inv X (put_entry l e5 impl5)" by (rule inv_at_inv [OF inv_at_recompute [OF _ rec]])
  then show ?thesis
    unfolding apply_rebinding_def Let_def why_def [symmetric] drop rebind
    using rebind adv at3 rec by (cases b) (simp_all add: inv_at_inv inv_invalidate_stale_dependents impl4_def [symmetric])
qed

section \<open>Binding and supersession\<close>

lemma inv_bind_fresh:
  fixes l e impl
  defines "b \<equiv> lr_binding (le_record e)"
  defines "impl' \<equiv> index_dependents b True (index_endpoints b True
      (index_link l (lr_state (le_record e)) (put_entry l e impl)))"
  assumes "store_inv X impl" and "find_link l impl = None"
    and "length (st_links impl) < cf_max_links (im_config impl)"
    and "entry_ok X impl l e" and "le_current e = []"
  shows "store_inv X impl'"
proof -
  have link: "tb_link b = l" using assms(6) by (simp add: entry_ok_def b_def)
  have endpoints: "st_by_endpoint impl' = fold (\<lambda>k. bucket_insert k l) (bound_endpoints b) (st_by_endpoint impl)"
    and dependents: "st_dependents impl' = fold (\<lambda>k. bucket_insert k l) (backing_ids b) (st_dependents impl)"
    and states: "st_by_state impl' = bucket_insert (lr_state (le_record e)) l (st_by_state impl)"
    and sel: "st_links impl' = st_links (put_entry l e impl)"
      "st_publisher_links impl' = st_publisher_links impl" "st_observations impl' = st_observations impl"
      "st_publishers impl' = st_publishers impl" "st_fences impl' = st_fences impl"
      "im_config impl' = im_config impl" "im_epoch impl' = im_epoch impl"
      "im_global_generation impl' = im_global_generation impl"
      "im_global_state_generation impl' = im_global_state_generation impl"
    by (simp_all add: impl'_def index_endpoints_sel index_dependents_sel index_link_def link)
  have find: "find_link k impl' = (if k = l then Some e else find_link k impl)" for k
    using find_link_frame [OF sel(1), of k] by simp
  have publishers: "find_publisher p impl' = find_publisher p impl" for p
    by (simp add: find_publisher_def sel)
  have same: "entry_ok X impl' k f = entry_ok X impl k f" for k f
    by (simp add: entry_ok_def slot_ok_def owned_ok_def generations_ok_def publishers sel)
  have indexes: "indexes_ok impl" and observations: "observations_ok impl"
    using assms(3) by (simp_all add: store_inv_def)
  have "indexes_ok impl'"
    using indexes assms(4) unfolding indexes_ok_def index_agrees_def find endpoints dependents states sel
    by (auto simp: buckets.mem_fold_ins bucket_mem_insert buckets_ok_fold_insert b_def split: if_splits)
  moreover have "observations_ok impl'"
    using observations assms(4,7) by (auto simp: observations_ok_def find sel split: if_splits)
  moreover have "entry_ok X impl' k f" if "find_link k impl' = Some f" for k f
    using that assms(3,6) by (auto simp: find same store_inv_def split: if_splits)
  moreover have "publishers_ok X impl'"
    using assms(3) by (simp add: store_inv_def publishers_ok_def authority_ok_def publishers sel)
  moreover have "distinct (map fst (st_links impl'))" "length (st_links impl') \<le> cf_max_links (im_config impl)"
    using assms(3-5) unfolding sel by (simp_all add: store_inv_def put_entry_def find_link_def length_update_absent)
  ultimately show ?thesis by (simp add: store_inv_def sel)
qed

lemma inv_global_generation:
  assumes "store_inv X impl" and "next_gen (im_global_generation impl) = Some gg"
  shows "store_inv X (impl\<lparr>im_global_generation := gg\<rparr>)"
  by (rule inv_frame [OF assms(1)])
    (use next_gen_le [OF assms(2)] inv_publishers [OF assms(1)] in
      \<open>simp_all add: extends_def publishers_ok_def authority_ok_def find_publisher_def\<close>)

lemma valid_binding_link: "valid_binding b = None \<Longrightarrow> valid (tb_link b)"
  by (auto simp: valid_binding_def split: if_splits)

lemma inv_bind_new_link:
  assumes "store_inv X impl" and "valid_binding binding = None"
    and "find_link (tb_link binding) impl = None"
  shows "store_inv X (fst (bind_new_link binding impl))"
proof (cases "length (st_links impl) < cf_max_links (im_config impl)")
  case False
  then show ?thesis using assms(1) by (simp add: bind_new_link_def)
next
  case room: True
  show ?thesis
  proof (cases "im_global_generation impl" rule: advance_cases)
    case saturated
    then show ?thesis using assms(1) by (simp add: bind_new_link_def)
  next
    case (stepped gg)
    define l where "l = tb_link binding"
    define impl1 where "impl1 = impl\<lparr>im_global_generation := gg\<rparr>"
    define e where "e = stamp_global impl1 (fresh_entry binding)"
    define e1 where "e1 = e\<lparr>le_record := (le_record e)\<lparr>lr_last_transition :=
        from_validated (transition_id_for l (lr_state_generation (le_record (fresh_entry binding))))\<rparr>\<rparr>"
    have inv: "store_inv X impl1"
      unfolding impl1_def by (rule inv_global_generation [OF assms(1) stepped(2)])
    have entry: "lr_binding (le_record e1) = binding" "le_current e1 = []"
      "lr_state (le_record e1) = LinkOperationalState.Unknown"
      by (simp_all add: e1_def e_def stamp_global_def fresh_entry_def new_record_def)
    have ok: "entry_ok X impl1 l e1"
      using valid_binding_link [OF assms(2)]
      by (simp add: e1_def e_def stamp_global_def fresh_entry_def new_record_def entry_ok_def
          generations_ok_def rings_ok_def intent_ok_def l_def)
    have "store_inv X (index_dependents binding True (index_endpoints binding True
        (index_link l LinkOperationalState.Unknown (put_entry l e1 impl1))))"
      using inv_bind_fresh [OF inv _ _ ok entry(2)] assms(3) room
      by (simp add: entry l_def impl1_def find_link_def)
    then show ?thesis
      using stepped room
      by (simp add: bind_new_link_def Let_def inv_raise_topology impl1_def [symmetric] e_def [symmetric]
          l_def [symmetric] e1_def [symmetric])
  qed
qed

lemma normalize_binding_sel [simp]:
  "tb_link (normalize_binding b) = tb_link b"
  "tb_topology_generation (normalize_binding b) = tb_topology_generation b"
  by (simp_all add: normalize_binding_def)

lemma inv_bind_link: "store_inv X impl \<Longrightarrow> store_inv X (fst (bind_link requested impl))"
  unfolding bind_link_def Let_def
  by (auto simp: inv_bind_new_link split: option.splits intro!: inv_apply_rebinding)

lemma inv_supersede_topology: "store_inv X impl \<Longrightarrow> store_inv X (fst (supersede_topology request impl))"
proof -
  assume inv: "store_inv X impl"
  have link: "tb_link (lr_binding (le_record e)) = l" if "find_link l impl = Some e" for l e
    using that inv by (simp add: store_inv_def entry_ok_def)
  show ?thesis
    unfolding supersede_topology_def Let_def
    by (auto simp: inv link split: option.splits sum.splits if_splits intro!: inv_apply_rebinding [OF inv])
qed

section \<open>Retirement\<close>

text \<open>Where the short circuit of \<open>advance_all\<close> can stop.\<close>

lemma advance_all_cases:
  fixes impl e impl1 e1
  defines "set_gen \<equiv> \<lambda>sg. e1\<lparr>le_record := (le_record e1)\<lparr>lr_state_generation := sg\<rparr>\<rparr>"
  assumes "advance_evidence_global impl e = (ok, impl1, e1)"
  obtains (stopped) "advance_all impl e = (False, impl1, e1)"
    | (local) sg where "advance_all impl e = (False, impl1, set_gen sg)"
        "im_global_state_generation impl1 = Gen (- 1)"
        "next_gen (lr_state_generation (le_record e1)) = Some sg"
    | (both) sg gsg where "advance_all impl e = (True, impl1\<lparr>im_global_state_generation := gsg\<rparr>, set_gen sg)"
        "next_gen (lr_state_generation (le_record e1)) = Some sg"
        "next_gen (im_global_state_generation impl1) = Some gsg"
proof (cases ok)
  case False
  then show thesis using stopped assms(2) by (simp add: advance_all_def)
next
  case True
  show thesis
  proof (cases "lr_state_generation (le_record e1)" rule: advance_cases)
    case saturated
    then show thesis using stopped assms(2) True by (simp add: advance_all_def)
  next
    case (stepped sg)
    show thesis
    proof (cases "im_global_state_generation impl1" rule: advance_cases)
      case saturated
      then have "advance_all impl e = (False, impl1, set_gen sg)"
        using stepped assms(2) True by (simp add: advance_all_def Let_def set_gen_def)
      then show thesis using local saturated stepped(2) by blast
    next
      case (stepped gsg)
      then have "advance_all impl e = (True, impl1\<lparr>im_global_state_generation := gsg\<rparr>, set_gen sg)"
        using \<open>advance (lr_state_generation (le_record e1)) = (sg, True)\<close> assms(2) True
        by (simp add: advance_all_def Let_def set_gen_def)
      then show thesis using both stepped \<open>next_gen (lr_state_generation (le_record e1)) = Some sg\<close> by blast
    qed
  qed
qed

lemma inv_at_advance_all:
  assumes "inv_at X l e impl" and "advance_all impl e = (b, impl', e')"
  shows "inv_at X l e' impl'" and "le_current e' = le_current e"
    and "lr_state (le_record e') = lr_state (le_record e)" and "im_config impl' = im_config impl"
    and "lr_binding (le_record e') = lr_binding (le_record e)"
proof -
  obtain ok impl1 e1 where adv: "advance_evidence_global impl e = (ok, impl1, e1)" by (metis prod_cases3)
  note at1 = inv_at_advance_evidence_global [OF assms(1) adv]
    and frame = advance_evidence_global_frame [OF adv]
  have gens: "generations_ok impl1 (le_record e1)"
    using inv_at_entry [OF at1] by (simp add: entry_ok_def)
  show "inv_at X l e' impl'"
    using adv
  proof (cases rule: advance_all_cases)
    case stopped
    then show ?thesis using at1 assms(2) by simp
  next
    case (local sg)
    then have "generations_ok impl1 (le_record e')"
      using gens assms(2) by (auto simp: generations_ok_def word_order.extremum)
    then show ?thesis
      by (intro inv_at_generations [OF at1, where gg = "im_global_generation impl1"
            and gsg = "im_global_state_generation impl1"]) (use local assms(2) in auto)
  next
    case (both sg gsg)
    then have "generations_ok impl' (le_record e')"
      using gens next_gen_cross [OF _ both(2,3)] assms(2) by (auto simp: generations_ok_def)
    then show ?thesis
      by (intro inv_at_generations [OF at1, where gg = "im_global_generation impl1" and gsg = gsg])
        (use both next_gen_le [OF both(3)] assms(2) in auto)
  qed
  show "le_current e' = le_current e" "lr_state (le_record e') = lr_state (le_record e)"
    "im_config impl' = im_config impl" "lr_binding (le_record e') = lr_binding (le_record e)"
    using adv by (cases rule: advance_all_cases; use frame assms(2) in \<open>auto simp: kept_def same_authority_def\<close>)+
qed

lemma retired_record_sel:
  "le_current (retired_record request cap e) = le_current e"
  "le_dispositions (retired_record request cap e) = le_dispositions e"
  "lr_state (le_record (retired_record request cap e)) = LinkOperationalState.Retired"
  "lr_result_class (le_record (retired_record request cap e)) = StateResultClass.Retired"
  "lr_binding (le_record (retired_record request cap e)) = lr_binding (le_record e)"
  "lr_admin_intent (le_record (retired_record request cap e)) = lr_admin_intent (le_record e)"
  "lr_state_generation (le_record (retired_record request cap e)) = lr_state_generation (le_record e)"
  "lr_evidence_generation (le_record (retired_record request cap e)) = lr_evidence_generation (le_record e)"
  "lr_global_generation (le_record (retired_record request cap e)) = lr_global_generation (le_record e)"
  by (simp_all add: retired_record_def Let_def stamp_transition_def push_history_def)

lemma retired_record_history:
  "length (lr_history (le_record e)) \<le> cap \<Longrightarrow>
     length (lr_history (le_record (retired_record request cap e))) \<le> cap"
  by (cases "cap = 0") (auto simp: retired_record_def Let_def stamp_transition_def push_history_def)

lemma reindex_state_sel: "reindex_state l s t impl = impl\<lparr>st_by_state := st_by_state (reindex_state l s t impl)\<rparr>"
  by (simp add: reindex_state_def)

lemma inv_at_retired:
  fixes request
  assumes "inv_at X l e impl" and "le_current e = []"
  defines "e' \<equiv> retired_record request (cf_max_history_per_link (im_config impl)) e"
  defines "impl' \<equiv> count_transition (reindex_state l (lr_state (le_record e)) LinkOperationalState.Retired impl)"
  shows "inv_at X l e' impl'"
proof -
  have sel: "st_links impl' = st_links impl" "st_by_endpoint impl' = st_by_endpoint impl"
    "st_dependents impl' = st_dependents impl" "st_publishers impl' = st_publishers impl"
    "st_publisher_links impl' = st_publisher_links impl" "st_observations impl' = st_observations impl"
    "st_fences impl' = st_fences impl" "im_config impl' = im_config impl" "im_epoch impl' = im_epoch impl"
    "im_global_generation impl' = im_global_generation impl"
    "im_global_state_generation impl' = im_global_state_generation impl"
    "st_by_state impl' = st_by_state (reindex_state l (lr_state (le_record e)) LinkOperationalState.Retired impl)"
    by (simp_all add: impl'_def count_transition_def reindex_state_def)
  have ok: "entry_ok X impl' l e'"
    using inv_at_entry [OF assms(1)] assms(2)
    by (simp add: e'_def entry_ok_def retired_record_sel sel generations_ok_def rings_ok_def
        retired_record_history intent_ok_def)
  show ?thesis
    by (rule inv_at_step [OF assms(1) sel(1) _ ok])
      (use inv_at_parts [OF assms(1)] inv_at_filed [OF assms(1)] assms(2) in
        \<open>simp_all add: sel extends_def publishers_ok_def authority_ok_def find_publisher_def e'_def retired_record_sel\<close>)
qed

lemma inv_retire_commit:
  assumes "store_inv X impl" and "find_link (rt_link request) impl = Some e"
  shows "store_inv X (fst (retire_commit request impl e))"
proof -
  define l where "l = rt_link request"
  obtain impl1 e1 where drop: "clear_evidence EvidenceStatus.Superseded
      ''link state record retired by explicit retirement'' impl e = (impl1, e1)" by fastforce
  obtain b impl2 e2 where adv: "advance_all impl1 e1 = (b, impl2, e2)" by (metis prod_cases3)
  have at1: "inv_at X l e1 impl1"
    using inv_at_drop [OF inv_at_current [OF assms] drop [unfolded clear_evidence_def]] by (simp add: l_def)
  have empty: "le_current e1 = []" using drop_evidence_sel(2) [OF drop [unfolded clear_evidence_def]] by simp
  have same: "le_record e1 = le_record e" using drop_evidence_sel(1) [OF drop [unfolded clear_evidence_def]] .
  note at2 = inv_at_advance_all [OF at1 adv]
  have link: "tb_link (lr_binding (le_record e)) = l"
    using inv_at_entry [OF at1] same by (simp add: entry_ok_def)
  define e3 where "e3 = retired_record request (cf_max_history_per_link (im_config impl2)) (stamp_global impl2 e2)"
  have "inv_at X l e3 (count_transition (reindex_state l (lr_state (le_record e)) LinkOperationalState.Retired impl2))"
    using inv_at_retired [OF inv_at_stamp [OF at2(1)], where request = request] empty at2 same
    by (simp add: e3_def)
  then have "store_inv X (invalidate_stale_dependents l (put_entry l e3
      (count_transition (reindex_state l (lr_state (le_record e)) LinkOperationalState.Retired impl2))))"
    by (intro inv_invalidate_stale_dependents inv_at_inv)
  moreover have "tb_link (lr_binding (le_record e3)) = l"
    using at2(5) same link by (simp add: e3_def retired_record_sel)
  ultimately show ?thesis
    unfolding retire_commit_def Let_def drop l_def [symmetric]
    using adv at2(1) by (cases b) (simp_all add: inv_at_inv e3_def [symmetric])
qed

lemma inv_retire_link: "store_inv X impl \<Longrightarrow> store_inv X (fst (retire_link request impl))"
  by (auto simp: retire_link_def inv_retire_commit split: option.splits prod.splits)

lemma inv_new_impl: "store_inv nobody (new_impl config)"
  by (auto simp: store_inv_def indexes_ok_def index_agrees_def observations_ok_def publishers_ok_def
      new_impl_def find_link_def find_publisher_def bucket_mem_def bucket_def)

end
