(* ===== verification/Engine_Evolution.thy ===== *)
theory Engine_Evolution
  imports Engine_Rebinding
begin

text \<open>
  How the engine moves.  Every operation is a sequence of small moves: a move that leaves the links
  alone, a revision of one live link, or the binding of a new link.  A revision never decreases a
  generation, counts every change of state, and leaves the link \<open>settled\<close>: its result class is the
  resolution of its current evidence.  The lemmas lift this to whole operations; exhausted counters
  are the only exception, so settledness is stated for engines with unsaturated counters.
\<close>

section \<open>Settled links\<close>

definition settled :: "LinkEntry \<Rightarrow> bool" where
  "settled e \<longleftrightarrow> lr_state (le_record e) = LinkOperationalState.Retired \<or>
     lr_result_class (le_record e) = policy_class (le_record e) (set (le_current e))"

definition unsaturated :: "Impl \<Rightarrow> bool" where
  "unsaturated impl \<longleftrightarrow>
     im_global_generation impl < Gen (- 1) \<and> im_global_state_generation impl < Gen (- 1)"

definition consistent :: "Impl \<Rightarrow> bool" where
  "consistent impl \<longleftrightarrow> (\<forall>l e. find_link l impl = Some e \<longrightarrow> settled e)"

text \<open>The fields of a record and of an evidence record that the policy reads.\<close>

lemma policy_class_record:
  assumes "map_option ai_state (lr_admin_intent r') = map_option ai_state (lr_admin_intent r)"
    and "lr_ever_established r' = lr_ever_established r"
    and "tb_symmetry (lr_binding r') = tb_symmetry (lr_binding r)"
  shows "policy_class r' E = policy_class r E"
  using assms unfolding policy_class_def
  by (cases "lr_admin_intent r"; cases "lr_admin_intent r'") (simp_all add: Let_def)

text \<open>Committing a class makes it the class the policy gives the committed record.\<close>

lemma policy_class_committed:
  assumes "commits_record (policy_class r E) r r'"
  shows "policy_class r' E = policy_class r E"
proof (cases "lr_ever_established r' = lr_ever_established r")
  case True
  then show ?thesis using assms by (intro policy_class_record) (simp_all add: commits_record_def)
next
  case False
  then have "established_state (state_of (policy_class r E))"
    using assms by (auto simp: commits_record_def)
  then have "policy_class r E \<noteq> AuthoritativeUnknown" "policy_class r E \<noteq> StateResultClass.RevalidationRequired"
    by (auto simp: established_state_def)
  then have "lr_admin_intent r \<noteq> None \<or> decisive_set E \<noteq> {} \<or>
      admin_claimed E EvidenceClaim.AdminDisabled \<or> admin_claimed E EvidenceClaim.Draining"
    unfolding policy_class_def by (auto simp: Let_def split: if_splits)
  then show ?thesis
    using assms unfolding policy_class_def commits_record_def by (auto simp: Let_def split: option.split)
qed

definition same_claim :: "EvidenceRecord \<Rightarrow> EvidenceRecord \<Rightarrow> bool" where
  "same_claim v w \<longleftrightarrow> ev_key w = ev_key v \<and> ev_claim w = ev_claim v \<and> ev_class w = ev_class v \<and>
     ev_status w = ev_status v"

lemma policy_class_image:
  assumes "\<And>v. same_claim v (f v)"
  shows "policy_class r (f ` E) = policy_class r E"
proof -
  have sel [simp]: "ev_key (f v) = ev_key v" "ev_claim (f v) = ev_claim v" "ev_class (f v) = ev_class v"
    "ev_status (f v) = ev_status v" for v
    using assms [of v] by (simp_all add: same_claim_def)
  have rank [simp]: "effective_precedence (f v) = effective_precedence v" "counts (f v) = counts v" for v
    by (simp_all add: effective_precedence_def counts_def)
  have D: "decisive_set (f ` E) = f ` decisive_set E"
    by (auto simp: decisive_set_def)
  have T: "strongest_set (f ` D) = f ` strongest_set D" for D
    by (auto simp: strongest_set_def)
  have claims: "ev_claim ` f ` T = ev_claim ` T" for T by (simp add: image_image)
  have tier: "tier_class (f ` T) = tier_class T" for T by (simp only: tier_class_def claims)
  have contradiction: "(\<exists>v\<in>f ` T. \<exists>w\<in>f ` T. contradicts v w) = (\<exists>v\<in>T. \<exists>w\<in>T. contradicts v w)" for T
    by (simp add: contradicts_def)
  have remote: "remote_disagrees (f ` D) c = remote_disagrees D c" for D c
    by (simp add: remote_disagrees_def)
  have admin: "admin_claimed (f ` E) c = admin_claimed E c" for c
    by (simp add: admin_claimed_def)
  show ?thesis
    unfolding policy_class_def Let_def D T admin by (simp only: tier contradiction remote image_is_empty)
qed

lemma policy_class_replace:
  assumes "same_claim v w" and "v \<notin> E"
  shows "policy_class r (insert w E) = policy_class r (insert v E)"
proof -
  let ?f = "\<lambda>x. if x = v then w else x"
  have "?f ` insert v E = insert w E" using assms(2) by auto
  moreover have "policy_class r (?f ` insert v E) = policy_class r (insert v E)"
    by (rule policy_class_image) (use assms(1) in \<open>simp add: same_claim_def\<close>)
  ultimately show ?thesis by simp
qed

section \<open>Transactions on one link\<close>

definition revision :: "Impl \<Rightarrow> LinkEntry \<Rightarrow> Impl \<Rightarrow> LinkEntry \<Rightarrow> bool" where
  "revision impl e impl' e' \<longleftrightarrow>
     st_links impl' = st_links impl \<and> im_config impl' = im_config impl \<and> im_epoch impl' = im_epoch impl \<and>
     im_topology_generation impl \<le> im_topology_generation impl' \<and>
     im_global_generation impl \<le> im_global_generation impl' \<and>
     im_global_state_generation impl \<le> im_global_state_generation impl' \<and>
     lr_record (le_record e') = lr_record (le_record e) \<and>
     tb_topology_generation (lr_binding (le_record e)) \<le> tb_topology_generation (lr_binding (le_record e')) \<and>
     lr_evidence_generation (le_record e) \<le> lr_evidence_generation (le_record e') \<and>
     lr_state_generation (le_record e) \<le> lr_state_generation (le_record e') \<and>
     (lr_state (le_record e') \<noteq> lr_state (le_record e) \<longrightarrow>
        lr_state_generation (le_record e) < lr_state_generation (le_record e') \<and>
        im_global_state_generation impl < im_global_state_generation impl')"

lemma revision_refl [simp]: "revision impl e impl e"
  by (simp add: revision_def)

lemma revision_trans [trans]:
  assumes "revision a e b f" and "revision b f c g"
  shows "revision a e c g"
proof -
  have "lr_state_generation (le_record e) < lr_state_generation (le_record g) \<and>
      im_global_state_generation a < im_global_state_generation c"
    if "lr_state (le_record g) \<noteq> lr_state (le_record e)"
  proof (cases "lr_state (le_record f) = lr_state (le_record e)")
    case True
    then show ?thesis using assms that unfolding revision_def by (auto intro: le_less_trans)
  next
    case False
    then show ?thesis using assms that unfolding revision_def by (auto intro: less_le_trans)
  qed
  then show ?thesis using assms unfolding revision_def by (auto intro: order.trans)
qed

lemma revision_drop: "drop_evidence p s r impl e = (impl', e') \<Longrightarrow> revision impl e impl' e'"
  using drop_evidence_sel(1,4) by (fastforce simp: revision_def)

lemma record_identity [simp]:
  "lr_record (le_record (stamp_global impl e)) = lr_record (le_record e)"
  "lr_record (le_record (set_evidence_generation g e)) = lr_record (le_record e)"
  by (simp_all add: stamp_global_def set_evidence_generation_def)

lemma revision_stamp [simp]: "revision impl e impl (stamp_global impl' e)"
  by (simp add: revision_def)

lemma revision_advance_evidence_global:
  assumes "advance_evidence_global impl e = (b, impl', e')"
  shows "revision impl e impl' e'"
  using assms
  by (cases rule: advance_evidence_global_cases [of impl e]) (auto simp: revision_def next_gen_le)

lemma revision_advance_global_evidence:
  assumes "advance_global_evidence impl e = (b, impl', e')"
  shows "revision impl e impl' e'"
  using assms
  by (cases rule: advance_global_evidence_cases [of impl e]) (auto simp: revision_def next_gen_le)

lemma next_gen_less: "next_gen g = Some g' \<Longrightarrow> g < g'"
  by (rule generation.step_less)

lemma revision_commits: "commits c impl e impl' e' \<Longrightarrow> revision impl e impl' e'"
  using commits_frame [of c impl e impl' e'] commits_state_generation(1,2) [of c impl e impl' e']
  by (auto simp: revision_def commits_def commits_record_def next_gen_less split: if_splits)

lemma revision_recompute:
  assumes "recompute_link trigger publication publisher impl e = (r, impl', e')"
  shows "revision impl e impl' e'"
  using assms
  by (cases rule: recompute_link_cases [of trigger publication publisher impl e])
    (auto simp: revision_commits)

section \<open>Exhausted counters\<close>

lemma not_unsaturated:
  "im_global_generation impl = Gen (- 1) \<Longrightarrow> \<not> unsaturated impl"
  "im_global_state_generation impl = Gen (- 1) \<Longrightarrow> \<not> unsaturated impl"
  by (simp_all add: unsaturated_def)

lemma gen_value_max: "gen_value (Gen (- 1)) \<le> gen_value g \<Longrightarrow> g = Gen (- 1)"
  by (cases g) (simp add: word_order.extremum_unique)

lemma saturated_evidence_global:
  assumes "advance_evidence_global impl e = (False, impl', e')" and "generations_ok impl (le_record e)"
  shows "\<not> unsaturated impl'"
proof (cases rule: advance_evidence_global_cases [of impl e])
  case evidence_exhausted
  then have "im_global_generation impl = Gen (- 1)"
    using assms(2) by (simp add: generations_ok_def gen_value_max)
  then show ?thesis using evidence_exhausted assms(1) not_unsaturated(1) by simp
qed (use assms(1) not_unsaturated(1) in auto)

lemma saturated_global_evidence:
  assumes "advance_global_evidence impl e = (False, impl', e')" and "generations_ok impl (le_record e)"
  shows "\<not> unsaturated impl'"
proof (cases rule: advance_global_evidence_cases [of impl e])
  case (evidence_exhausted gg)
  then have "im_global_generation impl = Gen (- 1)"
    using assms(2) by (simp add: generations_ok_def gen_value_max)
  then show ?thesis using evidence_exhausted(3) by (simp add: next_gen_def)
qed (use assms(1) not_unsaturated(1) in auto)

lemma commits_settled:
  assumes "commits (policy_class (le_record e) (set (le_current e))) impl e impl' e'"
  shows "settled e'"
proof -
  have "commits_record (policy_class (le_record e) (set (le_current e))) (le_record e) (le_record e')"
    using assms by (simp add: commits_def)
  then show ?thesis
    using policy_class_committed [of "le_record e" "set (le_current e)" "le_record e'"] commits_entry(1,5) [OF assms]
    by (simp add: settled_def)
qed

lemma prepare_saturated:
  assumes "\<not> pc_ok (prepare_commit (im_global_state_generation impl) e es trigger)"
    and "invalidating trigger \<or> class_is_decisive (policy_class (le_record e) (set es))"
    and "lr_state (le_record e) \<noteq> LinkOperationalState.Retired" and "generations_ok impl (le_record e)"
  shows "\<not> unsaturated impl"
proof -
  have "lr_state_generation (le_record e) = Gen (- 1) \<or> im_global_state_generation impl = Gen (- 1)"
    using prepare_commit_refused(2) [OF assms(1,2,3)] by (simp add: generation.step_None)
  then have "im_global_state_generation impl = Gen (- 1)"
    using assms(4) by (auto simp: generations_ok_def gen_value_max)
  then show ?thesis by (rule not_unsaturated(2))
qed

lemma recompute_settled:
  assumes "recompute_link trigger publication publisher impl e = (r, impl', e')" and "invalidating trigger"
    and "lr_state (le_record e) \<noteq> LinkOperationalState.Retired" and "generations_ok impl (le_record e)"
    and "unsaturated impl'"
  shows "settled e'"
proof (cases rule: recompute_link_cases [of trigger publication publisher impl e])
  case (committed changed impl'' e'')
  then show ?thesis using assms(1) commits_settled by simp
next
  case (refused code)
  then show ?thesis using prepare_saturated [OF refused(2) _ assms(3,4)] assms(1,2,5) by simp
qed

lemma recompute_code:
  assumes "recompute_link trigger publication publisher impl e = ((code, changed), impl', e')"
    and "invalidating trigger" and "lr_state (le_record e) \<noteq> LinkOperationalState.Retired"
    and "generations_ok impl (le_record e)" and "unsaturated impl'"
  shows "code = Committed"
proof (cases rule: recompute_link_cases [of trigger publication publisher impl e])
  case (refused c)
  then show ?thesis using prepare_saturated [OF refused(2) _ assms(3,4)] assms(1,2,5) by simp
qed (use assms(1) in auto)

section \<open>Moves\<close>

definition untouched :: "Impl \<Rightarrow> Impl \<Rightarrow> bool" where
  "untouched a b \<longleftrightarrow> st_links b = st_links a \<and> im_config b = im_config a \<and> im_epoch a \<le> im_epoch b \<and>
     im_topology_generation a \<le> im_topology_generation b \<and>
     im_global_generation a \<le> im_global_generation b \<and>
     im_global_state_generation a \<le> im_global_state_generation b"

text \<open>\<open>Q\<close> restricts how the revised entry may differ from the old one.\<close>

definition revises :: "(LinkEntry \<Rightarrow> LinkEntry \<Rightarrow> bool) \<Rightarrow> LinkId \<Rightarrow> Impl \<Rightarrow> Impl \<Rightarrow> bool" where
  "revises Q l a b \<longleftrightarrow>
     (\<exists>e e' impl'. find_link l a = Some e \<and> lr_state (le_record e) \<noteq> LinkOperationalState.Retired \<and>
        Q e e' \<and> revision a e impl' e' \<and> b = put_entry l e' impl' \<and> (unsaturated b \<longrightarrow> settled e'))"

definition binds :: "LinkId \<Rightarrow> Impl \<Rightarrow> Impl \<Rightarrow> bool" where
  "binds l a b \<longleftrightarrow>
     find_link l a = None \<and>
     (\<exists>e. settled e \<and> le_current e = [] \<and> (\<forall>k. find_link k b = (if k = l then Some e else find_link k a))) \<and>
     im_config b = im_config a \<and> im_epoch a \<le> im_epoch b \<and>
     im_topology_generation a \<le> im_topology_generation b \<and>
     im_global_generation a \<le> im_global_generation b \<and>
     im_global_state_generation a \<le> im_global_state_generation b"

inductive evolves :: "(LinkEntry \<Rightarrow> LinkEntry \<Rightarrow> bool) \<Rightarrow> Impl \<Rightarrow> Impl \<Rightarrow> bool"
  for Q :: "LinkEntry \<Rightarrow> LinkEntry \<Rightarrow> bool" where
  still: "evolves Q a a"
| around: "evolves Q a b \<Longrightarrow> untouched b c \<Longrightarrow> evolves Q a c"
| revised: "evolves Q a b \<Longrightarrow> revises Q l b c \<Longrightarrow> evolves Q a c"
| bound: "evolves Q a b \<Longrightarrow> binds l b c \<Longrightarrow> evolves Q a c"

lemma evolves_trans: "evolves Q b c \<Longrightarrow> evolves Q a b \<Longrightarrow> evolves Q a c"
  by (induction rule: evolves.induct) (auto intro: evolves.intros)

lemma revises_mono: "revises Q l a b \<Longrightarrow> (\<And>e e'. Q e e' \<Longrightarrow> R e e') \<Longrightarrow> revises R l a b"
  unfolding revises_def by blast

lemma evolves_mono: "evolves Q a b \<Longrightarrow> (\<And>e e'. Q e e' \<Longrightarrow> R e e') \<Longrightarrow> evolves R a b"
  by (induction rule: evolves.induct) (auto intro: evolves.intros revises_mono)

text \<open>What a whole run keeps of a link: its identity, the order of its generations, and, once it is
  retired, everything.\<close>

definition successor :: "Impl \<Rightarrow> LinkEntry \<Rightarrow> Impl \<Rightarrow> LinkEntry \<Rightarrow> bool" where
  "successor a e b e' \<longleftrightarrow>
     lr_record (le_record e') = lr_record (le_record e) \<and>
     tb_topology_generation (lr_binding (le_record e)) \<le> tb_topology_generation (lr_binding (le_record e')) \<and>
     lr_evidence_generation (le_record e) \<le> lr_evidence_generation (le_record e') \<and>
     lr_state_generation (le_record e) \<le> lr_state_generation (le_record e') \<and>
     (lr_state (le_record e') \<noteq> lr_state (le_record e) \<longrightarrow>
        lr_state_generation (le_record e) < lr_state_generation (le_record e') \<and>
        im_global_state_generation a < im_global_state_generation b) \<and>
     (lr_state (le_record e) = LinkOperationalState.Retired \<longrightarrow> e' = e)"

definition grows :: "Impl \<Rightarrow> Impl \<Rightarrow> bool" where
  "grows a b \<longleftrightarrow> im_config b = im_config a \<and> im_epoch a \<le> im_epoch b \<and>
     im_topology_generation a \<le> im_topology_generation b \<and>
     im_global_generation a \<le> im_global_generation b \<and>
     im_global_state_generation a \<le> im_global_state_generation b \<and>
     (\<forall>l e. find_link l a = Some e \<longrightarrow> (\<exists>e'. find_link l b = Some e' \<and> successor a e b e'))"

lemma successor_refl: "im_global_state_generation a \<le> im_global_state_generation b \<Longrightarrow> successor a e b e"
  by (simp add: successor_def)

lemma successor_trans:
  assumes "successor a e b f" and "successor b f c g"
    and "im_global_state_generation a \<le> im_global_state_generation b"
    and "im_global_state_generation b \<le> im_global_state_generation c"
  shows "successor a e c g"
proof -
  have "lr_state_generation (le_record e) < lr_state_generation (le_record g) \<and>
      im_global_state_generation a < im_global_state_generation c"
    if "lr_state (le_record g) \<noteq> lr_state (le_record e)"
  proof (cases "lr_state (le_record f) = lr_state (le_record e)")
    case True
    then show ?thesis using assms that unfolding successor_def by (auto intro: le_less_trans)
  next
    case False
    then show ?thesis using assms that unfolding successor_def by (auto intro: less_le_trans)
  qed
  then show ?thesis using assms(1,2) unfolding successor_def by (auto intro: order.trans)
qed

lemma grows_trans: "grows a b \<Longrightarrow> grows b c \<Longrightarrow> grows a c"
  unfolding grows_def by (metis order.trans successor_trans)

lemma grows_refl [simp]: "grows a a"
  by (simp add: grows_def successor_refl)

lemma untouched_grows: "untouched a b \<Longrightarrow> grows a b"
  unfolding untouched_def grows_def using find_link_frame [of b a] by (auto simp: successor_refl)

lemma revises_cases:
  assumes "revises Q l a b"
  obtains e e' impl' where "find_link l a = Some e" "lr_state (le_record e) \<noteq> LinkOperationalState.Retired"
    "Q e e'" "revision a e impl' e'" "b = put_entry l e' impl'" "unsaturated b \<Longrightarrow> settled e'"
    "\<And>k. find_link k b = (if k = l then Some e' else find_link k a)"
proof -
  obtain e e' impl' where step: "find_link l a = Some e" "lr_state (le_record e) \<noteq> LinkOperationalState.Retired"
    "Q e e'" "revision a e impl' e'" "b = put_entry l e' impl'" "unsaturated b \<Longrightarrow> settled e'"
    using assms unfolding revises_def by blast
  have "find_link k b = (if k = l then Some e' else find_link k a)" for k
    using find_link_frame [of impl' a k] step(4) by (simp add: step(5) revision_def)
  with step show thesis by (rule that)
qed

lemma revises_grows:
  assumes "revises Q l a b"
  shows "grows a b"
  using assms
proof (cases rule: revises_cases)
  case (1 e e' impl')
  have "successor a e b e'" using 1(2,4) by (simp add: successor_def revision_def 1(5))
  moreover have "im_global_state_generation a \<le> im_global_state_generation b"
    using 1(4) by (simp add: revision_def 1(5))
  ultimately show ?thesis
    using 1(1,4) by (simp add: grows_def 1(7) successor_refl) (simp add: revision_def 1(5))
qed

lemma binds_grows: "binds l a b \<Longrightarrow> grows a b"
  unfolding binds_def grows_def by (auto simp: successor_refl)

lemma evolves_grows: "evolves Q a b \<Longrightarrow> grows a b"
  by (induction rule: evolves.induct)
    (auto intro: grows_trans untouched_grows revises_grows binds_grows)

lemma grows_unsaturated: "grows a b \<Longrightarrow> unsaturated b \<Longrightarrow> unsaturated a"
  unfolding grows_def unsaturated_def by (auto intro: le_less_trans)

lemma consistent_frame: "consistent a \<Longrightarrow> st_links b = st_links a \<Longrightarrow> consistent b"
  by (simp add: consistent_def find_link_def)

lemma evolves_consistent: "evolves Q a b \<Longrightarrow> consistent a \<Longrightarrow> unsaturated b \<Longrightarrow> consistent b"
proof (induction rule: evolves.induct)
  case (around a b c)
  then have "consistent b" using grows_unsaturated [OF untouched_grows] by blast
  then show ?case using around.hyps(2) by (auto simp: untouched_def elim: consistent_frame)
next
  case (revised a b l c)
  then have "consistent b" using grows_unsaturated [OF revises_grows] by blast
  with revised.hyps(2) revised.prems(2) show ?case
    by (elim revises_cases) (auto simp: consistent_def split: if_splits)
next
  case (bound a b l c)
  then have "consistent b" using grows_unsaturated [OF binds_grows] by blast
  moreover obtain e where "settled e" "\<And>k. find_link k c = (if k = l then Some e else find_link k b)"
    using bound.hyps(2) unfolding binds_def by blast
  ultimately show ?case by (auto simp: consistent_def split: if_splits)
qed

end
