(* ===== verification/Engine_Progress.thy ===== *)
theory Engine_Progress
  imports Engine_Evolution
begin

text \<open>
  Every operation of the engine is a sequence of moves in the sense of \<open>evolves\<close>.  Operations that
  only remove evidence or change intent are \<open>quiet\<close>: bindings and retirements stay as they are and
  no evidence is added.
\<close>

definition quiet :: "LinkEntry \<Rightarrow> LinkEntry \<Rightarrow> bool" where
  "quiet e e' \<longleftrightarrow> lr_binding (le_record e') = lr_binding (le_record e) \<and>
     (lr_state (le_record e') = LinkOperationalState.Retired \<longleftrightarrow>
        lr_state (le_record e) = LinkOperationalState.Retired) \<and>
     set (le_current e') \<subseteq> set (le_current e)"

lemma quiet_refl [simp]: "quiet e e"
  by (simp add: quiet_def)

lemma quiet_trans: "quiet e f \<Longrightarrow> quiet f g \<Longrightarrow> quiet e g"
  by (auto simp: quiet_def)

lemma kept_quiet: "kept e e' \<Longrightarrow> quiet e e'"
  by (simp add: kept_def quiet_def)

lemma quiet_drop: "drop_evidence p s r impl e = (impl', e') \<Longrightarrow> quiet e e'"
  using drop_evidence_sel(1,2) [of p s r impl e impl' e'] by (auto simp: quiet_def)

lemma quiet_stamp [simp]: "quiet e (stamp_global impl e)"
  by (simp add: quiet_def)

lemma quiet_commits: "commits c impl e impl' e' \<Longrightarrow> lr_state (le_record e) \<noteq> LinkOperationalState.Retired \<Longrightarrow>
    c \<noteq> StateResultClass.Retired \<Longrightarrow> quiet e e'"
  using commits_entry [of c impl e impl' e'] by (simp add: quiet_def state_of_Retired)

lemma inv_generations: "inv_at X l e impl \<Longrightarrow> generations_ok impl (le_record e)"
  using inv_at_entry by (simp add: entry_ok_def)

lemma invalidating_triggers [simp]:
  "invalidating EvidenceResolution" "invalidating EvidenceWithdrawal" "invalidating PublisherFenced"
  "invalidating TopologyInvalidation" "invalidating RevalidationOutcome"
  by (simp_all add: invalidating_def)

lemma unsaturated_put [simp]: "unsaturated (put_entry l e impl) = unsaturated impl"
  by (simp add: unsaturated_def)

lemma revisesI:
  assumes "find_link l a = Some e" and "lr_state (le_record e) \<noteq> LinkOperationalState.Retired"
    and "Q e e'" and "revision a e impl' e'" and "unsaturated impl' \<Longrightarrow> settled e'"
  shows "revises Q l a (put_entry l e' impl')"
  unfolding revises_def using assms by (intro exI [of _ e] exI [of _ e'] exI [of _ impl']) simp

section \<open>Invalidation\<close>

lemma revises_invalidate_entry:
  assumes "find_link l a = Some e0" and "lr_state (le_record e0) \<noteq> LinkOperationalState.Retired"
    and "revision a e0 impl e" and "quiet e0 e" and "inv_at X l e impl" and "invalidating trigger"
  shows "revises quiet l a (invalidate_entry prefix trigger l impl e)"
proof -
  obtain b impl1 e1 where adv: "advance_evidence_global impl e = (b, impl1, e1)" by (metis prod_cases3)
  note at1 = inv_at_advance_evidence_global [OF assms(5) adv] and frame = advance_evidence_global_frame [OF adv]
  have rev1: "revision a e0 impl1 e1"
    by (rule revision_trans [OF assms(3) revision_advance_evidence_global [OF adv]])
  have quiet1: "quiet e0 e1" by (rule quiet_trans [OF assms(4) kept_quiet [OF frame(3)]])
  obtain r impl2 e2 where rec: "recompute_link trigger (minted_publication prefix impl1) null_id impl1
      (stamp_global impl1 e1) = (r, impl2, e2)"
    by (metis prod_cases3)
  have live: "lr_state (le_record (stamp_global impl1 e1)) \<noteq> LinkOperationalState.Retired"
    using assms(2) quiet1 by (simp add: quiet_def)
  show ?thesis
  proof (cases b)
    case True
    have "revises quiet l a (put_entry l e2 impl2)"
    proof (rule revisesI [OF assms(1,2)])
      show "quiet e0 e2"
        using quiet_trans [OF quiet1 quiet_trans [OF quiet_stamp kept_quiet [OF recompute_link_frame(3) [OF rec]]]] .
      show "revision a e0 impl2 e2"
        using revision_trans [OF rev1 revision_trans [OF revision_stamp revision_recompute [OF rec]]] .
      show "unsaturated impl2 \<Longrightarrow> settled e2"
        by (rule recompute_settled [OF rec assms(6) live inv_generations [OF inv_at_stamp [OF at1]]])
    qed
    then show ?thesis using adv rec True by (simp add: invalidate_entry_def)
  next
    case False
    have "revises quiet l a (put_entry l e1 impl1)"
      by (rule revisesI [where Q = quiet, OF assms(1,2) quiet1 rev1])
        (use saturated_evidence_global [OF _ inv_generations [OF assms(5)]] adv False in auto)
    then show ?thesis using adv False by (simp add: invalidate_entry_def)
  qed
qed

lemma evolves_revise: "revises Q l a b \<Longrightarrow> evolves Q a b"
  by (rule revised [OF still])

lemma evolves_around: "untouched a b \<Longrightarrow> evolves Q a b"
  by (rule around [OF still])

lemma evolves_invalidate_dependent:
  assumes "store_inv X impl"
  shows "evolves quiet impl (invalidate_dependent l impl)"
proof (cases "find_link l impl")
  case None
  then show ?thesis by (simp add: invalidate_dependent_def still)
next
  case (Some e)
  have "revises quiet l impl (invalidate_entry ''backing'' TopologyInvalidation l impl1 e1)"
    if "clear_evidence EvidenceStatus.StaleTopology reason impl e = (impl1, e1)"
      and live: "lr_state (le_record e) \<noteq> LinkOperationalState.Retired" for reason impl1 e1
  proof -
    note drop = that(1) [unfolded clear_evidence_def]
    show ?thesis
      by (rule revises_invalidate_entry [OF Some live revision_drop [OF drop] quiet_drop [OF drop]
            inv_at_drop [OF inv_at_current [OF assms Some] drop]]) simp
  qed
  then show ?thesis
    using Some by (auto simp: invalidate_dependent_def still intro: evolves_revise split: option.splits prod.splits)
qed

lemma evolves_fold:
  assumes "\<And>x impl. store_inv X impl \<Longrightarrow> evolves Q impl (f x impl) \<and> store_inv X (f x impl)"
    and "store_inv X impl"
  shows "evolves Q impl (fold f xs impl)"
  using assms(2)
proof (induction xs arbitrary: impl)
  case (Cons x xs)
  then show ?case using assms(1) [OF Cons.prems, of x] Cons.IH by (auto intro: evolves_trans)
qed (simp add: still)

lemma evolves_stale_dependents:
  "store_inv X impl \<Longrightarrow> evolves quiet impl (invalidate_stale_dependents l impl)"
  unfolding invalidate_stale_dependents_def
  by (rule evolves_fold) (simp_all add: evolves_invalidate_dependent inv_invalidate_dependent)

section \<open>Fencing\<close>

lemma inv_retired_empty:
  "store_inv X impl \<Longrightarrow> find_link l impl = Some e \<Longrightarrow> le_current e \<noteq> [] \<Longrightarrow>
     lr_state (le_record e) \<noteq> LinkOperationalState.Retired"
  by (auto simp: store_inv_def entry_ok_def)

lemma evolves_fence_link:
  assumes "store_inv X impl"
  shows "evolves quiet impl (fence_link p boot all_boots reason l impl)"
proof (cases "find_link l impl")
  case None
  then show ?thesis by (simp add: fence_link_def still)
next
  case (Some e)
  define owned :: "EvidenceRecord \<Rightarrow> bool" where "owned = (\<lambda>v. ev_publisher v = p \<and> (all_boots \<or> ev_worker_boot v = boot))"
  obtain impl1 e1 where drop: "drop_evidence owned (\<lambda>_. EvidenceStatus.StaleAuthority)
      (\<lambda>e. reason @ '' (worker boot '' @ id_value (ev_worker_boot e) @ '')'') impl e = (impl1, e1)"
    by fastforce
  have "revises quiet l impl (invalidate_entry ''fence'' PublisherFenced l impl1 e1)"
    if "list_ex owned (le_current e)"
  proof (rule revises_invalidate_entry [OF Some])
    show "lr_state (le_record e) \<noteq> LinkOperationalState.Retired"
      using that inv_retired_empty [OF assms Some] by (cases "le_current e") simp_all
    show "inv_at X l e1 impl1" by (rule inv_at_drop [OF inv_at_current [OF assms Some] drop])
  qed (use drop in \<open>auto intro: revision_drop quiet_drop\<close>)
  then show ?thesis
    using Some drop unfolding fence_link_def Let_def owned_def [symmetric]
    by (auto simp: still intro: evolves_revise)
qed

lemma evolves_fence_publisher:
  assumes "store_inv X impl" and "status \<noteq> Active"
  shows "evolves quiet impl (fence_publisher p boot True status reason impl)"
proof -
  let ?three = "begin_fence p boot status reason impl"
  let ?ls = "fence_targets p ?three"
  let ?four = "fold (fence_link p boot True reason) ?ls ?three"
  have inv: "store_inv (\<lambda>q. X q \<or> q = p) ?three" by (rule inv_begin_fence) fact+
  have "evolves quiet impl ?three"
    by (rule evolves_around) (simp add: untouched_def begin_fence_sel)
  moreover have "evolves quiet ?three ?four"
    by (rule evolves_fold [OF _ inv]) (simp add: evolves_fence_link inv_fence_link)
  moreover have "evolves quiet ?four (forget_links p ?ls ?four)"
    by (rule evolves_around) (simp add: untouched_def forget_links_def)
  ultimately show ?thesis
    unfolding fence_publisher_stages Let_def by (blast intro: evolves_trans)
qed

lemma untouched_put_authority: "untouched impl (put_authority p a impl)"
  by (simp add: untouched_def put_authority_def)

lemma evolves_register_publisher:
  assumes "store_inv nobody impl"
  shows "evolves quiet impl (fst (register_publisher registration impl))"
proof -
  have fenced: "evolves quiet impl (fence_publisher p boot True AuthorityStatus.Superseded reason impl)" for p boot reason
    by (rule evolves_fence_publisher [OF assms]) simp
  then have "evolves quiet impl (put_authority q a
      (fence_publisher p boot True AuthorityStatus.Superseded reason impl))" for p boot reason q a
    by (rule around) (rule untouched_put_authority)
  moreover have "evolves quiet impl (put_authority q a impl)" for q a
    by (rule evolves_around) (rule untouched_put_authority)
  ultimately show ?thesis
    using fenced unfolding register_publisher_def Let_def
    by (auto simp: still split: prod.splits option.splits bool.splits)
qed

lemma evolves_invalidate_publisher:
  "store_inv nobody impl \<Longrightarrow> evolves quiet impl (fst (invalidate_publisher request impl))"
  by (auto simp: invalidate_publisher_def still intro: evolves_fence_publisher split: option.splits)

section \<open>Epochs, reconciliation and snapshots\<close>

lemma evolves_supersede_epochs:
  assumes "store_inv (\<lambda>p. p \<in> set ps) impl" and "\<And>p. p \<in> set ps \<Longrightarrow> find_publisher p impl \<noteq> None"
  shows "evolves quiet impl (fold supersede_epoch ps impl)"
  using assms
proof (induction ps arbitrary: impl)
  case (Cons p ps)
  obtain a where a: "find_publisher p impl = Some a" using Cons.prems(2) [of p] by auto
  define reason where "reason = ''coordinator epoch advanced to '' @ gen_to_string (im_epoch impl)"
  define impl1 where "impl1 = fence_publisher p (pa_worker_boot a) True EpochSuperseded reason impl"
  have step: "supersede_epoch p impl = impl1"
    by (simp add: supersede_epoch_def a impl1_def reason_def)
  note fenced = fence_publisher_effect [OF Cons.prems(1), where status = EpochSuperseded and p = p
        and boot = "pa_worker_boot a" and reason = reason, unfolded impl1_def [symmetric], simplified]
  have "evolves quiet impl impl1"
    unfolding impl1_def by (rule evolves_fence_publisher [OF Cons.prems(1)]) simp
  moreover have "evolves quiet impl1 (fold supersede_epoch ps impl1)"
  proof (rule Cons.IH)
    show "store_inv (\<lambda>q. q \<in> set ps) impl1" by (rule store_inv_mono [OF fenced(1)]) auto
    show "find_publisher r impl1 \<noteq> None" if "r \<in> set ps" for r
      using that Cons.prems(2) [of r] a by (simp add: fenced(6) [of r])
  qed
  ultimately show ?case by (simp add: step evolves_trans)
qed (simp add: still)

lemma evolves_advance_coordinator_epoch:
  assumes "store_inv nobody impl"
  shows "evolves quiet impl (fst (advance_coordinator_epoch request impl))"
proof (cases "im_epoch impl < ae_new_epoch request")
  case True
  define impl1 where "impl1 = impl\<lparr>im_epoch := ae_new_epoch request\<rparr>"
  note epoch = inv_epoch [OF assms True, folded impl1_def]
  have "find_publisher p impl1 \<noteq> None" if "p \<in> set (stale_publishers impl1)" for p
    using that assms set_stale_publishers [of impl1 p]
    by (auto simp: store_inv_def publishers_ok_def impl1_def)
  then have "evolves quiet impl1 (fold supersede_epoch (stale_publishers impl1) impl1)"
    by (rule evolves_supersede_epochs [OF epoch(1)])
  moreover have "evolves quiet impl impl1"
    by (rule evolves_around) (use True in \<open>simp add: untouched_def impl1_def\<close>)
  moreover have "fst (advance_coordinator_epoch request impl) = fold supersede_epoch (stale_publishers impl1) impl1"
    using True by (simp add: advance_coordinator_epoch_def Let_def impl1_def)
  ultimately show ?thesis by (simp add: evolves_trans)
next
  case False
  then show ?thesis by (auto simp: advance_coordinator_epoch_def still)
qed

lemma evolves_reconcile_link:
  assumes "store_inv X impl"
  shows "evolves quiet impl (fst (reconcile_link l (impl, n)))"
proof (cases "find_link l impl")
  case None
  then show ?thesis by (simp add: reconcile_link_def still)
next
  case (Some e)
  obtain code changed impl' e' where rec: "recompute_link EvidenceResolution
      (minted_publication ''reconcile'' impl) null_id impl e = ((code, changed), impl', e')"
    by (metis surj_pair)
  have "revises quiet l impl (put_entry l e' impl')" if "lr_state (le_record e) \<noteq> LinkOperationalState.Retired"
    by (rule revisesI [where Q = quiet, OF Some that kept_quiet [OF recompute_link_frame(3) [OF rec]]
          revision_recompute [OF rec] recompute_settled [OF rec _ that inv_generations [OF inv_at_current [OF assms Some]]]])
      simp_all
  then show ?thesis using Some rec by (auto simp: reconcile_link_def still intro: evolves_revise)
qed

lemma evolves_reconcile_links:
  "store_inv X impl \<Longrightarrow> evolves quiet impl (fst (fold reconcile_link ls (impl, n)))"
proof (induction ls arbitrary: impl n)
  case (Cons l ls)
  obtain impl1 n1 where step: "reconcile_link l (impl, n) = (impl1, n1)" by fastforce
  show ?case
    using Cons.IH [of impl1 n1] inv_reconcile_link [OF Cons.prems, of l n]
      evolves_reconcile_link [OF Cons.prems, of l n] by (simp add: step) (blast intro: evolves_trans)
qed (simp add: still)

lemma evolves_reconcile:
  assumes "store_inv X impl"
  shows "evolves quiet impl (fst (reconcile impl))"
  using evolves_reconcile_links [OF assms, of "std_sort (<) (map fst (st_links impl))" 0]
  by (simp add: reconcile_def Let_def split: prod.split) (metis fst_conv)

lemma evolves_take_snapshot: "evolves quiet impl (fst (take_snapshot request impl))"
  by (rule evolves_around) (simp add: take_snapshot_def Let_def retain_snapshot_def untouched_def)

section \<open>Prepared commits\<close>

text \<open>A prepared resolution settles the entry it is committed on when it was computed from the same
  evidence and from a record that the policy cannot tell from the entry's.\<close>

lemma commit_prepared_settles:
  assumes "pc_ok (prepare_commit (im_global_state_generation impl) shadow prospective trigger)"
    and "lr_state (le_record shadow) = lr_state (le_record e)"
    and "lr_state_generation (le_record shadow) = lr_state_generation (le_record e)"
    and "commit_prepared (prepare_commit (im_global_state_generation impl) shadow prospective trigger)
           publication publisher impl e = (impl', e')"
    and "policy_class (le_record shadow) (set prospective) = policy_class (le_record e) (set (le_current e))"
  shows "settled e'" and "revision impl e impl' e'" and "quiet e e'"
proof -
  have commits: "commits (policy_class (le_record e) (set (le_current e))) impl e impl' e'"
    using commit_prepared_commits [OF assms(1-4)] by (simp add: assms(5))
  show "settled e'" by (rule commits_settled [OF commits])
  show "revision impl e impl' e'" by (rule revision_commits [OF commits])
  show "quiet e e'"
    by (rule quiet_commits [OF commits]) (use prepare_commit_ok(1) [OF assms(1)] assms(2) in \<open>simp_all add: policy_not_retired\<close>)
qed

lemma revision_links:
  assumes "st_links impl' = st_links impl" "im_config impl' = im_config impl" "im_epoch impl' = im_epoch impl"
    "im_topology_generation impl' = im_topology_generation impl"
    "im_global_generation impl' = im_global_generation impl"
    "im_global_state_generation impl' = im_global_state_generation impl"
  shows "revision impl e impl' e"
  using assms by (simp add: revision_def)

lemma revision_release: "revision impl e (release_link p l f impl) e"
  by (rule revision_links) (simp_all add: release_link_def)

lemma revision_count: "revision impl e (count_publication impl) e"
  by (rule revision_links) (simp_all add: count_publication_def)

lemma unsaturated_count [simp]: "unsaturated (count_publication impl) = unsaturated impl"
  by (simp add: unsaturated_def count_publication_def)

lemma advance_global_evidence_quiet: "advance_global_evidence impl e = (b, impl', e') \<Longrightarrow> quiet e e'"
  using advance_global_evidence_sel [of impl e b impl' e'] by (simp add: quiet_def)

lemma advance_global_evidence_policy:
  assumes "advance_global_evidence impl e = (b, impl', e')"
  shows "policy_class (le_record e') E = policy_class (le_record e) E"
proof -
  obtain eg where "e' = set_evidence_generation eg e" using advance_global_evidence_frame(2) [OF assms] by blast
  then show ?thesis by (intro policy_class_record) (simp_all add: set_evidence_generation_def)
qed

lemma stamp_global_policy [simp]: "policy_class (le_record (stamp_global impl e)) E = policy_class (le_record e) E"
  by (rule policy_class_record) (simp_all add: stamp_global_def)

text \<open>Removing evidence and committing the resolution of the rest, as withdrawal and revalidation
  requests do.\<close>

definition released_only :: "Impl \<Rightarrow> Impl \<Rightarrow> bool" where
  "released_only impl impl' \<longleftrightarrow> impl' = impl\<lparr>st_publisher_links := st_publisher_links impl'\<rparr>"

lemma released_only_refl [simp]: "released_only impl impl"
  by (simp add: released_only_def)

lemma released_only_release [simp]: "released_only impl (release_link p l e impl)"
  by (simp add: released_only_def release_link_def)

lemma released_only_sel:
  assumes "released_only impl impl'"
  shows "im_global_state_generation impl' = im_global_state_generation impl" "revision impl e impl' e"
  by (subst assms [unfolded released_only_def], simp)
    (rule revision_links; subst assms [unfolded released_only_def]; simp)

lemma revises_removal:
  assumes entry: "find_link l impl = Some e" "lr_state (le_record e) \<noteq> LinkOperationalState.Retired"
    and drop: "drop_evidence p s r impl e = (impl1, e1)"
    and before: "released_only impl1 impl1'" "inv_at X l e1 impl1'"
    and adv: "advance_global_evidence impl1' e1 = (b, impl2, e2)" and after: "released_only impl2 impl2'"
    and ok: "pc_ok (prepare_commit (im_global_state_generation impl) e (filter (\<lambda>v. \<not> p v) (le_current e)) trigger)"
    and commit: "commit_prepared (prepare_commit (im_global_state_generation impl) e
        (filter (\<lambda>v. \<not> p v) (le_current e)) trigger) publication publisher impl2' (stamp_global impl2 e2) = (impl3, e3)"
  shows "revision impl e impl3 e3 \<and> quiet e e3 \<and> settled e3"
    and "\<not> b \<Longrightarrow> revises quiet l impl (put_entry l e2 impl2)"
proof -
  have rev2: "revision impl e impl2 e2"
    by (rule revision_trans [OF revision_drop [OF drop]
          revision_trans [OF released_only_sel(2) [OF before(1)] revision_advance_global_evidence [OF adv]]])
  have quiet2: "quiet e e2"
    by (rule quiet_trans [OF quiet_drop [OF drop] advance_global_evidence_quiet [OF adv]])
  note sel = advance_global_evidence_sel [OF adv] drop_evidence_sel(1,2) [OF drop] drop_evidence_gsg [OF drop]
    released_only_sel(1) [OF before(1)] released_only_sel(1) [OF after]
  have policy: "policy_class (le_record e2) E = policy_class (le_record e) E" for E
    by (simp add: advance_global_evidence_policy [OF adv] sel)
  have gsg: "im_global_state_generation impl2' = im_global_state_generation impl" by (simp add: sel)
  note settles = commit_prepared_settles [OF ok [folded gsg] _ _ commit [folded gsg], unfolded stamp_global_policy policy]
  have "settled e3" "revision impl2' (stamp_global impl2 e2) impl3 e3" "quiet (stamp_global impl2 e2) e3"
    by (rule settles; simp add: sel)+
  then show "revision impl e impl3 e3 \<and> quiet e e3 \<and> settled e3"
    using revision_trans [OF rev2 revision_trans [OF released_only_sel(2) [OF after]
        revision_trans [OF revision_stamp]]] quiet_trans [OF quiet2 quiet_trans [OF quiet_stamp]] by blast
  show "\<not> b \<Longrightarrow> revises quiet l impl (put_entry l e2 impl2)"
    by (rule revisesI [where Q = quiet, OF entry quiet2 rev2])
      (use saturated_global_evidence [OF _ inv_generations [OF before(2)]] adv in auto)
qed

lemma evolves_withdraw_commit:
  assumes "store_inv X impl" and "find_link (key_link (wd_key request)) impl = Some e"
    and "lr_state (le_record e) \<noteq> LinkOperationalState.Retired"
  shows "evolves quiet impl (fst (withdraw_commit request impl e))"
proof -
  define key where "key = wd_key request"
  define l where "l = key_link key"
  define prepared where "prepared = prepare_commit (im_global_state_generation impl) e
      (filter (\<lambda>v. ev_key v \<noteq> key) (le_current e)) EvidenceWithdrawal"
  obtain impl1 e1 where drop: "drop_evidence (\<lambda>v. ev_key v = key) (\<lambda>_. EvidenceStatus.Withdrawn)
      (\<lambda>_. if wd_reason request = [] then ''withdrawn by its publisher''
           else ''withdrawn by its publisher: '' @ wd_reason request) impl e = (impl1, e1)"
    by fastforce
  obtain b impl2 e2 where adv: "advance_global_evidence impl1 e1 = (b, impl2, e2)" by (metis prod_cases3)
  obtain impl3 e3 where commit: "commit_prepared prepared null_id (wd_publisher request)
      (release_link (wd_publisher request) l e2 impl2) (stamp_global impl2 e2) = (impl3, e3)"
    by fastforce
  have found: "find_link l impl = Some e" using assms(2) by (simp add: l_def key_def)
  note removal = revises_removal [OF found assms(3) drop released_only_refl
      inv_at_drop [OF inv_at_current [OF assms(1) found] drop] adv released_only_release _ commit [unfolded prepared_def]]
  have "revises quiet l impl (put_entry l e3 (count_publication impl3))" if "pc_ok prepared"
    using removal(1) that
    by (intro revisesI [OF found assms(3)]) (auto simp: prepared_def intro: revision_trans [OF _ revision_count])
  then show ?thesis
    unfolding withdraw_commit_def Let_def key_def [symmetric] l_def [symmetric] prepared_def [symmetric]
    using drop adv commit removal(2) by (cases b) (auto simp: still prepared_def intro: evolves_revise)
qed

lemma evolves_withdraw_evidence:
  "store_inv X impl \<Longrightarrow> evolves quiet impl (fst (withdraw_evidence request impl))"
  unfolding withdraw_evidence_def Let_def
  by (auto simp: still withdraw_refusal_def intro!: evolves_withdraw_commit split: option.splits if_splits)

lemma evolves_mark_commit:
  assumes "store_inv X impl" and "find_link (mk_link request) impl = Some e"
    and "lr_state (le_record e) \<noteq> LinkOperationalState.Retired"
  shows "evolves quiet impl (fst (mark_commit request impl e))"
proof -
  define l where "l = mk_link request"
  define p where "p = mk_publisher request"
  define reason where "reason = ''publisher requires revalidation'' @
      (if mk_reason request \<noteq> [] then '': '' @ mk_reason request else [])"
  define prepared where "prepared = prepare_commit (im_global_state_generation impl) e
      (filter (\<lambda>v. ev_publisher v \<noteq> p) (le_current e)) EvidenceWithdrawal"
  obtain impl1 e1 where drop: "drop_evidence (\<lambda>v. ev_publisher v = p) (\<lambda>_. EvidenceStatus.Withdrawn)
      (\<lambda>_. reason) impl e = (impl1, e1)"
    by fastforce
  obtain b impl2 e2 where adv: "advance_global_evidence (release_link p l e1 impl1) e1 = (b, impl2, e2)"
    by (metis prod_cases3)
  obtain impl3 e3 where commit: "commit_prepared prepared (mk_publication request) p impl2
      (stamp_global impl2 e2) = (impl3, e3)"
    by fastforce
  have found: "find_link l impl = Some e" using assms(2) by (simp add: l_def)
  note removal = revises_removal [OF found assms(3) drop released_only_release
      inv_at_release [OF inv_at_drop [OF inv_at_current [OF assms(1) found] drop]] adv released_only_refl _
      commit [unfolded prepared_def]]
  have "revises quiet l impl (put_entry l e3 impl3)" if "pc_ok prepared"
    using removal(1) that by (intro revisesI [OF found assms(3)]) (auto simp: prepared_def)
  then show ?thesis
    unfolding mark_commit_def Let_def l_def [symmetric] p_def [symmetric] prepared_def [symmetric]
      reason_def [symmetric]
    using drop adv commit removal(2) by (cases b) (auto simp: still prepared_def intro: evolves_revise)
qed

lemma evolves_mark_revalidation_required:
  "store_inv X impl \<Longrightarrow> evolves quiet impl (fst (mark_revalidation_required request impl))"
  unfolding mark_revalidation_required_def
  by (auto simp: still mark_refusal_def intro!: evolves_mark_commit split: option.splits if_splits)

end
