(* ===== verification/Engine_Moves.thy ===== *)
theory Engine_Moves
  imports Engine_Progress
begin

text \<open>
  The remaining operations as sequences of moves: explicit transitions, which are quiet, and the
  operations that add evidence, rebind, bind or retire links.
\<close>

section \<open>Explicit transitions\<close>

lemma quiet_intent [simp]: "quiet e (set_intent i e)"
  by (simp add: quiet_def)

lemma revision_intent [simp]: "revision impl e impl (set_intent i e)"
  by (simp add: revision_def) (simp add: set_intent_def)

lemma stamp_intent [simp]:
  "quiet e (stamp_global impl (set_intent i e))" "quiet e (set_intent i (stamp_global impl e))"
  "revision a e a (stamp_global impl (set_intent i e))" "revision a e a (set_intent i (stamp_global impl e))"
  using quiet_trans [OF quiet_intent quiet_stamp] quiet_trans [OF quiet_stamp quiet_intent]
    revision_trans [OF revision_intent revision_stamp] revision_trans [OF revision_stamp revision_intent] by blast+

lemma revision_global_generation:
  "next_gen (im_global_generation impl) = Some gg \<Longrightarrow> revision impl e (impl\<lparr>im_global_generation := gg\<rparr>) e"
  by (simp add: revision_def next_gen_le)

lemma stamp_intent_policy:
  "policy_class (le_record (stamp_global impl (set_intent i e))) E = policy_class (le_record (set_intent i e)) E"
  "map_option ai_state i = map_option ai_state j \<Longrightarrow>
     policy_class (le_record (set_intent i (stamp_global impl e))) E = policy_class (le_record (set_intent j e)) E"
  by (rule policy_class_record; simp add: stamp_global_def set_intent_def)+

text \<open>A prepared intent, recorded after the advance of the global generation.\<close>

lemma revises_intent:
  assumes entry: "find_link l impl = Some e" "lr_state (le_record e) \<noteq> LinkOperationalState.Retired"
    and ok: "pc_ok (prepare_commit (im_global_state_generation impl) (set_intent j e) (le_current e) trigger)"
    and gg: "next_gen (im_global_generation impl) = Some gg"
    and e1: "lr_state (le_record e1) = lr_state (le_record e)"
      "lr_state_generation (le_record e1) = lr_state_generation (le_record e)" "le_current e1 = le_current e"
      "quiet e e1" "revision impl e impl e1"
    and policy: "policy_class (le_record e1) (set (le_current e)) =
        policy_class (le_record (set_intent j e)) (set (le_current e))"
    and commit: "commit_prepared (prepare_commit (im_global_state_generation impl) (set_intent j e) (le_current e) trigger)
        publication publisher (impl\<lparr>im_global_generation := gg\<rparr>) e1 = (impl2, e2)"
  shows "revises quiet l impl (put_entry l e2 impl2)"
proof -
  let ?impl1 = "impl\<lparr>im_global_generation := gg\<rparr>"
  have gsg: "im_global_state_generation ?impl1 = im_global_state_generation impl" by simp
  have "settled e2" "revision ?impl1 e1 impl2 e2" "quiet e1 e2"
    by (rule commit_prepared_settles [OF ok [folded gsg] _ _ commit [folded gsg]];
        simp add: e1 policy)+
  moreover have "revision impl e impl2 e2" if "revision ?impl1 e1 impl2 e2"
    by (rule revision_trans [OF e1(5) revision_trans [OF revision_global_generation [OF gg] that]])
  ultimately show ?thesis
    by (intro revisesI [where Q = quiet, OF entry]) (auto intro: quiet_trans [OF e1(4)])
qed

lemma evolves_clear_intent:
  assumes "find_link (ts_link request) impl = Some e" and "lr_state (le_record e) \<noteq> LinkOperationalState.Retired"
  shows "evolves quiet impl (fst (clear_intent request impl e))"
proof (cases "im_global_generation impl" rule: advance_cases)
  case saturated
  then have "revises quiet (ts_link request) impl (put_entry (ts_link request) (set_intent None e) impl)"
    by (intro revisesI [where Q = quiet, OF assms]) (simp_all add: unsaturated_def)
  then show ?thesis
    using saturated by (auto simp: clear_intent_def Let_def still intro: evolves_revise)
next
  case (stepped gg)
  let ?impl1 = "impl\<lparr>im_global_generation := gg\<rparr>"
  let ?prepared = "prepare_commit (im_global_state_generation impl) (set_intent None e) (le_current e) RevalidationOutcome"
  obtain impl2 e2 where commit: "commit_prepared ?prepared (ts_publication request) (ts_publisher request)
      ?impl1 (stamp_global ?impl1 (set_intent None e)) = (impl2, e2)" by fastforce
  have "revises quiet (ts_link request) impl (put_entry (ts_link request) e2 impl2)" if "pc_ok ?prepared"
    by (rule revises_intent [OF assms that stepped(2) _ _ _ _ _ _ commit])
      (simp_all add: stamp_intent_policy)
  then show ?thesis
    using stepped commit by (auto simp: clear_intent_def Let_def still intro: evolves_revise)
qed

lemma evolves_record_intent:
  assumes "find_link (ts_link request) impl = Some e" and "lr_state (le_record e) \<noteq> LinkOperationalState.Retired"
  shows "evolves quiet impl (fst (record_intent request impl e))"
proof (cases "im_global_generation impl" rule: advance_cases)
  case saturated
  then show ?thesis by (auto simp: record_intent_def Let_def still)
next
  case (stepped gg)
  let ?impl1 = "impl\<lparr>im_global_generation := gg\<rparr>"
  let ?intent = "\<lambda>g. Some (requested_intent request g)"
  let ?prepared = "prepare_commit (im_global_state_generation impl)
      (set_intent (?intent (im_global_generation impl)) e) (le_current e) ExplicitAdministrative"
  obtain impl2 e2 where commit: "commit_prepared ?prepared (ts_publication request) (ts_publisher request)
      ?impl1 (set_intent (?intent gg) (stamp_global ?impl1 e)) = (impl2, e2)" by fastforce
  have policy: "policy_class (le_record (set_intent (?intent gg) (stamp_global ?impl1 e))) E =
      policy_class (le_record (set_intent (?intent (im_global_generation impl)) e)) E" for E
    by (rule stamp_intent_policy(2)) (simp add: requested_intent_def)
  have "revises quiet (ts_link request) impl (put_entry (ts_link request) e2 impl2)" if "pc_ok ?prepared"
    by (rule revises_intent [OF assms that stepped(2) _ _ _ _ _ policy commit])
      simp_all
  then show ?thesis
    using stepped commit by (auto simp: record_intent_def Let_def still intro: evolves_revise)
qed

lemma evolves_transition_state: "evolves quiet impl (fst (transition_state request impl))"
  unfolding transition_state_def
  by (auto simp: still transition_refusal_def Let_def
      intro!: evolves_clear_intent evolves_record_intent split: option.splits if_splits)

section \<open>Publication\<close>

text \<open>A live link stays on its binding; evidence may be added.\<close>

definition steady :: "LinkEntry \<Rightarrow> LinkEntry \<Rightarrow> bool" where
  "steady e e' \<longleftrightarrow> lr_binding (le_record e') = lr_binding (le_record e) \<and>
     lr_state (le_record e') \<noteq> LinkOperationalState.Retired"

lemma revision_grows:
  assumes "find_link l a = Some e" and "lr_state (le_record e) \<noteq> LinkOperationalState.Retired"
    and "revision a e impl' e'"
  shows "grows a (put_entry l e' impl')"
proof -
  have "find_link k (put_entry l e' impl') = (if k = l then Some e' else find_link k a)" for k
    using find_link_frame [of impl' a k] assms(3) by (simp add: revision_def)
  then show ?thesis
    using assms unfolding grows_def by (auto simp: revision_def successor_def)
qed

lemma revision_acceptance:
  "revision impl e (count_publication (note_acceptance p (register_observation v impl))) e"
  by (rule revision_links)
    (simp_all add: count_publication_def note_acceptance_def register_observation_def put_authority_def
      split: option.splits)

lemma revision_insert: "revision impl e impl (insert_evidence v e)"
  by (simp add: revision_def insert_evidence_def)

lemma same_claim_stored: "ev_status v = Current \<Longrightarrow> same_claim v (stored_evidence v impl e)"
  by (simp add: same_claim_def stored_evidence_def Let_def)

text \<open>What an accepted publication reports and which records are current afterwards.\<close>

definition publication_outcome ::
    "EvidenceRecord \<Rightarrow> LinkEntry \<Rightarrow> PreparedCommit \<Rightarrow> Impl \<Rightarrow> LinkEntry \<Rightarrow> LinkMutationResult \<Rightarrow> bool" where
  "publication_outcome v entry prepared impl' e' result \<longleftrightarrow>
     (if oc_code (mr_outcome result) = ResourceLimit then \<not> unsaturated impl'
      else oc_code (mr_outcome result) =
          (if rs_conflicted (pc_resolution prepared) then EvidenceConflict else Committed) \<and>
        (\<exists>w. evidence_eq v w \<and> ev_status w = Current \<and> set (le_current e') = insert w
           {x \<in> set (le_current entry). \<not> replaced_by v x \<and> \<not> source_superseded_by v x}))"

lemma evidence_eq_stored: "evidence_eq v (stored_evidence v impl e)"
  by (simp add: evidence_eq_def stored_evidence_def Let_def)

lemma commit_publication_move:
  assumes "store_inv X impl" and "publish_verdict_for request impl = PublishAccepted entry prepared"
  defines "v \<equiv> pe_observation request"
  obtains e' impl' where "fst (commit_publication request impl entry prepared) = put_entry (ev_link v) e' impl'"
    "revision impl entry impl' e'" "steady entry e'"
    "ev_status v = Current \<Longrightarrow> unsaturated impl' \<Longrightarrow> settled e'"
    "publication_outcome v entry prepared impl' e' (snd (commit_publication request impl entry prepared))"
proof -
  define gone where "gone = (\<lambda>w. replaced_by v w \<or> source_superseded_by v w)"
  note accepted = publish_accepted [OF assms(2), folded v_def]
  have live: "lr_state (le_record entry) \<noteq> LinkOperationalState.Retired"
    using prepare_commit_ok(1) [of _ entry] accepted(9,10) by simp
  obtain impl1 e1 where drop: "drop_evidence gone
      (\<lambda>e. if replaced_by v e then EvidenceStatus.Superseded else StaleSourceGeneration)
      (\<lambda>e. if replaced_by v e
           then ''superseded by a newer observation of the same evidence key''
           else ''source generation superseded by a newer incarnation of the same source'')
      impl entry = (impl1, e1)"
    by fastforce
  obtain b impl2 e2 where adv: "advance_global_evidence impl1 e1 = (b, impl2, e2)" by (metis prod_cases3)
  note sel = advance_global_evidence_sel [OF adv] drop_evidence_sel(1,2) [OF drop] drop_evidence_gsg [OF drop]
  have rev2: "revision impl entry impl2 e2"
    by (rule revision_trans [OF revision_drop [OF drop] revision_advance_global_evidence [OF adv]])
  have at1: "inv_at X (ev_link v) e1 impl1" by (rule inv_at_drop [OF inv_at_current [OF assms(1) accepted(1)] drop])
  show thesis
  proof (cases b)
    case False
    then have "commit_publication request impl entry prepared =
        (put_entry (ev_link v) e2 impl2, failed ResourceLimit ''generation counter is exhausted'')"
      using drop adv unfolding commit_publication_def Let_def by (simp flip: v_def gone_def)
    then show thesis
      by (intro that [of e2 impl2]) (use rev2 live saturated_global_evidence [OF _ inv_generations [OF at1]] adv False in
        \<open>auto simp: steady_def sel publication_outcome_def\<close>)
  next
    case True
    define w where "w = stored_evidence v impl2 e2"
    define e3 where "e3 = insert_evidence w (stamp_global impl2 e2)"
    define impl3 where "impl3 = count_publication (note_acceptance (ev_publisher v) (register_observation v impl2))"
    obtain impl4 e4 where commit: "commit_prepared prepared (pe_publication request) (ev_publisher v)
        impl3 e3 = (impl4, e4)" by fastforce
    have gsg: "im_global_state_generation impl3 = im_global_state_generation impl"
      by (simp add: impl3_def count_publication_def note_acceptance_def register_observation_def
          put_authority_def sel split: option.splits)
    have e3: "lr_state (le_record e3) = lr_state (le_record entry)"
      "lr_state_generation (le_record e3) = lr_state_generation (le_record entry)"
      "lr_binding (le_record e3) = lr_binding (le_record entry)"
      by (simp_all add: e3_def insert_evidence_def sel)
    have current: "set (le_current e3) = insert w (set (filter (\<lambda>x. \<not> gone x) (le_current entry)))"
      by (simp add: e3_def insert_evidence_def sel)
    have commits: "commits (policy_class (le_record entry) (set (prospective_evidence v entry))) impl3 e3 impl4 e4"
      by (rule commit_prepared_commits [where trigger = EvidenceResolution and publication = "pe_publication request"
            and publisher = "ev_publisher v"])
        (use accepted(9,10) commit in \<open>simp_all add: gsg e3\<close>)
    have rev3: "revision impl entry impl3 e3"
      unfolding e3_def impl3_def
      by (rule revision_trans [OF rev2 revision_trans [OF revision_stamp revision_trans
            [OF revision_acceptance revision_insert]]])
    have same: "policy_class (le_record e3) E = policy_class (le_record entry) E" for E
    proof -
      have "policy_class (le_record e3) E = policy_class (le_record e2) E"
        by (simp add: e3_def insert_evidence_def)
      then show ?thesis by (simp add: advance_global_evidence_policy [OF adv] sel)
    qed
    have settles: "settled e4" if "ev_status v = Current"
    proof (rule commits_settled)
      have "v \<notin> set (filter (\<lambda>x. \<not> gone x) (le_current entry))" by (simp add: gone_def replaced_by_def)
      then have "policy_class (le_record e3) (set (le_current e3)) =
          policy_class (le_record entry) (set (prospective_evidence v entry))"
        using policy_class_replace [OF same_claim_stored [OF that]]
        by (simp add: current same w_def prospective_evidence_def gone_def)
      with commits show "commits (policy_class (le_record e3) (set (le_current e3))) impl3 e3 impl4 e4" by simp
    qed
    have stored: "evidence_eq v w" "ev_status w = Current"
      by (simp_all add: w_def evidence_eq_stored)
    have result: "fst (commit_publication request impl entry prepared) = put_entry (ev_link v) e4 impl4"
        "oc_code (mr_outcome (snd (commit_publication request impl entry prepared))) =
          (if rs_conflicted (pc_resolution prepared) then EvidenceConflict else Committed)"
      using drop adv commit True unfolding commit_publication_def Let_def
      by (simp_all flip: v_def gone_def w_def e3_def impl3_def)
    have "set (le_current e4) = insert w {x \<in> set (le_current entry). \<not> replaced_by v x \<and> \<not> source_superseded_by v x}"
      using commits_entry(1) [OF commits] by (auto simp: current gone_def)
    then have outcome: "publication_outcome v entry prepared impl4 e4 (snd (commit_publication request impl entry prepared))"
      unfolding publication_outcome_def using stored result(2) by (simp, blast)
    have "steady entry e4"
      using commits_entry [OF commits] live by (simp add: steady_def e3 state_of_Retired policy_not_retired)
    with result(1) revision_trans [OF rev3 revision_commits [OF commits]] show thesis
      by (rule that [OF _ _ _ settles outcome])
  qed
qed

lemma untouched_note_rejection: "untouched impl (note_rejection p impl)"
  by (simp add: untouched_def note_rejection_def Let_def put_authority_def split: option.splits)

lemma evolves_publish_evidence:
  assumes "store_inv X impl" and "ev_status (pe_observation request) = Current"
  shows "evolves steady impl (fst (publish_evidence request impl))"
proof -
  have "evolves steady impl (fst (commit_publication request impl entry prepared))"
    if accepted: "publish_verdict_for request impl = PublishAccepted entry prepared" for entry prepared
  proof -
    note entry = publish_accepted(1,9,10) [OF accepted]
    have live: "lr_state (le_record entry) \<noteq> LinkOperationalState.Retired"
      using prepare_commit_ok(1) [of _ entry] entry(2,3) by simp
    obtain e' impl' where move: "fst (commit_publication request impl entry prepared) =
        put_entry (ev_link (pe_observation request)) e' impl'" "revision impl entry impl' e'" "steady entry e'"
        "unsaturated impl' \<Longrightarrow> settled e'"
      by (rule commit_publication_move [OF assms(1) accepted]) (use assms(2) in blast)
    show ?thesis
      unfolding move(1) by (rule evolves_revise [OF revisesI [where Q = steady, OF entry(1) live move(3,2,4)]])
  qed
  then show ?thesis
    by (auto simp: publish_evidence_def Let_def still intro: evolves_around untouched_note_rejection
        split: option.splits publish_verdict.splits)
qed

lemma grows_publish_evidence:
  assumes "store_inv X impl"
  shows "grows impl (fst (publish_evidence request impl))"
proof -
  have "grows impl (fst (commit_publication request impl entry prepared))"
    if accepted: "publish_verdict_for request impl = PublishAccepted entry prepared" for entry prepared
  proof -
    note entry = publish_accepted(1,9,10) [OF accepted]
    have live: "lr_state (le_record entry) \<noteq> LinkOperationalState.Retired"
      using prepare_commit_ok(1) [of _ entry] entry(2,3) by simp
    show ?thesis
      by (rule commit_publication_move [OF assms accepted]) (simp add: revision_grows [OF entry(1) live])
  qed
  then show ?thesis
    by (auto simp: publish_evidence_def Let_def untouched_grows untouched_note_rejection
        split: option.splits publish_verdict.splits)
qed

section \<open>Rebinding and retirement\<close>

text \<open>A loud move may change the binding, and the state up to retirement.\<close>

definition loud :: "LinkEntry \<Rightarrow> LinkEntry \<Rightarrow> bool" where
  "loud e e' \<longleftrightarrow> True"

lemma evolves_loud: "evolves Q a b \<Longrightarrow> evolves loud a b"
  by (erule evolves_mono) (simp add: loud_def)

lemma revision_rebind:
  assumes "rebind_entry binding impl e = (impl', e')"
    and "tb_topology_generation (lr_binding (le_record e)) \<le> tb_topology_generation binding"
  shows "revision impl e impl' e'"
  using assms
  by (auto simp: rebind_entry_def Let_def index_endpoints_sel index_dependents_sel revision_def)

lemma revision_raise: "revision impl e (raise_topology g impl) e"
  by (auto simp: raise_topology_def revision_def)

text \<open>Rebinding writes the link back without evidence; when it does not stop on an exhausted counter
  it goes on to the dependents.\<close>

lemma apply_rebinding_move:
  assumes "store_inv X impl" and "find_link l impl = Some e" and "tb_link binding = l"
    and "tb_topology_generation (lr_binding (le_record e)) < tb_topology_generation binding"
    and live: "lr_state (le_record e) \<noteq> LinkOperationalState.Retired"
  obtains e' impl' where "revises loud l impl (put_entry l e' impl')" "store_inv X (put_entry l e' impl')"
    "le_current e' = []" "lr_binding (le_record e') = binding"
    "fst (apply_rebinding l binding reason impl e) = put_entry l e' impl' \<and> \<not> unsaturated impl' \<or>
     fst (apply_rebinding l binding reason impl e) = invalidate_stale_dependents l (put_entry l e' impl')"
proof -
  define why :: "EvidenceRecord \<Rightarrow> string" where "why = (\<lambda>v. ''bound to topology generation '' @ gen_to_string (ev_topology_generation v) @
      '', current generation is '' @ gen_to_string (tb_topology_generation binding))"
  obtain impl1 e1 where drop: "drop_evidence (\<lambda>v. \<not> describes_binding binding v)
      (\<lambda>_. EvidenceStatus.StaleTopology) why impl e = (impl1, e1)" by fastforce
  obtain impl2 e2 where rebind: "rebind_entry binding impl1 e1 = (impl2, e2)" by fastforce
  obtain b impl3 e3 where adv: "advance_evidence_global impl2 e2 = (b, impl3, e3)" by (metis prod_cases3)
  define impl4 where "impl4 = raise_topology (tb_topology_generation binding) impl3"
  obtain code changed impl5 e5 where rec: "recompute_link TopologyInvalidation
      (minted_publication ''topology'' impl4) null_id impl4 (stamp_global impl3 e3) = ((code, changed), impl5, e5)"
    by (metis surj_pair)
  note sel = drop_evidence_sel(1,2) [OF drop]
  have at1: "inv_at X l e1 impl1" by (rule inv_at_drop [OF inv_at_current [OF assms(1,2)] drop])
  have "describes_binding (lr_binding (le_record e)) v" if "v \<in> set (le_current e)" for v
    using inv_slot [OF assms(1,2) that] by (simp add: slot_ok_def)
  then have empty: "le_current e1 = []"
    using not_describes_newer [of "lr_binding (le_record e)" _ binding] assms(4)
    by (auto simp: sel filter_empty_conv)
  have at2: "inv_at X l e2 impl2" by (rule inv_at_rebind [OF at1 empty assms(3) rebind])
  have state: "lr_state (le_record e3) \<noteq> LinkOperationalState.Retired"
    using advance_evidence_global_frame(3) [OF adv] rebind sel live by (auto simp: kept_def rebind_entry_def Let_def)
  have rev3: "revision impl e impl3 e3"
    by (rule revision_trans [OF revision_drop [OF drop] revision_trans [OF revision_rebind [OF rebind]
          revision_advance_evidence_global [OF adv]]])
      (use assms(4) in \<open>simp add: sel\<close>)
  have at4: "inv_at X l (stamp_global impl3 e3) impl4"
    unfolding impl4_def by (intro inv_at_raise_topology inv_at_stamp inv_at_advance_evidence_global [OF at2 adv])
  have rev4: "revision impl3 (stamp_global impl3 e3) impl4 (stamp_global impl3 e3)"
    unfolding impl4_def by (rule revision_raise)
  have "revises loud l impl (put_entry l e5 impl5)"
    by (rule revisesI [where Q = loud, OF assms(2) live _ revision_trans [OF rev3 revision_trans [OF revision_stamp
          revision_trans [OF rev4 revision_recompute [OF rec]]]]
          recompute_settled [OF rec _ _ inv_generations [OF at4]]])
      (simp_all add: loud_def state)
  note moved = this inv_at_inv [OF inv_at_recompute [OF at4 rec]]
  have kept3: "le_current e3 = []" "lr_binding (le_record e3) = binding"
    using advance_evidence_global_frame(3) [OF adv] rebind empty by (auto simp: kept_def rebind_entry_def Let_def)
  then have kept5: "le_current e5 = []" "lr_binding (le_record e5) = binding"
    using recompute_link_frame(3) [OF rec] by (simp_all add: kept_def)
  have exhausted: "\<not> unsaturated impl5" if "code \<noteq> Committed"
    using recompute_code [OF rec _ _ inv_generations [OF at4]] that by (auto simp: state)
  have stopped: "\<not> unsaturated impl3" if "\<not> b"
    using saturated_evidence_global [OF _ inv_generations [OF at2]] adv that by simp
  have result: "fst (apply_rebinding l binding reason impl e) =
      (if \<not> b then put_entry l e3 impl3 else if code \<noteq> Committed then put_entry l e5 impl5
       else invalidate_stale_dependents l (put_entry l e5 impl5))"
    unfolding apply_rebinding_def Let_def why_def [symmetric] drop rebind
    using rebind adv rec kept5 assms(3) by (cases b) (simp_all add: impl4_def [symmetric])
  show thesis
  proof (cases b)
    case True
    then show thesis by (intro that [OF moved kept5]) (use result exhausted in auto)
  next
    case False
    have "revises loud l impl (put_entry l e3 impl3)"
      by (rule revisesI [where Q = loud, OF assms(2) live _ rev3]) (use stopped [OF False] in \<open>simp_all add: loud_def\<close>)
    then show thesis
      by (rule that [OF _ inv_at_inv [OF inv_at_advance_evidence_global [OF at2 adv]] kept3])
        (use result stopped False in auto)
  qed
qed

lemma evolves_apply_rebinding:
  assumes "store_inv X impl" and "find_link l impl = Some e" and "tb_link binding = l"
    and "tb_topology_generation (lr_binding (le_record e)) < tb_topology_generation binding"
    and "lr_state (le_record e) \<noteq> LinkOperationalState.Retired"
  shows "evolves loud impl (fst (apply_rebinding l binding reason impl e))"
proof (rule apply_rebinding_move [OF assms, of reason])
  fix e' impl'
  assume moved: "revises loud l impl (put_entry l e' impl')" and inv: "store_inv X (put_entry l e' impl')"
    and result: "fst (apply_rebinding l binding reason impl e) = put_entry l e' impl' \<and> \<not> unsaturated impl' \<or>
     fst (apply_rebinding l binding reason impl e) = invalidate_stale_dependents l (put_entry l e' impl')"
  have "evolves loud impl (invalidate_stale_dependents l (put_entry l e' impl'))"
    by (rule evolves_trans [OF evolves_loud [OF evolves_stale_dependents [OF inv]] evolves_revise [OF moved]])
  then show ?thesis using result evolves_revise [OF moved] by auto
qed

lemma evolves_supersede_topology:
  assumes "store_inv X impl"
  shows "evolves loud impl (fst (supersede_topology request impl))"
proof -
  have link: "tb_link (lr_binding (le_record e)) = l" if "find_link l impl = Some e" for l e
    using that assms by (simp add: store_inv_def entry_ok_def)
  show ?thesis
    unfolding supersede_topology_def Let_def
    by (auto simp: still link split: option.splits sum.splits if_splits intro!: evolves_apply_rebinding [OF assms])
qed

lemma settled_fresh: "settled (fresh_entry binding)"
proof -
  have "policy_class (le_record (fresh_entry binding)) {} = AuthoritativeUnknown"
    by (simp add: policy_class_def decisive_set_def admin_claimed_def fresh_entry_def new_record_def Let_def)
  then show ?thesis by (simp add: settled_def fresh_entry_def new_record_def)
qed

lemma settled_record:
  assumes "settled e" and "le_current e' = le_current e"
    and "lr_result_class (le_record e') = lr_result_class (le_record e)"
    and "lr_state (le_record e') = lr_state (le_record e)"
    and "lr_admin_intent (le_record e') = lr_admin_intent (le_record e)"
    and "lr_ever_established (le_record e') = lr_ever_established (le_record e)"
    and "lr_binding (le_record e') = lr_binding (le_record e)"
  shows "settled e'"
  using assms policy_class_record [of "le_record e'" "le_record e"] by (simp add: settled_def)

lemma evolves_bind_new_link:
  assumes "find_link (tb_link binding) impl = None"
  shows "evolves Q impl (fst (bind_new_link binding impl))"
proof (cases "im_global_generation impl" rule: advance_cases)
  case saturated
  then show ?thesis by (simp add: bind_new_link_def still)
next
  case (stepped gg)
  define l where "l = tb_link binding"
  define impl1 where "impl1 = impl\<lparr>im_global_generation := gg\<rparr>"
  define e where "e = stamp_global impl1 (fresh_entry binding)"
  define e1 where "e1 = e\<lparr>le_record := (le_record e)\<lparr>lr_last_transition :=
      from_validated (transition_id_for l (lr_state_generation (le_record (fresh_entry binding))))\<rparr>\<rparr>"
  let ?impl' = "index_dependents binding True (index_endpoints binding True
      (index_link l LinkOperationalState.Unknown (put_entry l e1 impl1)))"
  have "settled e1"
    by (rule settled_record [OF settled_fresh [of binding]]) (simp_all add: e1_def e_def stamp_global_def)
  moreover have "le_current e1 = []" by (simp add: e1_def e_def fresh_entry_def)
  moreover have "find_link k ?impl' = (if k = l then Some e1 else find_link k impl)" for k
    using find_link_frame [of ?impl' "put_entry l e1 impl1" k]
    by (simp add: index_endpoints_sel index_dependents_sel index_link_def impl1_def) (simp add: find_link_def)
  ultimately have "binds l impl ?impl'"
    using assms next_gen_le [OF stepped(2)] unfolding binds_def
    by (simp add: l_def [symmetric]) (simp add: index_endpoints_sel index_dependents_sel index_link_def impl1_def)
  then have "evolves Q impl ?impl'" by (rule bound [OF still])
  moreover have "untouched ?impl' (raise_topology (tb_topology_generation binding) ?impl')"
    by (simp add: untouched_def raise_topology_def order.strict_implies_order)
  ultimately have "evolves Q impl (raise_topology (tb_topology_generation binding) ?impl')" by (rule around)
  then show ?thesis
    using stepped by (simp add: bind_new_link_def Let_def still impl1_def [symmetric] e_def [symmetric]
        l_def [symmetric] e1_def [symmetric])
qed

lemma evolves_bind_link: "store_inv X impl \<Longrightarrow> evolves loud impl (fst (bind_link requested impl))"
  unfolding bind_link_def Let_def
  by (auto simp: still evolves_bind_new_link split: option.splits intro!: evolves_apply_rebinding)

lemma generations_max:
  assumes "generations_ok impl r" and "lr_state_generation r = Gen (- 1)"
  shows "\<not> unsaturated impl"
  using assms by (intro not_unsaturated(2)) (simp add: generations_ok_def gen_value_max)

lemma revision_advance_all:
  assumes "inv_at X l e impl" and "advance_all impl e = (b, impl', e')"
  shows "revision impl e impl' e'"
    and "b \<Longrightarrow> lr_state_generation (le_record e) < lr_state_generation (le_record e') \<and>
      im_global_state_generation impl < im_global_state_generation impl'"
    and "\<not> b \<Longrightarrow> \<not> unsaturated impl'"
proof -
  obtain ok impl1 e1 where adv: "advance_evidence_global impl e = (ok, impl1, e1)" by (metis prod_cases3)
  note rev1 = revision_advance_evidence_global [OF adv] and frame = advance_evidence_global_frame [OF adv]
  have gens: "generations_ok impl1 (le_record e1)"
    by (rule inv_generations [OF inv_at_advance_evidence_global [OF assms(1) adv]])
  have stopped: "\<not> unsaturated impl1" if "advance_all impl e = (False, impl1, e1)"
  proof (cases ok)
    case False
    then show ?thesis using saturated_evidence_global [OF _ inv_generations [OF assms(1)]] adv by simp
  next
    case True
    then have "\<not> snd (advance (lr_state_generation (le_record e1))) \<or> \<not> snd (advance (im_global_state_generation impl1))"
      using that adv by (auto simp: advance_all_def Let_def split: prod.splits bool.splits)
    then show ?thesis using generations_max [OF gens] not_unsaturated(2) [of impl1]
      by (cases "lr_state_generation (le_record e1)" rule: advance_cases;
          cases "im_global_state_generation impl1" rule: advance_cases) auto
  qed
  have "revision impl e impl' e' \<and> (b \<longrightarrow> lr_state_generation (le_record e) < lr_state_generation (le_record e') \<and>
      im_global_state_generation impl < im_global_state_generation impl') \<and> (\<not> b \<longrightarrow> \<not> unsaturated impl')"
    using adv
  proof (cases rule: advance_all_cases)
    case stopped
    then show ?thesis using rev1 assms(2) \<open>advance_all impl e = (False, impl1, e1) \<Longrightarrow> \<not> unsaturated impl1\<close> by auto
  next
    case (local sg)
    then show ?thesis using rev1 assms(2) not_unsaturated(2) next_gen_less [OF local(3)]
      by (auto simp: revision_def)
  next
    case (both sg gsg)
    then show ?thesis using rev1 assms(2) next_gen_less [OF both(2)] next_gen_less [OF both(3)]
      by (auto simp: revision_def)
  qed
  then show "revision impl e impl' e'"
    and "b \<Longrightarrow> lr_state_generation (le_record e) < lr_state_generation (le_record e') \<and>
      im_global_state_generation impl < im_global_state_generation impl'"
    and "\<not> b \<Longrightarrow> \<not> unsaturated impl'" by auto
qed

lemma revision_retired:
  assumes "revision impl e impl2 e2"
    and "lr_state_generation (le_record e) < lr_state_generation (le_record e2)"
    and "im_global_state_generation impl < im_global_state_generation impl2"
  shows "revision impl e (count_transition (reindex_state l s LinkOperationalState.Retired impl2))
    (retired_record request cap (stamp_global impl2 e2))"
proof -
  have "lr_record (le_record (retired_record request cap (stamp_global impl2 e2))) = lr_record (le_record e2)"
    by (simp add: retired_record_def Let_def stamp_transition_def push_history_def stamp_global_def)
  then show ?thesis
    using assms by (simp add: revision_def retired_record_sel count_transition_def reindex_state_def)
qed

lemma retire_commit_move:
  assumes "store_inv X impl" and "find_link (rt_link request) impl = Some e"
    and live: "lr_state (le_record e) \<noteq> LinkOperationalState.Retired"
  obtains (stopped) e' impl' where "fst (retire_commit request impl e) = put_entry (rt_link request) e' impl'"
      "revises quiet (rt_link request) impl (put_entry (rt_link request) e' impl')"
  | (retired) e' impl' where "revises loud (rt_link request) impl (put_entry (rt_link request) e' impl')"
      "store_inv X (put_entry (rt_link request) e' impl')" "le_current e' = []"
      "lr_binding (le_record e') = lr_binding (le_record e)"
      "fst (retire_commit request impl e) =
         invalidate_stale_dependents (rt_link request) (put_entry (rt_link request) e' impl')"
proof -
  define l where "l = rt_link request"
  have entry: "find_link l impl = Some e" using assms(2) by (simp add: l_def)
  obtain impl1 e1 where clear: "clear_evidence EvidenceStatus.Superseded
      ''link state record retired by explicit retirement'' impl e = (impl1, e1)" by fastforce
  note drop = clear [unfolded clear_evidence_def]
  obtain b impl2 e2 where adv: "advance_all impl1 e1 = (b, impl2, e2)" by (metis prod_cases3)
  have at1: "inv_at X l e1 impl1" by (rule inv_at_drop [OF inv_at_current [OF assms(1) entry] drop])
  note at2 = inv_at_advance_all [OF at1 adv] and rev2 = revision_advance_all [OF at1 adv]
    and sel = drop_evidence_sel(1,2) [OF drop] drop_evidence_gsg [OF drop]
  have rev: "revision impl e impl2 e2" by (rule revision_trans [OF revision_drop [OF drop] rev2(1)])
  define e3 where "e3 = retired_record request (cf_max_history_per_link (im_config impl2)) (stamp_global impl2 e2)"
  define impl3 where "impl3 = count_transition (reindex_state l (lr_state (le_record e)) LinkOperationalState.Retired impl2)"
  have inv: "store_inv X (put_entry l e3 impl3)"
    using inv_at_retired [OF inv_at_stamp [OF at2(1)], where request = request] at2 sel
    by (intro inv_at_inv) (simp add: e3_def impl3_def)
  have kept: "le_current e3 = []" "lr_binding (le_record e3) = lr_binding (le_record e)"
    using at2 by (simp_all add: e3_def retired_record_sel sel)
  have "tb_link (lr_binding (le_record e3)) = l"
    using inv_at_entry [OF at1] at2(5) by (simp add: entry_ok_def e3_def retired_record_sel)
  then have result: "fst (retire_commit request impl e) =
      (if b then invalidate_stale_dependents l (put_entry l e3 impl3) else put_entry l e2 impl2)"
    unfolding retire_commit_def Let_def clear l_def [symmetric]
    using adv by (cases b) (simp_all add: e3_def [symmetric] impl3_def [symmetric])
  show thesis
  proof (cases b)
    case True
    have "revision impl e impl3 e3"
      unfolding e3_def impl3_def by (rule revision_retired [OF rev]) (use rev2(2) True in \<open>simp_all add: sel\<close>)
    then have "revises loud l impl (put_entry l e3 impl3)"
      by (intro revisesI [where Q = loud, OF entry live])
        (simp_all add: loud_def settled_def e3_def retired_record_sel)
    then show thesis using retired inv kept result True by (simp add: l_def)
  next
    case False
    have "quiet e e2" using at2(2,3,5) by (simp add: quiet_def sel)
    then have "revises quiet l impl (put_entry l e2 impl2)"
      by (intro revisesI [where Q = quiet, OF entry live _ rev]) (use rev2(3) False in simp_all)
    then show thesis using stopped result False by (simp add: l_def)
  qed
qed

lemma evolves_retire_commit:
  assumes "store_inv X impl" and "find_link (rt_link request) impl = Some e"
    and "lr_state (le_record e) \<noteq> LinkOperationalState.Retired"
  shows "evolves loud impl (fst (retire_commit request impl e))"
  using assms
proof (cases rule: retire_commit_move)
  case (stopped e' impl')
  then show ?thesis by (simp add: evolves_loud [OF evolves_revise])
next
  case (retired e' impl')
  then show ?thesis
    using evolves_trans [OF evolves_loud [OF evolves_stale_dependents [OF retired(2)]] evolves_revise [OF retired(1)]]
    by simp
qed

lemma evolves_retire_link: "store_inv X impl \<Longrightarrow> evolves loud impl (fst (retire_link request impl))"
  by (auto simp: retire_link_def still evolves_retire_commit split: option.splits prod.splits)

end
