(* ===== verification/Runs.thy ===== *)
theory Runs
  imports Main
begin

text \<open>
  Runs of a deterministic machine.  A machine is a step function on operations; \<open>reachable\<close> closes a
  set of initial states under the allowed operations, and a run folds a list of operations.  The
  locales are the two proof obligations a component discharges: an invariant, and an order along
  which every step moves.
\<close>

inductive reachable :: "('s \<Rightarrow> bool) \<Rightarrow> ('o \<Rightarrow> bool) \<Rightarrow> ('o \<Rightarrow> 's \<Rightarrow> 's) \<Rightarrow> 's \<Rightarrow> bool"
  for initial :: "'s \<Rightarrow> bool" and allowed :: "'o \<Rightarrow> bool" and step :: "'o \<Rightarrow> 's \<Rightarrow> 's" where
  initially: "initial s \<Longrightarrow> reachable initial allowed step s"
| stepping: "reachable initial allowed step s \<Longrightarrow> allowed op \<Longrightarrow> reachable initial allowed step (step op s)"

lemma reachable_run:
  "reachable initial allowed step s \<Longrightarrow> list_all allowed ops \<Longrightarrow>
     reachable initial allowed step (fold step ops s)"
  by (induction ops arbitrary: s) (auto intro: stepping)

lemma reachable_mono:
  "reachable initial allowed step s \<Longrightarrow> (\<And>op. allowed op \<Longrightarrow> allowed' op) \<Longrightarrow> reachable initial allowed' step s"
  by (induction rule: reachable.induct) (auto intro: reachable.intros)

locale machine_invariant =
  fixes initial :: "'s \<Rightarrow> bool" and allowed :: "'o \<Rightarrow> bool" and step :: "'o \<Rightarrow> 's \<Rightarrow> 's"
    and invariant :: "'s \<Rightarrow> bool"
  assumes initial_invariant: "initial s \<Longrightarrow> invariant s"
    and step_invariant: "invariant s \<Longrightarrow> allowed op \<Longrightarrow> invariant (step op s)"
begin

lemma reachable_invariant: "reachable initial allowed step s \<Longrightarrow> invariant s"
  by (induction rule: reachable.induct) (auto intro: initial_invariant step_invariant)

lemma run_invariant: "invariant s \<Longrightarrow> list_all allowed ops \<Longrightarrow> invariant (fold step ops s)"
  by (induction ops arbitrary: s) (auto intro: step_invariant)

end

locale machine_progress = machine_invariant initial allowed step invariant
  for initial :: "'s \<Rightarrow> bool" and allowed :: "'o \<Rightarrow> bool" and step :: "'o \<Rightarrow> 's \<Rightarrow> 's"
    and invariant :: "'s \<Rightarrow> bool" +
  fixes below :: "'s \<Rightarrow> 's \<Rightarrow> bool"
  assumes below_refl: "below s s"
    and below_trans: "below s t \<Longrightarrow> below t u \<Longrightarrow> below s u"
    and step_below: "invariant s \<Longrightarrow> allowed op \<Longrightarrow> below s (step op s)"
begin

lemma run_below: "invariant s \<Longrightarrow> list_all allowed ops \<Longrightarrow> below s (fold step ops s)"
proof (induction ops arbitrary: s)
  case (Cons op ops)
  then have "below s (step op s)" "below (step op s) (fold step ops (step op s))"
    by (auto intro: step_below step_invariant)
  then show ?case by (auto intro: below_trans)
qed (simp add: below_refl)

lemma reachable_run_below:
  "reachable initial allowed step s \<Longrightarrow> list_all allowed ops \<Longrightarrow> below s (fold step ops s)"
  by (rule run_below [OF reachable_invariant])

end

end
