(* ===== verification/Engine_Runs.thy ===== *)
theory Engine_Runs
  imports Engine_Moves Runs
begin

text \<open>
  The engine as a machine.  An \<open>engine_operation\<close> is a call of one of the mutating methods of
  \<^verbatim>\<open>LinkStateEngine\<close> (\<^verbatim>\<open>include/linkstate/engine.hpp\<close>) and \<open>perform\<close> is its effect on the engine; the
  mutex of the engine makes every concurrent use a sequence of such calls.
\<close>

datatype engine_operation =
  BindLink TopologyBinding
| BindLinks "TopologyBinding list"
| SupersedeTopology SupersedeTopologyRequest
| SupersedeTopologyBatch "SupersedeTopologyRequest list"
| RetireLink RetireLinkRequest
| RegisterPublisher PublisherRegistration
| InvalidatePublisher InvalidatePublisherRequest
| AdvanceCoordinatorEpoch AdvanceEpochRequest
| PublishEvidence PublishEvidenceRequest
| PublishEvidenceBatch "PublishEvidenceRequest list"
| WithdrawEvidence WithdrawEvidenceRequest
| TransitionState TransitionStateRequest
| MarkRevalidationRequired MarkRevalidationRequest
| TakeSnapshot SnapshotRequest
| Reconcile

fun perform :: "engine_operation \<Rightarrow> Impl \<Rightarrow> Impl" where
  "perform (BindLink r) impl = fst (bind_link r impl)"
| "perform (BindLinks rs) impl = fst (bind_links rs impl)"
| "perform (SupersedeTopology r) impl = fst (supersede_topology r impl)"
| "perform (SupersedeTopologyBatch rs) impl = fst (supersede_topology_batch rs impl)"
| "perform (RetireLink r) impl = fst (retire_link r impl)"
| "perform (RegisterPublisher r) impl = fst (register_publisher r impl)"
| "perform (InvalidatePublisher r) impl = fst (invalidate_publisher r impl)"
| "perform (AdvanceCoordinatorEpoch r) impl = fst (advance_coordinator_epoch r impl)"
| "perform (PublishEvidence r) impl = fst (publish_evidence r impl)"
| "perform (PublishEvidenceBatch rs) impl = fst (publish_evidence_batch rs impl)"
| "perform (WithdrawEvidence r) impl = fst (withdraw_evidence r impl)"
| "perform (TransitionState r) impl = fst (transition_state r impl)"
| "perform (MarkRevalidationRequired r) impl = fst (mark_revalidation_required r impl)"
| "perform (TakeSnapshot r) impl = fst (take_snapshot r impl)"
| "perform Reconcile impl = fst (reconcile impl)"

definition initial_engine :: "Impl \<Rightarrow> bool" where
  "initial_engine impl \<longleftrightarrow> (\<exists>config. impl = new_impl config)"

abbreviation any_operation :: "engine_operation \<Rightarrow> bool" where
  "any_operation \<equiv> \<lambda>_. True"

abbreviation engine_reachable :: "Impl \<Rightarrow> bool" where
  "engine_reachable \<equiv> reachable initial_engine any_operation perform"

section \<open>The structural invariant and progress\<close>

lemma perform_inv:
  assumes "store_inv nobody impl"
  shows "store_inv nobody (perform op impl)"
  using assms
  by (cases op) (simp_all add: inv_bind_link inv_supersede_topology inv_retire_link inv_register_publisher
      inv_invalidate_publisher inv_advance_coordinator_epoch inv_publish_evidence inv_withdraw_evidence
      inv_transition_state inv_mark_revalidation_required inv_take_snapshot inv_reconcile
      bind_links_def supersede_topology_batch_def publish_evidence_batch_def inv_run_batch)

lemma run_each_moves:
  assumes "\<And>r impl. r \<in> set rs \<Longrightarrow> store_inv X impl \<Longrightarrow> rel impl (fst (f r impl)) \<and> store_inv X (fst (f r impl))"
    and "\<And>a. rel a a" and "\<And>a b c. rel a b \<Longrightarrow> rel b c \<Longrightarrow> rel a c" and "store_inv X impl"
  shows "rel impl (fst (run_each f rs impl))"
  using assms(1,4)
proof (induction rs arbitrary: impl)
  case (Cons r rs)
  obtain impl1 x where step: "f r impl = (impl1, x)" by fastforce
  have "rel impl impl1" "store_inv X impl1" using Cons.prems step by fastforce+
  moreover from this have "rel impl1 (fst (run_each f rs impl1))" using Cons by auto
  ultimately have "rel impl (fst (run_each f rs impl1))" using assms(3) by blast
  then show ?case by (cases "run_each f rs impl1") (simp add: step)
qed (simp add: assms(2))

lemma run_batch_moves:
  assumes "\<And>r impl. r \<in> set rs \<Longrightarrow> store_inv X impl \<Longrightarrow> rel impl (fst (f r impl)) \<and> store_inv X (fst (f r impl))"
    and "\<And>a. rel a a" and "\<And>a b c. rel a b \<Longrightarrow> rel b c \<Longrightarrow> rel a c" and "store_inv X impl"
  shows "rel impl (fst (run_batch f rs impl))"
proof -
  have "rel impl (fst (run_each f rs impl))"
    by (rule run_each_moves [where X = X and rel = rel, OF assms(1,2)]) (use assms(3,4) in blast)+
  then show ?thesis by (simp add: run_batch_def assms(2))
qed

lemmas quiet_grows = evolves_grows [where Q = quiet] and loud_grows = evolves_grows [where Q = loud]

lemma perform_grows:
  assumes "store_inv nobody impl"
  shows "grows impl (perform op impl)"
proof (cases op)
  case (BindLinks rs)
  then show ?thesis
    using run_batch_moves [where rel = grows and f = bind_link] assms
    by (simp add: bind_links_def loud_grows evolves_bind_link inv_bind_link) (metis grows_trans)
next
  case (SupersedeTopologyBatch rs)
  then show ?thesis
    using run_batch_moves [where rel = grows and f = supersede_topology] assms
    by (simp add: supersede_topology_batch_def loud_grows evolves_supersede_topology inv_supersede_topology)
      (metis grows_trans)
next
  case (PublishEvidenceBatch rs)
  then show ?thesis
    using run_batch_moves [where rel = grows and f = publish_evidence] assms
    by (simp add: publish_evidence_batch_def grows_publish_evidence inv_publish_evidence) (metis grows_trans)
qed (use assms in \<open>simp_all add: grows_publish_evidence
    loud_grows evolves_bind_link evolves_supersede_topology evolves_retire_link
    quiet_grows evolves_register_publisher evolves_invalidate_publisher evolves_advance_coordinator_epoch
    evolves_withdraw_evidence evolves_transition_state evolves_mark_revalidation_required
    evolves_take_snapshot evolves_reconcile\<close>)

interpretation engine: machine_progress initial_engine any_operation perform "store_inv nobody" grows
  by unfold_locales (auto simp: initial_engine_def inv_new_impl perform_inv perform_grows intro: grows_trans)

section \<open>Settled verdicts\<close>

text \<open>Observations arrive with the status \<^verbatim>\<open>Current\<close>; the wire protocol carries no status.\<close>

fun honest :: "engine_operation \<Rightarrow> bool" where
  "honest (PublishEvidence r) \<longleftrightarrow> ev_status (pe_observation r) = Current"
| "honest (PublishEvidenceBatch rs) \<longleftrightarrow> list_all (\<lambda>r. ev_status (pe_observation r) = Current) rs"
| "honest _ \<longleftrightarrow> True"

lemma evolves_loud_trans: "evolves loud a b \<Longrightarrow> evolves loud b c \<Longrightarrow> evolves loud a c"
  by (rule evolves_trans)

lemma perform_evolves:
  assumes "store_inv nobody impl" and "honest op"
  shows "evolves loud impl (perform op impl)"
proof (cases op)
  case (BindLinks rs)
  then show ?thesis
    using run_batch_moves [where rel = "evolves loud" and f = bind_link] assms
    by (simp add: bind_links_def still evolves_bind_link inv_bind_link) (metis evolves_loud_trans)
next
  case (SupersedeTopologyBatch rs)
  then show ?thesis
    using run_batch_moves [where rel = "evolves loud" and f = supersede_topology] assms
    by (simp add: supersede_topology_batch_def still evolves_supersede_topology inv_supersede_topology)
      (metis evolves_loud_trans)
next
  case (PublishEvidenceBatch rs)
  then show ?thesis
    using run_batch_moves [where rel = "evolves loud" and f = publish_evidence and rs = rs] assms
    by (simp add: publish_evidence_batch_def still evolves_loud [OF evolves_publish_evidence] inv_publish_evidence
        list_all_iff) (metis evolves_loud_trans)
qed (use assms in \<open>simp_all add: evolves_loud [OF evolves_publish_evidence]
    evolves_bind_link evolves_supersede_topology evolves_retire_link
    evolves_loud [where Q = quiet] evolves_register_publisher evolves_invalidate_publisher
    evolves_advance_coordinator_epoch evolves_withdraw_evidence evolves_transition_state
    evolves_mark_revalidation_required evolves_take_snapshot evolves_reconcile\<close>)

definition verdicts_hold :: "Impl \<Rightarrow> bool" where
  "verdicts_hold impl \<longleftrightarrow> store_inv nobody impl \<and> (unsaturated impl \<longrightarrow> consistent impl)"

lemma perform_verdicts: "verdicts_hold impl \<Longrightarrow> honest op \<Longrightarrow> verdicts_hold (perform op impl)"
  unfolding verdicts_hold_def
  using perform_inv perform_evolves [THEN evolves_consistent] grows_unsaturated [OF perform_grows] by blast

lemma verdicts_initial: "verdicts_hold (new_impl config)"
  by (simp add: verdicts_hold_def inv_new_impl consistent_def)

interpretation verdicts: machine_invariant initial_engine honest perform verdicts_hold
  by unfold_locales (auto simp: initial_engine_def verdicts_initial perform_verdicts)

end
