(* ===== verification/Engine_Backing.thy ===== *)
theory Engine_Backing
  imports Engine_Runs
begin

text \<open>
  Evidence never rests on a stale backing link.  A logical link names backing links at a topology
  generation; when a backing link is rebound or retired, the evidence of its dependents is
  invalidated in the same operation.
\<close>

section \<open>Freshness of one link\<close>

definition link_fresh :: "Impl \<Rightarrow> LinkId \<Rightarrow> bool" where
  "link_fresh impl k \<longleftrightarrow>
     (\<forall>e. find_link k impl = Some e \<longrightarrow> le_current e \<noteq> [] \<longrightarrow> backing_stale impl (lr_binding (le_record e)) = None)"

text \<open>What a backing reference sees of a link.\<close>

definition bound_at :: "Impl \<Rightarrow> LinkId \<Rightarrow> TopologyGeneration option" where
  "bound_at impl l =
     (case find_link l impl of
        None \<Rightarrow> None
      | Some e \<Rightarrow> if lr_state (le_record e) = LinkOperationalState.Retired then None
                  else Some (tb_topology_generation (lr_binding (le_record e))))"

lemma backing_scan_fresh:
  "backing_scan impl bs = None \<longleftrightarrow> (\<forall>b\<in>set bs. bound_at impl (br_link b) = Some (br_generation b))"
  by (induction bs) (auto simp: bound_at_def Let_def split: option.splits)

lemma backing_fresh:
  "backing_stale impl binding = None \<longleftrightarrow>
     (\<forall>b\<in>set (tb_backing_links binding). bound_at impl (br_link b) = Some (br_generation b))"
  by (simp add: backing_stale_def backing_scan_fresh)

lemma backing_fresh_cong:
  assumes "\<And>l. l \<in> set (backing_ids binding) \<Longrightarrow> bound_at impl' l = bound_at impl l"
  shows "backing_stale impl' binding = None \<longleftrightarrow> backing_stale impl binding = None"
  using assms by (auto simp: backing_fresh backing_ids_def)

text \<open>A link keeps its freshness when its evidence does not grow, its binding stays, and its backing
  links stay bound where they are.\<close>

lemma link_fresh_kept:
  assumes "link_fresh a k" and "\<And>e'. find_link k b = Some e' \<Longrightarrow> le_current e' \<noteq> [] \<Longrightarrow>
      (\<exists>e. find_link k a = Some e \<and> le_current e \<noteq> [] \<and> lr_binding (le_record e') = lr_binding (le_record e) \<and>
        (\<forall>l\<in>set (backing_ids (lr_binding (le_record e))). bound_at a l \<noteq> None \<longrightarrow> bound_at b l = bound_at a l))"
  shows "link_fresh b k"
  unfolding link_fresh_def
proof (intro allI impI)
  fix e'
  assume "find_link k b = Some e'" "le_current e' \<noteq> []"
  then obtain e where e: "find_link k a = Some e" "le_current e \<noteq> []" "lr_binding (le_record e') = lr_binding (le_record e)"
    and same: "\<And>l. l \<in> set (backing_ids (lr_binding (le_record e))) \<Longrightarrow> bound_at a l \<noteq> None \<Longrightarrow> bound_at b l = bound_at a l"
    using assms(2) by blast
  have "backing_stale a (lr_binding (le_record e)) = None" using assms(1) e(1,2) by (simp add: link_fresh_def)
  then show "backing_stale b (lr_binding (le_record e')) = None"
    using same by (auto simp: e(3) backing_fresh backing_ids_def)
qed

lemma quiet_revises_bound:
  assumes "revises quiet l a b"
  shows "bound_at b k = bound_at a k"
  using assms by (cases rule: revises_cases) (simp add: bound_at_def quiet_def)

lemma quiet_revises_fresh:
  assumes "revises quiet l a b" and "link_fresh a k"
  shows "link_fresh b k"
  using assms(1)
proof (cases rule: revises_cases)
  case (1 e e' impl')
  show ?thesis
    by (rule link_fresh_kept [OF assms(2)])
      (use 1 quiet_revises_bound [OF assms(1)] in \<open>auto simp: quiet_def split: if_splits\<close>)
qed

lemma binds_fresh:
  assumes "binds l a b" and "link_fresh a k"
  shows "link_fresh b k"
proof -
  obtain e where new: "find_link l a = None" "le_current e = []"
    and find: "\<And>k. find_link k b = (if k = l then Some e else find_link k a)"
    using assms(1) unfolding binds_def by blast
  have "bound_at b m = bound_at a m" if "bound_at a m \<noteq> None" for m
    using that new(1) by (auto simp: bound_at_def find split: option.splits if_splits)
  then show ?thesis
    using new by (intro link_fresh_kept [OF assms(2)]) (auto simp: find split: if_splits)
qed

lemma untouched_fresh:
  assumes "untouched a b" and "link_fresh a k"
  shows "link_fresh b k"
proof -
  have find: "find_link k b = find_link k a" for k
    using assms(1) find_link_frame [of b a k] by (simp add: untouched_def)
  then have "bound_at b l = bound_at a l" for l by (simp add: bound_at_def)
  then show ?thesis by (intro link_fresh_kept [OF assms(2)]) (simp add: find)
qed

lemma quiet_evolves_fresh: "evolves quiet a b \<Longrightarrow> link_fresh a k \<Longrightarrow> link_fresh b k"
  by (induction rule: evolves.induct) (auto intro: untouched_fresh quiet_revises_fresh binds_fresh)

section \<open>Invalidation of dependents\<close>

lemma invalidate_dependent_fresh:
  assumes "store_inv X impl"
  shows "link_fresh (invalidate_dependent d impl) d"
proof (cases "find_link d impl")
  case None
  then show ?thesis by (simp add: invalidate_dependent_def link_fresh_def)
next
  case (Some e)
  define reason where "reason = backing_stale impl (lr_binding (le_record e))"
  show ?thesis
  proof (cases "lr_state (le_record e) = LinkOperationalState.Retired \<or> le_current e = [] \<or> reason = None")
    case True
    then show ?thesis
      using Some inv_retired_empty [OF assms Some]
      by (auto simp: invalidate_dependent_def link_fresh_def reason_def split: option.splits)
  next
    case False
    obtain impl1 e1 where clear: "clear_evidence EvidenceStatus.StaleTopology (the reason) impl e = (impl1, e1)"
      by fastforce
    obtain e2 where "find_link d (invalidate_entry ''backing'' TopologyInvalidation d impl1 e1) = Some e2" "kept e1 e2"
      by (rule invalidate_entry_frame [of "''backing''" TopologyInvalidation d impl1 e1]) auto
    moreover have "le_current e1 = []" using drop_evidence_sel(2) [OF clear [unfolded clear_evidence_def]] by simp
    moreover have "invalidate_dependent d impl = invalidate_entry ''backing'' TopologyInvalidation d impl1 e1"
      using Some False clear by (auto simp: invalidate_dependent_def reason_def)
    ultimately show ?thesis by (simp add: link_fresh_def kept_def)
  qed
qed

lemma invalidate_dependents_fresh:
  assumes "store_inv X impl" and "\<And>k. k \<notin> set ds \<Longrightarrow> link_fresh impl k"
  shows "link_fresh (fold invalidate_dependent ds impl) k"
  using assms
proof (induction ds arbitrary: impl)
  case (Cons d ds)
  have "link_fresh (invalidate_dependent d impl) m" if "m \<notin> set ds" for m
    using that Cons.prems invalidate_dependent_fresh [OF Cons.prems(1), of d]
      quiet_evolves_fresh [OF evolves_invalidate_dependent [OF Cons.prems(1), of d]]
    by (cases "m = d") auto
  then show ?case using Cons.IH [OF inv_invalidate_dependent [OF Cons.prems(1)]] by simp
qed simp

lemma dependents_listed:
  assumes "store_inv X impl" and "find_link k impl = Some e" and "l \<in> set (backing_ids (lr_binding (le_record e)))"
  shows "k \<in> set (std_sort (<) (bucket (st_dependents impl) l))"
proof -
  have "index_agrees bucket_mem (st_dependents impl)
      (\<lambda>l b. \<exists>e. find_link l impl = Some e \<and> b \<in> set (backing_ids (lr_binding (le_record e))))"
    using assms(1) by (simp add: store_inv_def indexes_ok_def)
  then have "bucket_mem (st_dependents impl) l k"
    using assms(2,3) by (auto simp: index_agrees_def)
  then show ?thesis by (simp add: bucket_mem_def)
qed

text \<open>The links that do not rest on the changed link keep their freshness; the sweep restores it for
  the others.\<close>

lemma stale_dependents_fresh:
  assumes moved: "revises Q l a b" and inv: "store_inv X b" and fresh: "\<And>k. link_fresh a k"
    and empty: "\<And>e. find_link l b = Some e \<Longrightarrow> le_current e = []"
  shows "link_fresh (invalidate_stale_dependents l b) k"
  unfolding invalidate_stale_dependents_def
proof (rule invalidate_dependents_fresh [OF inv])
  fix k
  assume unlisted: "k \<notin> set (std_sort (<) (bucket (st_dependents b) l))"
  show "link_fresh b k"
    using moved
  proof (cases rule: revises_cases)
    case (1 e e' impl')
    have "bound_at b m = bound_at a m" if "m \<noteq> l" for m using that by (simp add: bound_at_def 1(7))
    moreover have "l \<notin> set (backing_ids (lr_binding (le_record f)))" if "find_link k b = Some f" for f
      using unlisted dependents_listed [OF inv that] by blast
    ultimately show ?thesis
      by (intro link_fresh_kept [OF fresh]) (use 1(7) empty in \<open>fastforce split: if_splits\<close>)
  qed
qed

section \<open>Every operation\<close>

definition backing_sound :: "Impl \<Rightarrow> bool" where
  "backing_sound impl \<longleftrightarrow> (\<forall>k. link_fresh impl k)"

lemma quiet_sound: "evolves quiet a b \<Longrightarrow> backing_sound a \<Longrightarrow> backing_sound b"
  using quiet_evolves_fresh by (simp add: backing_sound_def)

lemma put_find [simp]: "find_link l (put_entry l e impl) = Some e"
  by simp

lemma rebinding_sound:
  assumes "store_inv X impl" and "find_link l impl = Some e" and "tb_link binding = l"
    and "tb_topology_generation (lr_binding (le_record e)) < tb_topology_generation binding"
    and "lr_state (le_record e) \<noteq> LinkOperationalState.Retired"
    and "backing_sound impl" and "unsaturated (fst (apply_rebinding l binding reason impl e))"
  shows "backing_sound (fst (apply_rebinding l binding reason impl e))"
proof (rule apply_rebinding_move [OF assms(1-5), of reason])
  fix e' impl'
  assume moved: "revises loud l impl (put_entry l e' impl')" and inv: "store_inv X (put_entry l e' impl')"
    and empty: "le_current e' = []"
    and result: "fst (apply_rebinding l binding reason impl e) = put_entry l e' impl' \<and> \<not> unsaturated impl' \<or>
     fst (apply_rebinding l binding reason impl e) = invalidate_stale_dependents l (put_entry l e' impl')"
  have "backing_sound (invalidate_stale_dependents l (put_entry l e' impl'))"
    using stale_dependents_fresh [OF moved inv] assms(6) empty by (simp add: backing_sound_def)
  then show ?thesis using result assms(7) by auto
qed

lemma retire_sound:
  assumes "store_inv X impl" and "find_link (rt_link request) impl = Some e"
    and "lr_state (le_record e) \<noteq> LinkOperationalState.Retired" and "backing_sound impl"
  shows "backing_sound (fst (retire_commit request impl e))"
  using assms(1-3)
proof (cases rule: retire_commit_move)
  case (stopped e' impl')
  then show ?thesis using quiet_sound [OF evolves_revise assms(4)] by simp
next
  case (retired e' impl')
  then show ?thesis
    using stale_dependents_fresh [OF retired(1,2)] assms(4) by (simp add: backing_sound_def)
qed

lemma commit_publication_sound:
  assumes "store_inv X impl" and "publish_verdict_for request impl = PublishAccepted entry prepared"
    and "backing_sound impl"
  shows "backing_sound (fst (commit_publication request impl entry prepared))"
proof (rule commit_publication_move [OF assms(1,2)])
  fix e' impl'
  define l where "l = ev_link (pe_observation request)"
  assume result: "fst (commit_publication request impl entry prepared) =
      put_entry (ev_link (pe_observation request)) e' impl'"
    and rev: "revision impl entry impl' e'" and steady: "steady entry e'"
  note accepted = publish_accepted [OF assms(2)]
  have live: "lr_state (le_record entry) \<noteq> LinkOperationalState.Retired"
    using prepare_commit_ok(1) [of _ entry] accepted(9,10) by simp
  let ?b = "put_entry l e' impl'"
  have find: "find_link k impl' = find_link k impl" for k
    using find_link_frame [of impl' impl k] rev by (simp add: revision_def)
  have bound: "bound_at ?b k = bound_at impl k" for k
    using accepted(1) steady live by (simp add: bound_at_def find l_def steady_def)
  have "link_fresh ?b k" for k
  proof (cases "k = l")
    case True
    then show ?thesis
      using accepted(3) backing_fresh_cong [of "lr_binding (le_record entry)" ?b impl] steady
      by (simp add: link_fresh_def bound steady_def)
  next
    case False
    then show ?thesis
      using assms(3) by (intro link_fresh_kept [of impl k ?b]) (auto simp: backing_sound_def find bound)
  qed
  then show ?thesis by (simp add: result l_def backing_sound_def)
qed

lemma publish_sound:
  assumes "store_inv X impl" and "backing_sound impl"
  shows "backing_sound (fst (publish_evidence request impl))"
proof -
  have "backing_sound (note_rejection p impl)" for p
    by (rule quiet_sound [OF evolves_around [OF untouched_note_rejection] assms(2)])
  then show ?thesis
    using assms commit_publication_sound [OF assms(1) _ assms(2)]
    by (auto simp: publish_evidence_def Let_def split: option.splits publish_verdict.splits)
qed

lemma bind_new_sound:
  assumes "find_link (tb_link binding) impl = None" and "backing_sound impl"
  shows "backing_sound (fst (bind_new_link binding impl))"
  by (rule quiet_sound [OF evolves_bind_new_link [OF assms(1)] assms(2)])

lemma bind_sound:
  assumes "store_inv X impl" and "backing_sound impl" and "unsaturated (fst (bind_link requested impl))"
  shows "backing_sound (fst (bind_link requested impl))"
  using assms bind_new_sound rebinding_sound [OF assms(1)]
  by (auto simp: bind_link_def Let_def split: option.splits if_splits)

lemma supersede_sound:
  assumes "store_inv X impl" and "backing_sound impl" and "unsaturated (fst (supersede_topology request impl))"
  shows "backing_sound (fst (supersede_topology request impl))"
proof -
  have link: "tb_link (lr_binding (le_record e)) = l" if "find_link l impl = Some e" for l e
    using that assms(1) by (simp add: store_inv_def entry_ok_def)
  show ?thesis
    using assms rebinding_sound [OF assms(1)] link
    by (auto simp: supersede_topology_def Let_def split: option.splits if_splits sum.splits)
qed

lemma retire_link_sound:
  assumes "store_inv X impl" and "backing_sound impl"
  shows "backing_sound (fst (retire_link request impl))"
  using assms retire_sound [OF assms(1) _ _ assms(2)]
  by (auto simp: retire_link_def split: option.splits prod.splits)

section \<open>Runs\<close>

definition keeps_backing :: "Impl \<Rightarrow> Impl \<Rightarrow> bool" where
  "keeps_backing a b \<longleftrightarrow> grows a b \<and> (backing_sound a \<longrightarrow> unsaturated b \<longrightarrow> backing_sound b)"

lemma keeps_backing_refl: "keeps_backing a a"
  by (simp add: keeps_backing_def)

lemma keeps_backing_trans: "keeps_backing a b \<Longrightarrow> keeps_backing b c \<Longrightarrow> keeps_backing a c"
  unfolding keeps_backing_def using grows_trans grows_unsaturated by blast

lemma quiet_keeps: "evolves quiet a b \<Longrightarrow> keeps_backing a b"
  by (simp add: keeps_backing_def quiet_grows quiet_sound)

lemma keeps_backing_bind: "store_inv X impl \<Longrightarrow> keeps_backing impl (fst (bind_link r impl))"
  by (simp add: keeps_backing_def loud_grows evolves_bind_link bind_sound)

lemma keeps_backing_supersede: "store_inv X impl \<Longrightarrow> keeps_backing impl (fst (supersede_topology r impl))"
  by (simp add: keeps_backing_def loud_grows evolves_supersede_topology supersede_sound)

lemma keeps_backing_publish: "store_inv X impl \<Longrightarrow> keeps_backing impl (fst (publish_evidence r impl))"
  by (simp add: keeps_backing_def grows_publish_evidence publish_sound)

lemma keeps_backing_retire: "store_inv X impl \<Longrightarrow> keeps_backing impl (fst (retire_link r impl))"
  by (simp add: keeps_backing_def loud_grows evolves_retire_link retire_link_sound)

lemma keeps_backing_batch:
  assumes "\<And>r impl. store_inv X impl \<Longrightarrow> keeps_backing impl (fst (f r impl))"
    and "\<And>r impl. store_inv X impl \<Longrightarrow> store_inv X (fst (f r impl))" and "store_inv X impl"
  shows "keeps_backing impl (fst (run_batch f rs impl))"
  by (rule run_batch_moves [where rel = keeps_backing and X = X])
    (use assms keeps_backing_refl keeps_backing_trans in blast)+

lemma perform_keeps_backing:
  assumes "store_inv nobody impl"
  shows "keeps_backing impl (perform op impl)"
  using assms
  by (cases op) (simp_all add: keeps_backing_bind keeps_backing_supersede keeps_backing_publish
      keeps_backing_retire bind_links_def supersede_topology_batch_def publish_evidence_batch_def
      keeps_backing_batch [where X = nobody] inv_bind_link inv_supersede_topology inv_publish_evidence
      quiet_keeps evolves_register_publisher evolves_invalidate_publisher evolves_advance_coordinator_epoch
      evolves_withdraw_evidence evolves_transition_state evolves_mark_revalidation_required
      evolves_take_snapshot evolves_reconcile)

definition backing_holds :: "Impl \<Rightarrow> bool" where
  "backing_holds impl \<longleftrightarrow> store_inv nobody impl \<and> (unsaturated impl \<longrightarrow> backing_sound impl)"

lemma perform_backing: "backing_holds impl \<Longrightarrow> backing_holds (perform op impl)"
  using perform_keeps_backing [of impl op] perform_inv [of impl op] grows_unsaturated [OF perform_grows, of impl op]
  by (auto simp: backing_holds_def keeps_backing_def)

lemma backing_initial: "backing_holds (new_impl config)"
  by (simp add: backing_holds_def inv_new_impl backing_sound_def link_fresh_def)

interpretation backing: machine_invariant initial_engine any_operation perform backing_holds
  by unfold_locales (auto simp: initial_engine_def backing_initial perform_backing)

end
