(* ===== verification/Engine_Scenario.thy ===== *)
theory Engine_Scenario
  imports Engine_Backing
begin

text \<open>
  A concrete run, used to instantiate the guarantees of the engine: a physical link and a logical link
  that rests on it are bound, a publisher registers for the logical link and observes it to be up;
  another continuation retires the logical link.
\<close>

definition demo_link :: LinkId where
  "demo_link = StrongId ''leaf1.spine1''"

definition demo_under :: LinkId where
  "demo_under = StrongId ''leaf1.port7''"

definition demo_endpoints :: EndpointBinding where
  "demo_endpoints = \<lparr>eb_local = StrongId ''leaf1'', eb_local_generation = Gen 1, eb_local_device = null_id,
     eb_local_port = null_id, eb_remote = null_id, eb_remote_generation = gen_zero,
     eb_remote_device = null_id, eb_remote_port = null_id\<rparr>"

definition demo_binding :: TopologyBinding where
  "demo_binding = \<lparr>tb_fabric = null_id, tb_site = null_id, tb_link = demo_link, tb_topology_generation = Gen 1,
     tb_endpoints = demo_endpoints, tb_link_class = LinkClass.EthernetLike,
     tb_symmetry = Directional, tb_member_links = [],
     tb_backing_links = [\<lparr>br_link = demo_under, br_generation = Gen 1\<rparr>]\<rparr>"

definition under_binding :: TopologyBinding where
  "under_binding = demo_binding\<lparr>tb_link := demo_under, tb_backing_links := []\<rparr>"

definition demo_registration :: PublisherRegistration where
  "demo_registration = \<lparr>rg_publisher = StrongId ''agent'', rg_worker_boot = StrongId ''boot1'',
     rg_source = StrongId ''probe'', rg_scope = \<lparr>sc_fabric = null_id, sc_links = [demo_link]\<rparr>, rg_epoch = gen_zero\<rparr>"

definition demo_retirement :: RetireLinkRequest where
  "demo_retirement = \<lparr>rt_link = demo_link, rt_topology_generation = Gen 1, rt_publication = StrongId ''p9'',
     rt_publisher = StrongId ''agent'', rt_worker_boot = StrongId ''boot1'', rt_epoch = gen_zero, rt_reason = []\<rparr>"

definition demo_bound :: Impl where
  "demo_bound = fold perform [BindLink under_binding, BindLink demo_binding] (new_impl default_config)"

definition demo_registered :: Impl where
  "demo_registered = perform (RegisterPublisher demo_registration) demo_bound"

definition demo_retired :: Impl where
  "demo_retired = perform (RetireLink demo_retirement) demo_registered"

lemmas demo_data = demo_binding_def demo_endpoints_def demo_link_def demo_under_def under_binding_def

lemma demo_valid:
  "normalize_binding demo_binding = demo_binding" "valid_binding demo_binding = None"
  "normalize_binding under_binding = under_binding" "valid_binding under_binding = None"
  by (simp_all add: demo_data normalize_binding_def sort_links_def sort_backing_def std_sort_def std_unique_def
      valid_binding_def valid_def is_zero_def)

lemma demo_link_value [simp]: "id_value demo_link = ''leaf1.spine1''"
  by (simp add: demo_link_def)

lemma demo_under_other [simp]: "demo_under \<noteq> demo_link" "demo_link \<noteq> demo_under"
  by (simp_all add: demo_data)

definition bound_entry :: "TopologyBinding \<Rightarrow> GlobalGeneration \<Rightarrow> LinkEntry" where
  "bound_entry binding generation = (fresh_entry binding)\<lparr>le_record := (le_record (fresh_entry binding))
     \<lparr>lr_global_generation := generation,
      lr_last_transition := from_validated (transition_id_for (tb_link binding) gen_zero)\<rparr>\<rparr>"

abbreviation demo_entry :: LinkEntry where
  "demo_entry \<equiv> bound_entry demo_binding (Gen 2)"

lemma bound_entry_sel [simp]:
  "lr_binding (le_record (bound_entry b g)) = b" "le_current (bound_entry b g) = []"
  "lr_state (le_record (bound_entry b g)) = LinkOperationalState.Unknown"
  "lr_state_generation (le_record (bound_entry b g)) = gen_zero"
  "lr_evidence_generation (le_record (bound_entry b g)) = gen_zero"
  "lr_admin_intent (le_record (bound_entry b g)) = None"
  by (simp_all add: bound_entry_def fresh_entry_def new_record_def)

lemma next_gen_small: "next_gen gen_zero = Some (Gen 1)" "next_gen (Gen 1) = Some (Gen 2)" "next_gen (Gen 2) = Some (Gen 3)"
  by (simp_all add: next_gen_def)

lemma demo_binding_sel [simp]:
  "tb_link demo_binding = demo_link" "tb_topology_generation demo_binding = Gen 1"
  "tb_backing_links demo_binding = [\<lparr>br_link = demo_under, br_generation = Gen 1\<rparr>]" "tb_fabric demo_binding = null_id"
  "bound_endpoints demo_binding = [StrongId ''leaf1'']"
  "tb_link under_binding = demo_under" "tb_topology_generation under_binding = Gen 1"
  "tb_backing_links under_binding = []" "bound_endpoints under_binding = [StrongId ''leaf1'']"
  by (simp_all add: demo_data bound_endpoints_def valid_def)

text \<open>The engine after the links were bound, and after the publisher registered.\<close>

definition demo_authority :: PublisherAuthority where
  "demo_authority = fresh_authority demo_registration \<lparr>sc_fabric = null_id, sc_links = [demo_link]\<rparr> gen_zero (Gen 1)"

definition demo_state :: "(PublisherId, PublisherAuthority) umap \<Rightarrow> Impl" where
  "demo_state authorities = (new_impl default_config)\<lparr>st_links := [(demo_under, bound_entry under_binding (Gen 1)), (demo_link, demo_entry)],
     st_by_state := [(LinkOperationalState.Unknown, [demo_link, demo_under])],
     st_by_endpoint := [(StrongId ''leaf1'', [demo_link, demo_under])], st_dependents := [(demo_under, [demo_link])],
     st_publishers := authorities, im_global_generation := Gen 2, im_topology_generation := Gen 1\<rparr>"

lemma demo_bound_eq: "demo_bound = demo_state []"
proof -
  have room: "Suc 0 < cf_max_links default_config" "cf_initial_topology_generation default_config < Gen 1"
    by (simp_all add: default_config_def max_links_def less_StrongGeneration_def)
  have fresh: "lr_state_generation (le_record (fresh_entry b)) = gen_zero" for b
    by (simp add: fresh_entry_def new_record_def)
  show ?thesis
    using room
    by (simp add: demo_bound_def bind_link_def Let_def demo_valid bind_new_link_def advance_def next_gen_small
        raise_topology_def index_endpoints_def index_dependents_def index_link_def put_entry_def stamp_global_def
        bound_entry_def bucket_insert_def bucket_def new_impl_def demo_state_def fresh find_link_def)
qed

lemma demo_state_sel [simp]:
  "find_link demo_link (demo_state as) = Some demo_entry"
  "find_link demo_under (demo_state as) = Some (bound_entry under_binding (Gen 1))" "st_publishers (demo_state as) = as"
  "im_epoch (demo_state as) = gen_zero" "im_config (demo_state as) = default_config"
  "im_global_generation (demo_state as) = Gen 2" "im_global_state_generation (demo_state as) = gen_zero"
  "st_dependents (demo_state as) = [(demo_under, [demo_link])]" "st_fenced_boots (demo_state as) = []" "st_observations (demo_state as) = []"
  "find_publisher p (demo_state as) = map_of as p"
  by (simp_all add: demo_state_def new_impl_def find_link_def find_publisher_def default_config_def)

lemma demo_registered_eq: "demo_registered = demo_state [(StrongId ''agent'', demo_authority)]"
proof -
  have "normalize \<lparr>sc_fabric = null_id, sc_links = [demo_link]\<rparr> = (\<lparr>sc_fabric = null_id, sc_links = [demo_link]\<rparr>, True)"
    by (simp add: normalize_def std_sort_def std_unique_def max_authority_scope_links_def)
  moreover have "put_authority p a (demo_state []) = demo_state [(p, a)]" for p a
    by (simp add: put_authority_def demo_state_def new_impl_def)
  ultimately show ?thesis
    by (simp add: demo_registered_def demo_bound_eq register_publisher_def Let_def demo_registration_def valid_def
        boot_is_fenced_def bucket_mem_def bucket_def default_config_def max_publishers_def demo_authority_def)
qed

section \<open>Publication\<close>

definition demo_observation :: EvidenceRecord where
  "demo_observation =
     \<lparr>ev_key = EvidenceKey demo_link (StrongId ''probe'') (StrongId ''leaf1'') Bidirectional CarrierState,
      ev_observation = StrongId ''o1'', ev_publisher = StrongId ''agent'', ev_worker_boot = StrongId ''boot1'',
      ev_epoch = gen_zero, ev_source_generation = Gen 1, ev_sequence = 1, ev_topology_generation = Gen 1,
      ev_endpoint_generation = Gen 1, ev_class = Real, ev_claim = EvidenceClaim.Up, ev_degradation_cause = NoCause,
      ev_observed_at_unix_nanos = 0, ev_detail = [], ev_metadata = [], ev_status = Current,
      ev_evidence_generation = gen_zero, ev_commit_sequence = gen_zero, ev_record_digest = zero_digest\<rparr>"

definition demo_publication :: PublishEvidenceRequest where
  "demo_publication = \<lparr>pe_observation = demo_observation, pe_expected_evidence_generation = None,
     pe_expected_state_generation = None, pe_publication = StrongId ''p1''\<rparr>"

definition demo_prepared :: PreparedCommit where
  "demo_prepared = prepare_commit gen_zero demo_entry [demo_observation] EvidenceResolution"

definition demo_published :: Impl where
  "demo_published = perform (PublishEvidence demo_publication) demo_registered"

lemma demo_policy: "policy_class (le_record demo_entry) {demo_observation} = AuthoritativeUp"
proof -
  have [simp]: "decisive_set {demo_observation} = {demo_observation}"
    by (auto simp: decisive_set_def counts_def demo_observation_def)
  moreover have [simp]: "strongest_set {demo_observation} = {demo_observation}"
    by (auto simp: strongest_set_def)
  ultimately show ?thesis
    by (simp add: policy_class_def Let_def admin_claimed_def demo_observation_def tier_class_def contradicts_def
       remote_disagrees_def)
qed

lemma demo_observation_sel [simp]:
  "ev_link demo_observation = demo_link" "ev_publisher demo_observation = StrongId ''agent''"
  "ev_observation demo_observation = StrongId ''o1''" "ev_topology_generation demo_observation = Gen 1"
  "ev_status demo_observation = Current"
  by (simp_all add: demo_observation_def)

lemma demo_publication_sel [simp]:
  "pe_observation demo_publication = demo_observation" "pe_expected_evidence_generation demo_publication = None"
  "pe_expected_state_generation demo_publication = None" "pe_publication demo_publication = StrongId ''p1''"
  by (simp_all add: demo_publication_def)

lemma demo_authorized:
  "authorize (demo_state [(StrongId ''agent'', demo_authority)]) (StrongId ''agent'')
     (ev_worker_boot demo_observation) (ev_source demo_observation) (ev_epoch demo_observation) gen_zero
     demo_link demo_binding = (Committed, [])"
  by (simp add: authorize_def demo_authority_def fresh_authority_def demo_registration_def demo_observation_def
      valid_def covers_sorted)

lemma demo_checks:
  "validate_observation demo_observation (StrongId ''p1'') = None"
  "endpoint_refusal demo_observation demo_binding = None"
  by (simp_all add: validate_observation_def demo_observation_def demo_link_def valid_def validate_text_def max_detail_length_def
      max_evidence_metadata_bytes_def endpoint_refusal_def demo_binding_def demo_endpoints_def)

lemma demo_prepared_ok:
  "pc_ok demo_prepared" "pc_state_changed demo_prepared" "pc_target_state demo_prepared = LinkOperationalState.Up"
proof -
  have policy: "policy_class (le_record demo_entry) (set [demo_observation]) = AuthoritativeUp"
    by (simp add: demo_policy)
  show ok: "pc_ok demo_prepared"
    using prepare_commit_refused(2) [of gen_zero demo_entry "[demo_observation]" EvidenceResolution]
    by (auto simp: demo_prepared_def next_gen_small)
  show "pc_state_changed demo_prepared"
    using prepare_commit_ok(3) [OF ok [unfolded demo_prepared_def]] policy by (simp add: demo_prepared_def)
  show "pc_target_state demo_prepared = LinkOperationalState.Up"
    using policy by (simp add: demo_prepared_def)
qed

lemma demo_accepted:
  "publish_verdict_for demo_publication demo_registered = PublishAccepted demo_entry demo_prepared"
  unfolding demo_registered_eq
  by (simp add: publish_verdict_for_def Let_def demo_authorized demo_checks backing_stale_def find_slot_def slot_check_def
      default_config_def max_evidence_per_link_def prospective_evidence_def demo_prepared_ok demo_prepared_def [symmetric])

lemma demo_published_commit:
  "publish_evidence demo_publication demo_registered =
     commit_publication demo_publication demo_registered demo_entry demo_prepared"
  by (simp add: publish_evidence_def demo_accepted demo_checks)

lemma demo_agreed: "\<not> rs_conflicted (pc_resolution demo_prepared)"
  using resolve_verdict [of "[demo_observation]" "le_record demo_entry"] demo_policy
  by (simp add: demo_prepared_def verdict_def verdict_of_def)

lemma demo_published_code:
  "oc_code (mr_outcome (snd (publish_evidence demo_publication demo_registered))) = Committed"
  unfolding demo_published_commit unfolding demo_registered_eq
  by (simp add: demo_agreed commit_publication_def Let_def drop_evidence_def
        advance_global_evidence_def advance_def next_gen_small split: prod.split)

lemma demo_reachable:
  "reachable initial_engine honest perform demo_registered" "reachable initial_engine honest perform demo_published"
  "reachable initial_engine honest perform demo_retired"
proof -
  have start: "reachable initial_engine honest perform (new_impl default_config)"
    by (rule initially) (auto simp: initial_engine_def)
  show registered: "reachable initial_engine honest perform demo_registered"
    unfolding demo_registered_def demo_bound_def by (intro stepping reachable_run start) simp_all
  show "reachable initial_engine honest perform demo_published"
    unfolding demo_published_def by (rule stepping [OF registered]) simp
  show "reachable initial_engine honest perform demo_retired"
    unfolding demo_retired_def by (rule stepping [OF registered]) simp
qed

lemmas demo_engines = reachable_mono [OF demo_reachable(1)] reachable_mono [OF demo_reachable(2)]
  reachable_mono [OF demo_reachable(3)]

lemma demo_published_link:
  obtains e w where "find_link demo_link demo_published = Some e" "set (le_current e) = {w}"
    "evidence_eq demo_observation w" "lr_binding (le_record e) = demo_binding"
    "lr_state (le_record e) \<noteq> LinkOperationalState.Retired"
proof (rule commit_publication_move [OF engine.reachable_invariant demo_accepted])
  show "engine_reachable demo_registered" by (rule demo_engines(1)) simp
  fix e' impl'
  assume "fst (commit_publication demo_publication demo_registered demo_entry demo_prepared) =
      put_entry (ev_link (pe_observation demo_publication)) e' impl'" "steady demo_entry e'"
    and outcome: "publication_outcome (pe_observation demo_publication) demo_entry demo_prepared impl' e'
      (snd (commit_publication demo_publication demo_registered demo_entry demo_prepared))"
  then have "find_link demo_link demo_published = Some e'" "lr_binding (le_record e') = demo_binding"
    "lr_state (le_record e') \<noteq> LinkOperationalState.Retired"
    by (simp_all add: demo_published_def demo_published_commit steady_def)
  then show thesis
    using outcome demo_published_code that by (auto simp: publication_outcome_def demo_published_commit)
qed

lemma demo_retired_link:
  obtains e where "find_link demo_link demo_retired = Some e" "lr_state (le_record e) = LinkOperationalState.Retired"
proof -
  have "authorize (demo_state [(StrongId ''agent'', demo_authority)]) (StrongId ''agent'')
     (StrongId ''boot1'') null_id gen_zero gen_zero demo_link demo_binding = (Committed, [])"
    by (simp add: authorize_def demo_authority_def fresh_authority_def demo_registration_def valid_def covers_sorted)
  then have "\<exists>e. find_link demo_link demo_retired = Some e \<and> lr_state (le_record e) = LinkOperationalState.Retired"
    by (simp add: demo_retired_def demo_registered_eq retire_link_def demo_retirement_def valid_def
        evaluate_transition_cases retire_commit_def Let_def clear_evidence_def drop_evidence_def advance_all_def
        advance_evidence_global_def advance_def next_gen_small invalidate_stale_dependents_def bucket_def
        retired_record_sel count_transition_def reindex_state_def std_sort_def)
  then show thesis using that by blast
qed

lemma demo_unsaturated: "unsaturated demo_published"
proof -
  have below: "(1 :: 64 word) < - 1" by code_simp
  have "unsaturated (fst (commit_publication demo_publication demo_registered demo_entry demo_prepared))"
    unfolding demo_registered_eq using below
    by (simp add: demo_agreed commit_publication_def Let_def drop_evidence_def advance_global_evidence_def advance_def
        next_gen_small commit_prepared_def demo_prepared_ok insert_evidence_def apply_resolution_def
        note_acceptance_def put_authority_def register_observation_def count_publication_def count_transition_def
        reindex_state_def unsaturated_def less_StrongGeneration_def find_publisher_def)
  then show ?thesis by (simp add: demo_published_def demo_published_commit)
qed

end
