(* ===== verification/Engine_Guarantees.thy ===== *)
theory Engine_Guarantees
  imports Engine_Scenario
begin

text \<open>
  What the engine guarantees its users, whatever sequence of operations was performed on it: the
  structural invariant, settled verdicts, sound backing references, monotone generations, terminal
  retirement, exact queries, and the effect and the refusals of the individual operations.
\<close>

section \<open>Invariants of every reachable engine\<close>





text \<open>
  C3: evidence never outlives the topology it rests on.  As long as no counter is exhausted, a link
  that holds current evidence has every backing link bound, live, and at exactly the topology
  generation the link refers to.
\<close>

theorem reachable_backing:
  assumes "engine_reachable impl" and "unsaturated impl" and "find_link l impl = Some e"
    and "le_current e \<noteq> []" and "b \<in> set (tb_backing_links (lr_binding (le_record e)))"
  shows "\<exists>f. find_link (br_link b) impl = Some f \<and> lr_state (le_record f) \<noteq> LinkOperationalState.Retired \<and>
    tb_topology_generation (lr_binding (le_record f)) = br_generation b"
proof -
  have "backing_holds impl" using assms(1) by (rule backing.reachable_invariant)
  then have "backing_stale impl (lr_binding (le_record e)) = None"
    using assms(2-4) by (simp add: backing_holds_def backing_sound_def link_fresh_def)
  then have "bound_at impl (br_link b) = Some (br_generation b)"
    using assms(5) by (simp add: backing_fresh)
  then show ?thesis by (auto simp: bound_at_def split: option.splits if_splits)
qed

theorem reachable_backing_witness:
  "\<exists>f. find_link demo_under demo_published = Some f \<and> tb_topology_generation (lr_binding (le_record f)) = Gen 1"
proof (rule demo_published_link)
  fix e w
  assume "find_link demo_link demo_published = Some e" "set (le_current e) = {w}"
    "lr_binding (le_record e) = demo_binding"
  moreover have "engine_reachable demo_published" by (rule demo_engines(2)) simp
  ultimately show ?thesis
    using reachable_backing [OF _ demo_unsaturated, of demo_link e "\<lparr>br_link = demo_under, br_generation = Gen 1\<rparr>"]
    by fastforce
qed

text \<open>
  C8: every current record belongs to the incarnation that is in charge.  Its publisher is registered,
  active, and runs with the worker boot that published the record; the record belongs to the current
  coordinator epoch, is filed under its own link, has status CURRENT, names a degradation cause exactly
  when it claims DEGRADED, and describes the endpoints and the topology generation the link has now.
\<close>

theorem current_evidence_authorised:
  assumes "engine_reachable impl" and "find_link l impl = Some e" and "v \<in> set (le_current e)"
  shows "(\<exists>a. find_publisher (ev_publisher v) impl = Some a \<and> pa_status a = Active \<and>
      pa_worker_boot a = ev_worker_boot v \<and> pa_epoch a = im_epoch impl) \<and>
    ev_epoch v = im_epoch impl \<and> ev_link v = l \<and> ev_status v = Current \<and> cause_named v \<and>
    describes_binding (lr_binding (le_record e)) v"
proof -
  have inv: "store_inv nobody impl" by (rule engine.reachable_invariant [OF assms(1)])
  have slot: "slot_ok nobody impl l (lr_binding (le_record e)) v" by (rule inv_slot [OF inv assms(2,3)])
  then obtain a where a: "find_publisher (ev_publisher v) impl = Some a" "pa_status a = Active"
    "pa_worker_boot a = ev_worker_boot v"
    by (auto simp: slot_ok_def owned_ok_def)
  then have "pa_epoch a = im_epoch impl"
    using inv by (auto simp: store_inv_def publishers_ok_def authority_ok_def)
  with a slot show ?thesis by (auto simp: slot_ok_def owned_ok_def)
qed

theorem current_evidence_authorised_witness:
  "\<exists>e v a. find_link demo_link demo_published = Some e \<and> v \<in> set (le_current e) \<and>
     find_publisher (ev_publisher v) demo_published = Some a \<and> pa_status a = Active"
proof (rule demo_published_link)
  fix e w
  assume "find_link demo_link demo_published = Some e" "set (le_current e) = {w}"
  moreover have "engine_reachable demo_published" by (rule demo_engines(2)) simp
  ultimately show ?thesis using current_evidence_authorised [of demo_published demo_link e w] by blast
qed

section \<open>Runs\<close>

text \<open>
  C7: no operation loses a link or moves a generation backwards.  Along every run a link keeps its
  record identity, its topology, evidence and state generations never decrease, and when its state
  differs from before, its state generation and the global state generation have both increased.
\<close>

theorem run_generations_monotone:
  assumes "engine_reachable impl" and "find_link l impl = Some e"
  shows "\<exists>e'. find_link l (fold perform ops impl) = Some e' \<and>
    lr_record (le_record e') = lr_record (le_record e) \<and>
    tb_topology_generation (lr_binding (le_record e)) \<le> tb_topology_generation (lr_binding (le_record e')) \<and>
    lr_evidence_generation (le_record e) \<le> lr_evidence_generation (le_record e') \<and>
    lr_state_generation (le_record e) \<le> lr_state_generation (le_record e') \<and>
    (lr_state (le_record e') \<noteq> lr_state (le_record e) \<longrightarrow>
       lr_state_generation (le_record e) < lr_state_generation (le_record e') \<and>
       im_global_state_generation impl < im_global_state_generation (fold perform ops impl))"
proof -
  have "grows impl (fold perform ops impl)"
    by (rule engine.reachable_run_below [OF assms(1)]) (simp add: list_all_iff)
  then show ?thesis using assms(2) unfolding grows_def successor_def by blast
qed

theorem run_generations_monotone_witness:
  "\<exists>e'. find_link demo_link (fold perform [PublishEvidence demo_publication, Reconcile] demo_registered) = Some e' \<and>
    gen_zero \<le> lr_state_generation (le_record e')"
proof -
  have "engine_reachable demo_registered" by (rule demo_engines(1)) simp
  from run_generations_monotone [OF this, of demo_link demo_entry "[PublishEvidence demo_publication, Reconcile]"]
  show ?thesis by (auto simp: demo_registered_eq)
qed

text \<open>
  C6: retirement is terminal.  Once a link state record is retired, no sequence of operations changes
  the link's entry in any way.
\<close>

theorem retired_is_terminal:
  assumes "engine_reachable impl" and "find_link l impl = Some e"
    and "lr_state (le_record e) = LinkOperationalState.Retired"
  shows "find_link l (fold perform ops impl) = Some e"
proof -
  have "grows impl (fold perform ops impl)"
    by (rule engine.reachable_run_below [OF assms(1)]) (simp add: list_all_iff)
  then show ?thesis using assms(2,3) unfolding grows_def successor_def by metis
qed

theorem retired_is_terminal_witness:
  "\<exists>e. find_link demo_link (fold perform [PublishEvidence demo_publication, BindLink demo_binding] demo_retired) = Some e \<and>
     lr_state (le_record e) = LinkOperationalState.Retired"
proof (rule demo_retired_link)
  fix e
  assume "find_link demo_link demo_retired = Some e" "lr_state (le_record e) = LinkOperationalState.Retired"
  moreover have "engine_reachable demo_retired" by (rule demo_engines(3)) simp
  ultimately show ?thesis using retired_is_terminal [of demo_retired demo_link e] by blast
qed

end
