(* ===== verification/Engine_Contracts.thy ===== *)
theory Engine_Contracts
  imports Engine_Guarantees
begin

text \<open>
  Contracts of single operations and queries: exact query results, the effect of an accepted
  publication, refusals that leave the engine alone, idempotent replay, fencing, epochs,
  reconciliation and snapshots.
\<close>

section \<open>Queries\<close>

lemma find_link_keys: "find_link l impl \<noteq> None \<longleftrightarrow> l \<in> fst ` set (st_links impl)"
  by (simp add: find_link_def map_of_eq_None_iff)

lemma finite_links: "finite {l. \<exists>e. find_link l impl = Some e \<and> P e}"
proof (rule finite_subset)
  show "{l. \<exists>e. find_link l impl = Some e \<and> P e} \<subseteq> fst ` set (st_links impl)"
    using find_link_keys by fastforce
qed simp

lemma sorted_bucket:
  assumes "buckets_ok m" and "\<And>x. bucket_mem m k x \<longleftrightarrow> x \<in> S"
  shows "std_sort (<) (bucket m k) = sorted_list_of_set S"
proof -
  have "set (bucket m k) = S" using assms(2) by (auto simp: bucket_mem_def)
  moreover have "distinct (bucket m k)" using assms(1) by (rule buckets_ok_bucket)
  ultimately show ?thesis by (metis std_sort_less sorted_list_of_set_sort_remdups distinct_remdups_id)
qed

text \<open>
  The state and endpoint queries are exact.  The views of a state, in the order they are
  returned, are those of all links in that state and no others, sorted by link identity and without
  repetition; the links of an endpoint are exactly those whose current binding names it.
\<close>

theorem state_queries_exact:
  assumes "engine_reachable impl"
  shows "map (\<lambda>v. tb_link (lr_binding (vw_record v))) (links_in_state s impl) =
      sorted_list_of_set {l. \<exists>e. find_link l impl = Some e \<and> lr_state (le_record e) = s} \<and>
    links_for_endpoint p impl =
      sorted_list_of_set {l. \<exists>e. find_link l impl = Some e \<and> p \<in> set (bound_endpoints (lr_binding (le_record e)))}"
proof -
  let ?S = "{l. \<exists>e. find_link l impl = Some e \<and> lr_state (le_record e) = s}"
  have inv: "store_inv nobody impl" by (rule engine.reachable_invariant [OF assms])
  then have indexes: "indexes_ok impl" by (simp add: store_inv_def)
  have listed: "sorted_links (bucket (st_by_state impl) s) = sorted_list_of_set ?S"
    unfolding sorted_links_def by (rule sorted_bucket) (use indexes in \<open>simp_all add: indexes_ok_def index_agrees_def\<close>)
  have "map (\<lambda>e. tb_link (lr_binding (le_record e))) (entries_in_state s ls impl) = ls"
    if "set ls \<subseteq> ?S" for ls
    using that
  proof (induction ls)
    case (Cons l ls)
    then obtain e where "find_link l impl = Some e" "lr_state (le_record e) = s" by auto
    moreover from this have "tb_link (lr_binding (le_record e)) = l"
      using inv by (simp add: store_inv_def entry_ok_def)
    ultimately show ?case using Cons by (simp add: entries_in_state_def)
  qed (simp add: entries_in_state_def)
  then have "map (\<lambda>v. tb_link (lr_binding (vw_record v))) (links_in_state s impl) = sorted_list_of_set ?S"
    using finite_links [of impl "\<lambda>e. lr_state (le_record e) = s"]
    by (simp add: links_in_state_def listed make_view_def comp_def)
  moreover have "links_for_endpoint p impl =
      sorted_list_of_set {l. \<exists>e. find_link l impl = Some e \<and> p \<in> set (bound_endpoints (lr_binding (le_record e)))}"
    unfolding links_for_endpoint_def
    by (rule sorted_bucket) (use indexes in \<open>simp_all add: indexes_ok_def index_agrees_def\<close>)
  ultimately show ?thesis ..
qed

theorem state_queries_exact_witness:
  "links_for_endpoint (StrongId ''leaf1'') demo_registered = sorted_list_of_set {demo_link, demo_under}"
proof -
  have "engine_reachable demo_registered" by (rule demo_engines(1)) simp
  note state_queries_exact [OF this, of LinkOperationalState.Unknown "StrongId ''leaf1''"]
  moreover have "{l. \<exists>e. find_link l demo_registered = Some e \<and>
      StrongId ''leaf1'' \<in> set (bound_endpoints (lr_binding (le_record e)))} = {demo_link, demo_under}"
    by (auto simp: demo_registered_eq find_link_def demo_state_def split: if_splits)
  ultimately show ?thesis by simp
qed

lemma distinct_concat_parts:
  assumes "distinct ls" and "\<And>l. distinct (map f (part l))" and "\<And>l v. v \<in> set (part l) \<Longrightarrow> g (f v) = l"
  shows "distinct (map f (concat (map part ls)))"
  using assms(1)
proof (induction ls)
  case (Cons l ls)
  have "f ` set (part l) \<inter> f ` (\<Union>m\<in>set ls. set (part m)) = {}"
  proof (rule ccontr)
    assume "f ` set (part l) \<inter> f ` (\<Union>m\<in>set ls. set (part m)) \<noteq> {}"
    then obtain v w m where "v \<in> set (part l)" "m \<in> set ls" "w \<in> set (part m)" "f v = f w" by auto
    then have "l = m" using assms(3) by metis
    then show False using Cons.prems \<open>m \<in> set ls\<close> by simp
  qed
  then show ?case using Cons assms(2) by simp
qed simp

text \<open>
  The evidence of a publisher is found exactly, although the query walks only the links filed under
  the publisher: it returns each of its current records on any link, each once, and nothing else.
\<close>

theorem evidence_for_publisher_exact:
  assumes "engine_reachable impl"
  shows "set (evidence_for_publisher p impl) =
      {v. \<exists>l e. find_link l impl = Some e \<and> v \<in> set (le_current e) \<and> ev_publisher v = p} \<and>
    distinct (map ev_key (evidence_for_publisher p impl))"
proof -
  have inv: "store_inv nobody impl" by (rule engine.reachable_invariant [OF assms])
  have entry: "entry_ok nobody impl l e" if "find_link l impl = Some e" for l e
    using that inv by (simp add: store_inv_def)
  have filed: "l \<in> set (bucket (st_publisher_links impl) (ev_publisher v))"
    if "find_link l impl = Some e" "v \<in> set (le_current e)" for l e v
    using inv_slot [OF inv that] by (simp add: slot_ok_def bucket_mem_def)
  have "set (evidence_for_publisher p impl) =
      {v. \<exists>l e. find_link l impl = Some e \<and> v \<in> set (le_current e) \<and> ev_publisher v = p}"
  proof -
    have "set (evidence_for_publisher p impl) = {v. \<exists>l\<in>set (bucket (st_publisher_links impl) p).
        \<exists>e. find_link l impl = Some e \<and> v \<in> set (le_current e) \<and> ev_publisher v = p}"
      by (simp add: evidence_for_publisher_def owned_evidence_def split: option.splits) (force split: option.splits)
    then show ?thesis using filed by blast
  qed
  moreover have "distinct (map ev_key (evidence_for_publisher p impl))"
  proof -
    let ?part = "\<lambda>l. case find_link l impl of None \<Rightarrow> [] | Some e \<Rightarrow> filter (\<lambda>v. ev_publisher v = p) (le_current e)"
    have link: "key_link (ev_key v) = l" if "v \<in> set (?part l)" for v l
      using that entry [of l] by (cases "find_link l impl") (auto simp: entry_ok_def slot_ok_def)
    have "distinct (map ev_key (?part l))" for l
      using entry [of l] by (cases "find_link l impl") (auto simp: entry_ok_def distinct_map_filter)
    then have "distinct (map ev_key (concat (map ?part ls)))" if "distinct ls" for ls
      using distinct_concat_parts [where g = key_link, OF that, of ev_key ?part] link by blast
    moreover have "distinct (bucket (st_publisher_links impl) p)"
      by (rule buckets_ok_bucket) (use inv in \<open>simp add: store_inv_def indexes_ok_def\<close>)
    ultimately have "distinct (map ev_key (owned_evidence p impl))" by (simp add: owned_evidence_def)
    then show ?thesis
      unfolding evidence_for_publisher_def by (metis distinct_map mset_std_sort mset_map mset_eq_imp_distinct_iff)
  qed
  ultimately show ?thesis ..
qed

theorem evidence_for_publisher_exact_witness:
  "\<exists>w. w \<in> set (evidence_for_publisher (StrongId ''agent'') demo_published) \<and> ev_observation w = StrongId ''o1''"
proof (rule demo_published_link)
  fix e w
  assume "find_link demo_link demo_published = Some e" "set (le_current e) = {w}" "evidence_eq demo_observation w"
  moreover have "engine_reachable demo_published" by (rule demo_engines(2)) simp
  ultimately show ?thesis
    using evidence_for_publisher_exact [of demo_published "StrongId ''agent''"] by (force simp: evidence_eq_def)
qed

section \<open>Publication\<close>

definition accepting :: "OutcomeCode set" where
  "accepting = {Committed, EvidenceConflict}"

lemma authorize_code: "authorize impl p boot s re ee l b = (c, d) \<Longrightarrow> c = Committed \<or> c \<notin> accepting \<union> {Idempotent}"
  by (auto simp: authorize_def accepting_def split: option.splits if_splits)

lemma refused_code: "\<not> pc_ok (prepare_commit g e es t) \<Longrightarrow> pc_code (prepare_commit g e es t) \<notin> accepting \<union> {Idempotent}"
  by (auto simp: prepare_commit_def Let_def accepting_def split: if_splits TransitionLegality.splits)

lemma publish_refused_code:
  assumes "publish_verdict_for request impl = PublishRefused code text"
  shows "code \<notin> accepting \<union> {Idempotent}"
proof -
  have slot: "c \<notin> accepting \<union> {Idempotent}" if "slot_check v s = SlotRefused c t" for v s c t
    using that by (auto simp: slot_check_def accepting_def split: option.splits if_splits)
  have endpoint: "c \<notin> accepting \<union> {Idempotent}" if "endpoint_refusal v b = Some (c, t)" for v b c t
    using that by (auto simp: endpoint_refusal_def accepting_def Let_def split: option.splits if_splits)
  have early: "UnknownLink \<notin> accepting" "RetiredLink \<notin> accepting" "OutcomeCode.StaleTopology \<notin> accepting"
    "StaleGeneration \<notin> accepting" "MalformedRequest \<notin> accepting" "ResourceLimit \<notin> accepting"
    by (simp_all add: accepting_def)
  show ?thesis
    using assms unfolding publish_verdict_for_def Let_def
    by (auto simp: early dest: slot endpoint refused_code authorize_code
        split: option.splits if_splits prod.splits slot_verdict.splits)
qed

lemma publish_cases:
  assumes "publish_evidence request impl = (impl', result)"
  obtains (refused) "impl' \<in> {impl, note_rejection (ev_publisher (pe_observation request)) impl}"
      "oc_code (mr_outcome result) \<notin> accepting \<union> {Idempotent}"
  | (replay) e where "publish_verdict_for request impl = PublishReplay e" "impl' = impl"
      "oc_code (mr_outcome result) = Idempotent"
  | (accepted) e prepared where "publish_verdict_for request impl = PublishAccepted e prepared"
      "commit_publication request impl e prepared = (impl', result)"
proof -
  show thesis
  proof (cases "validate_observation (pe_observation request) (pe_publication request)")
    case (Some error)
    then show thesis using assms by (intro refused) (auto simp: publish_evidence_def accepting_def)
  next
    case None
    show thesis
    proof (cases "publish_verdict_for request impl")
      case (PublishRefused code why)
      then show thesis
        using assms None publish_refused_code [OF PublishRefused] by (intro refused) (auto simp: publish_evidence_def)
    next
      case (PublishReplay e)
      then show thesis using assms None by (intro replay) (auto simp: publish_evidence_def)
    next
      case (PublishAccepted e prepared)
      then show thesis using assms None by (intro accepted) (auto simp: publish_evidence_def)
    qed
  qed
qed

text \<open>
  C19: a refused publication changes nothing but the rejection counters.  Unless a counter is exhausted,
  a publication that is not accepted leaves the engine as it was, except that the rejection may be
  counted for the publisher and in the statistics.
\<close>

theorem publish_refusal_harmless:
  assumes "engine_reachable impl" and "publish_evidence request impl = (impl', result)"
    and "oc_code (mr_outcome result) \<notin> {Committed, EvidenceConflict}" and "unsaturated impl'"
  shows "impl' = impl \<or> impl' = note_rejection (ev_publisher (pe_observation request)) impl"
  using assms(2)
proof (cases rule: publish_cases)
  case (accepted e prepared)
  have inv: "store_inv nobody impl" by (rule engine.reachable_invariant [OF assms(1)])
  show ?thesis
  proof (rule commit_publication_move [OF inv accepted(1)])
    fix e' impl''
    assume "fst (commit_publication request impl e prepared) = put_entry (ev_link (pe_observation request)) e' impl''"
      and "publication_outcome (pe_observation request) e prepared impl'' e' (snd (commit_publication request impl e prepared))"
    then show ?thesis using assms(3,4) accepted(2) by (auto simp: publication_outcome_def split: if_splits)
  qed
qed auto

definition demo_outdated :: PublishEvidenceRequest where
  "demo_outdated = demo_publication\<lparr>pe_expected_state_generation := Some (Gen 7)\<rparr>"

lemma demo_outdated_refused:
  "oc_code (mr_outcome (snd (publish_evidence demo_outdated demo_registered))) = StaleGeneration"
  "unsaturated (fst (publish_evidence demo_outdated demo_registered))"
proof -
  have "\<exists>why. publish_verdict_for demo_outdated demo_registered = PublishRefused StaleGeneration why"
    by (simp add: demo_outdated_def demo_registered_eq publish_verdict_for_def Let_def demo_authorized demo_checks
        backing_stale_def)
  then obtain why where refused: "publish_verdict_for demo_outdated demo_registered = PublishRefused StaleGeneration why" ..
  then have "publish_evidence demo_outdated demo_registered =
      (note_rejection (StrongId ''agent'') demo_registered, failed StaleGeneration why)"
    by (simp add: publish_evidence_def demo_checks demo_outdated_def)
  moreover have "grows demo_registered demo_published"
    unfolding demo_published_def by (intro perform_grows engine.reachable_invariant demo_engines(1)) simp
  then have "unsaturated demo_registered" by (rule grows_unsaturated [OF _ demo_unsaturated])
  then have "unsaturated (note_rejection p demo_registered)" for p
    by (simp add: unsaturated_def note_rejection_def Let_def put_authority_def split: option.split)
  ultimately show "oc_code (mr_outcome (snd (publish_evidence demo_outdated demo_registered))) = StaleGeneration"
    "unsaturated (fst (publish_evidence demo_outdated demo_registered))" by simp_all
qed

theorem publish_refusal_harmless_witness:
  "fst (publish_evidence demo_outdated demo_registered) \<in>
     {demo_registered, note_rejection (StrongId ''agent'') demo_registered}"
proof -
  have "engine_reachable demo_registered" by (rule demo_engines(1)) simp
  from publish_refusal_harmless [OF this, of demo_outdated] demo_outdated_refused show ?thesis
    by (cases "publish_evidence demo_outdated demo_registered") (auto simp: demo_outdated_def)
qed

lemma find_distinct_key:
  "distinct (map f xs) \<Longrightarrow> w \<in> set xs \<Longrightarrow> f w = k \<Longrightarrow> find (\<lambda>x. f x = k) xs = Some w"
  by (induction xs) (auto simp: image_iff)

lemma publish_move:
  assumes "store_inv X impl" and "publish_evidence request impl = (impl', result)"
    and "oc_code (mr_outcome result) \<in> accepting"
  defines "v \<equiv> pe_observation request"
  obtains e e' w prepared where "publish_verdict_for request impl = PublishAccepted e prepared"
    "commit_publication request impl e prepared = (impl', result)"
    "find_link (ev_link v) impl = Some e" "find_link (ev_link v) impl' = Some e'" "steady e e'"
    "lr_state (le_record e) \<noteq> LinkOperationalState.Retired"
    "evidence_eq v w" "ev_status w = Current" "set (le_current e') = insert w
        {x \<in> set (le_current e). \<not> replaced_by v x \<and> \<not> source_superseded_by v x}"
    "\<And>k. k \<noteq> ev_link v \<Longrightarrow> find_link k impl' = find_link k impl"
  using assms(2)
proof (cases rule: publish_cases)
  case (accepted e prepared)
  have live: "lr_state (le_record e) \<noteq> LinkOperationalState.Retired"
    using prepare_commit_ok(1) [of _ e] publish_accepted(9,10) [OF accepted(1)] by simp
  show thesis
  proof (rule commit_publication_move [OF assms(1) accepted(1)])
    fix e' impl''
    assume result: "fst (commit_publication request impl e prepared) = put_entry (ev_link (pe_observation request)) e' impl''"
      and rev: "revision impl e impl'' e'" and steady: "steady e e'"
      and outcome: "publication_outcome (pe_observation request) e prepared impl'' e' (snd (commit_publication request impl e prepared))"
    obtain w where w: "evidence_eq v w" "ev_status w = Current" "set (le_current e') = insert w
        {x \<in> set (le_current e). \<not> replaced_by v x \<and> \<not> source_superseded_by v x}"
      using outcome assms(3) accepted(2) by (auto simp: publication_outcome_def v_def accepting_def)
    have "find_link k impl'' = find_link k impl" for k
      using find_link_frame [of impl'' impl k] rev by (simp add: revision_def)
    then have "find_link (ev_link v) impl' = Some e'" "\<And>k. k \<noteq> ev_link v \<Longrightarrow> find_link k impl' = find_link k impl"
      using result accepted(2) by (simp_all add: v_def)
    with accepted publish_accepted(1) [OF accepted(1), folded v_def] show thesis
      by (intro that [OF _ _ _ _ steady live w])
  qed
qed (use assms(3) in \<open>auto simp: accepting_def\<close>)

text \<open>
  C18: the effect of an accepted publication.  Exactly the records of the same evidence key and of older
  incarnations of the same source leave; the observation itself becomes current, unaltered in
  everything that identifies it; the binding stays, and no other link is touched.
\<close>

theorem publish_effect:
  assumes "engine_reachable impl" and "publish_evidence request impl = (impl', result)"
    and "oc_code (mr_outcome result) \<in> {Committed, EvidenceConflict}"
  defines "v \<equiv> pe_observation request"
  shows "\<exists>e e' w. find_link (ev_link v) impl = Some e \<and> find_link (ev_link v) impl' = Some e' \<and>
    evidence_eq v w \<and> ev_status w = Current \<and>
    set (le_current e') = insert w {x \<in> set (le_current e). ev_key x \<noteq> ev_key v \<and>
        \<not> (ev_source x = ev_source v \<and> ev_source_generation x < ev_source_generation v)} \<and>
    lr_binding (le_record e') = lr_binding (le_record e) \<and>
    (\<forall>k. k \<noteq> ev_link v \<longrightarrow> find_link k impl' = find_link k impl)"
proof (rule publish_move [OF engine.reachable_invariant [OF assms(1)] assms(2)])
  show "oc_code (mr_outcome result) \<in> accepting" using assms(3) by (simp add: accepting_def)
  fix e e' w prepared
  assume move: "find_link (ev_link (pe_observation request)) impl = Some e"
    "find_link (ev_link (pe_observation request)) impl' = Some e'" "steady e e'"
    "evidence_eq (pe_observation request) w" "ev_status w = Current" "set (le_current e') = insert w
        {x \<in> set (le_current e). \<not> replaced_by (pe_observation request) x \<and> \<not> source_superseded_by (pe_observation request) x}"
    "\<And>k. k \<noteq> ev_link (pe_observation request) \<Longrightarrow> find_link k impl' = find_link k impl"
  have "{x \<in> set (le_current e). \<not> replaced_by v x \<and> \<not> source_superseded_by v x} =
      {x \<in> set (le_current e). ev_key x \<noteq> ev_key v \<and>
        \<not> (ev_source x = ev_source v \<and> ev_source_generation x < ev_source_generation v)}"
    by (auto simp: replaced_by_def source_superseded_by_def)
  then show ?thesis using move unfolding v_def [symmetric] steady_def by auto
qed

theorem publish_effect_witness:
  "\<exists>e' w. find_link demo_link demo_published = Some e' \<and> evidence_eq demo_observation w \<and> set (le_current e') = {w}"
proof -
  have "engine_reachable demo_registered" by (rule demo_engines(1)) simp
  from publish_effect [OF this, of demo_publication] demo_published_code show ?thesis
    by (cases "publish_evidence demo_publication demo_registered")
      (auto simp: demo_published_def demo_registered_eq)
qed

text \<open>The publishers after an accepted publication: only the acceptance counter of one moved.\<close>

lemma commit_prepared_publishers: "st_publishers (fst (commit_prepared prepared p q impl e)) = st_publishers impl"
  by (simp add: commit_prepared_def Let_def count_transition_def reindex_state_def split: prod.split bool.split)

lemma commit_publication_authority:
  assumes "commit_publication request impl e prepared = (impl', result)"
    and "find_publisher p impl' = Some a'"
  shows "\<exists>a. find_publisher p impl = Some a \<and> pa_source a' = pa_source a \<and> pa_scope a' = pa_scope a"
proof -
  define v where "v = pe_observation request"
  obtain impl1 e1 where drop: "drop_evidence (\<lambda>e. replaced_by v e \<or> source_superseded_by v e)
      (\<lambda>e. if replaced_by v e then EvidenceStatus.Superseded else StaleSourceGeneration)
      (\<lambda>e. if replaced_by v e then ''superseded by a newer observation of the same evidence key''
           else ''source generation superseded by a newer incarnation of the same source'') impl e = (impl1, e1)"
    by fastforce
  obtain b impl2 e2 where adv: "advance_global_evidence impl1 e1 = (b, impl2, e2)" by (metis prod_cases3)
  define e3 where "e3 = insert_evidence (stored_evidence v impl2 e2) (stamp_global impl2 e2)"
  define impl3 where "impl3 = count_publication (note_acceptance (ev_publisher v) (register_observation v impl2))"
  obtain impl4 e4 where commit: "commit_prepared prepared (pe_publication request) (ev_publisher v) impl3 e3 = (impl4, e4)"
    by fastforce
  have "st_publishers impl2 = st_publishers impl"
    using drop_evidence_sel(4) [OF drop] advance_global_evidence_frame(1) [OF adv] by auto
  moreover have "st_publishers impl' = (if b then st_publishers impl3 else st_publishers impl2)"
    using assms(1) drop adv commit commit_prepared_publishers [of prepared "pe_publication request" "ev_publisher v" impl3 e3]
    unfolding commit_publication_def Let_def by (cases b) (auto simp flip: v_def e3_def impl3_def)
  moreover have "st_publishers impl3 = st_publishers (note_acceptance (ev_publisher v) impl2)"
    by (simp add: impl3_def count_publication_def note_acceptance_def register_observation_def put_authority_def
        find_publisher_def split: option.split)
  ultimately show ?thesis
    using assms(2) by (auto simp: note_acceptance_def put_authority_def find_publisher_def split: if_splits option.splits)
qed

lemma authorize_same:
  assumes "find_publisher p impl = Some a" and "find_publisher p impl' = Some a'"
    and "pa_source a' = pa_source a" and "pa_scope a' = pa_scope a" and "pa_status a' = Active"
    and "pa_worker_boot a' = boot" and "pa_epoch a' = ee"
    and "authorize impl p boot s re ee l b = (Committed, d)"
  shows "authorize impl' p boot s re ee l b = (Committed, d)"
  using assms by (auto simp: authorize_def split: if_splits)



end
