(* ===== verification/Engine_Lifecycle.thy ===== *)
theory Engine_Lifecycle
  imports Engine_Contracts
begin

text \<open>
  Contracts of the operations that govern authority and time: fencing a publisher, advancing the
  coordinator epoch, reconciliation, snapshots, and the capacity of the engine.
\<close>

section \<open>Fencing\<close>

lemma remembered_boot:
  assumes "0 < cf_fence_retention_per_publisher (im_config impl)"
  shows "boot \<in> set (bucket (st_fenced_boots (remember_fenced_boot p boot impl)) p)"
  using assms by (auto simp: remember_fenced_boot_def Let_def bucket_def)

text \<open>
  An invalidated incarnation is gone for good.  After a committed invalidation no link holds a
  current record of the publisher any more, every other publisher's records are where they were, and,
  provided fenced boots are retained at all, registering the same worker boot again is refused with
  STALE_AUTHORITY and changes nothing.
\<close>

theorem invalidate_publisher_fences:
  assumes "engine_reachable impl" and "invalidate_publisher request impl = (impl', result)"
    and "oc_code (mr_outcome result) = Committed" and "find_publisher (iv_publisher request) impl = Some a"
    and "0 < cf_fence_retention_per_publisher (im_config impl)"
  shows "(\<forall>l e v. find_link l impl' = Some e \<longrightarrow> v \<in> set (le_current e) \<longrightarrow> ev_publisher v \<noteq> iv_publisher request) \<and>
    (\<forall>q l. q \<noteq> iv_publisher request \<longrightarrow> holds q impl' l = holds q impl l) \<and>
    (\<forall>registration. rg_publisher registration = iv_publisher request \<longrightarrow>
       rg_worker_boot registration = pa_worker_boot a \<longrightarrow> valid (rg_source registration) \<longrightarrow>
       snd (normalize (rg_scope registration)) \<longrightarrow> rg_epoch registration = im_epoch impl' \<longrightarrow>
       fst (register_publisher registration impl') = impl' \<and>
       oc_code (mr_outcome (snd (register_publisher registration impl'))) = OutcomeCode.StaleAuthority)"
proof -
  let ?p = "iv_publisher request"
  have inv: "store_inv nobody impl" by (rule engine.reachable_invariant [OF assms(1)])
  obtain reason where impl': "impl' = fence_publisher ?p (pa_worker_boot a) True Fenced reason impl"
    using assms(2-4) by (auto simp: invalidate_publisher_def split: if_splits)
  have ok: "valid ?p" "valid (pa_worker_boot a)"
    using inv assms(4) by (auto simp: store_inv_def publishers_ok_def authority_ok_def)
  note fenced = fence_publisher_effect [OF inv, where status = Fenced and p = ?p and boot = "pa_worker_boot a"
      and reason = reason, folded impl', simplified]
  have "pa_worker_boot a \<in> set (bucket (st_fenced_boots impl') ?p)"
    using fenced(8) [OF ok(2)] remembered_boot [OF assms(5)] by simp
  then have "fst (register_publisher registration impl') = impl' \<and>
       oc_code (mr_outcome (snd (register_publisher registration impl'))) = OutcomeCode.StaleAuthority"
    if "rg_publisher registration = ?p" "rg_worker_boot registration = pa_worker_boot a" "valid (rg_source registration)"
      "snd (normalize (rg_scope registration))" "rg_epoch registration = im_epoch impl'" for registration
    using that ok
    by (simp add: register_publisher_def Let_def boot_is_fenced_def bucket_mem_def split: prod.split)
      (auto simp: split_beta)
  moreover have "ev_publisher v \<noteq> ?p" if "find_link l impl' = Some e" "v \<in> set (le_current e)" for l e v
    using that fenced(2) [of l] by (auto simp: holds_def)
  ultimately show ?thesis using fenced(3) by blast
qed

theorem invalidate_publisher_fences_witness:
  "oc_code (mr_outcome (snd (register_publisher demo_registration (fst (invalidate_publisher
      \<lparr>iv_publisher = StrongId ''agent'', iv_worker_boot = None, iv_epoch = gen_zero, iv_reason = []\<rparr>
      demo_registered))))) = OutcomeCode.StaleAuthority"
proof -
  let ?request = "\<lparr>iv_publisher = StrongId ''agent'', iv_worker_boot = None, iv_epoch = gen_zero, iv_reason = []\<rparr>"
  have reach: "engine_reachable demo_registered" by (rule demo_engines(1)) simp
  have code: "oc_code (mr_outcome (snd (invalidate_publisher ?request demo_registered))) = Committed"
    by (simp add: invalidate_publisher_def demo_registered_eq valid_def demo_authority_def fresh_authority_def)
  have epoch: "im_epoch (fst (invalidate_publisher ?request demo_registered)) = gen_zero"
    using fence_publisher_effect(5) [OF engine.reachable_invariant [OF reach], of Fenced]
    by (simp add: invalidate_publisher_def demo_registered_eq valid_def demo_authority_def fresh_authority_def)
  from invalidate_publisher_fences [OF reach, of ?request _ _ demo_authority] code epoch show ?thesis
    by (cases "invalidate_publisher ?request demo_registered")
      (simp add: demo_registered_eq default_config_def demo_registration_def demo_authority_def fresh_authority_def
        valid_def normalize_def std_sort_def std_unique_def max_authority_scope_links_def)
qed

section \<open>Coordinator epochs\<close>

text \<open>
  A new coordinator epoch starts without evidence.  After the epoch advanced, no link holds any
  current record and no registered publisher is active, so nothing can be published before a worker
  registers with the new epoch.
\<close>

theorem epoch_advance_clears:
  assumes "engine_reachable impl" and "im_epoch impl < ae_new_epoch request"
  shows "im_epoch (fst (advance_coordinator_epoch request impl)) = ae_new_epoch request \<and>
    (\<forall>l e. find_link l (fst (advance_coordinator_epoch request impl)) = Some e \<longrightarrow> le_current e = []) \<and>
    (\<forall>p a. find_publisher p (fst (advance_coordinator_epoch request impl)) = Some a \<longrightarrow> pa_status a = EpochSuperseded)"
proof -
  note effect = advance_epoch_effect [OF engine.reachable_invariant [OF assms(1)] assms(2)]
  have "le_current e = []" if entry: "find_link l (fst (advance_coordinator_epoch request impl)) = Some e" for l e
  proof (rule ccontr)
    assume "le_current e \<noteq> []"
    then obtain v where v: "v \<in> set (le_current e)" by (cases "le_current e") auto
    obtain a where "find_publisher (ev_publisher v) (fst (advance_coordinator_epoch request impl)) = Some a" "pa_status a = Active"
      using inv_slot [OF effect(1) entry v] by (auto simp: slot_ok_def owned_ok_def)
    then show False using effect(3) [of "ev_publisher v"] by (auto simp: map_option_case split: option.splits)
  qed
  then show ?thesis using effect(2,3) by auto
qed

theorem epoch_advance_clears_witness:
  "\<exists>e. find_link demo_link (fst (advance_coordinator_epoch \<lparr>ae_new_epoch = Gen 1, ae_reason = []\<rparr> demo_published)) = Some e \<and>
     le_current e = []"
proof -
  let ?request = "\<lparr>ae_new_epoch = Gen 1, ae_reason = []\<rparr>"
  let ?next = "fst (advance_coordinator_epoch ?request demo_published)"
  have reach: "engine_reachable demo_published" by (rule demo_engines(2)) simp
  have inv: "store_inv nobody demo_published" by (rule engine.reachable_invariant [OF reach])
  have "im_epoch demo_published < Gen 1 \<and> (\<exists>e. find_link demo_link ?next = Some e)"
  proof (rule demo_published_link)
    fix e w
    assume e: "find_link demo_link demo_published = Some e" "set (le_current e) = {w}" "evidence_eq demo_observation w"
    then have "ev_epoch w = im_epoch demo_published"
      using inv_slot [OF inv e(1), of w] by (simp add: slot_ok_def owned_ok_def)
    moreover have "ev_epoch w = gen_zero" using e(3) by (simp add: evidence_eq_def demo_observation_def)
    ultimately have "im_epoch demo_published = gen_zero" by simp
    then have "im_epoch demo_published < Gen 1" by (simp add: less_StrongGeneration_def)
    moreover have "grows demo_published ?next" using perform_grows [OF inv, of "AdvanceCoordinatorEpoch ?request"] by simp
    ultimately show ?thesis using e(1) unfolding grows_def by blast
  qed
  then show ?thesis using epoch_advance_clears [OF reach, of ?request] by auto
qed

section \<open>Reconciliation\<close>

lemma reconcile_fold:
  "fst (reconcile impl) = fst (fold reconcile_link (std_sort (<) (map fst (st_links impl))) (impl, 0))"
  by (simp add: reconcile_def Let_def split: prod.split)

lemma consistent_reconcile_link:
  assumes "store_inv X impl" and "unsaturated (fst (reconcile_link l (impl, n)))"
    and "find_link l (fst (reconcile_link l (impl, n))) = Some e"
  shows "settled e"
proof (cases "find_link l impl")
  case None
  then show ?thesis using assms(3) by (simp add: reconcile_link_def)
next
  case (Some f)
  obtain code changed impl' f' where rec: "recompute_link EvidenceResolution
      (minted_publication ''reconcile'' impl) null_id impl f = ((code, changed), impl', f')"
    by (metis surj_pair)
  show ?thesis
  proof (cases "lr_state (le_record f) = LinkOperationalState.Retired")
    case True
    then show ?thesis using assms(3) Some by (simp add: reconcile_link_def settled_def)
  next
    case False
    have "settled f'" if "unsaturated impl'"
      by (rule recompute_settled [OF rec _ False inv_generations [OF inv_at_current [OF assms(1) Some]] that]) simp
    then show ?thesis using assms(2,3) Some False rec by (simp add: reconcile_link_def)
  qed
qed

text \<open>A move keeps links settled; so a sweep that settles one link after the other settles them all.\<close>

lemma evolves_settled:
  assumes "evolves Q a b" and "unsaturated b" and "\<And>e. find_link l a = Some e \<Longrightarrow> settled e"
    and "find_link l b = Some e"
  shows "settled e"
  using assms
proof (induction arbitrary: e rule: evolves.induct)
  case (around a b c)
  then have "find_link l b = Some e" using find_link_frame [of c b l] by (simp add: untouched_def)
  then show ?case using around grows_unsaturated [OF untouched_grows] by blast
next
  case (revised a b k c)
  have "unsaturated b" using revised.hyps(2) revised.prems(1) grows_unsaturated revises_grows by blast
  with revised show ?case by (elim revises_cases) (auto split: if_splits)
next
  case (bound a b k c)
  have "unsaturated b" using bound.hyps(2) bound.prems(1) grows_unsaturated binds_grows by blast
  moreover obtain f where "settled f" "\<And>m. find_link m c = (if m = k then Some f else find_link m b)"
    using bound.hyps(2) unfolding binds_def by blast
  ultimately show ?case using bound.IH bound.prems(2,3) by (auto split: if_splits)
qed

lemma reconcile_links_settle:
  assumes "store_inv X impl" and "unsaturated (fst (fold reconcile_link ls (impl, n)))" and "l \<in> set ls"
    and "find_link l (fst (fold reconcile_link ls (impl, n))) = Some e"
  shows "settled e"
  using assms
proof (induction ls arbitrary: impl n)
  case (Cons m ms)
  obtain impl1 n1 where step: "reconcile_link m (impl, n) = (impl1, n1)" by fastforce
  have inv: "store_inv X impl1" using inv_reconcile_link [OF Cons.prems(1), of m n] by (simp add: step)
  have moves: "evolves quiet impl1 (fst (fold reconcile_link ms (impl1, n1)))" by (rule evolves_reconcile_links [OF inv])
  show ?case
  proof (cases "l \<in> set ms")
    case True
    then show ?thesis using Cons.IH [OF inv, of n1] Cons.prems(2,4) by (simp add: step)
  next
    case False
    then have l: "l = m" using Cons.prems(3) by simp
    have "settled f" if "find_link l impl1 = Some f" for f
      using consistent_reconcile_link [OF Cons.prems(1), of m n f] that Cons.prems(2)
        grows_unsaturated [OF evolves_grows [OF moves]] by (simp add: step l)
    then show ?thesis using evolves_settled [OF moves, of l e] Cons.prems(2,4) by (simp add: step)
  qed
qed simp

text \<open>
  C27: one reconciliation brings every live link to the verdict of its evidence, whatever the verdicts
  recorded before were: from any engine that satisfies the structural invariant, unless a counter is
  exhausted, the sweep ends with every link's class computed from its current evidence.
\<close>

theorem reconcile_settles:
  assumes "store_inv nobody impl" and "unsaturated (fst (reconcile impl))"
    and "find_link l (fst (reconcile impl)) = Some e" and "lr_state (le_record e) \<noteq> LinkOperationalState.Retired"
  shows "lr_result_class (le_record e) = rs_result_class (resolve_link_state (le_current e) (le_record e))"
proof -
  define ls where "ls = std_sort (<) (map fst (st_links impl))"
  have result: "fst (reconcile impl) = fst (fold reconcile_link ls (impl, 0))"
    by (simp add: reconcile_fold ls_def)
  have "settled e"
  proof (cases "l \<in> set ls")
    case True
    then show ?thesis using reconcile_links_settle [OF assms(1), of ls 0 l e] assms(2,3) by (simp add: result)
  next
    case False
    then have "find_link l impl = None" by (simp add: ls_def find_link_def map_of_eq_None_iff)
    then show ?thesis
      using evolves_settled [OF evolves_reconcile [OF assms(1)] assms(2) _ assms(3)] by simp
  qed
  then show ?thesis using assms(4) by (simp add: settled_def resolve_class)
qed

text \<open>On settled links the sweep changes bookkeeping only.\<close>

definition unchanged :: "LinkEntry \<Rightarrow> LinkEntry \<Rightarrow> bool" where
  "unchanged e e' \<longleftrightarrow> lr_state (le_record e') = lr_state (le_record e) \<and>
     lr_result_class (le_record e') = lr_result_class (le_record e) \<and>
     lr_state_generation (le_record e') = lr_state_generation (le_record e) \<and>
     lr_evidence_generation (le_record e') = lr_evidence_generation (le_record e) \<and>
     lr_binding (le_record e') = lr_binding (le_record e) \<and> le_current e' = le_current e"

definition sweeps :: "Impl \<Rightarrow> Impl \<Rightarrow> bool" where
  "sweeps a b \<longleftrightarrow> (\<exists>ls. b = a\<lparr>st_links := ls\<rparr>) \<and>
     (\<forall>l e. find_link l a = Some e \<longrightarrow> (\<exists>e'. find_link l b = Some e' \<and> unchanged e e'))"

lemma unchanged_trans: "unchanged e f \<Longrightarrow> unchanged f g \<Longrightarrow> unchanged e g"
  by (simp add: unchanged_def)

lemma sweeps_trans:
  assumes "sweeps a b" and "sweeps b c"
  shows "sweeps a c"
proof -
  obtain ls ms where "b = a\<lparr>st_links := ls\<rparr>" "c = b\<lparr>st_links := ms\<rparr>"
    using assms unfolding sweeps_def by blast
  then have "\<exists>ls. c = a\<lparr>st_links := ls\<rparr>" by auto
  moreover have "\<exists>e'. find_link l c = Some e' \<and> unchanged e e'" if "find_link l a = Some e" for l e
    using assms that unchanged_trans unfolding sweeps_def by metis
  ultimately show ?thesis by (simp add: sweeps_def)
qed

lemma recompute_settled_same:
  assumes "settled e" and "lr_state (le_record e) \<noteq> LinkOperationalState.Retired"
    and "lr_state (le_record e) = state_of (lr_result_class (le_record e))"
    and "recompute_link EvidenceResolution publication publisher impl e = ((code, changed), impl', e')"
  shows "impl' = impl \<and> \<not> changed \<and> unchanged e e'"
proof -
  have target: "state_of (policy_class (le_record e) (set (le_current e))) = lr_state (le_record e)"
    "policy_class (le_record e) (set (le_current e)) = lr_result_class (le_record e)"
    using assms(1-3) by (simp_all add: settled_def)
  have prepared: "pc_ok (prepare_commit (im_global_state_generation impl) e (le_current e) EvidenceResolution)"
    "\<not> pc_state_changed (prepare_commit (im_global_state_generation impl) e (le_current e) EvidenceResolution)"
    using assms(2) target by (simp_all add: prepare_commit_def Let_def resolve_class evaluate_transition_cases)
  then show ?thesis
    using assms(4) target
    by (auto simp: recompute_link_def commit_prepared_def Let_def apply_resolution_def stamp_transition_def
        unchanged_def resolve_class)
qed

lemma sweeps_reconcile_link:
  assumes "store_inv X impl" and "consistent impl"
  shows "sweeps impl (fst (reconcile_link l (impl, n))) \<and> snd (reconcile_link l (impl, n)) = n"
proof (cases "find_link l impl")
  case None
  then show ?thesis by (auto simp: reconcile_link_def sweeps_def unchanged_def intro: exI [of _ "st_links impl"])
next
  case (Some e)
  obtain code changed impl' e' where rec: "recompute_link EvidenceResolution
      (minted_publication ''reconcile'' impl) null_id impl e = ((code, changed), impl', e')"
    by (metis surj_pair)
  have "sweeps impl impl"
    by (auto simp: sweeps_def unchanged_def intro: exI [of _ "st_links impl"])
  moreover have "sweeps impl (put_entry l e' impl)" if "unchanged e e'"
    using that Some by (auto simp: sweeps_def unchanged_def put_entry_def find_link_def)
  moreover have "lr_state (le_record e) = state_of (lr_result_class (le_record e))"
    using assms(1) Some by (simp add: store_inv_def entry_ok_def)
  then have "impl' = impl \<and> \<not> changed \<and> unchanged e e'" if "lr_state (le_record e) \<noteq> LinkOperationalState.Retired"
    using recompute_settled_same [OF _ that _ rec] assms(2) Some by (simp add: consistent_def)
  ultimately show ?thesis using Some rec by (simp add: reconcile_link_def)
qed

lemma consistent_sweeps:
  assumes "store_inv X impl" and "consistent impl" and "unsaturated impl"
  shows "consistent (fst (reconcile_link l (impl, n)))"
proof -
  have moves: "evolves quiet impl (fst (reconcile_link l (impl, n)))" by (rule evolves_reconcile_link [OF assms(1)])
  obtain ls where "fst (reconcile_link l (impl, n)) = impl\<lparr>st_links := ls\<rparr>"
    using sweeps_reconcile_link [OF assms(1,2), of l n] unfolding sweeps_def by blast
  then have "unsaturated (fst (reconcile_link l (impl, n)))" using assms(3) by (simp add: unsaturated_def)
  then show ?thesis by (rule evolves_consistent [OF moves assms(2)])
qed

lemma sweeps_reconcile_links:
  assumes "store_inv X impl" and "consistent impl" and "unsaturated impl"
  shows "sweeps impl (fst (fold reconcile_link ls (impl, n))) \<and> snd (fold reconcile_link ls (impl, n)) = n"
  using assms
proof (induction ls arbitrary: impl n)
  case Nil
  then show ?case by (auto simp: sweeps_def unchanged_def intro: exI [of _ "st_links impl"])
next
  case (Cons l ls)
  obtain impl1 n1 where step: "reconcile_link l (impl, n) = (impl1, n1)" by fastforce
  note first = sweeps_reconcile_link [OF Cons.prems(1,2), of l n, unfolded step fst_conv snd_conv]
  have "unsaturated impl1" using first Cons.prems(3) by (auto simp: sweeps_def unsaturated_def)
  moreover have "store_inv X impl1" using inv_reconcile_link [OF Cons.prems(1), of l n] by (simp add: step)
  moreover have "consistent impl1" using consistent_sweeps [OF Cons.prems, of l n] by (simp add: step)
  ultimately show ?case using Cons.IH [of impl1 n1] first sweeps_trans by (auto simp: step)
qed

text \<open>
  Reconciliation is idempotent.  On every engine reached by honest publications, unless a counter is
  exhausted, the sweep finds nothing to do: every link keeps its state, its class, its generations, its
  binding and its evidence, the global generations stay, and the outcome reports zero state changes.
\<close>

theorem reconcile_idempotent:
  assumes "reachable initial_engine honest perform impl" and "unsaturated impl" and "find_link l impl = Some e"
  shows "(\<exists>e'. find_link l (fst (reconcile impl)) = Some e' \<and> unchanged e e') \<and>
    im_global_generation (fst (reconcile impl)) = im_global_generation impl \<and>
    im_global_state_generation (fst (reconcile impl)) = im_global_state_generation impl \<and>
    oc_detail (snd (reconcile impl)) = ''reconciled '' @ format_nat (length (st_links impl)) @ '' links, 0 state changes''"
proof -
  define ls where "ls = std_sort (<) (map fst (st_links impl))"
  obtain impl' n' where fold: "fold reconcile_link ls (impl, 0) = (impl', n')" by fastforce
  have "store_inv nobody impl" "consistent impl"
    using verdicts.reachable_invariant [OF assms(1)] assms(2) by (simp_all add: verdicts_hold_def)
  from sweeps_reconcile_links [OF this assms(2), of ls 0] have sweep: "sweeps impl impl'" "n' = 0"
    by (simp_all add: fold)
  have zero: "format_nat 0 = ''0''" by code_simp
  have "length ls = length (st_links impl)" by (simp add: ls_def)
  with fold sweep zero show ?thesis
    using assms(3) by (auto simp: reconcile_def Let_def ls_def [symmetric] sweeps_def make_outcome_def)
qed

theorem reconcile_idempotent_witness:
  "\<exists>e e'. find_link demo_link demo_published = Some e \<and>
     find_link demo_link (fst (reconcile demo_published)) = Some e' \<and> unchanged e e'"
proof (rule demo_published_link)
  fix e w
  assume "find_link demo_link demo_published = Some e"
  then show ?thesis using reconcile_idempotent [OF demo_reachable(2) demo_unsaturated, of demo_link e] by blast
qed

theorem reconcile_settles_witness:
  "\<exists>e. find_link demo_link (fst (reconcile demo_published)) = Some e \<and>
     lr_result_class (le_record e) = rs_result_class (resolve_link_state (le_current e) (le_record e))"
proof (rule demo_published_link)
  fix e w
  assume e: "find_link demo_link demo_published = Some e" "lr_state (le_record e) \<noteq> LinkOperationalState.Retired"
  have inv: "verdicts_hold demo_published" by (rule verdicts.reachable_invariant [OF demo_reachable(2)])
  then have known: "store_inv nobody demo_published" "consistent demo_published"
    using demo_unsaturated by (simp_all add: verdicts_hold_def)
  have sweep: "sweeps demo_published (fst (reconcile demo_published))"
    using sweeps_reconcile_links [OF known demo_unsaturated] by (simp add: reconcile_fold)
  obtain e' where e': "find_link demo_link (fst (reconcile demo_published)) = Some e'"
      "lr_state (le_record e') \<noteq> LinkOperationalState.Retired"
    using sweep e unfolding sweeps_def unchanged_def by metis
  have later: "unsaturated (fst (reconcile demo_published))"
    using sweep demo_unsaturated by (auto simp: sweeps_def unsaturated_def)
  show ?thesis using reconcile_settles [OF known(1) later e'] e' by blast
qed

section \<open>Snapshots\<close>

definition describes_link :: "Impl \<Rightarrow> SnapshotRecord \<Rightarrow> bool" where
  "describes_link impl r \<longleftrightarrow> (\<exists>e. find_link (sr_link r) impl = Some e \<and> r = snapshot_record (sr_link r) e)"

lemma describes_link_record: "find_link l impl = Some e \<Longrightarrow> describes_link impl (snapshot_record l e)"
  by (simp add: describes_link_def snapshot_record_def)

lemma collect_snapshot_sound:
  "list_all (describes_link impl) acc \<Longrightarrow> list_all (describes_link impl) (collect_snapshot request limit impl ls acc)"
  by (induction ls arbitrary: acc) (simp_all add: describes_link_record split: option.split)

lemma collect_snapshot_bound:
  "length acc \<le> limit \<Longrightarrow> length (collect_snapshot request limit impl ls acc) \<le> limit"
  by (induction ls arbitrary: acc) (auto split: option.splits)

lemma take_snapshot_sel:
  "im_global_state_generation (fst (take_snapshot request impl)) = im_global_state_generation impl"
  "im_epoch (fst (take_snapshot request impl)) = im_epoch impl"
  "st_links (fst (take_snapshot request impl)) = st_links impl"
  "sn_global_state_generation (snd (take_snapshot request impl)) = im_global_state_generation impl"
  "sn_epoch (snd (take_snapshot request impl)) = im_epoch impl"
  by (simp_all add: take_snapshot_def Let_def snapshot_header_def retain_snapshot_def)

lemma take_snapshot_bound: "length (sn_records (snd (take_snapshot request impl))) \<le> cf_max_links (im_config impl)"
proof -
  have "length (collect_snapshot request limit i ls []) \<le> limit" for limit i ls
    by (rule collect_snapshot_bound) simp
  then have "limit \<le> cap \<Longrightarrow> length (collect_snapshot request limit i ls []) \<le> cap" for limit cap i ls
    by (rule order.trans)
  then show ?thesis by (simp add: take_snapshot_def Let_def snapshot_header_def)
qed

lemma take_snapshot_records:
  assumes "r \<in> set (sn_records (snd (take_snapshot request impl)))"
  shows "describes_link impl r"
proof -
  let ?impl = "impl\<lparr>im_snapshot_counter := im_snapshot_counter impl + 1\<rparr>"
  have "list_all (describes_link ?impl) (sn_records (snd (take_snapshot request impl)))"
    by (simp add: take_snapshot_def Let_def snapshot_header_def collect_snapshot_sound)
  then show ?thesis using assms by (simp add: list_all_iff describes_link_def find_link_def)
qed

text \<open>
  A snapshot that is still current tells the truth.  However many operations ran since it was taken,
  as long as \<^verbatim>\<open>snapshot_is_current\<close> answers yes, every link it lists still exists in exactly the
  state the snapshot records for it.
\<close>

theorem current_snapshot_states:
  assumes "engine_reachable impl"
    and "snapshot_is_current (snd (take_snapshot request impl)) (fold perform ops (fst (take_snapshot request impl)))"
    and "r \<in> set (sn_records (snd (take_snapshot request impl)))"
  shows "\<exists>e. find_link (sr_link r) (fold perform ops (fst (take_snapshot request impl))) = Some e \<and>
    lr_state (le_record e) = sr_state r"
proof -
  define a where "a = fst (take_snapshot request impl)"
  obtain e where e: "find_link (sr_link r) impl = Some e" "r = snapshot_record (sr_link r) e"
    using take_snapshot_records [OF assms(3)] by (auto simp: describes_link_def)
  have a: "a = perform (TakeSnapshot request) impl" by (simp add: a_def)
  have reach: "engine_reachable a" unfolding a by (rule stepping [OF assms(1)]) simp
  have "st_links a = st_links impl" "im_global_state_generation a = im_global_state_generation impl"
    by (simp_all add: a_def take_snapshot_sel)
  then have found: "find_link (sr_link r) a = Some e" using e(1) find_link_frame [of a impl] by simp
  have "grows a (fold perform ops a)"
    by (rule engine.reachable_run_below [OF reach]) (simp add: list_all_iff)
  then obtain e' where e': "find_link (sr_link r) (fold perform ops a) = Some e'"
    "successor a e (fold perform ops a) e'"
    using found unfolding grows_def by blast
  have "sn_global_state_generation (snd (take_snapshot request impl)) = im_global_state_generation impl"
    by (rule take_snapshot_sel)
  then have "im_global_state_generation (fold perform ops a) = im_global_state_generation a"
    using assms(2) \<open>im_global_state_generation a = im_global_state_generation impl\<close>
    by (simp add: snapshot_is_current_def a_def)
  then have "lr_state (le_record e') = lr_state (le_record e)" using e'(2) by (auto simp: successor_def)
  moreover have "sr_state r = lr_state (le_record e)" by (subst e(2)) (simp add: snapshot_record_def)
  ultimately show ?thesis using e'(1) by (simp add: a_def)
qed

definition demo_query :: SnapshotRequest where
  "demo_query = \<lparr>sq_fabric = null_id, sq_links = [demo_link], sq_state_filter = None, sq_max_records = 0, sq_label = []\<rparr>"

theorem current_snapshot_states_witness:
  "\<exists>e. find_link demo_link (fold perform [TakeSnapshot demo_query] (fst (take_snapshot demo_query demo_registered))) = Some e \<and>
     lr_state (le_record e) = LinkOperationalState.Unknown"
proof -
  have reach: "engine_reachable demo_registered" by (rule demo_engines(1)) simp
  have sel: "find_link demo_link (demo_registered\<lparr>im_snapshot_counter := c\<rparr>) = Some demo_entry"
      "0 < cf_max_links (im_config demo_registered)" for c
    by (simp add: demo_registered_eq demo_state_def find_link_def)
      (simp add: demo_registered_eq default_config_def max_links_def)
  have listed: "snapshot_record demo_link demo_entry \<in> set (sn_records (snd (take_snapshot demo_query demo_registered)))"
    by (simp add: take_snapshot_def Let_def demo_query_def sort_links_def std_sort_def std_unique_def
        max_snapshot_records_def snapshot_selects_def valid_def sel)
  have current: "snapshot_is_current (snd (take_snapshot demo_query demo_registered))
      (fold perform [TakeSnapshot demo_query] (fst (take_snapshot demo_query demo_registered)))"
    by (simp add: snapshot_is_current_def take_snapshot_sel)
  show ?thesis using current_snapshot_states [OF reach current listed] by (simp add: snapshot_record_def)
qed

section \<open>Capacity\<close>



end
