(* ===== verification/Codecs.thy ===== *)
theory Codecs
  imports Records
begin

text \<open>
  Byte codecs.  The journal (\<^verbatim>\<open>src/persistence.cpp\<close>) and the wire protocol
  (\<^verbatim>\<open>src/protocol.cpp\<close>) write little endian fields to a byte vector and read them back with a
  bounds checked \<^verbatim>\<open>Reader\<close> whose first failure is sticky.  A reader is modelled as a function from
  the unread bytes to the failure or the value and the bytes that remain; the failures of the two
  readers differ and are collected in \<open>reader_errors\<close>.  The locale \<open>codec\<close> states what a writer and
  a reader promise each other, \<open>enumeration\<close> what an enumeration and its numbering promise.
\<close>

unbundle bit_operations_syntax

named_theorems codec \<open>reading back what was written\<close>

type_synonym ('e, 'a) reader = "bytes \<Rightarrow> 'e + 'a \<times> bytes"

section \<open>Writers\<close>

definition append_u8 :: "u8 \<Rightarrow> bytes" where
  "append_u8 value = [value]"

definition append_u16 :: "u16 \<Rightarrow> bytes" where
  "append_u16 value = append_u8 (ucast (value AND 0xff)) @ append_u8 (ucast (drop_bit 8 value AND 0xff))"

text \<open>The loops over the shift \<open>0, 8, ..\<close>.\<close>

definition append_u32 :: "u32 \<Rightarrow> bytes" where
  "append_u32 value = concat (map (\<lambda>index. append_u8 (ucast (drop_bit (8 * index) value AND 0xff))) [0..<4])"

definition append_u64 :: "u64 \<Rightarrow> bytes" where
  "append_u64 value = concat (map (\<lambda>index. append_u8 (ucast (drop_bit (8 * index) value AND 0xff))) [0..<8])"

definition append_text :: "string \<Rightarrow> bytes" where
  "append_text text = append_u32 (of_nat (length text)) @ bytes_of_string text"

definition append_blob :: "bytes \<Rightarrow> bytes" where
  "append_blob data = append_u32 (of_nat (length data)) @ data"

definition append_digest :: "Digest \<Rightarrow> bytes" where
  "append_digest digest = digest_bytes digest"

definition append_bool :: "bool \<Rightarrow> bytes" where
  "append_bool b = append_u8 (if b then 1 else 0)"

section \<open>Readers\<close>

record 'e reader_errors =
  er_truncated :: 'e
  er_text_long :: 'e
  er_text_malformed :: "string \<Rightarrow> 'e"
  er_id_empty :: 'e
  er_id_malformed :: "IdValidation \<Rightarrow> 'e"
  er_enum :: "string \<Rightarrow> 'e"

definition give :: "'a \<Rightarrow> ('e, 'a) reader" where
  "give x data = Inr (x, data)"

definition fail_with :: "'e \<Rightarrow> ('e, 'a) reader" where
  "fail_with e data = Inl e"

definition after :: "('e, 'a) reader \<Rightarrow> ('a \<Rightarrow> ('e, 'b) reader) \<Rightarrow> ('e, 'b) reader" where
  "after m f data = (case m data of Inl e \<Rightarrow> Inl e | Inr (x, rest) \<Rightarrow> f x rest)"

definition check :: "bool \<Rightarrow> 'e \<Rightarrow> ('e, unit) reader" where
  "check condition e = (if condition then give () else fail_with e)"

definition read_raw :: "'e reader_errors \<Rightarrow> nat \<Rightarrow> ('e, bytes) reader" where
  "read_raw err n data =
     (if n > length data then Inl (er_truncated err) else Inr (take n data, drop n data))"

definition load_le :: "bytes \<Rightarrow> 'w::len word" where
  "load_le data = fold (\<lambda>(index, b) v. v OR push_bit (8 * index) (ucast b)) (enumerate 0 data) 0"

definition read_u8 :: "'e reader_errors \<Rightarrow> ('e, u8) reader" where
  "read_u8 err = after (read_raw err 1) (\<lambda>data. give (data ! 0))"

definition read_u16 :: "'e reader_errors \<Rightarrow> ('e, u16) reader" where
  "read_u16 err = after (read_raw err 2) (\<lambda>data. give (ucast (data ! 0) OR push_bit 8 (ucast (data ! 1))))"

definition read_u32 :: "'e reader_errors \<Rightarrow> ('e, u32) reader" where
  "read_u32 err = after (read_raw err 4) (\<lambda>data. give (load_le data))"

definition read_u64 :: "'e reader_errors \<Rightarrow> ('e, u64) reader" where
  "read_u64 err = after (read_raw err 8) (\<lambda>data. give (load_le data))"

definition string_of_bytes :: "bytes \<Rightarrow> string" where
  "string_of_bytes data = map (\<lambda>b. char_of (unat b)) data"

definition read_text :: "'e reader_errors \<Rightarrow> nat \<Rightarrow> ('e, string) reader" where
  "read_text err max_length =
     after (read_u32 err) (\<lambda>len.
     after (check (unat len \<le> max_length) (er_text_long err)) (\<lambda>_.
     after (read_raw err (unat len)) (\<lambda>slice.
     case validate_text (string_of_bytes slice) max_length of
       Some error \<Rightarrow> fail_with (er_text_malformed err error)
     | None \<Rightarrow> give (string_of_bytes slice))))"

definition read_blob :: "'e reader_errors \<Rightarrow> 'e \<Rightarrow> nat \<Rightarrow> ('e, bytes) reader" where
  "read_blob err too_long max_length =
     after (read_u32 err) (\<lambda>len.
     after (check (unat len \<le> max_length) too_long) (\<lambda>_. read_raw err (unat len)))"

definition read_digest :: "'e reader_errors \<Rightarrow> ('e, Digest) reader" where
  "read_digest err = after (read_raw err digest_byte_count) (\<lambda>data. give (Digest data))"

definition read_id :: "'e reader_errors \<Rightarrow> bool \<Rightarrow> ('e, 'tag StrongId) reader" where
  "read_id err allow_empty =
     after (read_text err max_identifier_length) (\<lambda>text.
     if text = [] then (if allow_empty then give null_id else fail_with (er_id_empty err))
     else if validate_identifier text \<noteq> Ok then fail_with (er_id_malformed err (validate_identifier text))
     else give (from_validated text))"

definition read_generation :: "'e reader_errors \<Rightarrow> ('e, 'tag StrongGeneration) reader" where
  "read_generation err = after (read_u64 err) (\<lambda>value. give (Gen value))"

text \<open>\<^verbatim>\<open>read_enum\<close> with the \<^verbatim>\<open>static_cast\<close> of its result: \<open>elements\<close> lists the enumerators in
  the order of their values, and \<open>maximum\<close> is the literal bound each call passes.\<close>

definition read_enum :: "'e reader_errors \<Rightarrow> nat \<Rightarrow> 'a list \<Rightarrow> string \<Rightarrow> ('e, 'a) reader" where
  "read_enum err maximum elements field =
     after (read_u8 err) (\<lambda>value.
     if unat value > maximum then fail_with (er_enum err field) else give (elements ! unat value))"

definition append_enum :: "('a \<Rightarrow> nat) \<Rightarrow> 'a \<Rightarrow> bytes" where
  "append_enum index x = append_u8 (of_nat (index x))"

definition read_bool :: "'e reader_errors \<Rightarrow> 'e \<Rightarrow> ('e, bool) reader" where
  "read_bool err invalid = after (read_u8 err) (\<lambda>value. if value > 1 then fail_with invalid else give (value = 1))"

text \<open>A counted loop that reads its elements one after the other.  What was read so far is an argument
  of the element's reader: the loops of the journal check each element against it.\<close>

fun read_many :: "('a list \<Rightarrow> ('e, 'a) reader) \<Rightarrow> nat \<Rightarrow> 'a list \<Rightarrow> ('e, 'a list) reader" where
  "read_many item 0 acc = give acc"
| "read_many item (Suc n) acc = after (item acc) (\<lambda>x. read_many item n (acc @ [x]))"

text \<open>A count, its bound and the elements.\<close>

definition read_counted ::
  "'e reader_errors \<Rightarrow> nat \<Rightarrow> 'e \<Rightarrow> ('a list \<Rightarrow> ('e, 'a) reader) \<Rightarrow> ('e, 'a list) reader" where
  "read_counted err maximum too_many item =
     after (read_u32 err) (\<lambda>n. if unat n > maximum then fail_with too_many else read_many item (unat n) [])"

lemma after_give [simp]: "after (give x) f = f x"
  by (rule ext) (simp add: after_def give_def)

lemma after_fail [simp]: "after (fail_with e) f = fail_with e"
  by (rule ext) (simp add: after_def fail_with_def)

lemma check_simps [simp]: "check True e = give ()" "check False e = fail_with e"
  by (simp_all add: check_def)

lemma give_apply [codec]: "give x data = Inr (x, data)"
  by (simp add: give_def)

section \<open>What a writer and a reader promise\<close>

locale codec =
  fixes enc :: "'a \<Rightarrow> bytes" and dec :: "('e, 'a) reader" and fits :: "'a \<Rightarrow> bool"
  assumes read_back: "fits x \<Longrightarrow> dec (enc x @ rest) = Inr (x, rest)"
begin

lemma after_read_back: "fits x \<Longrightarrow> after dec f (enc x @ rest) = f x rest"
  by (simp add: after_def read_back)

lemma enc_inj:
  assumes "fits x" and "fits y" and "enc x @ r = enc y @ s"
  shows "x = y \<and> r = s"
proof -
  have "(Inr (x, r) :: 'e + 'a \<times> bytes) = Inr (y, s)"
    using read_back [OF assms(1), of r] read_back [OF assms(2), of s] unfolding assms(3) by metis
  then show ?thesis by simp
qed

end

lemma read_many_back:
  assumes "\<And>ys z zs r. xs = ys @ z # zs \<Longrightarrow> item (acc @ ys) (enc z @ r) = Inr (z, r)"
  shows "after (read_many item (length xs) acc) f (concat (map enc xs) @ rest) = f (acc @ xs) rest"
  using assms
proof (induction xs arbitrary: acc)
  case Nil
  then show ?case by simp
next
  case (Cons x xs)
  have "item acc (enc x @ r) = Inr (x, r)" for r
    using Cons.prems [of "[]" x xs r] by simp
  moreover have "after (read_many item (length xs) (acc @ [x])) f (concat (map enc xs) @ rest) = f ((acc @ [x]) @ xs) rest"
    by (rule Cons.IH) (use Cons.prems [of "x # _"] in simp)
  ultimately show ?case
    by (simp add: after_def)
qed

lemma read_u8_back: "read_u8 err (append_u8 v @ rest) = Inr (v, rest)"
  by (simp add: read_u8_def append_u8_def after_def read_raw_def give_def)

lemma bit_byte: "bit (ucast (w AND 0xff) :: u8) n \<longleftrightarrow> n < 8 \<and> bit w n" for w :: "'w::len word"
proof -
  have "w AND 0xff = take_bit 8 w" by (simp add: take_bit_eq_mask mask_eq_exp_minus_1)
  then show ?thesis by (auto simp: bit_simps dest: bit_imp_le_length)
qed

lemma bit_widened_byte:
  "bit (ucast (ucast (w AND 0xff) :: u8) :: 'v::len word) n \<longleftrightarrow> n < LENGTH('v) \<and> n < 8 \<and> bit w n"
  for w :: "'w::len word"
  by (simp add: bit_unsigned_iff [where 'b = 8] possible_bit_word bit_byte)

lemma read_u16_back: "read_u16 err (append_u16 v @ rest) = Inr (v, rest)"
proof -
  have "ucast (ucast (v AND 0xff) :: u8) OR push_bit 8 (ucast (ucast (drop_bit 8 v AND 0xff) :: u8)) = v"
    by (rule bit_word_eqI) (auto simp: bit_or_iff bit_push_bit_iff bit_widened_byte bit_drop_bit_eq)
  then show ?thesis
    by (simp add: read_u16_def append_u16_def append_u8_def after_def read_raw_def give_def)
qed

text \<open>Or-ing the first \<open>n\<close> bytes of a word together gives its low bits.\<close>

lemma load_le_bytes:
  "load_le (map (\<lambda>k. ucast (drop_bit (8 * k) v AND 0xff)) [0..<n]) = take_bit (8 * n) v" for v :: "'w::len word"
proof (induction n)
  case 0
  then show ?case by (simp add: load_le_def)
next
  case (Suc n)
  have "load_le (map (\<lambda>k. ucast (drop_bit (8 * k) v AND 0xff)) [0..<Suc n]) =
      take_bit (8 * n) v OR push_bit (8 * n) (ucast (ucast (drop_bit (8 * n) v AND 0xff) :: u8))"
    using Suc.IH by (simp add: load_le_def enumerate_append_eq flip: enumerate_map_upt)
  also have "\<dots> = take_bit (8 * Suc n) v"
    by (rule bit_word_eqI)
      (auto simp: bit_or_iff bit_push_bit_iff bit_take_bit_iff bit_widened_byte bit_drop_bit_eq)
  finally show ?case .
qed

lemma append_u32_bytes: "append_u32 v = map (\<lambda>k. ucast (drop_bit (8 * k) v AND 0xff)) [0..<4]"
  by (simp add: append_u32_def append_u8_def)

lemma append_u64_bytes: "append_u64 v = map (\<lambda>k. ucast (drop_bit (8 * k) v AND 0xff)) [0..<8]"
  by (simp add: append_u64_def append_u8_def)

lemma length_append [simp]: "length (append_u8 b) = 1" "length (append_u16 h) = 2" "length (append_u32 w) = 4"
    "length (append_u64 v) = 8"
  by (simp_all add: append_u8_def append_u16_def append_u32_bytes append_u64_bytes)

lemma read_u32_back: "read_u32 err (append_u32 v @ rest) = Inr (v, rest)"
  using load_le_bytes [of v 4] by (simp add: read_u32_def after_def read_raw_def give_def append_u32_bytes take_bit_word_eq_self del: upt_Suc)

lemma read_u64_back: "read_u64 err (append_u64 v @ rest) = Inr (v, rest)"
  using load_le_bytes [of v 8] by (simp add: read_u64_def after_def read_raw_def give_def append_u64_bytes take_bit_word_eq_self)

lemma after_assoc: "after (after m f) g = after m (\<lambda>x. after (f x) g)"
  by (rule ext) (simp add: after_def split: sum.split prod.split)

lemma unat_u32: "n < 2 ^ 32 \<Longrightarrow> unat (of_nat n :: u32) = n"
  by (simp add: unat_of_nat take_bit_eq_mod)

lemma read_counted_back:
  assumes "length xs \<le> maximum" and "maximum < 2 ^ 32"
    and "\<And>ys z zs r. xs = ys @ z # zs \<Longrightarrow> item ys (enc z @ r) = Inr (z, r)"
  shows "after (read_counted err maximum too_many item) f
      (append_u32 (of_nat (length xs)) @ concat (map enc xs) @ rest) = f xs rest"
proof -
  have "after (read_many item (length xs) []) f (concat (map enc xs) @ rest) = f ([] @ xs) rest"
    by (rule read_many_back) (simp add: assms(3))
  moreover have "unat (of_nat (length xs) :: u32) = length xs"
    using assms by (intro unat_u32) simp
  ultimately show ?thesis
    using assms(1) by (simp add: read_counted_def after_assoc) (simp add: after_def read_u32_back)
qed

context codec
begin

lemma read_list_back:
  assumes "list_all fits xs" and "length xs \<le> maximum" and "maximum < 2 ^ 32"
  shows "after (read_counted err maximum too_many (\<lambda>_. dec)) f
      (append_u32 (of_nat (length xs)) @ concat (map enc xs) @ rest) = f xs rest"
  by (rule read_counted_back [OF assms(2,3)]) (use assms(1) in \<open>simp add: read_back\<close>)

end

text \<open>Text survives the journey through bytes.\<close>

lemma char_of_byte: "char_of (unat (of_char ch :: u8)) = ch"
proof -
  have "of_char ch = (of_nat (of_char ch) :: u8)" by (cases ch) simp
  moreover have "unat (of_nat (of_char ch) :: u8) = of_char ch"
    unfolding unat_of_nat by (simp add: take_bit_eq_mod)
  ultimately show ?thesis by (metis char_of_char)
qed

lemma string_of_bytes_of_string [simp]: "string_of_bytes (bytes_of_string t) = t"
  by (simp add: string_of_bytes_def bytes_of_string_def char_of_byte map_idI)

lemma length_bytes_of_string [simp]: "length (bytes_of_string t) = length t"
  by (simp add: bytes_of_string_def)

lemma validate_text_length: "validate_text t n = None \<Longrightarrow> length t \<le> n"
  by (auto simp: validate_text_def split: if_splits)

lemma read_text_back:
  assumes "n < 2 ^ 32" and "validate_text t n = None"
  shows "read_text err n (append_text t @ rest) = Inr (t, rest)"
proof -
  have "unat (of_nat (length t) :: u32) = length t"
    using le_less_trans [OF validate_text_length [OF assms(2)] assms(1)] by (rule unat_u32)
  then show ?thesis
    using validate_text_length [OF assms(2)] assms(2)
    by (simp add: read_text_def append_text_def after_def [of "read_u32 err"] read_u32_back)
      (simp add: after_def read_raw_def give_def)
qed

lemma read_blob_back:
  assumes "n < 2 ^ 32" and "length data \<le> n"
  shows "read_blob err too_long n (append_blob data @ rest) = Inr (data, rest)"
  using assms unat_u32 [of "length data"]
  by (simp add: read_blob_def append_blob_def after_def read_u32_back read_raw_def)

lemma read_digest_back:
  "length (digest_bytes d) = digest_byte_count \<Longrightarrow> read_digest err (append_digest d @ rest) = Inr (d, rest)"
  by (simp add: read_digest_def append_digest_def after_def read_raw_def give_def)

lemma is_valid_utf8_ascii: "\<forall>ch\<in>set t. of_char ch < (0x80 :: nat) \<Longrightarrow> is_valid_utf8 t"
  by (induction t) (simp_all add: is_valid_utf8.simps(2))

lemma identifier_char:
  assumes "is_alphanumeric ch \<or> is_separator ch"
  shows "(0x20 :: nat) \<le> of_char ch" and "of_char ch < (0x7f :: nat)"
  using assms by (auto simp: is_alphanumeric_def is_separator_def less_eq_char_def)

lemma identifier_is_text:
  assumes "validate_identifier v = Ok"
  shows "validate_text v max_identifier_length = None"
proof -
  have "scan_identifier v = None" and len: "length v \<le> max_identifier_length"
    using assms scan_identifier_not_Ok [of v] by (auto simp: validate_identifier_def split: option.splits if_splits)
  then have "\<forall>ch\<in>set v. is_alphanumeric ch \<or> is_separator ch"
    by (simp add: scan_identifier_None)
  then have "\<forall>ch\<in>set v. (0x20 :: nat) \<le> of_char ch \<and> of_char ch < (0x7f :: nat)"
    using identifier_char by blast
  then have "is_valid_utf8 v" and "\<forall>ch\<in>set v. \<not> (of_char ch < (0x20 :: nat) \<or> of_char ch = (0x7f :: nat))"
    by (fastforce intro: is_valid_utf8_ascii)+
  with len show ?thesis
    by (auto simp: validate_text_def list_ex_iff)
qed

text \<open>What can be read back as an identifier: a valid one, or none where none is allowed.\<close>

definition id_fits :: "bool \<Rightarrow> 'tag StrongId \<Rightarrow> bool" where
  "id_fits allow_empty i \<longleftrightarrow> allow_empty \<and> id_value i = [] \<or> validate_identifier (id_value i) = Ok"

lemma id_fits_text: "id_fits allow_empty i \<Longrightarrow> validate_text (id_value i) max_identifier_length = None"
  unfolding id_fits_def using identifier_is_text by (auto simp: validate_text_def [of "[]"])

lemma read_id_back: "id_fits allow_empty i \<Longrightarrow> read_id err allow_empty (append_text (id_value i) @ rest) = Inr (i, rest)"
proof -
  assume i: "id_fits allow_empty i"
  have "read_text err max_identifier_length (append_text (id_value i) @ rest) = Inr (id_value i, rest)"
    using id_fits_text [OF i] by (intro read_text_back) (simp_all add: max_identifier_length_def)
  with i show ?thesis
    by (cases i) (auto simp: read_id_def after_def give_def id_fits_def from_validated_def dest: validate_identifier_nonempty)
qed

lemma read_generation_back: "read_generation err (append_u64 (gen_value g) @ rest) = Inr (g, rest)"
  by (cases g) (simp add: read_generation_def after_def read_u64_back give_def)

lemma read_bool_back: "read_bool err invalid (append_bool b @ rest) = Inr (b, rest)"
  by (simp add: read_bool_def append_bool_def after_def read_u8_back give_def)

interpretation u8: codec append_u8 "read_u8 err" "\<lambda>_. True" for err
  by unfold_locales (rule read_u8_back)

interpretation u16: codec append_u16 "read_u16 err" "\<lambda>_. True" for err
  by unfold_locales (rule read_u16_back)

interpretation u32: codec append_u32 "read_u32 err" "\<lambda>_. True" for err
  by unfold_locales (rule read_u32_back)

interpretation u64: codec append_u64 "read_u64 err" "\<lambda>_. True" for err
  by unfold_locales (rule read_u64_back)

interpretation txt_field: codec append_text "read_text err n" "\<lambda>t. n < 2 ^ 32 \<and> validate_text t n = None" for err n
  by unfold_locales (blast intro: read_text_back)

interpretation blob: codec append_blob "read_blob err too_long n" "\<lambda>data. n < 2 ^ 32 \<and> length data \<le> n"
  for err too_long n
  by unfold_locales (blast intro: read_blob_back)

interpretation digest: codec append_digest "read_digest err" "\<lambda>d. length (digest_bytes d) = digest_byte_count" for err
  by unfold_locales (rule read_digest_back)

interpretation ident: codec "\<lambda>i. append_text (id_value i)" "read_id err allow_empty" "id_fits allow_empty"
  for err allow_empty
  by unfold_locales (rule read_id_back)

interpretation generation: codec "\<lambda>g. append_u64 (gen_value g)" "read_generation err" "\<lambda>_. True" for err
  by unfold_locales (rule read_generation_back)

interpretation flag: codec append_bool "read_bool err invalid" "\<lambda>_. True" for err invalid
  by unfold_locales (rule read_bool_back)

section \<open>Every digest has 32 bytes\<close>

definition hasher_wide :: "Hasher \<Rightarrow> bool" where
  "hasher_wide hs \<longleftrightarrow> length (h_state hs) = 8"

lemma length_compress [simp]: "length (compress state block) = 8"
  by (simp add: compress_def split: prod.split)

lemma length_absorb: "length state = 8 \<Longrightarrow> length (fst (absorb state buffer data)) = 8"
proof (induction state buffer data rule: absorb.induct)
  case (1 state buffer data)
  then show ?case by (subst absorb.simps) (simp add: Let_def)
qed

lemma length_pad_zeros: "length state = 8 \<Longrightarrow> length (fst (pad_zeros state buffer)) = 8"
proof (induction state buffer rule: pad_zeros.induct)
  case (1 state buffer)
  then show ?case by (subst pad_zeros.simps) simp
qed

lemma hasher_wide_new [simp]: "hasher_wide new_hasher"
  by (simp add: hasher_wide_def new_hasher_def kInitialState_def)

lemma hasher_wide_update [simp]: "hasher_wide hs \<Longrightarrow> hasher_wide (hasher_update data hs)"
  using length_absorb [of "h_state hs" "h_buffer hs" data]
  by (auto simp: hasher_wide_def hasher_update_def split: prod.split)

lemma hasher_wide_fields [simp]:
  assumes "hasher_wide hs"
  shows "hasher_wide (update_u8 b hs)" and "hasher_wide (update_u32 w hs)"
    and "hasher_wide (update_u64 v hs)" and "hasher_wide (update_text t hs)"
  using assms by (simp_all add: update_u8_def update_u32_def update_u64_def update_text_def)

lemma length_finalize: "hasher_wide hs \<Longrightarrow> length (digest_bytes (finalize hs)) = digest_byte_count"
  by (simp add: finalize_def Let_def hasher_wide_def length_absorb length_pad_zeros length_concat
      comp_def be_u32_def sum_list_triv digest_byte_count_def)

lemma length_sha256 [simp]: "length (digest_bytes (sha256 data)) = digest_byte_count"
  by (simp add: sha256_def length_finalize)

lemma length_compute_digest [simp]: "length (digest_bytes (compute_digest e)) = digest_byte_count"
  by (simp add: compute_digest_def length_finalize)

lemma hasher_wide_fold [simp]: "hasher_wide hs \<Longrightarrow> hasher_wide (fold (\<lambda>x. hasher_update (f x)) xs hs)"
  by (induction xs arbitrary: hs) simp_all

lemma length_digest_evidence_set [simp]: "length (digest_bytes (digest_evidence_set es)) = digest_byte_count"
  by (simp add: digest_evidence_set_def Let_def length_finalize)

section \<open>Enumerations\<close>

text \<open>An enumeration, its numbering and the list of its values in order.\<close>

locale enumeration =
  fixes index :: "'a \<Rightarrow> nat" and elements :: "'a list"
  assumes index_bound: "index x < length elements" and index_nth: "elements ! index x = x"
    and index_byte: "length elements \<le> 256"
begin

lemma read_enum_back:
  assumes "length elements = Suc maximum"
  shows "read_enum err maximum elements field (append_enum index x @ rest) = Inr (x, rest)"
proof -
  have "unat (of_nat (index x) :: u8) = index x"
    using index_bound [of x] index_byte by (simp add: unat_of_nat take_bit_eq_mod)
  then show ?thesis
    using index_bound [of x] assms by (simp add: read_enum_def append_enum_def after_def read_u8_back give_def index_nth)
qed

lemma after_read_enum_back:
  "length elements = Suc maximum \<Longrightarrow>
    after (read_enum err maximum elements field) f (append_enum index x @ rest) = f x rest"
  by (simp add: after_def read_enum_back)

end

primrec outcome_index :: "OutcomeCode \<Rightarrow> nat" where
  "outcome_index OutcomeCode.Committed = 0"
| "outcome_index OutcomeCode.Idempotent = 1"
| "outcome_index OutcomeCode.NoChange = 2"
| "outcome_index OutcomeCode.StaleGeneration = 3"
| "outcome_index OutcomeCode.StaleEvidence = 4"
| "outcome_index OutcomeCode.StaleTopology = 5"
| "outcome_index OutcomeCode.StaleAuthority = 6"
| "outcome_index OutcomeCode.StaleCoordinatorEpoch = 7"
| "outcome_index OutcomeCode.UnauthorizedScope = 8"
| "outcome_index OutcomeCode.UnauthorizedPublisher = 9"
| "outcome_index OutcomeCode.UnknownLink = 10"
| "outcome_index OutcomeCode.RetiredLink = 11"
| "outcome_index OutcomeCode.EvidenceConflict = 12"
| "outcome_index OutcomeCode.RevalidationRequired = 13"
| "outcome_index OutcomeCode.InvalidTransition = 14"
| "outcome_index OutcomeCode.MalformedRequest = 15"
| "outcome_index OutcomeCode.ResourceLimit = 16"
| "outcome_index OutcomeCode.PersistenceCorrupt = 17"
| "outcome_index OutcomeCode.PersistenceIoFailure = 18"
| "outcome_index OutcomeCode.TransportFailure = 19"
| "outcome_index OutcomeCode.UnsupportedCapability = 20"
| "outcome_index OutcomeCode.UnsupportedState = 21"
| "outcome_index OutcomeCode.NotFound = 22"
| "outcome_index OutcomeCode.Invalidated = 23"

definition direction_values :: "EvidenceDirection list" where
  "direction_values =
    [Bidirectional, Transmit, Receive]"

definition kind_values :: "EvidenceKind list" where
  "kind_values =
    [CarrierState, InterfaceOperationalState, DeviceReportedState, PortReportedState,
     RemoteEndpointState, ControlPlaneHeartbeat, HardwareErrorIndication, LossErrorThreshold,
     AdministrativeState, SyntheticTest, PlatformDiscovery]"

definition class_values :: "EvidenceClass list" where
  "class_values =
    [Real, Synthetic, Unsupported]"

definition claim_values :: "EvidenceClaim list" where
  "claim_values =
    [EvidenceClaim.Unknown, EvidenceClaim.Up, EvidenceClaim.Down, EvidenceClaim.Degraded,
     EvidenceClaim.AdminDisabled, EvidenceClaim.Draining, EvidenceClaim.Faulted]"

definition cause_values :: "DegradationCause list" where
  "cause_values =
    [NoCause, ErrorRateThresholdExceeded, ReducedNegotiatedSpeed, PartialLaneFailure,
     UnstableCarrier, Asymmetry, DegradedOpticalSignal, RestrictedForwarding,
     HardwareReportedImpairment]"

definition status_values :: "EvidenceStatus list" where
  "status_values =
    [Current, EvidenceStatus.Superseded, Withdrawn, EvidenceStatus.StaleAuthority,
     EvidenceStatus.StaleTopology, StaleSourceGeneration]"

definition link_class_values :: "LinkClass list" where
  "link_class_values =
    [LinkClass.Unknown, EthernetLike, InfiniBandLike, HostNic, SwitchToSwitch, Logical,
     TunnelBacked, Optical, FabricInterconnect, BondedAggregate]"

definition symmetry_values :: "LinkSymmetryGuarantee list" where
  "symmetry_values =
    [Unspecified, Symmetric, Directional]"

definition state_values :: "LinkOperationalState list" where
  "state_values =
    [LinkOperationalState.Unknown, LinkOperationalState.Up, LinkOperationalState.Down,
     LinkOperationalState.Degraded, LinkOperationalState.AdminDisabled,
     LinkOperationalState.Draining, LinkOperationalState.Faulted,
     LinkOperationalState.RevalidationRequired, LinkOperationalState.Retired]"

definition trigger_values :: "TransitionTrigger list" where
  "trigger_values =
    [EvidenceResolution, EvidenceWithdrawal, PublisherFenced, SourceLost, TopologyInvalidation,
     CoordinatorEpochAdvance, Recovery, Retirement, ExplicitAdministrative, RevalidationOutcome]"

definition result_class_values :: "StateResultClass list" where
  "result_class_values =
    [AuthoritativeUnknown, AuthoritativeUp, AuthoritativeDown, AuthoritativeDegraded,
     AuthoritativeAdminDisabled, AuthoritativeDraining, AuthoritativeFaulted, Conflicted,
     StateResultClass.RevalidationRequired, StateResultClass.Retired]"

definition outcome_values :: "OutcomeCode list" where
  "outcome_values =
    [OutcomeCode.Committed, OutcomeCode.Idempotent, OutcomeCode.NoChange,
     OutcomeCode.StaleGeneration, OutcomeCode.StaleEvidence, OutcomeCode.StaleTopology,
     OutcomeCode.StaleAuthority, OutcomeCode.StaleCoordinatorEpoch,
     OutcomeCode.UnauthorizedScope, OutcomeCode.UnauthorizedPublisher, OutcomeCode.UnknownLink,
     OutcomeCode.RetiredLink, OutcomeCode.EvidenceConflict, OutcomeCode.RevalidationRequired,
     OutcomeCode.InvalidTransition, OutcomeCode.MalformedRequest, OutcomeCode.ResourceLimit,
     OutcomeCode.PersistenceCorrupt, OutcomeCode.PersistenceIoFailure,
     OutcomeCode.TransportFailure, OutcomeCode.UnsupportedCapability,
     OutcomeCode.UnsupportedState, OutcomeCode.NotFound, OutcomeCode.Invalidated]"

lemma length_values [simp]:
  "length direction_values = 3"
  "length kind_values = 11"
  "length class_values = 3"
  "length claim_values = 7"
  "length cause_values = 9"
  "length status_values = 6"
  "length link_class_values = 10"
  "length symmetry_values = 3"
  "length state_values = 9"
  "length trigger_values = 10"
  "length result_class_values = 10"
  "length outcome_values = 24"
  by (simp_all add: direction_values_def kind_values_def class_values_def claim_values_def cause_values_def status_values_def link_class_values_def symmetry_values_def state_values_def trigger_values_def result_class_values_def outcome_values_def)

interpretation direction: enumeration direction_index direction_values
proof
  fix x show "direction_index x < length direction_values" and "direction_values ! direction_index x = x"
    by (cases x; simp add: direction_values_def)+
qed (simp add: direction_values_def)

interpretation kind: enumeration kind_index kind_values
proof
  fix x show "kind_index x < length kind_values" and "kind_values ! kind_index x = x"
    by (cases x; simp add: kind_values_def)+
qed (simp add: kind_values_def)

interpretation evidence_class: enumeration class_index class_values
proof
  fix x show "class_index x < length class_values" and "class_values ! class_index x = x"
    by (cases x; simp add: class_values_def)+
qed (simp add: class_values_def)

interpretation claim: enumeration claim_index claim_values
proof
  fix x show "claim_index x < length claim_values" and "claim_values ! claim_index x = x"
    by (cases x; simp add: claim_values_def)+
qed (simp add: claim_values_def)

interpretation cause: enumeration cause_index cause_values
proof
  fix x show "cause_index x < length cause_values" and "cause_values ! cause_index x = x"
    by (cases x; simp add: cause_values_def)+
qed (simp add: cause_values_def)

interpretation status: enumeration status_index status_values
proof
  fix x show "status_index x < length status_values" and "status_values ! status_index x = x"
    by (cases x; simp add: status_values_def)+
qed (simp add: status_values_def)

interpretation link_class: enumeration link_class_index link_class_values
proof
  fix x show "link_class_index x < length link_class_values" and "link_class_values ! link_class_index x = x"
    by (cases x; simp add: link_class_values_def)+
qed (simp add: link_class_values_def)

interpretation symmetry: enumeration symmetry_index symmetry_values
proof
  fix x show "symmetry_index x < length symmetry_values" and "symmetry_values ! symmetry_index x = x"
    by (cases x; simp add: symmetry_values_def)+
qed (simp add: symmetry_values_def)

interpretation state: enumeration state_index state_values
proof
  fix x show "state_index x < length state_values" and "state_values ! state_index x = x"
    by (cases x; simp add: state_values_def)+
qed (simp add: state_values_def)

interpretation trigger: enumeration trigger_index trigger_values
proof
  fix x show "trigger_index x < length trigger_values" and "trigger_values ! trigger_index x = x"
    by (cases x; simp add: trigger_values_def)+
qed (simp add: trigger_values_def)

interpretation result_class: enumeration result_class_index result_class_values
proof
  fix x show "result_class_index x < length result_class_values" and "result_class_values ! result_class_index x = x"
    by (cases x; simp add: result_class_values_def)+
qed (simp add: result_class_values_def)

interpretation outcome: enumeration outcome_index outcome_values
proof
  fix x show "outcome_index x < length outcome_values" and "outcome_values ! outcome_index x = x"
    by (cases x; simp add: outcome_values_def)+
qed (simp add: outcome_values_def)

text \<open>The rewriting that reads back one field after the other.\<close>

lemmas field_back =
  u8.after_read_back u16.after_read_back u32.after_read_back u64.after_read_back
  txt_field.after_read_back blob.after_read_back digest.after_read_back ident.after_read_back
  generation.after_read_back flag.after_read_back direction.after_read_enum_back kind.after_read_enum_back evidence_class.after_read_enum_back
  claim.after_read_enum_back cause.after_read_enum_back status.after_read_enum_back
  link_class.after_read_enum_back symmetry.after_read_enum_back state.after_read_enum_back
  trigger.after_read_enum_back result_class.after_read_enum_back outcome.after_read_enum_back

declare field_back [codec]

section \<open>What a reader yields\<close>

definition yields :: "('e, 'a) reader \<Rightarrow> ('a \<Rightarrow> bool) \<Rightarrow> bool" where
  "yields m P \<longleftrightarrow> (\<forall>data x rest. m data = Inr (x, rest) \<longrightarrow> P x)"

lemma yieldsD: "yields m P \<Longrightarrow> m data = Inr (x, rest) \<Longrightarrow> P x"
  by (auto simp: yields_def)

lemma yields_give: "P x \<Longrightarrow> yields (give x) P"
  by (simp add: yields_def give_def)

lemma yields_fail: "yields (fail_with e) P"
  by (simp add: yields_def fail_with_def)

lemma yields_guard: "(\<not> c \<Longrightarrow> yields m P) \<Longrightarrow> yields (if c then fail_with e else m) P"
  by (simp add: yields_def fail_with_def)

lemma yields_after: "yields m P \<Longrightarrow> (\<And>x. P x \<Longrightarrow> yields (f x) Q) \<Longrightarrow> yields (after m f) Q"
  unfolding yields_def after_def by (fastforce split: sum.splits prod.splits)

lemma yields_any: "yields m (\<lambda>_. True)"
  by (simp add: yields_def)

lemma yields_mono: "yields m P \<Longrightarrow> (\<And>x. P x \<Longrightarrow> Q x) \<Longrightarrow> yields m Q"
  by (auto simp: yields_def)

lemma yields_raw: "yields (read_raw err n) (\<lambda>data. length data = n)"
  by (auto simp: yields_def read_raw_def split: if_splits)

lemma yields_check: "yields (check c e) (\<lambda>_. c)"
  by (cases c) (simp_all add: yields_def fail_with_def)

lemma yields_text: "yields (read_text err n) (\<lambda>t. validate_text t n = None)"
  unfolding read_text_def
  by (intro yields_after [OF yields_any]) (auto split: option.split intro: yields_fail yields_give)

lemma yields_blob: "yields (read_blob err too_long n) (\<lambda>data. length data \<le> n)"
  unfolding read_blob_def
  by (rule yields_after [OF yields_any], rule yields_after [OF yields_check], rule yields_mono [OF yields_raw]) simp

lemma yields_digest: "yields (read_digest err) (\<lambda>d. length (digest_bytes d) = digest_byte_count)"
  unfolding read_digest_def by (rule yields_after [OF yields_raw]) (simp add: yields_give)

lemma yields_id: "yields (read_id err allow_empty) (id_fits allow_empty)"
  unfolding read_id_def
  by (rule yields_after [OF yields_any])
    (auto simp: id_fits_def from_validated_def intro!: yields_fail yields_give)

text \<open>A loop yields a list whose every element satisfied its check against the elements before it.\<close>

definition in_turn :: "('a list \<Rightarrow> 'a \<Rightarrow> bool) \<Rightarrow> 'a list \<Rightarrow> bool" where
  "in_turn P xs \<longleftrightarrow> (\<forall>ys z zs. xs = ys @ z # zs \<longrightarrow> P ys z)"

lemma in_turn_Nil [simp]: "in_turn P []"
  by (simp add: in_turn_def)

lemma in_turn_snoc: "in_turn P (xs @ [x]) \<longleftrightarrow> in_turn P xs \<and> P xs x"
proof
  assume *: "in_turn P (xs @ [x])"
  have "P ys z" if "xs = ys @ z # zs" for ys z zs
    using * that unfolding in_turn_def by (metis append.assoc append_Cons)
  with * show "in_turn P xs \<and> P xs x" by (simp add: in_turn_def)
next
  assume *: "in_turn P xs \<and> P xs x"
  show "in_turn P (xs @ [x])"
    unfolding in_turn_def
  proof (intro allI impI)
    fix ys z zs assume "xs @ [x] = ys @ z # zs"
    with * show "P ys z"
      by (cases zs rule: rev_cases) (auto simp: in_turn_def)
  qed
qed

lemma in_turn_all: "in_turn (\<lambda>_. P) xs \<longleftrightarrow> list_all P xs"
  by (induction xs rule: rev_induct) (simp_all add: in_turn_snoc)

lemma in_turn_conj: "in_turn (\<lambda>ys z. P ys z \<and> Q ys z) xs \<longleftrightarrow> in_turn P xs \<and> in_turn Q xs"
  by (induction xs rule: rev_induct) (auto simp: in_turn_snoc)

lemma in_turn_fresh: "in_turn (\<lambda>ys z. f z \<notin> f ` set ys) xs \<longleftrightarrow> distinct (map f xs)"
  by (induction xs rule: rev_induct) (auto simp: in_turn_snoc)

lemma yields_many:
  assumes "\<And>acc. yields (item acc) (P acc)" and "in_turn P acc"
  shows "yields (read_many item n acc) (\<lambda>xs. in_turn P xs \<and> length xs = length acc + n)"
  using assms(2)
proof (induction n arbitrary: acc)
  case 0
  then show ?case by (simp add: yields_give)
next
  case (Suc n)
  have "yields (read_many item n (acc @ [x])) (\<lambda>xs. in_turn P xs \<and> length xs = length acc + Suc n)" if "P acc x" for x
    using Suc.IH [of "acc @ [x]"] Suc.prems that by (auto simp: in_turn_snoc intro: yields_mono)
  then show ?case
    by (simp add: yields_after [OF assms(1)])
qed

lemma yields_counted:
  assumes "\<And>acc. yields (item acc) (P acc)"
  shows "yields (read_counted err maximum too_many item) (\<lambda>xs. in_turn P xs \<and> length xs \<le> maximum)"
  unfolding read_counted_def
proof (rule yields_after [OF yields_any])
  fix n :: u32
  have "yields (read_many item (unat n) []) (\<lambda>xs. in_turn P xs \<and> length xs = unat n)"
    using yields_many [OF assms in_turn_Nil, where n = "unat n"] by simp
  then show "yields (if unat n > maximum then fail_with too_many else read_many item (unat n) [])
      (\<lambda>xs. in_turn P xs \<and> length xs \<le> maximum)"
    by (auto intro: yields_fail yields_mono)
qed

lemma yields_list:
  assumes "yields item P"
  shows "yields (read_counted err maximum too_many (\<lambda>_. item)) (\<lambda>xs. list_all P xs \<and> length xs \<le> maximum)"
  using yields_counted [of "\<lambda>_. item" "\<lambda>_. P" err maximum too_many] assms by (simp add: in_turn_all)

text \<open>The failures a reader can report, from those of its primitives.\<close>

definition blames :: "('e, 'a) reader \<Rightarrow> ('e \<Rightarrow> bool) \<Rightarrow> bool" where
  "blames m P \<longleftrightarrow> (\<forall>data e. m data = Inl e \<longrightarrow> P e)"

definition blamed :: "'e reader_errors \<Rightarrow> ('e \<Rightarrow> bool) \<Rightarrow> bool" where
  "blamed err P \<longleftrightarrow> P (er_truncated err) \<and> P (er_text_long err) \<and> (\<forall>t. P (er_text_malformed err t)) \<and>
     P (er_id_empty err) \<and> (\<forall>v. P (er_id_malformed err v)) \<and> (\<forall>f. P (er_enum err f))"

lemma blamesD: "blames m P \<Longrightarrow> m data = Inl e \<Longrightarrow> P e"
  by (auto simp: blames_def)

lemma blames_give: "blames (give x) P"
  by (simp add: blames_def give_def)

lemma blames_fail: "P e \<Longrightarrow> blames (fail_with e) P"
  by (simp add: blames_def fail_with_def)

lemma blames_after: "blames m P \<Longrightarrow> (\<And>x. blames (f x) P) \<Longrightarrow> blames (after m f) P"
  unfolding blames_def after_def by (fastforce split: sum.splits prod.splits)

lemma blames_if: "blames m P \<Longrightarrow> blames n P \<Longrightarrow> blames (if c then m else n) P"
  by simp

lemma blames_many: "(\<And>acc. blames (item acc) P) \<Longrightarrow> blames (read_many item n acc) P"
  by (induction n arbitrary: acc) (auto intro: blames_give blames_after)

lemma blames_raw: "blamed err P \<Longrightarrow> blames (read_raw err n) P"
  by (auto simp: blames_def blamed_def read_raw_def split: if_splits)

lemma blames_number:
  assumes "blamed err P"
  shows "blames (read_u8 err) P" and "blames (read_u16 err) P" and "blames (read_u32 err) P"
    and "blames (read_u64 err) P" and "blames (read_generation err) P" and "blames (read_digest err) P"
  unfolding read_u8_def read_u16_def read_u32_def read_u64_def read_generation_def read_digest_def
  by (intro blames_after blames_raw assms blames_give)+

lemma blames_text: "blamed err P \<Longrightarrow> blames (read_text err n) P"
  unfolding read_text_def check_def
  by (intro blames_after blames_number blames_raw blames_if)
    (auto simp: blamed_def split: option.split intro: blames_give blames_fail)

lemma blames_field:
  assumes "blamed err P"
  shows "blames (read_id err allow_empty) P" and "blames (read_enum err maximum elements field) P"
    and "P too_long \<Longrightarrow> blames (read_blob err too_long n) P" and "P invalid \<Longrightarrow> blames (read_bool err invalid) P"
  using assms unfolding read_id_def read_enum_def read_blob_def read_bool_def check_def
  by (intro blames_after blames_number blames_raw blames_text blames_if; simp add: blamed_def blames_give blames_fail)+

lemma blames_counted:
  "blamed err P \<Longrightarrow> P too_many \<Longrightarrow> (\<And>acc. blames (item acc) P) \<Longrightarrow> blames (read_counted err maximum too_many item) P"
  unfolding read_counted_def by (intro blames_after blames_number blames_if blames_fail blames_many)

text \<open>A codec whose reader accepts nothing but what its writer can write.\<close>

locale exact_codec = codec +
  assumes dec_fits: "yields dec fits"
begin

lemma accepted: "(\<exists>data rest. dec data = Inr (x, rest)) \<longleftrightarrow> fits x"
  using read_back [of x] yieldsD [OF dec_fits] by blast

lemma yields_some: "yields (read_counted err maximum too_many (\<lambda>_. dec)) (\<lambda>xs. list_all fits xs \<and> length xs \<le> maximum)"
  by (rule yields_list [OF dec_fits])

end

interpretation ident: exact_codec "\<lambda>i. append_text (id_value i)" "read_id err allow_empty" "id_fits allow_empty"
  for err allow_empty
  by unfold_locales (rule yields_id)

interpretation digest: exact_codec append_digest "read_digest err" "\<lambda>d. length (digest_bytes d) = digest_byte_count" for err
  by unfold_locales (rule yields_digest)

end
