(* ===== verification/Journal.thy ===== *)
theory Journal
  imports Codecs
begin

text \<open>
  The journal of \<^verbatim>\<open>src/persistence.cpp\<close>: the durable payload, its encoding with header, body and the
  two digests of the trailer, and the decoder with every check in its order.  The decoder's loops are
  \<open>read_many\<close>; a failure is the outcome code and the text the C++ reader records first.  Paths are
  POSIX paths.  \<open>journal_fits\<close> says what can be written so that it is read back,
  \<open>journal_sound\<close> what a decoded payload satisfies.
\<close>

section \<open>Configuration\<close>

record PersistenceConfig =
  pc_path :: string
  pc_max_records :: nat
  pc_include_history :: bool
  pc_create_parent_directory :: bool

definition max_persisted_records :: nat where
  "max_persisted_records = 1000000"

definition is_plain_path :: "string \<Rightarrow> bool" where
  "is_plain_path path \<longleftrightarrow>
     path \<noteq> [] \<and> list_all (\<lambda>ch. \<not> (of_char ch < (0x20 :: nat) \<or> of_char ch = (0x7f :: nat))) path"

text \<open>The elements of a POSIX path: the pieces between its separators.\<close>

fun path_parts :: "string \<Rightarrow> string list" where
  "path_parts [] = [[]]"
| "path_parts (ch # rest) =
     (if ch = CHR ''/'' then [] # path_parts rest
      else (case path_parts rest of [] \<Rightarrow> [[ch]] | part # parts \<Rightarrow> (ch # part) # parts))"

definition is_relative_path :: "string \<Rightarrow> bool" where
  "is_relative_path path \<longleftrightarrow> \<not> (path \<noteq> [] \<and> hd path = CHR ''/'')"

definition has_filename :: "string \<Rightarrow> bool" where
  "has_filename path \<longleftrightarrow> last (path_parts path) \<noteq> []"

definition validate_persistence :: "PersistenceConfig \<Rightarrow> string" where
  "validate_persistence config =
     (let path = pc_path config in
      if \<not> is_plain_path path then ''persistence path is empty or contains control characters''
      else if is_relative_path path \<and> (path = ''.'' \<or> path = ''..'') then ''persistence path must name a file''
      else if \<not> is_relative_path path \<and> \<not> has_filename path then ''persistence path must name a file''
      else if list_ex (\<lambda>part. part = ''..'') (path_parts path)
      then ''persistence path must not contain relative traversal components''
      else if pc_max_records config = 0 \<or> pc_max_records config > max_persisted_records
      then ''max_records must be between 1 and limits::max_persisted_records''
      else [])"

section \<open>The payload\<close>

definition journal_format_version :: u16 where
  "journal_format_version = 1"

definition journal_header_bytes :: nat where
  "journal_header_bytes = 64"

definition journal_trailer_bytes :: nat where
  "journal_trailer_bytes = 2 * digest_byte_count"

record PersistedLink =
  pl_record :: LinkStateRecord
  pl_evidence :: "EvidenceRecord list"

record JournalPayload =
  jp_layout :: LayoutGeneration
  jp_epoch :: CoordinatorEpoch
  jp_global_generation :: GlobalGeneration
  jp_global_state_generation :: LinkStateGeneration
  jp_topology_generation :: TopologyGeneration
  jp_snapshot_counter :: u64
  jp_transition_counter :: u64
  jp_links :: "PersistedLink list"
  jp_fences :: "PublisherFence list"

record JournalSummary =
  js_format_version :: u16
  js_flags :: u64
  js_layout :: LayoutGeneration
  js_epoch :: CoordinatorEpoch
  js_global_generation :: GlobalGeneration
  js_global_state_generation :: LinkStateGeneration
  js_topology_generation :: TopologyGeneration
  js_record_count :: nat
  js_evidence_count :: nat
  js_fence_count :: nat
  js_payload_digest :: Digest
  js_file_digest :: Digest
  js_file_size :: u64

definition empty_payload :: JournalPayload where
  "empty_payload = \<lparr>jp_layout = gen_zero, jp_epoch = gen_zero, jp_global_generation = gen_zero,
     jp_global_state_generation = gen_zero, jp_topology_generation = gen_zero, jp_snapshot_counter = 0,
     jp_transition_counter = 0, jp_links = [], jp_fences = []\<rparr>"

definition empty_summary :: JournalSummary where
  "empty_summary = \<lparr>js_format_version = 0, js_flags = 0, js_layout = gen_zero, js_epoch = gen_zero,
     js_global_generation = gen_zero, js_global_state_generation = gen_zero,
     js_topology_generation = gen_zero, js_record_count = 0, js_evidence_count = 0, js_fence_count = 0,
     js_payload_digest = zero_digest, js_file_digest = zero_digest, js_file_size = 0\<rparr>"

definition render_summary :: "JournalSummary \<Rightarrow> string" where
  "render_summary s =
     ''format_version        '' @ format_nat (unat (js_format_version s)) @ nl @
     ''flags                 '' @ format_u64 (js_flags s) @ nl @
     ''layout_generation     '' @ gen_to_string (js_layout s) @ nl @
     ''coordinator_epoch     '' @ gen_to_string (js_epoch s) @ nl @
     ''global_generation     '' @ gen_to_string (js_global_generation s) @ nl @
     ''global_state_gen      '' @ gen_to_string (js_global_state_generation s) @ nl @
     ''topology_generation   '' @ gen_to_string (js_topology_generation s) @ nl @
     ''records               '' @ format_nat (js_record_count s) @ nl @
     ''evidence              '' @ format_nat (js_evidence_count s) @ nl @
     ''fences                '' @ format_nat (js_fence_count s) @ nl @
     ''file_size             '' @ format_u64 (js_file_size s) @ nl @
     ''payload_digest        '' @ to_hex (js_payload_digest s) @ nl @
     ''file_digest           '' @ to_hex (js_file_digest s) @ nl"

section \<open>Encoding\<close>

definition encode_evidence :: "EvidenceRecord \<Rightarrow> bytes" where
  "encode_evidence e =
     append_text (id_value (ev_link e)) @ append_text (id_value (ev_source e)) @
     append_text (id_value (ev_endpoint e)) @ append_enum direction_index (ev_direction e) @
     append_enum kind_index (ev_kind e) @ append_text (id_value (ev_observation e)) @
     append_text (id_value (ev_publisher e)) @ append_text (id_value (ev_worker_boot e)) @
     append_u64 (gen_value (ev_epoch e)) @ append_u64 (gen_value (ev_source_generation e)) @
     append_u64 (ev_sequence e) @ append_u64 (gen_value (ev_topology_generation e)) @
     append_u64 (gen_value (ev_endpoint_generation e)) @ append_enum class_index (ev_class e) @
     append_enum claim_index (ev_claim e) @ append_enum cause_index (ev_degradation_cause e) @
     append_u64 (ev_observed_at_unix_nanos e) @ append_text (ev_detail e) @
     append_blob (ev_metadata e) @ append_enum status_index (ev_status e) @
     append_u64 (gen_value (ev_evidence_generation e)) @ append_u64 (gen_value (ev_commit_sequence e)) @
     append_digest (ev_record_digest e)"

definition encode_endpoints :: "EndpointBinding \<Rightarrow> bytes" where
  "encode_endpoints b =
     append_text (id_value (eb_local b)) @ append_u64 (gen_value (eb_local_generation b)) @
     append_text (id_value (eb_local_device b)) @ append_text (id_value (eb_local_port b)) @
     append_text (id_value (eb_remote b)) @ append_u64 (gen_value (eb_remote_generation b)) @
     append_text (id_value (eb_remote_device b)) @ append_text (id_value (eb_remote_port b))"

definition encode_backing :: "BackingReference \<Rightarrow> bytes" where
  "encode_backing r = append_text (id_value (br_link r)) @ append_u64 (gen_value (br_generation r))"

definition encode_binding :: "TopologyBinding \<Rightarrow> bytes" where
  "encode_binding b =
     append_text (id_value (tb_fabric b)) @ append_text (id_value (tb_site b)) @
     append_text (id_value (tb_link b)) @ append_u64 (gen_value (tb_topology_generation b)) @
     append_enum link_class_index (tb_link_class b) @ append_enum symmetry_index (tb_symmetry b) @
     encode_endpoints (tb_endpoints b) @
     append_u32 (of_nat (length (tb_member_links b))) @
     concat (map (\<lambda>member. append_text (id_value member)) (tb_member_links b)) @
     append_u32 (of_nat (length (tb_backing_links b))) @ concat (map encode_backing (tb_backing_links b))"

definition encode_intent :: "AdministrativeIntent option \<Rightarrow> bytes" where
  "encode_intent intent =
     append_bool (intent \<noteq> None) @
     (case intent of
        None \<Rightarrow> []
      | Some ai \<Rightarrow>
          append_enum state_index (ai_state ai) @ append_enum cause_index (ai_cause ai) @
          append_text (id_value (ai_publication ai)) @ append_text (id_value (ai_publisher ai)) @
          append_u64 (gen_value (ai_generation ai)))"

definition encode_history :: "StateHistoryEntry \<Rightarrow> bytes" where
  "encode_history h =
     append_u64 (gen_value (hy_state_generation h)) @ append_enum state_index (hy_from_state h) @
     append_enum state_index (hy_to_state h) @ append_enum trigger_index (hy_trigger h) @
     append_enum result_class_index (hy_result_class h) @ append_enum cause_index (hy_cause h) @
     append_text (id_value (hy_publication h)) @ append_text (id_value (hy_publisher h)) @
     append_u64 (gen_value (hy_evidence_generation h)) @
     append_u64 (gen_value (hy_topology_generation h)) @ append_enum outcome_index (hy_outcome h)"

definition encode_link :: "bool \<Rightarrow> PersistedLink \<Rightarrow> bytes" where
  "encode_link include_history link =
     (let r = pl_record link in
      append_text (id_value (lr_record r)) @ encode_binding (lr_binding r) @
      append_enum state_index (lr_state r) @ append_enum result_class_index (lr_result_class r) @
      append_enum cause_index (lr_degradation_cause r) @ append_u64 (gen_value (lr_state_generation r)) @
      append_u64 (gen_value (lr_evidence_generation r)) @ append_u64 (gen_value (lr_global_generation r)) @
      append_text (id_value (lr_last_publication r)) @ append_text (id_value (lr_last_transition r)) @
      append_text (id_value (lr_last_publisher r)) @ append_enum outcome_index (lr_last_outcome r) @
      append_bool (lr_ever_established r) @ append_bool (lr_durable r) @
      encode_intent (lr_admin_intent r) @ append_digest (lr_provenance_digest r) @
      (if include_history
       then append_u32 (of_nat (length (lr_history r))) @ concat (map encode_history (lr_history r))
       else append_u32 0) @
      append_u32 (of_nat (length (pl_evidence link))) @ concat (map encode_evidence (pl_evidence link)))"

definition encode_fence :: "PublisherFence \<Rightarrow> bytes" where
  "encode_fence f =
     append_text (id_value (fn_publisher f)) @ append_text (id_value (fn_worker_boot f)) @
     append_u64 (gen_value (fn_epoch f)) @ append_text (fn_reason f)"

definition encode_payload :: "JournalPayload \<Rightarrow> PersistenceConfig \<Rightarrow> bytes" where
  "encode_payload payload config =
     append_u32 (of_nat (length (jp_links payload))) @
     concat (map (encode_link (pc_include_history config)) (jp_links payload)) @
     append_u32 (of_nat (length (jp_fences payload))) @ concat (map encode_fence (jp_fences payload))"

definition kMaxJournalBytes :: nat where
  "kMaxJournalBytes = 2147483648"

definition max_journal_bytes :: "PersistenceConfig \<Rightarrow> nat" where
  "max_journal_bytes config =
     (let bound = journal_header_bytes + journal_trailer_bytes; per_record = 16384 in
      if pc_max_records config > (kMaxJournalBytes - bound) div per_record then kMaxJournalBytes
      else min (bound + pc_max_records config * per_record) kMaxJournalBytes)"

text \<open>The header; the \<^verbatim>\<open>resize\<close> pads it to its fixed size.\<close>

definition encode_header :: "JournalPayload \<Rightarrow> PersistenceConfig \<Rightarrow> bytes \<Rightarrow> bytes" where
  "encode_header payload config body =
     (let header = bytes_of_string ''LSF1'' @ append_u16 journal_format_version @
            append_u16 (if pc_include_history config then 1 else 0) @
            append_u64 (gen_value (jp_layout payload)) @ append_u64 (gen_value (jp_epoch payload)) @
            append_u64 (gen_value (jp_global_generation payload)) @
            append_u64 (gen_value (jp_global_state_generation payload)) @
            append_u64 (gen_value (jp_topology_generation payload)) @
            append_u64 (of_nat (length (jp_links payload))) @ append_u64 (of_nat (length body))
      in take journal_header_bytes header @ replicate (journal_header_bytes - length header) 0)"

definition summarize :: "u16 \<Rightarrow> u64 \<Rightarrow> JournalPayload \<Rightarrow> Digest \<Rightarrow> Digest \<Rightarrow> nat \<Rightarrow> JournalSummary" where
  "summarize version flags payload payload_digest file_digest size_in_bytes =
     \<lparr>js_format_version = version, js_flags = flags, js_layout = jp_layout payload,
      js_epoch = jp_epoch payload, js_global_generation = jp_global_generation payload,
      js_global_state_generation = jp_global_state_generation payload,
      js_topology_generation = jp_topology_generation payload,
      js_record_count = length (jp_links payload),
      js_evidence_count = fold (\<lambda>link n. n + length (pl_evidence link)) (jp_links payload) 0,
      js_fence_count = length (jp_fences payload), js_payload_digest = payload_digest,
      js_file_digest = file_digest, js_file_size = of_nat size_in_bytes\<rparr>"

definition encode_journal :: "JournalPayload \<Rightarrow> PersistenceConfig \<Rightarrow> bytes \<times> JournalSummary" where
  "encode_journal payload config =
     (let body = encode_payload payload config;
          header = encode_header payload config body;
          payload_digest = sha256 body;
          file_digest = finalize (hasher_update body (hasher_update header new_hasher));
          out = header @ body @ append_digest payload_digest @ append_digest file_digest
      in (out, summarize journal_format_version (if pc_include_history config then 1 else 0) payload
                 payload_digest file_digest (length out)))"

section \<open>Decoding\<close>

type_synonym failure = "OutcomeCode \<times> string"

definition journal_errors :: "failure reader_errors" where
  "journal_errors =
     \<lparr>er_truncated = (PersistenceCorrupt, ''journal is truncated''),
      er_text_long = (ResourceLimit, ''text field length exceeds the maximum accepted length''),
      er_text_malformed = (\<lambda>error. (PersistenceCorrupt, ''text field is malformed: '' @ error)),
      er_id_empty = (PersistenceCorrupt, ''a required identifier is empty''),
      er_id_malformed = (\<lambda>v. (PersistenceCorrupt, ''identifier is malformed: '' @ to_string_IdValidation v)),
      er_enum = (\<lambda>field. (PersistenceCorrupt, ''field '' @ field @ '' holds an invalid enumeration value''))\<rparr>"

abbreviation (input) jr_u8 :: "(failure, u8) reader" where
  "jr_u8 \<equiv> read_u8 journal_errors"

abbreviation (input) jr_u16 :: "(failure, u16) reader" where
  "jr_u16 \<equiv> read_u16 journal_errors"

abbreviation (input) jr_u32 :: "(failure, u32) reader" where
  "jr_u32 \<equiv> read_u32 journal_errors"

abbreviation (input) jr_u64 :: "(failure, u64) reader" where
  "jr_u64 \<equiv> read_u64 journal_errors"

abbreviation (input) jr_id :: "bool \<Rightarrow> (failure, 'tag StrongId) reader" where
  "jr_id \<equiv> read_id journal_errors"

abbreviation (input) jr_gen :: "(failure, 'tag StrongGeneration) reader" where
  "jr_gen \<equiv> read_generation journal_errors"

abbreviation (input) jr_enum :: "nat \<Rightarrow> 'a list \<Rightarrow> string \<Rightarrow> (failure, 'a) reader" where
  "jr_enum \<equiv> read_enum journal_errors"

abbreviation (input) jr_bool :: "string \<Rightarrow> (failure, bool) reader" where
  "jr_bool field \<equiv> read_bool journal_errors
     (PersistenceCorrupt, ''field '' @ field @ '' holds an invalid boolean value'')"

definition decode_evidence :: "(failure, EvidenceRecord) reader" where
  "decode_evidence =
     after (jr_id False) (\<lambda>link. after (jr_id False) (\<lambda>source. after (jr_id True) (\<lambda>endpoint.
     after (jr_enum 2 direction_values ''evidence direction'') (\<lambda>direction.
     after (jr_enum 10 kind_values ''evidence kind'') (\<lambda>kind.
     after (jr_id False) (\<lambda>observation. after (jr_id False) (\<lambda>publisher. after (jr_id False) (\<lambda>worker_boot.
     after jr_gen (\<lambda>epoch. after jr_gen (\<lambda>source_generation. after jr_u64 (\<lambda>sequence.
     after jr_gen (\<lambda>topology_generation. after jr_gen (\<lambda>endpoint_generation.
     after (jr_enum 2 class_values ''evidence class'') (\<lambda>evidence_class.
     after (jr_enum 6 claim_values ''evidence claim'') (\<lambda>claim.
     after (jr_enum 8 cause_values ''degradation cause'') (\<lambda>cause.
     after jr_u64 (\<lambda>observed.
     after (read_text journal_errors max_detail_length) (\<lambda>detail.
     after (read_blob journal_errors
              (ResourceLimit, ''binary field length exceeds the maximum accepted length'')
              max_evidence_metadata_bytes) (\<lambda>metadata.
     after (jr_enum 5 status_values ''evidence status'') (\<lambda>status.
     after jr_gen (\<lambda>evidence_generation. after jr_gen (\<lambda>commit_sequence.
     after (read_digest journal_errors) (\<lambda>digest.
     let e = \<lparr>ev_key = EvidenceKey link source endpoint direction kind, ev_observation = observation,
              ev_publisher = publisher, ev_worker_boot = worker_boot, ev_epoch = epoch,
              ev_source_generation = source_generation, ev_sequence = sequence,
              ev_topology_generation = topology_generation,
              ev_endpoint_generation = endpoint_generation, ev_class = evidence_class,
              ev_claim = claim, ev_degradation_cause = cause, ev_observed_at_unix_nanos = observed,
              ev_detail = detail, ev_metadata = metadata, ev_status = status,
              ev_evidence_generation = evidence_generation, ev_commit_sequence = commit_sequence,
              ev_record_digest = digest\<rparr>
     in if compute_digest e \<noteq> ev_record_digest e
        then fail_with (PersistenceCorrupt, ''evidence record digest does not match its content'')
        else give e)))))))))))))))))))))))"

definition decode_endpoints :: "(failure, EndpointBinding) reader" where
  "decode_endpoints =
     after (jr_id False) (\<lambda>local. after jr_gen (\<lambda>local_generation. after (jr_id True) (\<lambda>local_device.
     after (jr_id True) (\<lambda>local_port. after (jr_id True) (\<lambda>remote. after jr_gen (\<lambda>remote_generation.
     after (jr_id True) (\<lambda>remote_device. after (jr_id True) (\<lambda>remote_port.
     give \<lparr>eb_local = local, eb_local_generation = local_generation, eb_local_device = local_device,
           eb_local_port = local_port, eb_remote = remote, eb_remote_generation = remote_generation,
           eb_remote_device = remote_device, eb_remote_port = remote_port\<rparr>))))))))"

definition decode_backing :: "(failure, BackingReference) reader" where
  "decode_backing =
     after (jr_id False) (\<lambda>link. after jr_gen (\<lambda>generation.
     give \<lparr>br_link = link, br_generation = generation\<rparr>))"

definition decode_binding :: "(failure, TopologyBinding) reader" where
  "decode_binding =
     after (jr_id True) (\<lambda>fabric. after (jr_id True) (\<lambda>site. after (jr_id False) (\<lambda>link.
     after jr_gen (\<lambda>topology_generation.
     after (jr_enum 9 link_class_values ''link class'') (\<lambda>link_class.
     after (jr_enum 2 symmetry_values ''symmetry guarantee'') (\<lambda>symmetry.
     after decode_endpoints (\<lambda>endpoints.
     after (read_counted journal_errors max_authority_scope_links (ResourceLimit, ''member link count exceeds the accepted maximum'')
              (\<lambda>_. jr_id False)) (\<lambda>members.
     after (read_counted journal_errors max_authority_scope_links (ResourceLimit, ''backing link count exceeds the accepted maximum'')
              (\<lambda>_. decode_backing)) (\<lambda>backings.
     give \<lparr>tb_fabric = fabric, tb_site = site, tb_link = link,
           tb_topology_generation = topology_generation, tb_endpoints = endpoints,
           tb_link_class = link_class, tb_symmetry = symmetry, tb_member_links = members,
           tb_backing_links = backings\<rparr>)))))))))"

definition decode_intent :: "(failure, AdministrativeIntent option) reader" where
  "decode_intent =
     after (jr_bool ''administrative intent presence'') (\<lambda>has_intent.
     if has_intent then
       after (jr_enum 8 state_values ''administrative intent state'') (\<lambda>state.
       after (jr_enum 8 cause_values ''administrative intent cause'') (\<lambda>cause.
       after (jr_id False) (\<lambda>publication. after (jr_id False) (\<lambda>publisher. after jr_gen (\<lambda>generation.
       give (Some \<lparr>ai_state = state, ai_publication = publication, ai_publisher = publisher,
                   ai_generation = generation, ai_cause = cause\<rparr>))))))
     else give None)"

definition decode_history :: "(failure, StateHistoryEntry) reader" where
  "decode_history =
     after jr_gen (\<lambda>state_generation.
     after (jr_enum 8 state_values ''history from state'') (\<lambda>from_state.
     after (jr_enum 8 state_values ''history to state'') (\<lambda>to_state.
     after (jr_enum 9 trigger_values ''history trigger'') (\<lambda>trigger.
     after (jr_enum 9 result_class_values ''history result class'') (\<lambda>history_class.
     after (jr_enum 8 cause_values ''history cause'') (\<lambda>cause.
     after (jr_id True) (\<lambda>publication. after (jr_id True) (\<lambda>publisher.
     after jr_gen (\<lambda>evidence_generation. after jr_gen (\<lambda>topology_generation.
     after (jr_enum 23 outcome_values ''history outcome'') (\<lambda>outcome.
     give \<lparr>hy_state_generation = state_generation, hy_from_state = from_state, hy_to_state = to_state,
           hy_trigger = trigger, hy_result_class = history_class, hy_cause = cause,
           hy_publication = publication, hy_publisher = publisher,
           hy_evidence_generation = evidence_generation,
           hy_topology_generation = topology_generation, hy_outcome = outcome\<rparr>)))))))))))"

text \<open>One turn of the evidence loop; \<open>acc\<close> holds the records read before, whose keys are
  \<^verbatim>\<open>seen_keys\<close>.\<close>

definition decode_owned_evidence :: "LinkId \<Rightarrow> EvidenceRecord list \<Rightarrow> (failure, EvidenceRecord) reader" where
  "decode_owned_evidence link acc =
     after decode_evidence (\<lambda>e.
     if ev_link e \<noteq> link
     then fail_with (PersistenceCorrupt, ''evidence record refers to a different link than its owning record'')
     else if evidence_key_to_string (ev_key e) \<in> set (map (\<lambda>e. evidence_key_to_string (ev_key e)) acc)
     then fail_with (PersistenceCorrupt, ''duplicate evidence key in the journal'')
     else give e)"

text \<open>The history loop runs for its count whatever \<^verbatim>\<open>include_history\<close> is: a zero count leaves the
  empty history of the fresh record.\<close>

definition decode_link :: "(failure, PersistedLink) reader" where
  "decode_link =
     after (jr_id False) (\<lambda>rid. after decode_binding (\<lambda>binding.
     after (jr_enum 8 state_values ''operational state'') (\<lambda>state.
     after (jr_enum 9 result_class_values ''state result class'') (\<lambda>result_class.
     after (jr_enum 8 cause_values ''degradation cause'') (\<lambda>cause.
     after jr_gen (\<lambda>state_generation. after jr_gen (\<lambda>evidence_generation. after jr_gen (\<lambda>global_generation.
     after (jr_id True) (\<lambda>publication. after (jr_id True) (\<lambda>transition. after (jr_id True) (\<lambda>publisher.
     after (jr_enum 23 outcome_values ''outcome code'') (\<lambda>outcome.
     after (jr_bool ''ever established'') (\<lambda>ever_established. after (jr_bool ''durable'') (\<lambda>durable.
     after decode_intent (\<lambda>intent. after (read_digest journal_errors) (\<lambda>provenance.
     after (read_counted journal_errors max_history_per_link (ResourceLimit, ''state history count exceeds the accepted maximum'')
              (\<lambda>_. decode_history)) (\<lambda>history.
     after (read_counted journal_errors max_evidence_per_link (ResourceLimit, ''evidence count exceeds the accepted maximum'')
              (decode_owned_evidence (tb_link binding))) (\<lambda>evidence.
     give \<lparr>pl_record = \<lparr>lr_record = rid, lr_binding = binding, lr_state = state,
             lr_result_class = result_class, lr_degradation_cause = cause,
             lr_state_generation = state_generation, lr_global_generation = global_generation,
             lr_evidence_generation = evidence_generation, lr_last_publication = publication,
             lr_last_transition = transition, lr_last_publisher = publisher,
             lr_last_outcome = outcome, lr_ever_established = ever_established, lr_durable = durable,
             lr_admin_intent = intent, lr_provenance_digest = provenance, lr_history = history\<rparr>,
           pl_evidence = evidence\<rparr>))))))))))))))))))"

definition decode_fence :: "(failure, PublisherFence) reader" where
  "decode_fence =
     after (jr_id False) (\<lambda>publisher. after (jr_id False) (\<lambda>worker_boot. after jr_gen (\<lambda>epoch.
     after (read_text journal_errors max_detail_length) (\<lambda>reason.
     give \<lparr>fn_publisher = publisher, fn_worker_boot = worker_boot, fn_epoch = epoch, fn_reason = reason\<rparr>))))"

text \<open>The checks \<^verbatim>\<open>decode_journal\<close> makes on each link after \<^verbatim>\<open>decode_link\<close>.\<close>

definition check_link :: "LinkStateGeneration \<Rightarrow> GlobalGeneration \<Rightarrow> PersistedLink list \<Rightarrow> PersistedLink \<Rightarrow> failure option" where
  "check_link global_state global acc link =
     (let r = pl_record link in
      if tb_link (lr_binding r) \<in> set (map (\<lambda>l. tb_link (lr_binding (pl_record l))) acc)
      then Some (PersistenceCorrupt, ''duplicate link record in the journal'')
      else if is_zero (tb_topology_generation (lr_binding r))
      then Some (PersistenceCorrupt, ''link record has a zero topology generation'')
      else if lr_state_generation r > global_state
      then Some (PersistenceCorrupt, ''link state generation exceeds the global state generation'')
      else if lr_global_generation r > global
      then Some (PersistenceCorrupt, ''link global generation exceeds the journal global generation'')
      else if lr_state r = LinkOperationalState.Retired \<and> \<not> lr_ever_established r \<and>
              gen_value (lr_state_generation r) = 0
      then Some (PersistenceCorrupt, ''retired link record has no state generation'')
      else None)"

definition decode_checked_link ::
  "LinkStateGeneration \<Rightarrow> GlobalGeneration \<Rightarrow> PersistedLink list \<Rightarrow> (failure, PersistedLink) reader" where
  "decode_checked_link global_state global acc =
     after decode_link (\<lambda>link.
     case check_link global_state global acc link of Some e \<Rightarrow> fail_with e | None \<Rightarrow> give link)"

record JournalHeader =
  jh_version :: u16
  jh_flags :: u16
  jh_layout :: u64
  jh_epoch :: u64
  jh_global :: u64
  jh_global_state :: u64
  jh_topology :: u64
  jh_record_count :: u64
  jh_payload_length :: u64

text \<open>The header: the magic, the version, then the numbers.\<close>

definition decode_header :: "(failure, JournalHeader) reader" where
  "decode_header =
     after jr_u8 (\<lambda>m0. after jr_u8 (\<lambda>m1. after jr_u8 (\<lambda>m2. after jr_u8 (\<lambda>m3.
     if m0 \<noteq> of_char (CHR ''L'') \<or> m1 \<noteq> of_char (CHR ''S'') \<or> m2 \<noteq> of_char (CHR ''F'') \<or>
        m3 \<noteq> of_char (CHR ''1'')
     then fail_with (PersistenceCorrupt, ''journal magic does not match LSF1'')
     else
       after jr_u16 (\<lambda>version. after jr_u16 (\<lambda>flags.
       if version \<noteq> journal_format_version
       then fail_with (UnsupportedState, ''journal format version '' @ format_nat (unat version) @
                         '' is not supported by this build'')
       else
         after jr_u64 (\<lambda>layout. after jr_u64 (\<lambda>epoch. after jr_u64 (\<lambda>global. after jr_u64 (\<lambda>global_state.
         after jr_u64 (\<lambda>topology. after jr_u64 (\<lambda>record_count. after jr_u64 (\<lambda>payload_length.
         give \<lparr>jh_version = version, jh_flags = flags, jh_layout = layout, jh_epoch = epoch,
               jh_global = global, jh_global_state = global_state, jh_topology = topology,
               jh_record_count = record_count, jh_payload_length = payload_length\<rparr>)))))))))))))"

definition decode_payload :: "JournalHeader \<Rightarrow> (failure, JournalPayload) reader" where
  "decode_payload header =
     after jr_u32 (\<lambda>links.
     if unat links \<noteq> unat (jh_record_count header)
     then fail_with (PersistenceCorrupt, ''journal link count does not match the header record count'')
     else
       after (read_many (decode_checked_link (Gen (jh_global_state header)) (Gen (jh_global header)))
                (unat links) []) (\<lambda>decoded.
       after (read_counted journal_errors max_publishers (ResourceLimit, ''fence count exceeds the accepted maximum'') (\<lambda>_. decode_fence)) (\<lambda>fences.
       give \<lparr>jp_layout = Gen (jh_layout header), jp_epoch = Gen (jh_epoch header),
             jp_global_generation = Gen (jh_global header),
             jp_global_state_generation = Gen (jh_global_state header),
             jp_topology_generation = Gen (jh_topology header), jp_snapshot_counter = 0,
             jp_transition_counter = 0, jp_links = decoded, jp_fences = fences\<rparr>)))"

definition decode_checked :: "bytes \<Rightarrow> PersistenceConfig \<Rightarrow> failure + JournalPayload \<times> JournalSummary" where
  "decode_checked data config =
     (if validate_persistence config \<noteq> [] then Inl (MalformedRequest, validate_persistence config)
      else if length data < journal_header_bytes + journal_trailer_bytes
      then Inl (PersistenceCorrupt, ''journal is shorter than its fixed frame'')
      else case decode_header (take journal_header_bytes data) of
        Inl e \<Rightarrow> Inl e
      | Inr (header, _) \<Rightarrow>
          let frame = journal_header_bytes + journal_trailer_bytes;
              payload_length = unat (jh_payload_length header);
              payload_span = take payload_length (drop journal_header_bytes data);
              trailer_span = drop (length data - journal_trailer_bytes) data;
              stored_payload_digest = Digest (take digest_byte_count trailer_span);
              stored_file_digest = Digest (take digest_byte_count (drop digest_byte_count trailer_span))
          in if unat (jh_record_count header) > pc_max_records config
             then Inl (ResourceLimit, ''journal declares more records than the configured maximum'')
             else if payload_length > length data - frame
             then Inl (PersistenceCorrupt, ''journal payload is truncated'')
             else if payload_length \<noteq> length data - frame
             then Inl (PersistenceCorrupt, ''journal payload length does not match the file size'')
             else if sha256 payload_span \<noteq> stored_payload_digest
             then Inl (PersistenceCorrupt, ''journal payload digest does not match its content'')
             else if finalize (hasher_update (take (length data - journal_trailer_bytes) data) new_hasher)
                  \<noteq> stored_file_digest
             then Inl (PersistenceCorrupt, ''journal file digest does not match its content'')
             else case decode_payload header payload_span of
                 Inl e \<Rightarrow> Inl e
               | Inr (decoded, rest) \<Rightarrow>
                   if rest \<noteq> []
                   then Inl (PersistenceCorrupt, ''journal payload holds trailing bytes after the last record'')
                   else Inr (decoded, summarize (jh_version header) (ucast (jh_flags header)) decoded
                               stored_payload_digest stored_file_digest (length data)))"

text \<open>The out parameters keep their values when decoding fails.\<close>

definition decode_journal ::
  "bytes \<Rightarrow> PersistenceConfig \<Rightarrow> JournalPayload \<times> JournalSummary \<Rightarrow> Outcome \<times> JournalPayload \<times> JournalSummary" where
  "decode_journal data config before =
     (case decode_checked data config of
        Inl (code, detail) \<Rightarrow> (make_outcome code detail, before)
      | Inr decoded \<Rightarrow> (make_outcome Committed ''journal decoded'', decoded))"

section \<open>What can be written and read back\<close>

definition evidence_fits :: "EvidenceRecord \<Rightarrow> bool" where
  "evidence_fits e \<longleftrightarrow>
     id_fits False (ev_link e) \<and> id_fits False (ev_source e) \<and> id_fits True (ev_endpoint e) \<and>
     id_fits False (ev_observation e) \<and> id_fits False (ev_publisher e) \<and> id_fits False (ev_worker_boot e) \<and>
     validate_text (ev_detail e) max_detail_length = None \<and>
     length (ev_metadata e) \<le> max_evidence_metadata_bytes \<and> compute_digest e = ev_record_digest e"

definition endpoints_fit :: "EndpointBinding \<Rightarrow> bool" where
  "endpoints_fit b \<longleftrightarrow>
     id_fits False (eb_local b) \<and> id_fits True (eb_local_device b) \<and> id_fits True (eb_local_port b) \<and>
     id_fits True (eb_remote b) \<and> id_fits True (eb_remote_device b) \<and> id_fits True (eb_remote_port b)"

definition binding_fits :: "TopologyBinding \<Rightarrow> bool" where
  "binding_fits b \<longleftrightarrow>
     id_fits True (tb_fabric b) \<and> id_fits True (tb_site b) \<and> id_fits False (tb_link b) \<and>
     endpoints_fit (tb_endpoints b) \<and>
     length (tb_member_links b) \<le> max_authority_scope_links \<and> list_all (id_fits False) (tb_member_links b) \<and>
     length (tb_backing_links b) \<le> max_authority_scope_links \<and>
     list_all (\<lambda>r. id_fits False (br_link r)) (tb_backing_links b)"

definition intent_fits :: "AdministrativeIntent option \<Rightarrow> bool" where
  "intent_fits intent \<longleftrightarrow>
     (case intent of None \<Rightarrow> True
      | Some ai \<Rightarrow> id_fits False (ai_publication ai) \<and> id_fits False (ai_publisher ai))"

definition history_fits :: "StateHistoryEntry \<Rightarrow> bool" where
  "history_fits h \<longleftrightarrow> id_fits True (hy_publication h) \<and> id_fits True (hy_publisher h)"

definition link_fits :: "PersistedLink \<Rightarrow> bool" where
  "link_fits l \<longleftrightarrow>
     (let r = pl_record l in
      id_fits False (lr_record r) \<and> binding_fits (lr_binding r) \<and>
      id_fits True (lr_last_publication r) \<and> id_fits True (lr_last_transition r) \<and>
      id_fits True (lr_last_publisher r) \<and> intent_fits (lr_admin_intent r) \<and>
      length (digest_bytes (lr_provenance_digest r)) = digest_byte_count \<and>
      length (lr_history r) \<le> max_history_per_link \<and> list_all history_fits (lr_history r) \<and>
      length (pl_evidence l) \<le> max_evidence_per_link \<and> list_all evidence_fits (pl_evidence l) \<and>
      list_all (\<lambda>e. ev_link e = tb_link (lr_binding r)) (pl_evidence l) \<and>
      distinct (map ev_key (pl_evidence l)))"

definition fence_fits :: "PublisherFence \<Rightarrow> bool" where
  "fence_fits f \<longleftrightarrow>
     id_fits False (fn_publisher f) \<and> id_fits False (fn_worker_boot f) \<and>
     validate_text (fn_reason f) max_detail_length = None"

text \<open>The agreement of each link with the header that the decoder asks for.\<close>

definition link_consistent :: "JournalPayload \<Rightarrow> PersistedLink \<Rightarrow> bool" where
  "link_consistent p l \<longleftrightarrow>
     (let r = pl_record l in
      \<not> is_zero (tb_topology_generation (lr_binding r)) \<and>
      lr_state_generation r \<le> jp_global_state_generation p \<and>
      lr_global_generation r \<le> jp_global_generation p \<and>
      (lr_state r = LinkOperationalState.Retired \<and> \<not> lr_ever_established r \<longrightarrow>
        gen_value (lr_state_generation r) \<noteq> 0))"

definition journal_fits :: "JournalPayload \<Rightarrow> bool" where
  "journal_fits p \<longleftrightarrow>
     list_all link_fits (jp_links p) \<and> list_all (link_consistent p) (jp_links p) \<and>
     distinct (map (\<lambda>l. tb_link (lr_binding (pl_record l))) (jp_links p)) \<and>
     length (jp_fences p) \<le> max_publishers \<and> list_all fence_fits (jp_fences p)"

lemmas limit_defs = max_identifier_length_def max_detail_length_def max_evidence_metadata_bytes_def
  max_authority_scope_links_def max_history_per_link_def max_evidence_per_link_def max_publishers_def
  max_persisted_records_def

lemma evidence_collapse:
  "\<lparr>ev_key = ev_key e, ev_observation = ev_observation e, ev_publisher = ev_publisher e,
    ev_worker_boot = ev_worker_boot e, ev_epoch = ev_epoch e,
    ev_source_generation = ev_source_generation e, ev_sequence = ev_sequence e,
    ev_topology_generation = ev_topology_generation e,
    ev_endpoint_generation = ev_endpoint_generation e, ev_class = ev_class e, ev_claim = ev_claim e,
    ev_degradation_cause = ev_degradation_cause e,
    ev_observed_at_unix_nanos = ev_observed_at_unix_nanos e, ev_detail = ev_detail e,
    ev_metadata = ev_metadata e, ev_status = ev_status e,
    ev_evidence_generation = ev_evidence_generation e, ev_commit_sequence = ev_commit_sequence e,
    ev_record_digest = ev_record_digest e\<rparr> = e"
  by simp

lemma evidence_back: "evidence_fits e \<Longrightarrow> decode_evidence (encode_evidence e @ rest) = Inr (e, rest)"
proof -
  assume fits: "evidence_fits e"
  then have "length (digest_bytes (ev_record_digest e)) = digest_byte_count"
    by (metis evidence_fits_def length_compute_digest)
  with fits show ?thesis
    by (simp add: decode_evidence_def encode_evidence_def field_back limit_defs evidence_fits_def give_def Let_def
        evidence_collapse)
qed

interpretation evidence: codec encode_evidence decode_evidence evidence_fits
  by unfold_locales (rule evidence_back)

interpretation endpoints: codec encode_endpoints decode_endpoints endpoints_fit
  by unfold_locales (simp add: endpoints_fit_def encode_endpoints_def decode_endpoints_def field_back give_def)

interpretation backing: codec encode_backing decode_backing "\<lambda>r. id_fits False (br_link r)"
  by unfold_locales (simp add: encode_backing_def decode_backing_def field_back give_def)

interpretation binding: codec encode_binding decode_binding binding_fits
  by unfold_locales
    (simp add: binding_fits_def encode_binding_def decode_binding_def field_back limit_defs
      endpoints.after_read_back ident.read_list_back backing.read_list_back give_def)

interpretation intent: codec encode_intent decode_intent intent_fits
  by unfold_locales
    (auto simp: intent_fits_def encode_intent_def decode_intent_def field_back give_def split: option.split)

interpretation history: codec encode_history decode_history history_fits
  by unfold_locales (simp add: history_fits_def encode_history_def decode_history_def field_back give_def)

interpretation fence: codec encode_fence decode_fence fence_fits
  by unfold_locales (simp add: fence_fits_def encode_fence_def decode_fence_def field_back limit_defs give_def)

text \<open>Keys render injectively: identifiers hold neither blanks nor angle brackets.\<close>

definition no_blank :: "string \<Rightarrow> bool" where
  "no_blank t \<longleftrightarrow> CHR '' '' \<notin> set t"

lemma blank_split:
  "no_blank a \<Longrightarrow> no_blank b \<Longrightarrow> a @ CHR '' '' # x = b @ CHR '' '' # y \<longleftrightarrow> a = b \<and> x = y"
proof (induction a arbitrary: b)
  case Nil
  then show ?case by (cases b) (auto simp: no_blank_def)
next
  case (Cons c a)
  then show ?case by (cases b) (auto simp: no_blank_def)
qed

lemma identifier_chars: "validate_identifier v = Ok \<Longrightarrow> ch \<in> set v \<Longrightarrow> is_alphanumeric ch \<or> is_separator ch"
  using scan_identifier_None [of v] scan_identifier_not_Ok [of v]
  by (auto simp: validate_identifier_def split: option.splits if_splits)

lemma id_fits_chars:
  assumes "id_fits allow_empty i"
  shows "no_blank (id_value i)" and "id_value i \<noteq> ''<link>''"
proof -
  have "CHR '' '' \<notin> set (id_value i)" and "CHR ''<'' \<notin> set (id_value i)"
    using assms identifier_chars [of "id_value i"]
    by (force simp: id_fits_def is_alphanumeric_def is_separator_def less_eq_char_def)+
  then show "no_blank (id_value i)" and "id_value i \<noteq> ''<link>''"
    by (auto simp: no_blank_def)
qed

definition endpoint_text :: "EndpointId \<Rightarrow> string" where
  "endpoint_text i = (if valid i then id_value i else ''<link>'')"

lemma endpoint_text_inj:
  assumes "id_fits True i" and "id_fits True j" and "endpoint_text i = endpoint_text j"
  shows "i = j"
  using assms id_fits_chars(2) [OF assms(1)] id_fits_chars(2) [OF assms(2)]
  by (cases i; cases j) (auto simp: endpoint_text_def split: if_splits)

lemma endpoint_text_no_blank: "id_fits True i \<Longrightarrow> no_blank (endpoint_text i)"
  using id_fits_chars(1) [of True i] by (auto simp: endpoint_text_def no_blank_def)

lemma direction_text: "no_blank (to_string_direction d)" "to_string_direction d = to_string_direction d' \<longleftrightarrow> d = d'"
  by (cases d; cases d'; simp add: no_blank_def)+

lemma kind_text: "to_string_kind k = to_string_kind k' \<longleftrightarrow> k = k'"
  by (cases k; cases k'; simp)

definition key_fits :: "EvidenceKey \<Rightarrow> bool" where
  "key_fits k \<longleftrightarrow> id_fits False (key_link k) \<and> id_fits False (key_source k) \<and> id_fits True (key_endpoint k)"

lemma key_string_inj:
  assumes k: "key_fits k" and l: "key_fits l" and eq: "evidence_key_to_string k = evidence_key_to_string l"
  shows "k = l"
proof -
  note blanks = k [unfolded key_fits_def] l [unfolded key_fits_def]
  have "id_value (key_link k) = id_value (key_link l) \<and> id_value (key_source k) = id_value (key_source l) \<and>
      endpoint_text (key_endpoint k) = endpoint_text (key_endpoint l) \<and> key_direction k = key_direction l \<and>
      key_kind k = key_kind l"
    using eq blanks unfolding evidence_key_to_string_def endpoint_text_def [symmetric]
    by (simp add: blank_split id_fits_chars(1) [of False] endpoint_text_no_blank direction_text kind_text)
  with blanks endpoint_text_inj show ?thesis
    by (cases k; cases l) (auto intro: StrongId.expand)
qed

lemma evidence_fits_key: "evidence_fits e \<Longrightarrow> key_fits (ev_key e)"
  by (simp add: evidence_fits_def key_fits_def)

lemma owned_evidence_back:
  assumes "list_all evidence_fits xs" and "list_all (\<lambda>e. ev_link e = link) xs"
    and "distinct (map ev_key xs)" and "xs = ys @ z # zs"
  shows "decode_owned_evidence link ys (encode_evidence z @ r) = Inr (z, r)"
proof -
  have z: "evidence_fits z" "ev_link z = link" and fresh: "ev_key z \<notin> ev_key ` set ys"
    and ys: "list_all evidence_fits ys"
    using assms by auto
  have "evidence_key_to_string (ev_key z) \<noteq> evidence_key_to_string (ev_key y)" if "y \<in> set ys" for y
    using that z(1) ys fresh key_string_inj evidence_fits_key by (metis image_eqI list_all_iff)
  with z show ?thesis
    by (auto simp: decode_owned_evidence_def evidence.after_read_back give_def)
qed

text \<open>A link is read back as it was written, with its history or, when that was left out, without.\<close>

lemma link_back:
  assumes "link_fits l" and "include_history \<or> lr_history (pl_record l) = []"
  shows "decode_link (encode_link include_history l @ rest) = Inr (l, rest)"
proof -
  let ?r = "pl_record l"
  note fits = assms(1) [unfolded link_fits_def Let_def]
  have evidence: "after (read_counted journal_errors max_evidence_per_link
        (ResourceLimit, ''evidence count exceeds the accepted maximum'')
        (decode_owned_evidence (tb_link (lr_binding ?r)))) f
      (append_u32 (of_nat (length (pl_evidence l))) @ concat (map encode_evidence (pl_evidence l)) @ rest) =
      f (pl_evidence l) rest" for f :: "_ \<Rightarrow> (failure, PersistedLink) reader"
  proof (rule read_counted_back)
    show "decode_owned_evidence (tb_link (lr_binding ?r)) ys (encode_evidence z @ more) = Inr (z, more)"
      if "pl_evidence l = ys @ z # zs" for ys z zs more
      using owned_evidence_back [OF _ _ _ that] fits by blast
  qed (use fits in \<open>auto simp: limit_defs\<close>)
  have history: "after (read_counted journal_errors max_history_per_link
        (ResourceLimit, ''state history count exceeds the accepted maximum'') (\<lambda>_. decode_history)) f
      ((if include_history
        then append_u32 (of_nat (length (lr_history ?r))) @ concat (map encode_history (lr_history ?r))
        else append_u32 0) @ more) = f (lr_history ?r) more"
    for f :: "_ \<Rightarrow> (failure, PersistedLink) reader" and more
  proof -
    have "(if include_history
        then append_u32 (of_nat (length (lr_history ?r))) @ concat (map encode_history (lr_history ?r))
        else append_u32 0) @ more =
      append_u32 (of_nat (length (lr_history ?r))) @ concat (map encode_history (lr_history ?r)) @ more"
      using assms(2) by auto
    then show ?thesis
      using fits by (simp add: history.read_list_back limit_defs)
  qed
  show ?thesis
    using fits by (simp add: decode_link_def encode_link_def Let_def field_back binding.after_read_back
        intent.after_read_back history evidence give_def)
qed

section \<open>The whole journal\<close>

definition header_of :: "JournalPayload \<Rightarrow> PersistenceConfig \<Rightarrow> bytes \<Rightarrow> JournalHeader" where
  "header_of payload config body =
     \<lparr>jh_version = journal_format_version, jh_flags = (if pc_include_history config then 1 else 0),
      jh_layout = gen_value (jp_layout payload), jh_epoch = gen_value (jp_epoch payload),
      jh_global = gen_value (jp_global_generation payload),
      jh_global_state = gen_value (jp_global_state_generation payload),
      jh_topology = gen_value (jp_topology_generation payload),
      jh_record_count = of_nat (length (jp_links payload)), jh_payload_length = of_nat (length body)\<rparr>"

lemma magic_bytes:
  "bytes_of_string ''LSF1'' @ rest =
    append_u8 (of_char (CHR ''L'')) @ append_u8 (of_char (CHR ''S'')) @ append_u8 (of_char (CHR ''F'')) @
    append_u8 (of_char (CHR ''1'')) @ rest"
  by (simp add: bytes_of_string_def append_u8_def)

lemma encode_header_raw:
  "encode_header payload config body =
     bytes_of_string ''LSF1'' @ append_u16 journal_format_version @
     append_u16 (if pc_include_history config then 1 else 0) @
     append_u64 (gen_value (jp_layout payload)) @ append_u64 (gen_value (jp_epoch payload)) @
     append_u64 (gen_value (jp_global_generation payload)) @
     append_u64 (gen_value (jp_global_state_generation payload)) @
     append_u64 (gen_value (jp_topology_generation payload)) @
     append_u64 (of_nat (length (jp_links payload))) @ append_u64 (of_nat (length body)) @ []"
  by (simp add: encode_header_def Let_def journal_header_bytes_def)

lemma length_encode_header [simp]: "length (encode_header payload config body) = journal_header_bytes"
  by (simp add: encode_header_raw journal_header_bytes_def)

lemma header_back: "decode_header (encode_header payload config body) = Inr (header_of payload config body, [])"
  unfolding encode_header_raw magic_bytes
  by (simp add: decode_header_def header_of_def field_back give_def del: append_Nil2)

lemma checked_link_back:
  assumes fits: "journal_fits p" and hist: "hist \<or> list_all (\<lambda>l. lr_history (pl_record l) = []) (jp_links p)"
    and split: "jp_links p = ys @ z # zs"
  shows "decode_checked_link (jp_global_state_generation p) (jp_global_generation p) ys (encode_link hist z @ r) =
    Inr (z, r)"
proof -
  have z: "link_fits z" "link_consistent p z" "hist \<or> lr_history (pl_record z) = []"
    and fresh: "tb_link (lr_binding (pl_record z)) \<notin> set (map (\<lambda>l. tb_link (lr_binding (pl_record l))) ys)"
    using fits hist split by (auto simp: journal_fits_def)
  have "check_link (jp_global_state_generation p) (jp_global_generation p) ys z = None"
    using z(2) fresh by (auto simp: check_link_def link_consistent_def Let_def not_less)
  with link_back [OF z(1,3)] show ?thesis
    by (simp add: decode_checked_link_def after_def give_def)
qed

definition recorded :: "JournalPayload \<Rightarrow> JournalPayload" where
  "recorded p = p\<lparr>jp_snapshot_counter := 0, jp_transition_counter := 0\<rparr>"

lemma payload_back:
  assumes fits: "journal_fits p" and len: "length (jp_links p) < 2 ^ 32"
    and hist: "pc_include_history config \<or> list_all (\<lambda>l. lr_history (pl_record l) = []) (jp_links p)"
  shows "decode_payload (header_of p config body) (encode_payload p config) = Inr (recorded p, [])"
proof -
  let ?enc = "encode_link (pc_include_history config)"
  have gens: "Gen (gen_value g) = g" for g :: "'tag StrongGeneration" by (cases g) simp
  have links: "after (read_many (decode_checked_link (jp_global_state_generation p) (jp_global_generation p))
        (length (jp_links p)) []) f (concat (map ?enc (jp_links p)) @ more) = f ([] @ jp_links p) more"
    for f :: "_ \<Rightarrow> (failure, JournalPayload) reader" and more
    by (rule read_many_back) (use checked_link_back [OF fits hist] in simp)
  have fences: "after (read_counted journal_errors max_publishers
        (ResourceLimit, ''fence count exceeds the accepted maximum'') (\<lambda>_. decode_fence)) f
      (append_u32 (of_nat (length (jp_fences p))) @ concat (map encode_fence (jp_fences p)) @ []) = f (jp_fences p) []"
    for f :: "_ \<Rightarrow> (failure, JournalPayload) reader"
    by (rule fence.read_list_back) (use fits in \<open>simp_all add: journal_fits_def limit_defs\<close>)
  have counts: "unat (of_nat (length (jp_links p)) :: u32) = length (jp_links p)"
    "unat (of_nat (length (jp_links p)) :: u64) = length (jp_links p)"
    using len by (simp_all add: unat_of_nat take_bit_eq_mod)
  show ?thesis
    using counts links fences
    by (simp add: decode_payload_def encode_payload_def header_of_def field_back gens give_def recorded_def)
qed

lemma journal_back:
  assumes config: "validate_persistence config = []" and fits: "journal_fits p"
    and hist: "pc_include_history config \<or> list_all (\<lambda>l. lr_history (pl_record l) = []) (jp_links p)"
    and links: "length (jp_links p) \<le> pc_max_records config"
    and size: "length (encode_payload p config) < 2 ^ 64"
  shows "decode_checked (fst (encode_journal p config)) config = Inr (recorded p, snd (encode_journal p config))"
proof -
  define body where "body = encode_payload p config"
  define header where "header = encode_header p config body"
  define pd where "pd = sha256 body"
  define fd where "fd = finalize (hasher_update body (hasher_update header new_hasher))"
  define data where "data = header @ body @ digest_bytes pd @ digest_bytes fd"
  have enc: "encode_journal p config = (data, summarize journal_format_version
      (if pc_include_history config then 1 else 0) p pd fd (length data))"
    by (simp add: encode_journal_def Let_def body_def header_def pd_def fd_def data_def append_digest_def)
  have len: "length header = journal_header_bytes" "length (digest_bytes pd) = digest_byte_count"
    "length (digest_bytes fd) = digest_byte_count"
    by (simp_all add: header_def pd_def fd_def length_finalize)
  have max: "pc_max_records config \<le> 1000000"
    using config by (auto simp: validate_persistence_def Let_def max_persisted_records_def split: if_splits)
  have small: "length (jp_links p) < 2 ^ 32" using links max by simp
  have counts: "unat (jh_record_count (header_of p config body)) = length (jp_links p)"
    "unat (jh_payload_length (header_of p config body)) = length body"
    using small size by (simp_all add: header_of_def unat_of_nat take_bit_eq_mod body_def)
  have fd': "finalize (hasher_update (header @ body) new_hasher) = fd"
    by (simp add: fd_def hasher_update_append)
  have same: "summarize v fl (recorded p) a b n = summarize v fl p a b n" for v fl a b n
    by (simp add: summarize_def recorded_def)
  have total: "length data = journal_header_bytes + length body + journal_trailer_bytes"
    by (simp add: data_def len journal_trailer_bytes_def)
  have parts: "take journal_header_bytes data = header"
    "take (length body) (drop journal_header_bytes data) = body"
    "take (journal_header_bytes + length body) data = header @ body"
    "take digest_byte_count (drop (journal_header_bytes + length body) data) = digest_bytes pd"
    "take digest_byte_count (drop (digest_byte_count + (journal_header_bytes + length body)) data) = digest_bytes fd"
    by (simp_all add: data_def len)
  have head: "jh_version (header_of p config body) = journal_format_version"
    "ucast (jh_flags (header_of p config body)) = (if pc_include_history config then 1 else 0 :: u64)"
    by (simp_all add: header_of_def)
  show ?thesis
    using config links payload_back [OF fits small hist, of body] header_back [of p config body] fd' total
    by (simp add: enc decode_checked_def Let_def parts counts head header_def [symmetric] body_def [symmetric]
        pd_def [symmetric] same)
qed

section \<open>What the decoder accepts\<close>

lemmas yields_rules = yields_after [OF yields_id] yields_after [OF yields_text] yields_after [OF yields_blob]
  yields_after [OF yields_digest] yields_after [OF yields_any]

lemma yields_evidence: "yields decode_evidence evidence_fits"
  unfolding decode_evidence_def
  by (rule yields_rules)+ (auto simp: Let_def evidence_fits_def intro: yields_fail yields_give)

lemma yields_endpoints: "yields decode_endpoints endpoints_fit"
  unfolding decode_endpoints_def
  by (rule yields_rules)+ (simp add: endpoints_fit_def yields_give)

lemma yields_backing: "yields decode_backing (\<lambda>r. id_fits False (br_link r))"
  unfolding decode_backing_def
  by (rule yields_rules)+ (simp add: yields_give)

lemma yields_binding: "yields decode_binding binding_fits"
  unfolding decode_binding_def
  by (rule yields_after [OF yields_endpoints] yields_after [OF ident.yields_some]
      yields_after [OF yields_list [OF yields_backing]] yields_rules)+
    (simp add: binding_fits_def yields_give)

lemma yields_intent: "yields decode_intent intent_fits"
  unfolding decode_intent_def
proof (rule yields_after [OF yields_any], goal_cases)
  case (1 has_intent)
  show ?case
  proof (cases has_intent)
    case True
    show ?thesis
      unfolding if_P [OF True] by (rule yields_rules)+ (simp add: intent_fits_def yields_give)
  qed (simp add: intent_fits_def yields_give)
qed

lemma yields_history: "yields decode_history history_fits"
  unfolding decode_history_def
  by (rule yields_rules)+ (simp add: history_fits_def yields_give)

lemma yields_fence: "yields decode_fence fence_fits"
  unfolding decode_fence_def
  by (rule yields_rules)+ (simp add: fence_fits_def yields_give)

lemma yields_owned:
  "yields (decode_owned_evidence link acc)
    (\<lambda>e. evidence_fits e \<and> ev_link e = link \<and> ev_key e \<notin> set (map ev_key acc))"
  unfolding decode_owned_evidence_def
  by (rule yields_after [OF yields_evidence]) (auto intro!: yields_fail yields_give)

lemma yields_link: "yields decode_link link_fits"
  unfolding decode_link_def
  by (rule yields_after [OF yields_binding] yields_after [OF yields_intent]
      yields_after [OF yields_list [OF yields_history]] yields_after [OF yields_counted [OF yields_owned]]
      yields_rules)+
    (simp add: link_fits_def yields_give in_turn_conj in_turn_all in_turn_fresh)

interpretation evidence: exact_codec encode_evidence decode_evidence evidence_fits
  by unfold_locales (rule yields_evidence)

interpretation endpoints: exact_codec encode_endpoints decode_endpoints endpoints_fit
  by unfold_locales (rule yields_endpoints)

interpretation binding: exact_codec encode_binding decode_binding binding_fits
  by unfold_locales (rule yields_binding)

interpretation intent: exact_codec encode_intent decode_intent intent_fits
  by unfold_locales (rule yields_intent)

interpretation history: exact_codec encode_history decode_history history_fits
  by unfold_locales (rule yields_history)

interpretation fence: exact_codec encode_fence decode_fence fence_fits
  by unfold_locales (rule yields_fence)

interpretation link: exact_codec "encode_link True" decode_link link_fits
  by unfold_locales (simp_all add: link_back yields_link)

lemma yields_checked_link:
  "yields (decode_checked_link global_state global acc)
    (\<lambda>l. link_fits l \<and> check_link global_state global acc l = None)"
  unfolding decode_checked_link_def
  by (rule yields_after [OF yields_link]) (auto split: option.split intro: yields_fail yields_give)

lemma checked_links:
  "in_turn (\<lambda>acc l. link_fits l \<and> check_link global_state global acc l = None) ls \<Longrightarrow>
    list_all link_fits ls \<and> distinct (map (\<lambda>l. tb_link (lr_binding (pl_record l))) ls) \<and>
    list_all (\<lambda>l. check_link global_state global [] l = None) ls"
  by (induction ls rule: rev_induct) (auto simp: in_turn_snoc check_link_def Let_def split: if_splits)

lemma check_link_consistent:
  "check_link (jp_global_state_generation p) (jp_global_generation p) [] l = None \<longleftrightarrow> link_consistent p l"
  by (auto simp: check_link_def link_consistent_def Let_def not_less)

lemma yields_payload: "yields (decode_payload header) journal_fits"
  unfolding decode_payload_def
  by (rule yields_after [OF yields_any], rule yields_guard,
      rule yields_after [OF yields_many [OF yields_checked_link in_turn_Nil]],
      rule yields_after [OF yields_list [OF yields_fence]], rule yields_give)
    (auto simp: journal_fits_def list_all_iff check_link_consistent [symmetric] dest!: checked_links)

lemma decode_checked_fits: "decode_checked data config = Inr (p, s) \<Longrightarrow> journal_fits p"
  by (auto simp: decode_checked_def Let_def split: if_splits sum.splits prod.splits
      dest!: yieldsD [OF yields_payload])

lemma decode_checked_sealed:
  assumes "decode_checked data config = Inr (p, s)"
  shows "validate_persistence config = []" and "length (jp_links p) \<le> pc_max_records config"
    and "drop (length data - 64) data =
      digest_bytes (sha256 (take (length data - 128) (drop 64 data))) @
      digest_bytes (sha256 (take (length data - 64) data))"
proof -
  obtain header tl rest where config: "validate_persistence config = []"
    and len: "\<not> length data < 128" and count: "unat (jh_record_count header) \<le> pc_max_records config"
    and pl: "unat (jh_payload_length header) = length data - 128"
    and pd: "sha256 (take (length data - 128) (drop 64 data)) = Digest (take 32 (drop (length data - 64) data))"
    and fd: "sha256 (take (length data - 64) data) = Digest (take 32 (drop 32 (drop (length data - 64) data)))"
    and dec: "decode_payload header (take (length data - 128) (drop 64 data)) = Inr (p, rest)"
    using assms
    by (auto simp: decode_checked_def Let_def sha256_def journal_header_bytes_def journal_trailer_bytes_def
        digest_byte_count_def not_less split: if_splits sum.splits)
  from config show "validate_persistence config = []" .
  have "yields (decode_payload header) (\<lambda>p. length (jp_links p) = unat (jh_record_count header))"
    unfolding decode_payload_def
    by (rule yields_after [OF yields_any], rule yields_guard,
        rule yields_after [OF yields_many [OF yields_checked_link in_turn_Nil]],
        rule yields_after [OF yields_any], rule yields_give) simp
  from yieldsD [OF this dec] count show "length (jp_links p) \<le> pc_max_records config" by simp
  have "drop (length data - 64) data = take 32 (drop (length data - 64) data) @ take 32 (drop 32 (drop (length data - 64) data))"
    using len append_take_drop_id [of 32 "drop (length data - 64) data"] by simp
  then show "drop (length data - 64) data =
      digest_bytes (sha256 (take (length data - 128) (drop 64 data))) @ digest_bytes (sha256 (take (length data - 64) data))"
    by (simp only: pd fd Digest.sel)
qed

text \<open>Every failure of the decoder is a specific outcome.\<close>

definition decode_failure :: "failure \<Rightarrow> bool" where
  "decode_failure e \<longleftrightarrow> fst e \<in> {PersistenceCorrupt, ResourceLimit, UnsupportedState}"

lemma blamed_journal: "blamed journal_errors decode_failure"
  by (simp add: blamed_def journal_errors_def decode_failure_def)

lemmas blames_rules = blames_after blames_if blames_give blames_fail blames_many blames_counted
  blames_number blames_text blames_field blamed_journal

lemma blames_evidence: "blames decode_evidence decode_failure"
  unfolding decode_evidence_def Let_def by (intro blames_rules) (simp_all add: decode_failure_def)

lemma blames_binding: "blames decode_binding decode_failure"
  unfolding decode_binding_def decode_endpoints_def decode_backing_def
  by (intro blames_rules) (simp_all add: decode_failure_def)

lemma blames_intent: "blames decode_intent decode_failure"
  unfolding decode_intent_def by (intro blames_rules) (simp_all add: decode_failure_def)

lemma blames_link: "blames decode_link decode_failure"
  unfolding decode_link_def decode_history_def decode_owned_evidence_def
  by (intro blames_rules blames_binding blames_intent blames_evidence) (simp_all add: decode_failure_def)

lemma blames_checked_link: "blames (decode_checked_link global_state global acc) decode_failure"
  unfolding decode_checked_link_def
  by (intro blames_after blames_link)
    (auto simp: check_link_def Let_def decode_failure_def intro!: blames_give blames_fail split: option.split if_splits)

lemma blames_payload: "blames (decode_payload header) decode_failure"
  unfolding decode_payload_def decode_fence_def
  by (intro blames_rules blames_checked_link) (simp_all add: decode_failure_def)

lemma blames_header: "blames decode_header decode_failure"
  unfolding decode_header_def by (intro blames_rules) (simp_all add: decode_failure_def)

lemma decode_checked_failure:
  "decode_checked data config = Inl (code, detail) \<Longrightarrow>
    code \<in> {MalformedRequest, PersistenceCorrupt, ResourceLimit, UnsupportedState}"
  by (auto simp: decode_checked_def Let_def decode_failure_def split: if_splits sum.splits prod.splits
      dest!: blamesD [OF blames_payload] blamesD [OF blames_header])

text \<open>
  C21: a payload that fits the limits of the format is read back from its journal exactly as it was
  written, with the summary the encoder computed.  The two counters of the payload are not part of
  the format and come back as zero.
\<close>

theorem journal_roundtrip:
  assumes "validate_persistence config = []" and "journal_fits p"
    and "pc_include_history config \<or> list_all (\<lambda>l. lr_history (pl_record l) = []) (jp_links p)"
    and "length (jp_links p) \<le> pc_max_records config"
    and "length (encode_payload p config) < 2 ^ 64"
  shows "decode_journal (fst (encode_journal p config)) config before =
    (make_outcome Committed ''journal decoded'',
     p\<lparr>jp_snapshot_counter := 0, jp_transition_counter := 0\<rparr>, snd (encode_journal p config))"
  using journal_back [OF assms] by (simp add: decode_journal_def recorded_def)

text \<open>
  C22: what \<^verbatim>\<open>decode_journal\<close> accepts is a well formed payload within the configured bounds, and the
  trailer of the journal seals its bytes: it is the digest of the body followed by the digest of
  everything before it.  A refusal is one of four specific outcomes and leaves the payload and the
  summary of the caller as they were.
\<close>

theorem decode_journal_sound:
  assumes "decode_journal data config before = (oc, p, s)"
  shows "if oc_code oc \<noteq> Committed
    then oc_code oc \<in> {MalformedRequest, PersistenceCorrupt, ResourceLimit, UnsupportedState} \<and> (p, s) = before
    else validate_persistence config = [] \<and> journal_fits p \<and> length (jp_links p) \<le> pc_max_records config \<and>
      drop (length data - 64) data =
        digest_bytes (sha256 (take (length data - 128) (drop 64 data))) @
        digest_bytes (sha256 (take (length data - 64) data))"
proof (cases "decode_checked data config")
  case (Inl e)
  then show ?thesis
    using assms decode_checked_failure [of data config "fst e" "snd e"]
    by (auto simp: decode_journal_def make_outcome_def split: prod.splits)
next
  case (Inr decoded)
  then have "decode_checked data config = Inr (p, s)" and "oc_code oc = Committed"
    using assms by (auto simp: decode_journal_def make_outcome_def)
  then show ?thesis
    using decode_checked_sealed decode_checked_fits by auto
qed

section \<open>A concrete journal\<close>

definition demo_config :: PersistenceConfig where
  "demo_config = \<lparr>pc_path = ''linkstate.lsfjournal'', pc_max_records = 16, pc_include_history = False,
     pc_create_parent_directory = False\<rparr>"

definition demo_persisted :: PersistedLink where
  "demo_persisted = \<lparr>pl_record = (new_record ((blank_binding (StrongId ''link-a''))\<lparr>tb_endpoints :=
       (tb_endpoints (blank_binding (StrongId ''link-a'')))\<lparr>eb_local := StrongId ''ep-a''\<rparr>\<rparr>))
       \<lparr>lr_record := StrongId ''lsr.link-a'', lr_state := LinkOperationalState.Up,
        lr_result_class := AuthoritativeUp, lr_state_generation := Gen 3, lr_global_generation := Gen 5,
        lr_ever_established := True\<rparr>, pl_evidence = []\<rparr>"

definition demo_payload :: JournalPayload where
  "demo_payload = \<lparr>jp_layout = Gen 2, jp_epoch = Gen 1, jp_global_generation = Gen 7,
     jp_global_state_generation = Gen 4, jp_topology_generation = Gen 2, jp_snapshot_counter = 9,
     jp_transition_counter = 0, jp_links = [demo_persisted],
     jp_fences = [\<lparr>fn_publisher = StrongId ''pub'', fn_worker_boot = StrongId ''boot-1'', fn_epoch = Gen 1,
       fn_reason = ''worker replaced''\<rparr>]\<rparr>"

lemma demo_ids:
  "validate_identifier ''link-a'' = Ok" "validate_identifier ''ep-a'' = Ok"
  "validate_identifier ''lsr.link-a'' = Ok" "validate_identifier ''pub'' = Ok"
  "validate_identifier ''boot-1'' = Ok" "validate_text ''worker replaced'' 256 = None"
  by code_simp+

lemma demo_config_valid: "validate_persistence demo_config = []"
  by (simp add: validate_persistence_def demo_config_def is_plain_path_def is_relative_path_def
      max_persisted_records_def)

lemma demo_journal:
  "journal_fits demo_payload" "list_all (\<lambda>l. lr_history (pl_record l) = []) (jp_links demo_payload)"
  "length (jp_links demo_payload) \<le> pc_max_records demo_config"
  "length (encode_payload demo_payload demo_config) < 2 ^ 64"
  by (simp_all add: journal_fits_def link_fits_def link_consistent_def fence_fits_def binding_fits_def
      endpoints_fit_def intent_fits_def demo_payload_def demo_persisted_def demo_config_def new_record_def
      blank_binding_def id_fits_def demo_ids limit_defs zero_digest_def digest_byte_count_def is_zero_def
      less_eq_StrongGeneration_def encode_payload_def encode_link_def encode_binding_def
      encode_endpoints_def encode_intent_def encode_fence_def append_text_def append_enum_def
      append_bool_def append_digest_def)

theorem journal_roundtrip_witness:
  "decode_journal (fst (encode_journal demo_payload demo_config)) demo_config (empty_payload, empty_summary) =
    (make_outcome Committed ''journal decoded'',
     demo_payload\<lparr>jp_snapshot_counter := 0, jp_transition_counter := 0\<rparr>,
     snd (encode_journal demo_payload demo_config))"
  by (rule journal_roundtrip) (use demo_config_valid demo_journal in simp_all)

theorem decode_journal_sound_witness:
  "\<exists>oc p s. decode_journal (fst (encode_journal demo_payload demo_config)) demo_config
      (empty_payload, empty_summary) = (oc, p, s) \<and> oc_code oc = Committed \<and> journal_fits p \<and>
    length (jp_links p) \<le> pc_max_records demo_config"
proof -
  have "decode_checked (fst (encode_journal demo_payload demo_config)) demo_config =
      Inr (recorded demo_payload, snd (encode_journal demo_payload demo_config))"
    using demo_config_valid demo_journal by (intro journal_back) simp_all
  then have run: "decode_journal (fst (encode_journal demo_payload demo_config)) demo_config
      (empty_payload, empty_summary) = (make_outcome Committed ''journal decoded'', recorded demo_payload,
        snd (encode_journal demo_payload demo_config))"
    by (simp add: decode_journal_def)
  show ?thesis
    using run decode_journal_sound [OF run] by (auto simp: make_outcome_def)
qed

end
