(* ===== verification/Recovery.thy ===== *)
theory Recovery
  imports Journal Engine_Authority
begin

text \<open>
  Persistence of the engine: the journal file (\<^verbatim>\<open>read_journal_file\<close>, \<^verbatim>\<open>write_journal_file\<close> of
  \<^verbatim>\<open>src/persistence.cpp\<close>) and \<^verbatim>\<open>save\<close>, \<^verbatim>\<open>load\<close>, \<^verbatim>\<open>inspect_journal\<close> of
  \<^verbatim>\<open>src/engine_persistence.cpp\<close>.  The disk is the contents of its files and the list of its
  directories; which call fails is an argument.  Writing returns every state the disk goes through,
  so that a crash can be placed between any two effects.
\<close>

section \<open>The journal file\<close>

record Disk =
  dk_files :: "(string, bytes) umap"
  dk_directories :: "string list"

text \<open>The failures a run meets.  A write that fails has written some of its bytes.\<close>

record IoFaults =
  io_size :: bool
  io_open :: bool
  io_read :: bool
  io_mkdir :: bool
  io_create :: bool
  io_write :: "nat option"
  io_rename :: bool

definition no_faults :: IoFaults where
  "no_faults = \<lparr>io_size = False, io_open = False, io_read = False, io_mkdir = False, io_create = False,
     io_write = None, io_rename = False\<rparr>"

definition read_journal_file ::
  "IoFaults \<Rightarrow> Disk \<Rightarrow> PersistenceConfig \<Rightarrow> bytes \<times> JournalSummary \<Rightarrow> Outcome \<times> bytes \<times> JournalSummary" where
  "read_journal_file faults disk config before =
     (if validate_persistence config \<noteq> []
      then (make_outcome MalformedRequest (validate_persistence config), before)
      else case (if io_size faults then None else map_of (dk_files disk) (pc_path config)) of
        None \<Rightarrow> (make_outcome PersistenceIoFailure ''cannot read the size of the journal file'', before)
      | Some content \<Rightarrow>
          if length content > max_journal_bytes config
          then (make_outcome ResourceLimit ''journal file exceeds the configured size bound'', before)
          else if io_open faults
          then (make_outcome PersistenceIoFailure ''cannot open the journal file'', before)
          else if length content > 0 \<and> io_read faults
          then (make_outcome PersistenceIoFailure ''journal file could not be read'',
                replicate (length content) 0, snd before)
          else (make_outcome Committed ''journal read'', content,
                (snd before)\<lparr>js_file_size := of_nat (length content)\<rparr>))"

text \<open>The directory of a POSIX path: everything before the last element, without the separators
  between them unless that is the root.\<close>

definition directory_part :: "string \<Rightarrow> string" where
  "directory_part path = rev (dropWhile (\<lambda>ch. ch \<noteq> CHR ''/'') (rev path))"

definition parent_path :: "string \<Rightarrow> string" where
  "parent_path path =
     (let dir = rev (dropWhile (\<lambda>ch. ch = CHR ''/'') (rev (directory_part path)))
      in if dir = [] \<and> directory_part path \<noteq> [] then ''/'' else dir)"

definition journal_directory :: "string \<Rightarrow> string" where
  "journal_directory path = (if parent_path path \<noteq> [] then parent_path path else ''.'')"

definition put_file :: "string \<Rightarrow> bytes \<Rightarrow> Disk \<Rightarrow> Disk" where
  "put_file path content disk = disk\<lparr>dk_files := AList.update path content (dk_files disk)\<rparr>"

definition remove_file :: "string \<Rightarrow> Disk \<Rightarrow> Disk" where
  "remove_file path disk = disk\<lparr>dk_files := AList.delete path (dk_files disk)\<rparr>"

definition add_directory :: "string \<Rightarrow> Disk \<Rightarrow> Disk" where
  "add_directory path disk = disk\<lparr>dk_directories := path # dk_directories disk\<rparr>"

definition rename_file :: "string \<Rightarrow> string \<Rightarrow> Disk \<Rightarrow> Disk" where
  "rename_file source target disk =
     (case map_of (dk_files disk) source of
        None \<Rightarrow> disk
      | Some content \<Rightarrow> put_file target content (remove_file source disk))"

text \<open>From the temporary file on: it is created empty, filled, and renamed over the target.\<close>

definition replace_journal :: "IoFaults \<Rightarrow> string \<Rightarrow> bytes \<Rightarrow> Disk \<Rightarrow> Outcome \<times> Disk list" where
  "replace_journal faults target data disk =
     (let temporary = target @ ''.tmp'';
          created = put_file temporary [] disk;
          written = put_file temporary data created
      in if io_create faults
         then (make_outcome PersistenceIoFailure ''the temporary journal file could not be created'', [])
         else case io_write faults of
           Some n \<Rightarrow>
             (let torn = put_file temporary (take n data) created
              in (make_outcome PersistenceIoFailure ''the temporary journal file could not be written'',
                  [created, torn, remove_file temporary torn]))
         | None \<Rightarrow>
             if io_rename faults
             then (make_outcome PersistenceIoFailure ''the journal file could not be replaced atomically'',
                   [created, written, remove_file temporary written])
             else (make_outcome Committed ''journal written'',
                   [created, written, rename_file temporary target written]))"

definition write_journal_file :: "IoFaults \<Rightarrow> PersistenceConfig \<Rightarrow> bytes \<Rightarrow> Disk \<Rightarrow> Outcome \<times> Disk list" where
  "write_journal_file faults config data disk =
     (if validate_persistence config \<noteq> []
      then (make_outcome MalformedRequest (validate_persistence config), [])
      else let target = pc_path config; directory = journal_directory target in
        if directory \<in> set (dk_directories disk) then replace_journal faults target data disk
        else if \<not> pc_create_parent_directory config
        then (make_outcome PersistenceIoFailure ''the journal directory does not exist'', [])
        else if io_mkdir faults
        then (make_outcome PersistenceIoFailure ''the journal directory could not be created'', [])
        else (case replace_journal faults target data (add_directory directory disk) of
                (outcome, states) \<Rightarrow> (outcome, add_directory directory disk # states)))"

abbreviation disk_after :: "Disk \<Rightarrow> Outcome \<times> Disk list \<Rightarrow> Disk" where
  "disk_after disk run \<equiv> last (disk # snd run)"

section \<open>Saving\<close>

definition kCurrentLayout :: LayoutGeneration where
  "kCurrentLayout = Gen 2"

definition persist_entry :: "bool \<Rightarrow> LinkEntry \<Rightarrow> PersistedLink" where
  "persist_entry include_history entry =
     \<lparr>pl_record = (if include_history then le_record entry else (le_record entry)\<lparr>lr_history := []\<rparr>),
      pl_evidence = le_current entry\<rparr>"

definition build_payload :: "Impl \<Rightarrow> bool \<Rightarrow> JournalPayload" where
  "build_payload impl include_history =
     \<lparr>jp_layout = kCurrentLayout, jp_epoch = im_epoch impl,
      jp_global_generation = im_global_generation impl,
      jp_global_state_generation = im_global_state_generation impl,
      jp_topology_generation = im_topology_generation impl,
      jp_snapshot_counter = im_snapshot_counter impl, jp_transition_counter = im_transition_counter impl,
      jp_links = map (persist_entry include_history)
        (List.map_filter (\<lambda>link. find_link link impl) (std_sort (<) (map fst (st_links impl)))),
      jp_fences = st_fences impl\<rparr>"

definition save :: "IoFaults \<Rightarrow> PersistenceConfig \<Rightarrow> Impl \<Rightarrow> Disk \<Rightarrow> Outcome \<times> Disk list" where
  "save faults config impl disk =
     (case encode_journal (build_payload impl (pc_include_history config)) config of
        (encoded, summary) \<Rightarrow>
          case write_journal_file faults config encoded disk of
            (written, states) \<Rightarrow>
              if is_error written then (written, states)
              else (make_outcome Committed (''journal written with '' @ format_nat (js_record_count summary) @
                      '' records and '' @ format_nat (js_evidence_count summary) @
                      '' evidence records; file digest '' @ to_hex (js_file_digest summary)), states))"

section \<open>Loading\<close>

record LoadOutcome =
  lo_outcome :: Outcome
  lo_records_loaded :: nat
  lo_records_revalidated :: nat
  lo_records_left_unknown :: nat
  lo_layout :: LayoutGeneration
  lo_journal_digest :: Digest

definition refused_load :: "Outcome \<Rightarrow> LoadOutcome" where
  "refused_load outcome = \<lparr>lo_outcome = outcome, lo_records_loaded = 0, lo_records_revalidated = 0,
     lo_records_left_unknown = 0, lo_layout = gen_zero, lo_journal_digest = zero_digest\<rparr>"

text \<open>\<^verbatim>\<open>impl_->store = EngineStore{}\<close> and the counters of the payload.\<close>

definition reset_store :: "JournalPayload \<Rightarrow> Impl \<Rightarrow> Impl" where
  "reset_store payload impl =
     (new_impl (im_config impl))
       \<lparr>im_counters := im_counters impl, im_global_generation := jp_global_generation payload,
        im_global_state_generation := jp_global_state_generation payload,
        im_topology_generation := jp_topology_generation payload, im_epoch := jp_epoch payload,
        im_snapshot_counter := jp_snapshot_counter payload,
        im_transition_counter := jp_transition_counter payload, st_fences := jp_fences payload\<rparr>"

definition restore_fence :: "PublisherFence \<Rightarrow> Impl \<Rightarrow> Impl" where
  "restore_fence fence impl =
     (if \<not> valid (fn_publisher fence) \<or> \<not> valid (fn_worker_boot fence) then impl
      else let registry = bucket (st_fenced_boots impl) (fn_publisher fence);
               longer = (if fn_worker_boot fence \<in> set registry then registry
                         else registry @ [fn_worker_boot fence]);
               cap = cf_fence_retention_per_publisher (im_config impl)
           in impl\<lparr>st_fenced_boots :=
                AList.update (fn_publisher fence) (drop (length longer - cap) longer) (st_fenced_boots impl)\<rparr>)"

definition lost_authority :: "EvidenceRecord \<Rightarrow> EvidenceDisposition" where
  "lost_authority e =
     \<lparr>dp_observation = ev_observation e, dp_source = ev_source e, dp_publisher = ev_publisher e,
      dp_worker_boot = ev_worker_boot e, dp_kind = ev_kind e, dp_direction = ev_direction e,
      dp_claim = ev_claim e, dp_class = ev_class e, dp_status = EvidenceStatus.StaleAuthority,
      dp_precedence = evidence_precedence (ev_kind e), dp_counted = False,
      dp_reason = ''not current: live publisher authority does not survive a process restart''\<rparr>"

text \<open>\<^verbatim>\<open>emplace\<close> keeps an entry that is already there.\<close>

definition emplace_link :: "LinkId \<Rightarrow> LinkEntry \<Rightarrow> Impl \<Rightarrow> Impl" where
  "emplace_link link entry impl = (if find_link link impl = None then put_entry link entry impl else impl)"

definition restored_entry :: "nat \<Rightarrow> PersistedLink \<Rightarrow> LinkEntry" where
  "restored_entry cap persisted =
     \<lparr>le_record = (pl_record persisted)\<lparr>lr_history := [], lr_durable := True\<rparr>, le_current = [],
      le_dispositions = take cap (map lost_authority (pl_evidence persisted)), le_conflicted = False,
      le_synthetic_backed = False\<rparr>"

definition recovery_history :: "LinkStateRecord \<Rightarrow> LinkOperationalState \<Rightarrow> StateHistoryEntry" where
  "recovery_history r recovered =
     \<lparr>hy_state_generation = lr_state_generation r, hy_from_state = lr_state r, hy_to_state = recovered,
      hy_trigger = Recovery,
      hy_result_class = (if recovered = LinkOperationalState.RevalidationRequired
        then StateResultClass.RevalidationRequired else AuthoritativeUnknown),
      hy_cause = NoCause, hy_publication = null_id, hy_publisher = null_id,
      hy_evidence_generation = lr_evidence_generation r,
      hy_topology_generation = tb_topology_generation (lr_binding r), hy_outcome = Committed\<rparr>"

definition file_entry :: "LinkOperationalState \<Rightarrow> LinkEntry \<Rightarrow> Impl \<Rightarrow> Impl" where
  "file_entry state entry impl =
     (let binding = lr_binding (le_record entry)
      in emplace_link (tb_link binding) entry
           (index_endpoints binding True (index_link (tb_link binding) state impl)))"

text \<open>One turn of the recovery loop; the two numbers count the records put to revalidation and the
  records left unknown.\<close>

definition recover_link :: "PersistedLink \<Rightarrow> Impl \<times> nat \<times> nat \<Rightarrow> Impl \<times> nat \<times> nat" where
  "recover_link persisted acc =
     (case acc of (impl, revalidated, unknown) \<Rightarrow>
      let cap = cf_max_history_per_link (im_config impl);
          entry = restored_entry cap persisted;
          r = le_record entry;
          previous = lr_state r;
          recovered = (if lr_ever_established r then LinkOperationalState.RevalidationRequired
                       else LinkOperationalState.Unknown);
          legality = evaluate_transition previous recovered Recovery
      in if previous = LinkOperationalState.Retired
         then (file_entry LinkOperationalState.Retired entry impl, revalidated, unknown)
         else if legality = FromRetired then (file_entry previous entry impl, revalidated, unknown)
         else if legality = Legal then
           (let history = recovery_history r recovered;
                r1 = r\<lparr>lr_state := recovered, lr_result_class := hy_result_class history,
                  lr_degradation_cause := NoCause,
                  lr_state_generation := Gen (gen_value (lr_state_generation r) + 1)\<rparr>;
                impl1 = (if im_global_state_generation impl < lr_state_generation r1
                  then impl\<lparr>im_global_state_generation := lr_state_generation r1\<rparr> else impl);
                r2 = (push_history history cap r1)\<lparr>lr_provenance_digest := digest_evidence_set []\<rparr>
            in (file_entry (lr_state r2) (entry\<lparr>le_record := r2\<rparr>) impl1,
                if recovered = LinkOperationalState.RevalidationRequired then revalidated + 1 else revalidated,
                if recovered = LinkOperationalState.RevalidationRequired then unknown else unknown + 1))
         else
           (let r1 = r\<lparr>lr_result_class := AuthoritativeUnknown,
                  lr_provenance_digest := digest_evidence_set []\<rparr>
            in (file_entry (lr_state r1) (entry\<lparr>le_record := r1\<rparr>) impl, revalidated, unknown + 1)))"

definition restore_dependents :: "Impl \<Rightarrow> Impl" where
  "restore_dependents impl =
     impl\<lparr>st_dependents :=
       fold (\<lambda>(link, entry). fold (\<lambda>backing. bucket_insert (br_link backing) link)
               (tb_backing_links (lr_binding (le_record entry)))) (st_links impl) (st_dependents impl)\<rparr>"

definition recover :: "JournalPayload \<Rightarrow> Impl \<Rightarrow> Impl \<times> nat \<times> nat" where
  "recover payload impl =
     (case fold recover_link (jp_links payload)
             (fold restore_fence (jp_fences payload) (reset_store payload impl), 0, 0) of
        (impl', tallies) \<Rightarrow> (restore_dependents impl', tallies))"

definition load :: "IoFaults \<Rightarrow> Disk \<Rightarrow> PersistenceConfig \<Rightarrow> Impl \<Rightarrow> Impl \<times> LoadOutcome" where
  "load faults disk config impl =
     (case read_journal_file faults disk config ([], empty_summary) of
        (read, data, summary0) \<Rightarrow>
          if is_error read then (impl, refused_load read)
          else case decode_journal data config (empty_payload, summary0) of
            (decoded, payload, summary) \<Rightarrow>
              if is_error decoded then (impl, refused_load decoded)
              else case recover payload impl of
                (impl', revalidated, unknown) \<Rightarrow>
                  (impl', \<lparr>lo_outcome = make_outcome Committed ''durable state recovered; live authority and dynamic evidence were not restored as current'',
                     lo_records_loaded = length (st_links impl'), lo_records_revalidated = revalidated,
                     lo_records_left_unknown = unknown, lo_layout = jp_layout payload,
                     lo_journal_digest = js_file_digest summary\<rparr>))"

definition inspect_journal :: "IoFaults \<Rightarrow> Disk \<Rightarrow> PersistenceConfig \<Rightarrow> JournalSummary \<Rightarrow> Outcome \<times> JournalSummary" where
  "inspect_journal faults disk config summary =
     (case read_journal_file faults disk config ([], summary) of
        (read, data, summary0) \<Rightarrow>
          if is_error read then (read, summary0)
          else case decode_journal data config (empty_payload, summary0) of
            (decoded, _, summary') \<Rightarrow> (decoded, summary'))"

end
