(* ===== verification/Recovery_Guarantees.thy ===== *)
theory Recovery_Guarantees
  imports Recovery Engine_Scenario
begin

text \<open>
  What survives a restart.  \<open>recovered_entry\<close> is the closed form of one turn of the recovery loop;
  the loop builds exactly these entries, files them in the indexes and restores neither evidence nor
  authority.  A journal is replaced atomically, and what was saved is recovered.
\<close>

section \<open>One link\<close>

abbreviation persisted_link :: "PersistedLink \<Rightarrow> LinkId" where
  "persisted_link p \<equiv> tb_link (lr_binding (pl_record p))"

definition recovered_state :: "LinkStateRecord \<Rightarrow> LinkOperationalState" where
  "recovered_state r =
     (if lr_state r = LinkOperationalState.Retired then LinkOperationalState.Retired
      else if lr_ever_established r then LinkOperationalState.RevalidationRequired
      else LinkOperationalState.Unknown)"

definition recovered_record :: "nat \<Rightarrow> LinkStateRecord \<Rightarrow> LinkStateRecord" where
  "recovered_record cap r =
     (if lr_state r = LinkOperationalState.Retired then r
      else if lr_state r = recovered_state r
      then r\<lparr>lr_result_class := AuthoritativeUnknown, lr_provenance_digest := digest_evidence_set []\<rparr>
      else (push_history (recovery_history r (recovered_state r)) cap
             (r\<lparr>lr_state := recovered_state r,
                lr_result_class := hy_result_class (recovery_history r (recovered_state r)),
                lr_degradation_cause := NoCause,
                lr_state_generation := Gen (gen_value (lr_state_generation r) + 1)\<rparr>))
             \<lparr>lr_provenance_digest := digest_evidence_set []\<rparr>)"

definition recovered_entry :: "nat \<Rightarrow> PersistedLink \<Rightarrow> LinkEntry" where
  "recovered_entry cap p =
     (restored_entry cap p)\<lparr>le_record := recovered_record cap (le_record (restored_entry cap p))\<rparr>"

lemma recovery_legality:
  assumes "s \<noteq> LinkOperationalState.Retired"
    and "t = LinkOperationalState.RevalidationRequired \<or> t = LinkOperationalState.Unknown"
  shows "evaluate_transition s t Recovery = (if s = t then SameState else Legal)"
proof -
  have "list_all (\<lambda>s. list_all (\<lambda>t. s \<noteq> LinkOperationalState.Retired \<longrightarrow>
      evaluate_transition s t Recovery = (if s = t then SameState else Legal))
      [LinkOperationalState.RevalidationRequired, LinkOperationalState.Unknown]) state_values"
    by code_simp
  moreover have "s \<in> set state_values" by (cases s) (simp_all add: state_values_def)
  ultimately show ?thesis using assms by (auto simp: list_all_iff)
qed

lemma push_history_sel [simp]:
  "lr_state (push_history h cap r) = lr_state r" "lr_binding (push_history h cap r) = lr_binding r"
  "lr_record (push_history h cap r) = lr_record r" "lr_durable (push_history h cap r) = lr_durable r"
  "lr_ever_established (push_history h cap r) = lr_ever_established r"
  "lr_state_generation (push_history h cap r) = lr_state_generation r"
  "lr_evidence_generation (push_history h cap r) = lr_evidence_generation r"
  "lr_global_generation (push_history h cap r) = lr_global_generation r"
  "lr_admin_intent (push_history h cap r) = lr_admin_intent r"
  "lr_result_class (push_history h cap r) = lr_result_class r"
  by (simp_all add: push_history_def Let_def)

lemma recovered_record_sel [simp]:
  "lr_state (recovered_record cap r) = recovered_state r"
  "lr_binding (recovered_record cap r) = lr_binding r"
  "lr_record (recovered_record cap r) = lr_record r"
  "lr_durable (recovered_record cap r) = lr_durable r"
  "lr_ever_established (recovered_record cap r) = lr_ever_established r"
  "lr_evidence_generation (recovered_record cap r) = lr_evidence_generation r"
  "lr_global_generation (recovered_record cap r) = lr_global_generation r"
  "lr_admin_intent (recovered_record cap r) = lr_admin_intent r"
  by (simp_all add: recovered_record_def) (auto simp: recovered_state_def)

lemma restored_sel [simp]:
  "le_record (restored_entry cap p) = (pl_record p)\<lparr>lr_history := [], lr_durable := True\<rparr>"
  "le_current (restored_entry cap p) = []"
  by (simp_all add: restored_entry_def)

lemma recovered_entry_sel [simp]:
  "le_current (recovered_entry cap p) = []"
  "le_record (recovered_entry cap p) = recovered_record cap ((pl_record p)\<lparr>lr_history := [], lr_durable := True\<rparr>)"
  by (simp_all add: recovered_entry_def)

text \<open>The turn in closed form; the global state generation is raised to the link's.\<close>

definition raised :: "PersistedLink \<Rightarrow> Impl \<Rightarrow> Impl" where
  "raised p impl =
     (let sg = lr_state_generation (le_record (recovered_entry (cf_max_history_per_link (im_config impl)) p))
      in if recovered_state (pl_record p) \<noteq> lr_state (pl_record p) \<and> im_global_state_generation impl < sg
         then impl\<lparr>im_global_state_generation := sg\<rparr> else impl)"

lemma recover_link_entry:
  "\<exists>a' b'. recover_link p (impl, a, b) =
     (file_entry (recovered_state (pl_record p))
        (recovered_entry (cf_max_history_per_link (im_config impl)) p) (raised p impl), a', b')"
proof -
  let ?cap = "cf_max_history_per_link (im_config impl)"
  let ?r = "(pl_record p)\<lparr>lr_history := [], lr_durable := True\<rparr>"
  define t where "t = (if lr_ever_established ?r then LinkOperationalState.RevalidationRequired
      else LinkOperationalState.Unknown)"
  have t: "t = LinkOperationalState.RevalidationRequired \<or> t = LinkOperationalState.Unknown"
    by (simp add: t_def)
  consider "lr_state ?r = LinkOperationalState.Retired"
    | "lr_state ?r \<noteq> LinkOperationalState.Retired" "lr_state ?r = t"
    | "lr_state ?r \<noteq> LinkOperationalState.Retired" "lr_state ?r \<noteq> t" by blast
  then show ?thesis
  proof cases
    case 1
    then show ?thesis
      by (simp add: recover_link_def recovered_entry_def recovered_record_def recovered_state_def raised_def
          restored_entry_def)
  next
    case 2
    then show ?thesis
      using recovery_legality [OF 2(1) t] unfolding t_def
      by (simp add: recover_link_def recovered_entry_def recovered_record_def recovered_state_def raised_def
          restored_entry_def Let_def)
  next
    case 3
    then show ?thesis
      using recovery_legality [OF 3(1) t] unfolding t_def
      by (simp add: recover_link_def recovered_entry_def recovered_record_def recovered_state_def raised_def
          restored_entry_def Let_def)
  qed
qed

section \<open>The loop\<close>

text \<open>The engine after the links \<open>ls\<close>, started from \<open>start\<close>: their entries, the two indexes in step
  with them, and nothing else changed but the global state generation.\<close>

definition rebuilt :: "Impl \<Rightarrow> PersistedLink list \<Rightarrow> Impl \<Rightarrow> bool" where
  "rebuilt start ls impl \<longleftrightarrow>
     (\<exists>by_state by_endpoint g. impl = start
        \<lparr>st_links := map (\<lambda>p. (persisted_link p, recovered_entry (cf_max_history_per_link (im_config start)) p)) ls,
         st_by_state := by_state, st_by_endpoint := by_endpoint, im_global_state_generation := g\<rparr> \<and>
       im_global_state_generation start \<le> g) \<and>
     index_agrees bucket_mem (st_by_state impl)
       (\<lambda>l s. \<exists>e. find_link l impl = Some e \<and> lr_state (le_record e) = s) \<and>
     index_agrees bucket_mem (st_by_endpoint impl)
       (\<lambda>l p. \<exists>e. find_link l impl = Some e \<and> p \<in> set (bound_endpoints (lr_binding (le_record e)))) \<and>
     buckets_ok (st_by_state impl) \<and> buckets_ok (st_by_endpoint impl) \<and>
     (\<forall>p\<in>set ls. recovered_state (pl_record p) \<noteq> lr_state (pl_record p) \<longrightarrow>
        lr_state_generation (le_record (recovered_entry (cf_max_history_per_link (im_config start)) p))
          \<le> im_global_state_generation impl)"

lemma update_absent: "map_of m k = None \<Longrightarrow> AList.update k v m = m @ [(k, v)]"
  by (induction m) (auto split: if_splits)

lemma file_entry_fresh:
  assumes "find_link (tb_link (lr_binding (le_record e))) impl = None"
  shows "file_entry s e impl = impl
    \<lparr>st_links := st_links impl @ [(tb_link (lr_binding (le_record e)), e)],
     st_by_state := bucket_insert s (tb_link (lr_binding (le_record e))) (st_by_state impl),
     st_by_endpoint := fold (\<lambda>p. bucket_insert p (tb_link (lr_binding (le_record e))))
       (bound_endpoints (lr_binding (le_record e))) (st_by_endpoint impl)\<rparr>"
  using assms by (simp add: file_entry_def emplace_link_def index_link_def index_endpoints_def put_entry_def
      find_link_def update_absent Let_def)

lemma raised_sel: "\<exists>g. raised p impl = impl\<lparr>im_global_state_generation := g\<rparr> \<and> im_global_state_generation impl \<le> g \<and>
    (recovered_state (pl_record p) \<noteq> lr_state (pl_record p) \<longrightarrow>
      lr_state_generation (le_record (recovered_entry (cf_max_history_per_link (im_config impl)) p)) \<le> g)"
proof (cases "recovered_state (pl_record p) \<noteq> lr_state (pl_record p) \<and> im_global_state_generation impl <
    lr_state_generation (le_record (recovered_entry (cf_max_history_per_link (im_config impl)) p))")
  case True
  then show ?thesis
    by (intro exI [of _ "lr_state_generation (le_record (recovered_entry (cf_max_history_per_link (im_config impl)) p))"])
      (auto simp: raised_def Let_def less_imp_le)
next
  case False
  then show ?thesis
    by (intro exI [of _ "im_global_state_generation impl"]) (auto simp: raised_def Let_def not_less)
qed

lemma rebuilt_step:
  assumes "rebuilt start ls impl" and "persisted_link p \<notin> persisted_link ` set ls"
  shows "\<exists>impl' a' b'. recover_link p (impl, a, b) = (impl', a', b') \<and> rebuilt start (ls @ [p]) impl'"
proof -
  let ?l = "persisted_link p" and ?cap = "cf_max_history_per_link (im_config start)"
  let ?e = "recovered_entry ?cap p"
  obtain bs be g where impl: "impl = start\<lparr>st_links := map (\<lambda>p. (persisted_link p, recovered_entry ?cap p)) ls,
      st_by_state := bs, st_by_endpoint := be, im_global_state_generation := g\<rparr>"
    and g: "im_global_state_generation start \<le> g"
    using assms(1) by (auto simp: rebuilt_def)
  obtain h where raised: "raised p impl = impl\<lparr>im_global_state_generation := h\<rparr>" and h: "g \<le> h"
    and own: "recovered_state (pl_record p) \<noteq> lr_state (pl_record p) \<longrightarrow> lr_state_generation (le_record ?e) \<le> h"
    using raised_sel [of p impl] by (auto simp: impl)
  have absent: "map_of (map (\<lambda>p. (persisted_link p, recovered_entry ?cap p)) ls) ?l = None"
    using assms(2) by (auto simp: map_of_eq_None_iff)
  let ?impl' = "start\<lparr>st_links := map (\<lambda>p. (persisted_link p, recovered_entry ?cap p)) (ls @ [p]),
      st_by_state := bucket_insert (recovered_state (pl_record p)) ?l bs,
      st_by_endpoint := fold (\<lambda>q. bucket_insert q ?l) (bound_endpoints (lr_binding (pl_record p))) be,
      im_global_state_generation := h\<rparr>"
  have filed: "file_entry (recovered_state (pl_record p)) ?e (raised p impl) = ?impl'"
    unfolding raised by (subst file_entry_fresh) (use absent in \<open>simp_all add: impl find_link_def\<close>)
  have find: "find_link k ?impl' = (if k = ?l then Some ?e else find_link k impl)" for k
    using absent by (auto simp: find_link_def impl map_of_append map_add_def split: option.split)
  have none: "find_link ?l impl = None" using absent by (simp add: find_link_def impl)
  have state: "index_agrees bucket_mem (fold (\<lambda>k. bucket_insert k ?l) [recovered_state (pl_record p)] bs)
      (\<lambda>l s. \<exists>e. find_link l ?impl' = Some e \<and> lr_state (le_record e) = s)"
    by (rule buckets.agrees_add [where R = "\<lambda>l s. \<exists>e. find_link l impl = Some e \<and> lr_state (le_record e) = s"])
      (use assms(1) none find in \<open>auto simp: rebuilt_def impl recovered_state_def\<close>)
  have endpoint: "index_agrees bucket_mem (fold (\<lambda>k. bucket_insert k ?l) (bound_endpoints (lr_binding (pl_record p))) be)
      (\<lambda>l q. \<exists>e. find_link l ?impl' = Some e \<and> q \<in> set (bound_endpoints (lr_binding (le_record e))))"
    by (rule buckets.agrees_add [where R = "\<lambda>l q. \<exists>e. find_link l impl = Some e \<and> q \<in> set (bound_endpoints (lr_binding (le_record e)))"])
      (use assms(1) none find in \<open>auto simp: rebuilt_def impl\<close>)
  have "rebuilt start (ls @ [p]) ?impl'"
    unfolding rebuilt_def
  proof (intro conjI)
    show "\<exists>by_state by_endpoint g. ?impl' = start
        \<lparr>st_links := map (\<lambda>p. (persisted_link p, recovered_entry ?cap p)) (ls @ [p]),
         st_by_state := by_state, st_by_endpoint := by_endpoint, im_global_state_generation := g\<rparr> \<and>
       im_global_state_generation start \<le> g"
      by (intro exI conjI, rule refl) (simp add: order_trans [OF g h])
    show "\<forall>q\<in>set (ls @ [p]). recovered_state (pl_record q) \<noteq> lr_state (pl_record q) \<longrightarrow>
        lr_state_generation (le_record (recovered_entry ?cap q)) \<le> im_global_state_generation ?impl'"
      using assms(1) own h unfolding rebuilt_def impl by (auto intro: order_trans)
  qed (use state endpoint assms(1) in \<open>simp_all add: rebuilt_def impl buckets_ok_fold_insert\<close>)
  moreover obtain a' b' where "recover_link p (impl, a, b) = (?impl', a', b')"
    using recover_link_entry [of p impl a b] filed by (auto simp: impl)
  ultimately show ?thesis by blast
qed

lemma rebuilt_fold:
  assumes "rebuilt start done_links impl" and "distinct (map persisted_link (done_links @ ls))"
  shows "\<exists>impl' a' b'. fold recover_link ls (impl, a, b) = (impl', a', b') \<and> rebuilt start (done_links @ ls) impl'"
  using assms
proof (induction ls arbitrary: done_links impl a b)
  case Nil
  then show ?case by simp
next
  case (Cons p ls)
  obtain impl' a' b' where step: "recover_link p (impl, a, b) = (impl', a', b')" "rebuilt start (done_links @ [p]) impl'"
    using rebuilt_step [OF Cons.prems(1), of p a b] Cons.prems(2) by auto
  with Cons.IH [OF step(2), of a' b'] Cons.prems(2) show ?case by simp
qed

section \<open>Fences and dependents\<close>

lemma restore_fence_sel: "\<exists>fb. restore_fence f impl = impl\<lparr>st_fenced_boots := fb\<rparr>"
  by (cases "valid (fn_publisher f) \<and> valid (fn_worker_boot f)")
    (auto simp: restore_fence_def Let_def intro: exI [of _ "st_fenced_boots impl"])

lemma restore_fences_sel: "\<exists>fb. fold restore_fence fs impl = impl\<lparr>st_fenced_boots := fb\<rparr>"
proof (induction fs arbitrary: impl)
  case Nil
  show ?case by (rule exI [of _ "st_fenced_boots impl"]) simp
next
  case (Cons f fs)
  obtain fb where "restore_fence f impl = impl\<lparr>st_fenced_boots := fb\<rparr>" using restore_fence_sel by blast
  with Cons.IH [of "impl\<lparr>st_fenced_boots := fb\<rparr>"] show ?case by auto
qed

lemma restore_fence_bucket:
  assumes "length (bucket (st_fenced_boots impl) (fn_publisher f)) < cf_fence_retention_per_publisher (im_config impl)"
  shows "bucket (st_fenced_boots (restore_fence f impl)) p =
    (if p = fn_publisher f \<and> valid (fn_publisher f) \<and> valid (fn_worker_boot f) \<and>
        fn_worker_boot f \<notin> set (bucket (st_fenced_boots impl) p)
     then bucket (st_fenced_boots impl) p @ [fn_worker_boot f] else bucket (st_fenced_boots impl) p)"
  using assms by (auto simp: restore_fence_def Let_def bucket_def)

lemma restore_fences_mem:
  assumes "\<And>p. length (bucket (st_fenced_boots impl) p) + length fs \<le> cf_fence_retention_per_publisher (im_config impl)"
  shows "bucket_mem (st_fenced_boots (fold restore_fence fs impl)) p b \<longleftrightarrow>
    bucket_mem (st_fenced_boots impl) p b \<or>
    (\<exists>f\<in>set fs. valid p \<and> valid b \<and> fn_publisher f = p \<and> fn_worker_boot f = b)"
  using assms
proof (induction fs arbitrary: impl)
  case Nil
  then show ?case by simp
next
  case (Cons f fs)
  have room: "length (bucket (st_fenced_boots impl) q) < cf_fence_retention_per_publisher (im_config impl)" for q
    using Cons.prems [of q] by simp
  have config: "im_config (restore_fence f impl) = im_config impl"
    using restore_fence_sel [of f impl] by auto
  have "length (bucket (st_fenced_boots (restore_fence f impl)) q) + length fs
      \<le> cf_fence_retention_per_publisher (im_config (restore_fence f impl))" for q
    using Cons.prems [of q] by (cases "q = fn_publisher f") (simp_all add: config restore_fence_bucket [OF room])
  from Cons.IH [OF this] show ?case
    by (auto simp: bucket_mem_def restore_fence_bucket [OF room])
qed

lemma dependents_fold:
  "bucket_mem (fold (\<lambda>(link, entry). fold (\<lambda>backing. bucket_insert (br_link backing) link)
      (tb_backing_links (lr_binding (le_record entry)))) L m) b l \<longleftrightarrow>
    bucket_mem m b l \<or> (\<exists>e. (l, e) \<in> set L \<and> b \<in> set (backing_ids (lr_binding (le_record e))))"
proof (induction L arbitrary: m)
  case Nil
  then show ?case by simp
next
  case (Cons x L)
  obtain k e where x: "x = (k, e)" by fastforce
  have "bucket_mem (fold (\<lambda>backing. bucket_insert (br_link backing) k) bs m') b l \<longleftrightarrow>
      b \<in> br_link ` set bs \<and> l = k \<or> bucket_mem m' b l" for bs m'
    by (induction bs arbitrary: m') (auto simp: bucket_mem_insert)
  with Cons.IH x show ?case
    by (auto simp: backing_ids_def)
qed

lemma backings_ok: "buckets_ok m \<Longrightarrow> buckets_ok (fold (\<lambda>backing. bucket_insert (br_link backing) k) bs m)"
  by (induction bs arbitrary: m) simp_all

lemma dependents_ok: "buckets_ok m \<Longrightarrow>
    buckets_ok (fold (\<lambda>(link, entry). fold (\<lambda>backing. bucket_insert (br_link backing) link)
      (tb_backing_links (lr_binding (le_record entry)))) L m)"
  by (induction L arbitrary: m) (auto simp: backings_ok)

section \<open>The recovered engine\<close>

lemma recover_rebuilt:
  assumes "distinct (map persisted_link (jp_links payload))"
  shows "\<exists>fb mid a b. recover payload impl = (restore_dependents mid, a, b) \<and>
    fold restore_fence (jp_fences payload) (reset_store payload impl) = (reset_store payload impl)\<lparr>st_fenced_boots := fb\<rparr> \<and>
    rebuilt ((reset_store payload impl)\<lparr>st_fenced_boots := fb\<rparr>) (jp_links payload) mid"
proof -
  obtain fb where fb: "fold restore_fence (jp_fences payload) (reset_store payload impl) =
      (reset_store payload impl)\<lparr>st_fenced_boots := fb\<rparr>"
    using restore_fences_sel by blast
  let ?start = "(reset_store payload impl)\<lparr>st_fenced_boots := fb\<rparr>"
  have "rebuilt ?start [] ?start"
    unfolding rebuilt_def
    by (intro conjI exI [of _ "[]"] exI [of _ "im_global_state_generation ?start"])
      (simp_all add: reset_store_def new_impl_def find_link_def index_agrees_def bucket_mem_def bucket_def)
  from rebuilt_fold [OF this, of "jp_links payload" 0 0] assms obtain mid a b where
    "fold recover_link (jp_links payload) (?start, 0, 0) = (mid, a, b)" and "rebuilt ?start (jp_links payload) mid"
    by auto
  with fb show ?thesis by (intro exI [of _ fb] exI [of _ mid]) (simp add: recover_def)
qed

lemma recovered_engine:
  assumes "distinct (map persisted_link (jp_links payload))" and "recover payload impl = (impl', a, b)"
  shows "indexes_ok impl'"
    and "st_links impl' = map (\<lambda>p. (persisted_link p,
      recovered_entry (cf_max_history_per_link (im_config impl)) p)) (jp_links payload)"
    and "st_publishers impl' = []" and "st_observations impl' = []" and "im_config impl' = im_config impl"
    and "im_epoch impl' = jp_epoch payload" and "im_global_generation impl' = jp_global_generation payload"
    and "st_fenced_boots impl' = st_fenced_boots (fold restore_fence (jp_fences payload) (reset_store payload impl))"
proof -
  obtain fb mid where rec: "impl' = restore_dependents mid"
    and fb: "fold restore_fence (jp_fences payload) (reset_store payload impl) = (reset_store payload impl)\<lparr>st_fenced_boots := fb\<rparr>"
    and mid: "rebuilt ((reset_store payload impl)\<lparr>st_fenced_boots := fb\<rparr>) (jp_links payload) mid"
    using recover_rebuilt [OF assms(1), of impl] assms(2) by auto
  obtain bs be g where shape: "mid = (reset_store payload impl)\<lparr>st_fenced_boots := fb,
      st_links := map (\<lambda>p. (persisted_link p, recovered_entry (cf_max_history_per_link (im_config impl)) p)) (jp_links payload),
      st_by_state := bs, st_by_endpoint := be, im_global_state_generation := g\<rparr>"
    using mid by (auto simp: rebuilt_def reset_store_def new_impl_def)
  have find: "find_link l impl' = find_link l mid" for l
    by (simp add: rec restore_dependents_def find_link_def)
  have "distinct (map fst (st_links mid))" using assms(1) by (simp add: shape comp_def)
  then have mem: "find_link l mid = Some e \<longleftrightarrow> (l, e) \<in> set (st_links mid)" for l e
    by (simp add: find_link_def map_of_eq_Some_iff)
  have "st_dependents mid = []" and "st_publisher_links mid = []"
    by (simp_all add: shape reset_store_def new_impl_def)
  then show "indexes_ok impl'"
    using mid unfolding indexes_ok_def index_agrees_def rebuilt_def find
    by (simp add: rec restore_dependents_def dependents_fold dependents_ok mem bucket_mem_def [of "[]"] bucket_def)
  show "st_links impl' = map (\<lambda>p. (persisted_link p,
      recovered_entry (cf_max_history_per_link (im_config impl)) p)) (jp_links payload)"
    and "st_publishers impl' = []" and "st_observations impl' = []" and "im_config impl' = im_config impl"
    and "im_epoch impl' = jp_epoch payload" and "im_global_generation impl' = jp_global_generation payload"
    and "st_fenced_boots impl' = st_fenced_boots (fold restore_fence (jp_fences payload) (reset_store payload impl))"
    unfolding fb by (simp_all add: rec restore_dependents_def shape reset_store_def new_impl_def)
qed

section \<open>Guarantees\<close>

lemma journal_fits_distinct: "journal_fits p \<Longrightarrow> distinct (map persisted_link (jp_links p))"
  by (simp add: journal_fits_def)

lemma read_journal_ok:
  assumes "read_journal_file faults disk config before = (oc, data, s)" and "\<not> is_error oc"
  shows "map_of (dk_files disk) (pc_path config) = Some data" and "validate_persistence config = []"
  using assms
  by (auto simp: read_journal_file_def is_error_def code_is_error_iff make_outcome_def split: if_splits option.splits)

lemma decode_journal_ok:
  assumes "decode_journal data config before = (oc, p, s)" and "\<not> is_error oc"
  shows "decode_checked data config = Inr (p, s)"
  using assms decode_checked_failure [of data config]
  by (auto simp: decode_journal_def is_error_def code_is_error_iff make_outcome_def split: sum.splits prod.splits)

lemma load_cases:
  assumes "load faults disk config impl = (impl', result)"
  obtains (refused) "is_error (lo_outcome result)" "impl' = impl"
  | (recovered) data payload summary a b where "\<not> is_error (lo_outcome result)"
      "map_of (dk_files disk) (pc_path config) = Some data" "decode_checked data config = Inr (payload, summary)"
      "recover payload impl = (impl', a, b)"
proof -
  obtain oc data s0 where read: "read_journal_file faults disk config ([], empty_summary) = (oc, data, s0)"
    by (metis prod_cases3)
  obtain dc p s where dec: "decode_journal data config (empty_payload, s0) = (dc, p, s)" by (metis prod_cases3)
  show thesis
  proof (cases "is_error oc \<or> is_error dc")
    case True
    then show ?thesis
      using assms read dec refused by (auto simp: load_def refused_load_def split: if_splits)
  next
    case False
    obtain a b where "recover p impl = (impl', a, b)" and "lo_outcome result = make_outcome Committed
        ''durable state recovered; live authority and dynamic evidence were not restored as current''"
      using assms read dec False by (auto simp: load_def split: prod.splits)
    with False read_journal_ok [OF read] decode_journal_ok [OF dec] show ?thesis
      by (intro recovered [of data p s a b]) (simp_all add: is_error_def make_outcome_def code_is_error_def)
  qed
qed

text \<open>
  C9: recovery is conservative.  A load that is refused leaves the engine as it was.  Otherwise the
  engine holds exactly the links of the journal, no publisher is registered, no observation is known
  and no link has current evidence; a retired link stays retired and every other link is UNKNOWN or,
  if it was ever established, waits for revalidation; binding, identity and evidence generation are
  those of the journal, and the indexes agree with the links.
\<close>

theorem load_conservative:
  assumes "load faults disk config impl = (impl', result)"
  shows "if is_error (lo_outcome result) then impl' = impl
    else \<exists>data payload summary.
      map_of (dk_files disk) (pc_path config) = Some data \<and>
      decode_checked data config = Inr (payload, summary) \<and>
      map fst (st_links impl') = map (\<lambda>p. tb_link (lr_binding (pl_record p))) (jp_links payload) \<and>
      st_publishers impl' = [] \<and> st_observations impl' = [] \<and> indexes_ok impl' \<and>
      (\<forall>p\<in>set (jp_links payload). \<exists>e. find_link (tb_link (lr_binding (pl_record p))) impl' = Some e \<and>
         le_current e = [] \<and> lr_binding (le_record e) = lr_binding (pl_record p) \<and>
         lr_record (le_record e) = lr_record (pl_record p) \<and>
         lr_evidence_generation (le_record e) = lr_evidence_generation (pl_record p) \<and>
         lr_state (le_record e) =
           (if lr_state (pl_record p) = LinkOperationalState.Retired then LinkOperationalState.Retired
            else if lr_ever_established (pl_record p) then LinkOperationalState.RevalidationRequired
            else LinkOperationalState.Unknown))"
  using assms
proof (cases rule: load_cases)
  case refused
  then show ?thesis by simp
next
  case (recovered data payload summary a b)
  have dist: "distinct (map persisted_link (jp_links payload))"
    by (rule journal_fits_distinct [OF decode_checked_fits [OF recovered(3)]])
  note engine = recovered_engine [OF dist recovered(4)]
  have "find_link (persisted_link p) impl' = Some (recovered_entry (cf_max_history_per_link (im_config impl)) p)"
    if "p \<in> set (jp_links payload)" for p
    unfolding find_link_def engine(2) by (rule map_of_is_SomeI) (use dist that in \<open>simp_all add: comp_def\<close>)
  then show ?thesis
    using recovered(1-3) engine(1-4)
    by (auto simp: recovered_state_def comp_def intro!: exI [of _ data] exI [of _ payload] exI [of _ summary])
qed


section \<open>Writing the file\<close>

lemma map_of_files [simp]:
  "map_of (dk_files (put_file path content disk)) q = (if q = path then Some content else map_of (dk_files disk) q)"
  "map_of (dk_files (remove_file path disk)) q = (if q = path then None else map_of (dk_files disk) q)"
  "dk_files (add_directory dir disk) = dk_files disk"
  by (auto simp: put_file_def remove_file_def add_directory_def delete_conv')

lemma temporary_other [simp]: "path @ ''.tmp'' \<noteq> path" "path \<noteq> path @ ''.tmp''"
  by simp_all

lemma replace_journal_trace:
  assumes "replace_journal faults target data disk = (oc, states)"
  shows "\<forall>d\<in>set states. \<forall>q. q \<noteq> target @ ''.tmp'' \<longrightarrow>
      map_of (dk_files d) q = map_of (dk_files disk) q \<or> q = target \<and> map_of (dk_files d) q = Some data"
    and "map_of (dk_files (last (disk # states))) target =
      (if is_error oc then map_of (dk_files disk) target else Some data)"
    and "is_error oc \<or> map_of (dk_files (last (disk # states))) (target @ ''.tmp'') = None"
  using assms
  by (auto simp: replace_journal_def Let_def rename_file_def is_error_def make_outcome_def code_is_error_def
      split: if_splits option.splits)

text \<open>
  C23: the journal is replaced atomically.  Whatever fails, in every state the disk goes through while
  a journal is written the target file holds either what it held before or the whole new journal, and
  no file but the target and its temporary sibling is touched.  When the write reports success the
  target holds the new journal, otherwise what it held before.
\<close>

theorem journal_replace_atomic:
  assumes "write_journal_file faults config data disk = (oc, states)"
  shows "(\<forall>d\<in>set states. map_of (dk_files d) (pc_path config) \<in> {map_of (dk_files disk) (pc_path config), Some data} \<and>
      (\<forall>q. q \<noteq> pc_path config \<longrightarrow> q \<noteq> pc_path config @ ''.tmp'' \<longrightarrow> map_of (dk_files d) q = map_of (dk_files disk) q)) \<and>
    map_of (dk_files (last (disk # states))) (pc_path config) =
      (if is_error oc then map_of (dk_files disk) (pc_path config) else Some data)"
proof -
  consider "states = []" "is_error oc"
    | "replace_journal faults (pc_path config) data disk = (oc, states)"
    | more where "states = add_directory (journal_directory (pc_path config)) disk # more"
        "replace_journal faults (pc_path config) data
          (add_directory (journal_directory (pc_path config)) disk) = (oc, more)"
    using assms by (auto simp: write_journal_file_def Let_def is_error_def make_outcome_def code_is_error_def
        split: if_splits prod.splits)
  then show ?thesis
  proof cases
    case 2
    from replace_journal_trace [OF 2] show ?thesis by auto
  next
    case 3
    from replace_journal_trace [OF 3(2)] show ?thesis by (auto simp: 3(1))
  qed simp
qed

section \<open>Saving and loading\<close>

lemma save_links:
  assumes inv: "store_inv X impl"
  shows "set (jp_links (build_payload impl h)) = {persist_entry h e | l e. find_link l impl = Some e}"
    and "length (jp_links (build_payload impl h)) = length (st_links impl)"
proof -
  let ?ks = "std_sort (<) (map fst (st_links impl))"
  have ks: "mset ?ks = mset (map fst (st_links impl))" by simp
  then have set: "set ?ks = dom (\<lambda>l. find_link l impl)"
    by (metis set_mset_mset dom_map_of_conv_image_fst list.set_map find_link_def ext)
  then have all: "find_link k impl \<noteq> None" if "k \<in> set ?ks" for k using that by auto
  have "List.map_filter (\<lambda>link. find_link link impl) ks = map (\<lambda>l. the (find_link l impl)) ks"
    if "\<forall>k\<in>set ks. find_link k impl \<noteq> None" for ks
    using that by (induction ks) (auto simp: List.map_filter_def)
  with all have links: "jp_links (build_payload impl h) =
      map (\<lambda>l. persist_entry h (the (find_link l impl))) ?ks"
    by (simp add: build_payload_def)
  then show "length (jp_links (build_payload impl h)) = length (st_links impl)"
    using mset_eq_length [OF ks] by simp
  show "set (jp_links (build_payload impl h)) = {persist_entry h e | l e. find_link l impl = Some e}"
    unfolding links using set by (force simp: dom_def)
qed

lemma persisted_sel [simp]:
  "lr_binding (pl_record (persist_entry h e)) = lr_binding (le_record e)"
  "lr_state (pl_record (persist_entry h e)) = lr_state (le_record e)"
  "lr_ever_established (pl_record (persist_entry h e)) = lr_ever_established (le_record e)"
  by (simp_all add: persist_entry_def)

lemma saved_history: "h \<or> list_all (\<lambda>l. lr_history (pl_record l) = []) (jp_links (build_payload impl h))"
  by (auto simp: build_payload_def persist_entry_def list_all_iff)

lemma max_journal_bytes_cap: "max_journal_bytes config \<le> 2147483648"
  by (simp add: max_journal_bytes_def Let_def kMaxJournalBytes_def)

lemma body_in_journal: "length (encode_payload p config) \<le> length (fst (encode_journal p config))"
  by (simp add: encode_journal_def Let_def)

lemma saved_file:
  assumes "validate_persistence config = []" and "journal_directory (pc_path config) \<in> set (dk_directories disk)"
  shows "\<not> is_error (fst (save no_faults config impl disk)) \<and>
    map_of (dk_files (last (disk # snd (save no_faults config impl disk)))) (pc_path config) =
      Some (fst (encode_journal (build_payload impl (pc_include_history config)) config))"
  using assms
  by (simp add: save_def write_journal_file_def Let_def replace_journal_def no_faults_def rename_file_def
      is_error_def make_outcome_def code_is_error_def split: prod.split)

lemma loaded_file:
  assumes config: "validate_persistence config = []" and content: "map_of (dk_files disk) (pc_path config) = Some data"
    and size: "length data \<le> max_journal_bytes config" and dec: "decode_checked data config = Inr (p, s)"
    and load: "load no_faults disk config impl = (impl', result)"
  shows "\<not> is_error (lo_outcome result) \<and> (\<exists>a b. recover p impl = (impl', a, b))"
proof -
  have "read_journal_file no_faults disk config ([], empty_summary) =
      (make_outcome Committed ''journal read'', data, empty_summary\<lparr>js_file_size := of_nat (length data)\<rparr>)"
    using config content size by (simp add: read_journal_file_def no_faults_def)
  moreover have "decode_journal data config before = (make_outcome Committed ''journal decoded'', p, s)" for before
    by (simp add: decode_journal_def dec)
  ultimately show ?thesis
    using load by (auto simp: load_def is_error_def make_outcome_def code_is_error_def split: prod.splits)
qed

text \<open>Recovering the payload of an engine that satisfies the invariant brings back its links.\<close>

lemma recovered_links:
  assumes inv: "store_inv X impl" and fits: "journal_fits (build_payload impl h)"
    and rec: "recover (recorded (build_payload impl h)) other = (impl', a, b)"
  shows "find_link l impl' =
    map_option (\<lambda>e. recovered_entry (cf_max_history_per_link (im_config other)) (persist_entry h e)) (find_link l impl)"
proof -
  let ?p = "build_payload impl h" and ?cap = "cf_max_history_per_link (im_config other)"
  have dist: "distinct (map persisted_link (jp_links (recorded ?p)))"
    using journal_fits_distinct [OF fits] by (simp add: recorded_def)
  have find: "find_link l impl' = Some e' \<longleftrightarrow>
      (\<exists>p\<in>set (jp_links ?p). l = persisted_link p \<and> e' = recovered_entry ?cap p)" for l e'
    unfolding find_link_def recovered_engine(2) [OF dist rec]
    by (subst map_of_eq_Some_iff) (use dist in \<open>auto simp: comp_def recorded_def\<close>)
  have own: "tb_link (lr_binding (le_record e)) = l" if "find_link l impl = Some e" for l e
    using inv that by (auto simp: store_inv_def entry_ok_def)
  show ?thesis
  proof (cases "find_link l impl")
    case None
    have "find_link l impl' \<noteq> Some e'" for e'
    proof
      assume "find_link l impl' = Some e'"
      then obtain k e where "find_link k impl = Some e" and "l = tb_link (lr_binding (le_record e))"
        by (auto simp: find save_links(1) [OF inv])
      with own None show False by auto
    qed
    with None show ?thesis by (cases "find_link l impl'") auto
  next
    case (Some e)
    then show ?thesis
      using own [OF Some] by (simp add: find save_links(1) [OF inv]) (metis persisted_sel(1))
  qed
qed

lemma save_load_engine:
  assumes "store_inv nobody impl" and "validate_persistence config = []"
    and "journal_fits (build_payload impl (pc_include_history config))"
    and "length (st_links impl) \<le> pc_max_records config"
    and "journal_directory (pc_path config) \<in> set (dk_directories disk)"
    and "length (fst (encode_journal (build_payload impl (pc_include_history config)) config)) \<le> max_journal_bytes config"
    and "save no_faults config impl disk = (saved, states)"
    and "load no_faults (last (disk # states)) config other = (impl', result)"
  shows "\<not> is_error saved \<and> \<not> is_error (lo_outcome result) \<and>
    (\<exists>a b. recover (recorded (build_payload impl (pc_include_history config))) other = (impl', a, b))"
proof -
  let ?p = "build_payload impl (pc_include_history config)"
  have dec: "decode_checked (fst (encode_journal ?p config)) config = Inr (recorded ?p, snd (encode_journal ?p config))"
    using assms(2,3,4) saved_history save_links(2) [OF assms(1)]
      order_trans [OF body_in_journal order_trans [OF assms(6) max_journal_bytes_cap]]
    by (intro journal_back) auto
  have "\<not> is_error saved"
    and stored: "map_of (dk_files (last (disk # states))) (pc_path config) = Some (fst (encode_journal ?p config))"
    using saved_file [OF assms(2,5), of impl] by (simp_all add: assms(7))
  then show ?thesis using loaded_file [OF assms(2) stored assms(6) dec assms(8)] by blast
qed

lemma save_load_links:
  assumes inv: "store_inv nobody impl" and fits: "journal_fits (build_payload impl h)"
    and rec: "recover (recorded (build_payload impl h)) other = (impl', a, b)"
  shows "case find_link l impl of
       None \<Rightarrow> find_link l impl' = None
     | Some e \<Rightarrow> \<exists>e'. find_link l impl' = Some e' \<and> le_current e' = [] \<and>
         lr_binding (le_record e') = lr_binding (le_record e) \<and>
         lr_state (le_record e') =
           (if lr_state (le_record e) = LinkOperationalState.Retired then LinkOperationalState.Retired
            else if lr_ever_established (le_record e) then LinkOperationalState.RevalidationRequired
            else LinkOperationalState.Unknown)"
  using recovered_links [OF inv fits rec] by (auto simp: recovered_state_def split: option.split)


section \<open>A concrete restart\<close>

definition demo_disk :: Disk where
  "demo_disk = \<lparr>dk_files = [(''linkstate.lsfjournal'', fst (encode_journal demo_payload demo_config))],
     dk_directories = [''.'']\<rparr>"

definition demo_restarted :: "Impl \<times> LoadOutcome" where
  "demo_restarted = load no_faults demo_disk demo_config (new_impl default_config)"

lemma length_encode_journal:
  "length (fst (encode_journal p config)) = 128 + length (encode_payload p config)"
  by (simp add: encode_journal_def Let_def append_digest_def length_finalize journal_header_bytes_def digest_byte_count_def)

lemmas encode_sizes = encode_payload_def encode_link_def encode_binding_def encode_endpoints_def encode_intent_def
  encode_fence_def encode_backing_def append_text_def append_enum_def append_bool_def append_digest_def

lemma demo_size: "length (encode_payload demo_payload demo_config) \<le> 1000"
  by (simp add: demo_payload_def demo_persisted_def demo_config_def new_record_def blank_binding_def
      zero_digest_def digest_byte_count_def encode_sizes)

lemma demo_config_bytes: "max_journal_bytes demo_config = 262272"
  by (simp add: max_journal_bytes_def demo_config_def Let_def kMaxJournalBytes_def journal_header_bytes_def
      journal_trailer_bytes_def digest_byte_count_def)

lemma demo_decoded:
  "decode_checked (fst (encode_journal demo_payload demo_config)) demo_config =
    Inr (recorded demo_payload, snd (encode_journal demo_payload demo_config))"
  using demo_config_valid demo_journal by (intro journal_back) simp_all

lemma demo_file: "map_of (dk_files demo_disk) (pc_path demo_config) = Some (fst (encode_journal demo_payload demo_config))"
  by (simp add: demo_disk_def demo_config_def)

lemma demo_loaded: "\<not> is_error (lo_outcome (snd demo_restarted))"
  using loaded_file [OF demo_config_valid demo_file _ demo_decoded, of "new_impl default_config" "fst demo_restarted" "snd demo_restarted"]
    demo_size by (simp add: demo_restarted_def length_encode_journal demo_config_bytes)

theorem load_conservative_witness:
  "\<exists>e. find_link (StrongId ''link-a'') (fst demo_restarted) = Some e \<and> le_current e = [] \<and>
     lr_state (le_record e) = LinkOperationalState.RevalidationRequired"
proof -
  have "load no_faults demo_disk demo_config (new_impl default_config) = (fst demo_restarted, snd demo_restarted)"
    by (simp add: demo_restarted_def)
  from load_conservative [OF this] demo_loaded demo_file demo_decoded show ?thesis
    by (auto simp: recorded_def demo_payload_def demo_persisted_def new_record_def blank_binding_def)
qed


theorem journal_replace_atomic_witness:
  "list_all (\<lambda>d. map_of (dk_files d) ''linkstate.lsfjournal'' \<in>
       {map_of (dk_files demo_disk) ''linkstate.lsfjournal'', Some [1, 2, 3, 4]})
     (snd (write_journal_file (no_faults\<lparr>io_write := Some 3\<rparr>) demo_config [1, 2, 3, 4] demo_disk))"
  using journal_replace_atomic [of "no_faults\<lparr>io_write := Some 3\<rparr>" demo_config "[1, 2, 3, 4]" demo_disk]
  by (cases "write_journal_file (no_faults\<lparr>io_write := Some 3\<rparr>) demo_config [1, 2, 3, 4] demo_disk")
    (simp add: demo_config_def list_all_iff)

lemma demo_names:
  "validate_identifier ''leaf1.spine1'' = Ok" "validate_identifier ''leaf1.port7'' = Ok"
  "validate_identifier ''leaf1'' = Ok" "validate_identifier ''lsr.leaf1.spine1'' = Ok"
  "validate_identifier ''lsr.leaf1.port7'' = Ok" "validate_identifier ''st.leaf1.spine1.0'' = Ok"
  "validate_identifier ''st.leaf1.port7.0'' = Ok"
  by code_simp+

lemma demo_zero: "gen_to_string gen_zero = ''0''"
  by code_simp

lemma demo_saved_links:
  "jp_links (build_payload demo_registered False) =
     [persist_entry False (bound_entry under_binding (Gen 1)), persist_entry False demo_entry]"
  by (simp add: demo_registered_eq build_payload_def demo_state_def new_impl_def std_sort_def demo_data find_link_def
      List.map_filter_def less_StrongId_def)

lemma demo_saved_fits: "journal_fits (build_payload demo_registered False)"
proof -
  have gens: "jp_global_state_generation (build_payload demo_registered False) = gen_zero"
    "jp_global_generation (build_payload demo_registered False) = Gen 2" "jp_fences (build_payload demo_registered False) = []"
    by (simp_all add: build_payload_def demo_registered_eq) (simp add: demo_state_def new_impl_def)
  show ?thesis
    unfolding journal_fits_def demo_saved_links
    by (simp add: gens link_fits_def link_consistent_def binding_fits_def endpoints_fit_def intent_fits_def
        persist_entry_def bound_entry_def fresh_entry_def new_record_def demo_data id_fits_def demo_names limit_defs
        zero_digest_def is_zero_def less_eq_StrongGeneration_def from_validated_def
        record_id_for_def transition_id_for_def demo_zero)
qed

lemma demo_saved_size: "length (encode_payload (build_payload demo_registered False) demo_config) \<le> 2000"
  unfolding encode_payload_def demo_saved_links
  by (simp add: build_payload_def demo_registered_eq demo_state_def new_impl_def persist_entry_def bound_entry_def
      fresh_entry_def new_record_def demo_data from_validated_def encode_sizes digest_byte_count_def demo_config_def
      record_id_for_def transition_id_for_def demo_names demo_zero)


end
