(* ===== verification/Explanations.thy ===== *)
theory Explanations
  imports Engine_Queries Engine_Scenario
begin

text \<open>
  Explanations (\<^verbatim>\<open>src/engine_explain.cpp\<close>, \<^verbatim>\<open>include/linkstate/explanation.hpp\<close>): why a link is in the
  state it is in, from its record, the resolution of its current evidence and the dispositions it
  retains; and their rendering.
\<close>

record Explanation =
  ex_link :: LinkId
  ex_state :: LinkOperationalState
  ex_result_class :: StateResultClass
  ex_degradation_cause :: DegradationCause
  ex_state_generation :: LinkStateGeneration
  ex_global_generation :: GlobalGeneration
  ex_evidence_generation :: EvidenceGeneration
  ex_topology_generation :: TopologyGeneration
  ex_rules :: "string list"
  ex_evidence :: "EvidenceDisposition list"
  ex_conflicts :: "string list"
  ex_authority :: "string list"
  ex_history :: "StateHistoryEntry list"

definition blank_explanation :: "LinkId \<Rightarrow> Explanation" where
  "blank_explanation link =
     \<lparr>ex_link = link, ex_state = LinkOperationalState.Unknown, ex_result_class = AuthoritativeUnknown,
      ex_degradation_cause = NoCause, ex_state_generation = gen_zero, ex_global_generation = gen_zero,
      ex_evidence_generation = gen_zero, ex_topology_generation = gen_zero, ex_rules = [],
      ex_evidence = [], ex_conflicts = [], ex_authority = [], ex_history = []\<rparr>"

definition binding_rule :: "TopologyBinding \<Rightarrow> string" where
  "binding_rule b =
     ''RULE_TOPOLOGY_BINDING: link '' @ id_value (tb_link b) @ '' is bound to topology generation '' @
     gen_to_string (tb_topology_generation b) @ '' with local endpoint '' @
     (if valid (eb_local (tb_endpoints b)) then id_value (eb_local (tb_endpoints b)) else ''<none>'') @
     '' at endpoint generation '' @ gen_to_string (eb_local_generation (tb_endpoints b)) @
     (if valid (eb_remote (tb_endpoints b))
      then '' and remote endpoint '' @ id_value (eb_remote (tb_endpoints b)) @ '' at endpoint generation '' @
           gen_to_string (eb_remote_generation (tb_endpoints b))
      else '' with no remote endpoint'')"

definition backing_rule :: "Impl \<Rightarrow> BackingReference \<Rightarrow> string" where
  "backing_rule impl backing =
     ''RULE_BACKING_REFERENCE: depends on '' @ id_value (br_link backing) @ '' pinned at topology generation '' @
     gen_to_string (br_generation backing) @
     (case find_link (br_link backing) impl of
        None \<Rightarrow> '' which is not bound in this engine''
      | Some entry \<Rightarrow> '' which is currently at topology generation '' @
          gen_to_string (tb_topology_generation (lr_binding (le_record entry))))"

definition intent_rules :: "AdministrativeIntent option \<Rightarrow> string list" where
  "intent_rules intent =
     (case intent of
        None \<Rightarrow> []
      | Some i \<Rightarrow> [''RULE_ADMIN_INTENT: durable administrative intent '' @ to_string_state (ai_state i) @
          '' recorded by publication '' @ id_value (ai_publication i) @ '' from publisher '' @
          id_value (ai_publisher i)])"

text \<open>A retained disposition is listed unless its observation already is.\<close>

definition add_retained :: "EvidenceDisposition \<Rightarrow> EvidenceDisposition list \<Rightarrow> EvidenceDisposition list" where
  "add_retained retained listed =
     (if dp_observation retained \<in> dp_observation ` set listed then listed else listed @ [retained])"

definition disposition_less :: "EvidenceDisposition \<Rightarrow> EvidenceDisposition \<Rightarrow> bool" where
  "disposition_less lhs rhs \<longleftrightarrow>
     (if dp_observation lhs \<noteq> dp_observation rhs then dp_observation lhs < dp_observation rhs
      else dp_source lhs < dp_source rhs)"

definition fenced_note :: "EvidenceDisposition \<Rightarrow> string" where
  "fenced_note d =
     ''FENCED: observation '' @ id_value (dp_observation d) @ '' from publisher '' @ id_value (dp_publisher d) @
     '' (worker boot '' @ id_value (dp_worker_boot d) @ '') is '' @ to_string_status (dp_status d) @ '': '' @ dp_reason d"

definition retired_note :: "EvidenceDisposition \<Rightarrow> string" where
  "retired_note d =
     ''RETIRED EVIDENCE: observation '' @ id_value (dp_observation d) @ '' is '' @ to_string_status (dp_status d) @
     '': '' @ dp_reason d"

definition explain_entry :: "Impl \<Rightarrow> LinkId \<Rightarrow> LinkEntry \<Rightarrow> Explanation" where
  "explain_entry impl link entry =
     (let record0 = le_record entry; binding = lr_binding record0;
          resolution = resolve_link_state (le_current entry) record0;
          evidence = std_sort disposition_less
            (fold add_retained (le_dispositions entry) (rs_dispositions resolution))
      in \<lparr>ex_link = link, ex_state = lr_state record0, ex_result_class = lr_result_class record0,
          ex_degradation_cause = lr_degradation_cause record0,
          ex_state_generation = lr_state_generation record0, ex_global_generation = lr_global_generation record0,
          ex_evidence_generation = lr_evidence_generation record0,
          ex_topology_generation = tb_topology_generation binding,
          ex_rules =
            [''RULE_DURABLE_STATE: '' @ to_string_state (lr_state record0) @ '' - '' @ describe_state (lr_state record0),
             binding_rule binding] @
            map (backing_rule impl) (tb_backing_links binding) @ intent_rules (lr_admin_intent record0) @
            rs_rules resolution @
            (if le_dispositions entry = [] then []
             else [''RULE_DISPOSITION_RETENTION: '' @ format_nat (length (le_dispositions entry)) @
                   '' recent evidence dispositions are retained for explanation'']),
          ex_evidence = evidence, ex_conflicts = rs_conflicts resolution,
          ex_authority =
            [''AUTHORITY_SCOPE: '' @ format_nat (length (st_publishers impl)) @
             '' publisher incarnations are registered; '' @ format_nat (length (st_fences impl)) @
             '' fences have been recorded by this engine''] @
            map fenced_note (filter (\<lambda>d. dp_status d = EvidenceStatus.StaleAuthority) evidence) @
            map retired_note (filter (\<lambda>d. dp_status d = EvidenceStatus.StaleAuthority \<or>
              dp_status d = EvidenceStatus.StaleTopology) (le_dispositions entry)),
          ex_history = lr_history record0\<rparr>)"

definition explain :: "LinkId \<Rightarrow> Impl \<Rightarrow> Explanation" where
  "explain link impl =
     (case find_link link impl of
        None \<Rightarrow> (blank_explanation link)\<lparr>ex_rules := [''RULE_UNKNOWN_LINK: no durable record exists for this link'']\<rparr>
      | Some entry \<Rightarrow> explain_entry impl link entry)"

section \<open>Rendering\<close>

definition render_disposition :: "EvidenceDisposition \<Rightarrow> string" where
  "render_disposition d =
     ''evidence              observation='' @ id_value (dp_observation d) @ '' source='' @ id_value (dp_source d) @
     '' kind='' @ to_string_kind (dp_kind d) @ '' direction='' @ to_string_direction (dp_direction d) @
     '' claim='' @ to_string_claim (dp_claim d) @ '' class='' @ to_string_class (dp_class d) @
     '' status='' @ to_string_status (dp_status d) @ '' tier='' @ format_nat (dp_precedence d) @
     '' counted='' @ (if dp_counted d then ''true'' else ''false'') @ '' reason='' @ dp_reason d @ nl"

definition render_explanation :: "Explanation \<Rightarrow> string" where
  "render_explanation x =
     ''link                  '' @ id_value (ex_link x) @ nl @
     ''state                 '' @ to_string_state (ex_state x) @ nl @
     ''state_semantics       '' @ describe_state (ex_state x) @ nl @
     ''result_class          '' @ to_string_result_class (ex_result_class x) @ nl @
     ''degradation_cause     '' @ to_string_cause (ex_degradation_cause x) @ nl @
     ''state_generation      '' @ gen_to_string (ex_state_generation x) @ nl @
     ''global_generation     '' @ gen_to_string (ex_global_generation x) @ nl @
     ''evidence_generation   '' @ gen_to_string (ex_evidence_generation x) @ nl @
     ''topology_generation   '' @ gen_to_string (ex_topology_generation x) @ nl @
     concat (map (\<lambda>rule. ''rule                  '' @ rule @ nl) (ex_rules x)) @
     concat (map (\<lambda>conflict. ''conflict              '' @ conflict @ nl) (ex_conflicts x)) @
     concat (map (\<lambda>note. ''authority             '' @ note @ nl) (ex_authority x)) @
     concat (map render_disposition (ex_evidence x)) @
     concat (map (\<lambda>entry. ''history               '' @ render_history entry @ nl) (ex_history x))"

section \<open>Nothing is left out\<close>

lemma amend_observations:
  "(\<And>d. dp_observation (f d) = dp_observation d) \<Longrightarrow>
     map dp_observation (rs_dispositions (amend_dispositions p f r)) = map dp_observation (rs_dispositions r)"
  by (simp add: amend_dispositions_def)

lemma noted_dispositions [simp]:
  "rs_dispositions (push_rule t r) = rs_dispositions r" "rs_dispositions (note_conflict t r) = rs_dispositions r"
  "rs_dispositions (set_state s c d r) = rs_dispositions r" "rs_dispositions (mark_synthetic es fs r) = rs_dispositions r"
  by (simp_all add: push_rule_def note_conflict_def set_state_def mark_synthetic_def)

lemma noted_all [simp]: "rs_dispositions (fold (\<lambda>e. note_conflict (f e)) es r) = rs_dispositions r"
  by (induction es arbitrary: r) simp_all

lemma outranked_observations [simp]:
  "map dp_observation (rs_dispositions (mark_outranked decisive r)) = map dp_observation (rs_dispositions r)"
proof -
  have "map dp_observation (rs_dispositions (fold (\<lambda>e. if P e then amend_dispositions (p e)
      (\<lambda>d. d\<lparr>dp_counted := False, dp_reason := dp_reason d @ t e\<rparr>) else id) es r)) =
    map dp_observation (rs_dispositions r)" for P p t and es :: "EvidenceRecord list"
    by (induction es arbitrary: r) (simp_all add: amend_observations)
  then show ?thesis by (simp add: mark_outranked_def)
qed

lemma claims_dispositions:
  "resolve_claims tier r = Inl x \<Longrightarrow> rs_dispositions x = rs_dispositions r"
  "resolve_claims tier r = Inr x \<Longrightarrow> rs_dispositions x = rs_dispositions r"
  unfolding resolve_claims_def Let_def by (auto split: if_splits)

lemma cross_check_dispositions [simp]: "rs_dispositions (remote_cross_check record0 decisive r) = rs_dispositions r"
  unfolding remote_cross_check_def Let_def by simp

lemma asymmetry_dispositions [simp]: "rs_dispositions (resolve_asymmetry record0 front r) = rs_dispositions r"
  unfolding resolve_asymmetry_def Let_def by simp

lemma decisive_observations:
  "map dp_observation (rs_dispositions (resolve_decisive record0 administrative decisive r)) =
     map dp_observation (rs_dispositions r)"
  unfolding resolve_decisive_def Let_def by (auto split: sum.split dest: claims_dispositions)

lemma gate_observations:
  "administrative_gate administrative r = Inl x \<Longrightarrow>
     map dp_observation (rs_dispositions x) = map dp_observation (rs_dispositions r)"
  "administrative_gate administrative r = Inr x \<Longrightarrow>
     map dp_observation (rs_dispositions x) = map dp_observation (rs_dispositions r)"
  unfolding administrative_gate_def Let_def by (auto simp: amend_observations simp del: map_map split: if_splits)

lemma resolve_observations:
  "map dp_observation (rs_dispositions (resolve_link_state es record0)) = map ev_observation (std_sort evidence_less es)"
proof -
  let ?r = "new_resolution\<lparr>rs_dispositions := map classify_candidate (std_sort evidence_less es)\<rparr>"
  have start: "map dp_observation (rs_dispositions ?r) = map ev_observation (std_sort evidence_less es)"
    by (simp add: classify_candidate_def disposition_for_def Let_def)
  have intent: "map dp_observation (rs_dispositions (apply_admin_intent intent r)) = map dp_observation (rs_dispositions r)"
    for intent r
    unfolding apply_admin_intent_def Let_def by (simp add: amend_observations del: map_map)
  have none: "rs_dispositions (no_decisive_evidence record0 r) = rs_dispositions r" for r
    by (simp add: no_decisive_evidence_def)
  show ?thesis
    unfolding resolve_link_state_def Let_def start [symmetric]
    by (auto simp: intent none decisive_observations simp del: map_map split: option.split sum.split dest: gate_observations)
qed

lemma add_retained_observations:
  "dp_observation ` set (fold add_retained ds listed) = dp_observation ` set listed \<union> dp_observation ` set ds"
  by (induction ds arbitrary: listed) (auto simp: add_retained_def)

lemma explained_observations:
  assumes "find_link link impl = Some e"
  shows "dp_observation ` set (ex_evidence (explain link impl)) =
    ev_observation ` set (le_current e) \<union> dp_observation ` set (le_dispositions e)"
proof -
  have "dp_observation ` set (rs_dispositions (resolve_link_state (le_current e) (le_record e))) =
      ev_observation ` set (le_current e)"
    using arg_cong [OF resolve_observations, of set "le_current e" "le_record e"] by simp
  then show ?thesis
    using assms by (simp add: explain_def explain_entry_def Let_def add_retained_observations)
qed



end
