(* ===== verification/Synthetic_Fabrics.thy ===== *)
theory Synthetic_Fabrics
  imports Engine_Runs Engine_Queries
begin

text \<open>
  Synthetic topologies (\<^verbatim>\<open>src/synthetic.cpp\<close>, \<^verbatim>\<open>include/linkstate/synthetic.hpp\<close>): generated fabrics and
  inventories, and the driver \<^verbatim>\<open>SyntheticFabric\<close> that publishes labelled evidence through the engine's
  public calls.  The driver's operations take the engine it refers to and return it.
\<close>

record SyntheticLinkSpec =
  sl_link :: LinkId
  sl_local_endpoint :: EndpointId
  sl_remote_endpoint :: EndpointId
  sl_fabric :: FabricId
  sl_site :: SiteId
  sl_link_class :: LinkClass
  sl_symmetry :: LinkSymmetryGuarantee
  sl_topology_generation :: TopologyGeneration
  sl_endpoint_generation :: EndpointGeneration
  sl_backing_links :: "BackingReference list"
  sl_member_links :: "LinkId list"

record SyntheticFabricSpec =
  sp_fabric :: FabricId
  sp_site :: SiteId
  sp_name :: string
  sp_switch_count :: nat
  sp_links_per_switch_pair :: nat
  sp_site_count :: nat
  sp_link_class :: LinkClass
  sp_symmetry :: LinkSymmetryGuarantee
  sp_topology_generation :: TopologyGeneration
  sp_endpoint_generation :: EndpointGeneration
  sp_extra_links :: "SyntheticLinkSpec list"

definition to_binding :: "SyntheticLinkSpec \<Rightarrow> TopologyBinding" where
  "to_binding spec =
     \<lparr>tb_fabric = sl_fabric spec, tb_site = sl_site spec, tb_link = sl_link spec,
      tb_topology_generation = sl_topology_generation spec,
      tb_endpoints = \<lparr>eb_local = sl_local_endpoint spec, eb_local_generation = sl_endpoint_generation spec,
        eb_local_device = null_id, eb_local_port = null_id, eb_remote = sl_remote_endpoint spec,
        eb_remote_generation = sl_endpoint_generation spec, eb_remote_device = null_id, eb_remote_port = null_id\<rparr>,
      tb_link_class = sl_link_class spec,
      tb_symmetry = (if sl_symmetry spec = Unspecified then default_symmetry_for (sl_link_class spec)
                     else sl_symmetry spec),
      tb_member_links = sl_member_links spec, tb_backing_links = sl_backing_links spec\<rparr>"

text \<open>The body of the innermost loop.\<close>

definition synthetic_link :: "SyntheticFabricSpec \<Rightarrow> nat \<Rightarrow> nat \<Rightarrow> nat \<Rightarrow> nat \<Rightarrow> SyntheticLinkSpec" where
  "synthetic_link spec sites left right index =
     (let name = (if valid (sp_fabric spec) then id_value (sp_fabric spec) else ''fabric'') @ ''.sw'' @
            format_nat left @ ''-sw'' @ format_nat right @ ''.'' @ format_nat index
      in \<lparr>sl_link = from_validated (''link.'' @ name),
          sl_local_endpoint = from_validated (''ep.'' @ name @ ''.a''),
          sl_remote_endpoint = from_validated (''ep.'' @ name @ ''.b''), sl_fabric = sp_fabric spec,
          sl_site = (if sites > 1
            then from_validated ((if valid (sp_site spec) then id_value (sp_site spec) else ''site'') @ ''.'' @
                   format_nat (left mod sites))
            else sp_site spec),
          sl_link_class = sp_link_class spec, sl_symmetry = sp_symmetry spec,
          sl_topology_generation = sp_topology_generation spec,
          sl_endpoint_generation = sp_endpoint_generation spec, sl_backing_links = [], sl_member_links = []\<rparr>)"

definition build_synthetic_fabric :: "SyntheticFabricSpec \<Rightarrow> SyntheticLinkSpec list" where
  "build_synthetic_fabric spec =
     (let switches = max 2 (sp_switch_count spec); sites = max 1 (sp_site_count spec);
          per_pair = max 1 (sp_links_per_switch_pair spec)
      in std_sort (\<lambda>lhs rhs. sl_link lhs < sl_link rhs)
           ([synthetic_link spec sites left right index.
               left \<leftarrow> [0..<switches], right \<leftarrow> [left + 1..<switches], index \<leftarrow> [0..<per_pair]] @
            sp_extra_links spec))"

definition inventory_link ::
  "FabricId \<Rightarrow> SiteId \<Rightarrow> LinkClass \<Rightarrow> TopologyGeneration \<Rightarrow> EndpointGeneration \<Rightarrow> nat \<Rightarrow> SyntheticLinkSpec" where
  "inventory_link fabric site link_class topology endpoints index =
     \<lparr>sl_link = from_validated (''link.inv.'' @ format_nat index),
      sl_local_endpoint = from_validated (''ep.inv.'' @ format_nat index @ ''.a''),
      sl_remote_endpoint = from_validated (''ep.inv.'' @ format_nat index @ ''.b''),
      sl_fabric = fabric, sl_site = site, sl_link_class = link_class, sl_symmetry = Unspecified,
      sl_topology_generation = topology, sl_endpoint_generation = endpoints,
      sl_backing_links = [], sl_member_links = []\<rparr>"

definition build_synthetic_inventory ::
  "nat \<Rightarrow> FabricId \<Rightarrow> SiteId \<Rightarrow> LinkClass \<Rightarrow> TopologyGeneration \<Rightarrow> EndpointGeneration \<Rightarrow> SyntheticLinkSpec list" where
  "build_synthetic_inventory n fabric site link_class topology endpoints =
     map (inventory_link fabric site link_class topology endpoints) [0..<n]"

section \<open>The driver\<close>

record SyntheticFabric =
  sf_publisher :: PublisherId
  sf_worker_boot :: WorkerBootId
  sf_source :: SourceId
  sf_epoch :: CoordinatorEpoch
  sf_sequences :: "(string, u64) umap"
  sf_observation_counter :: u64

definition new_fabric :: "PublisherId \<Rightarrow> WorkerBootId \<Rightarrow> SourceId \<Rightarrow> Impl \<Rightarrow> SyntheticFabric" where
  "new_fabric publisher worker_boot source impl =
     \<lparr>sf_publisher = publisher, sf_worker_boot = worker_boot, sf_source = source, sf_epoch = im_epoch impl,
      sf_sequences = [], sf_observation_counter = 0\<rparr>"

definition fabric_registration :: "FabricId \<Rightarrow> LinkId list \<Rightarrow> CoordinatorEpoch \<Rightarrow> SyntheticFabric \<Rightarrow> PublisherRegistration" where
  "fabric_registration fabric_id links epoch fabric =
     \<lparr>rg_publisher = sf_publisher fabric, rg_worker_boot = sf_worker_boot fabric, rg_source = sf_source fabric,
      rg_scope = \<lparr>sc_fabric = fabric_id, sc_links = links\<rparr>, rg_epoch = epoch\<rparr>"

text \<open>The binding loop stops at the first error.\<close>

fun bind_specs :: "SyntheticLinkSpec list \<Rightarrow> Impl \<Rightarrow> Impl \<times> Outcome option" where
  "bind_specs [] impl = (impl, None)"
| "bind_specs (spec # specs) impl =
     (case bind_link (to_binding spec) impl of
        (impl', bound) \<Rightarrow>
          if is_error (mr_outcome bound) \<and> oc_code (mr_outcome bound) \<noteq> Idempotent
          then (impl', Some (mr_outcome bound))
          else bind_specs specs impl')"

definition fabric_bind :: "SyntheticLinkSpec list \<Rightarrow> SyntheticFabric \<Rightarrow> Impl \<Rightarrow> SyntheticFabric \<times> Impl \<times> Outcome" where
  "fabric_bind links fabric impl =
     (case bind_specs links impl of
        (impl1, Some outcome) \<Rightarrow> (fabric, impl1, outcome)
      | (impl1, None) \<Rightarrow>
          (let registration = fabric_registration (if links = [] then null_id else sl_fabric (hd links))
                 (map sl_link links) (im_epoch impl1) fabric
           in case register_publisher registration impl1 of
             (impl2, registered) \<Rightarrow> (fabric\<lparr>sf_epoch := im_epoch impl1\<rparr>, impl2, mr_outcome registered)))"

definition fabric_rebind :: "CoordinatorEpoch \<Rightarrow> LinkId list \<Rightarrow> SyntheticFabric \<Rightarrow> Impl \<Rightarrow> SyntheticFabric \<times> Impl \<times> Outcome" where
  "fabric_rebind epoch links fabric impl =
     (case register_publisher (fabric_registration null_id links epoch fabric) impl of
        (impl', registered) \<Rightarrow>
          (if is_error (mr_outcome registered) then fabric else fabric\<lparr>sf_epoch := epoch\<rparr>, impl', mr_outcome registered))"

definition key_of :: "SourceId \<Rightarrow> LinkId \<Rightarrow> EvidenceKind \<Rightarrow> EvidenceDirection \<Rightarrow> EndpointId \<Rightarrow> string" where
  "key_of source link kind direction endpoint =
     id_value link @ ''|'' @ id_value source @ ''|'' @ id_value endpoint @ ''|'' @
     format_nat (direction_index direction) @ ''|'' @ format_nat (kind_index kind)"

definition sequence_of :: "LinkId \<Rightarrow> SourceId \<Rightarrow> EvidenceKind \<Rightarrow> EvidenceDirection \<Rightarrow> EndpointId \<Rightarrow> SyntheticFabric \<Rightarrow> u64" where
  "sequence_of link source kind direction endpoint fabric =
     (case map_of (sf_sequences fabric) (key_of source link kind direction endpoint) of None \<Rightarrow> 0 | Some n \<Rightarrow> n)"

definition bound_endpoint_generation :: "EndpointId \<Rightarrow> EndpointBinding \<Rightarrow> EndpointGeneration option" where
  "bound_endpoint_generation endpoint endpoints =
     (if \<not> valid endpoint then Some gen_zero
      else if endpoint = eb_local endpoints then Some (eb_local_generation endpoints)
      else if endpoint = eb_remote endpoints then Some (eb_remote_generation endpoints)
      else None)"

definition synthetic_observation ::
  "EvidenceKey \<Rightarrow> EvidenceClaim \<Rightarrow> DegradationCause \<Rightarrow> string \<Rightarrow> TopologyGeneration \<Rightarrow> EndpointGeneration \<Rightarrow>
     u64 \<Rightarrow> u64 \<Rightarrow> CoordinatorEpoch \<Rightarrow> SyntheticFabric \<Rightarrow> EvidenceRecord" where
  "synthetic_observation key claim cause detail topology endpoint_generation sequence counter epoch fabric =
     \<lparr>ev_key = key,
      ev_observation = from_validated (''obs.synth.'' @ id_value (sf_publisher fabric) @ ''.'' @ format_u64 counter),
      ev_publisher = sf_publisher fabric, ev_worker_boot = sf_worker_boot fabric, ev_epoch = epoch,
      ev_source_generation = Gen 1, ev_sequence = sequence, ev_topology_generation = topology,
      ev_endpoint_generation = endpoint_generation, ev_class = Synthetic, ev_claim = claim,
      ev_degradation_cause = cause, ev_observed_at_unix_nanos = 0,
      ev_detail = (if detail = [] then ''synthetic observation'' else detail), ev_metadata = [],
      ev_status = Current, ev_evidence_generation = gen_zero, ev_commit_sequence = gen_zero,
      ev_record_digest = zero_digest\<rparr>"

definition publish_endpoint_impl ::
  "SourceId \<Rightarrow> LinkId \<Rightarrow> EndpointId \<Rightarrow> EvidenceDirection \<Rightarrow> EvidenceKind \<Rightarrow> EvidenceClaim \<Rightarrow> DegradationCause \<Rightarrow>
     string \<Rightarrow> SyntheticFabric \<Rightarrow> Impl \<Rightarrow> SyntheticFabric \<times> Impl \<times> LinkMutationResult" where
  "publish_endpoint_impl source link endpoint direction kind claim cause detail fabric impl =
     (case topology_binding link impl of
        None \<Rightarrow> (fabric, impl, \<lparr>mr_outcome = make_outcome UnknownLink ''link is not bound'', mr_view = None\<rparr>)
      | Some binding \<Rightarrow>
          case bound_endpoint_generation endpoint (tb_endpoints binding) of
            None \<Rightarrow> (fabric, impl,
              \<lparr>mr_outcome = make_outcome MalformedRequest ''endpoint is not bound to this link'', mr_view = None\<rparr>)
          | Some endpoint_generation \<Rightarrow>
              (let sequence = sequence_of link source kind direction endpoint fabric + 1;
                   counter = sf_observation_counter fabric + 1;
                   observation = synthetic_observation (EvidenceKey link source endpoint direction kind) claim cause
                     detail (tb_topology_generation binding) endpoint_generation sequence counter (im_epoch impl) fabric;
                   request = \<lparr>pe_observation = observation, pe_expected_evidence_generation = None,
                     pe_expected_state_generation = None,
                     pe_publication = from_validated (''pub.synth.'' @ id_value (sf_publisher fabric) @ ''.'' @
                       format_u64 counter)\<rparr>
               in case publish_evidence request impl of
                 (impl', result) \<Rightarrow>
                   (fabric\<lparr>sf_sequences := AList.update (key_of source link kind direction endpoint) sequence
                        (sf_sequences fabric),
                      sf_observation_counter := counter, sf_epoch := im_epoch impl\<rparr>, impl', result)))"

definition fabric_publish_from where
  "fabric_publish_from source link claim kind cause detail =
     publish_endpoint_impl source link null_id Bidirectional kind claim cause detail"

definition fabric_publish where
  "fabric_publish link claim cause kind detail fabric =
     fabric_publish_from (sf_source fabric) link claim kind cause detail fabric"

definition fabric_publish_endpoint where
  "fabric_publish_endpoint link endpoint direction claim kind cause detail fabric =
     publish_endpoint_impl (sf_source fabric) link endpoint direction kind claim cause detail fabric"

definition fabric_withdraw ::
  "LinkId \<Rightarrow> SourceId \<Rightarrow> EvidenceKind \<Rightarrow> EvidenceDirection \<Rightarrow> EndpointId \<Rightarrow> string \<Rightarrow>
     SyntheticFabric \<Rightarrow> Impl \<Rightarrow> SyntheticFabric \<times> Impl \<times> LinkMutationResult" where
  "fabric_withdraw link source kind direction endpoint reason fabric impl =
     (case find (\<lambda>r. ev_source r = source \<and> ev_kind r = kind \<and> ev_direction r = direction \<and> ev_endpoint r = endpoint)
             (evidence_for_link link impl) of
        None \<Rightarrow> (fabric, impl,
          \<lparr>mr_outcome = make_outcome NotFound ''no current evidence record matches the request'', mr_view = None\<rparr>)
      | Some target \<Rightarrow>
          (let request = \<lparr>wd_key = ev_key target, wd_observation = ev_observation target,
                 wd_publisher = sf_publisher fabric, wd_worker_boot = sf_worker_boot fabric,
                 wd_epoch = im_epoch impl, wd_source_generation = ev_source_generation target,
                 wd_sequence = ev_sequence target + 1, wd_reason = reason\<rparr>
           in case withdraw_evidence request impl of
             (impl', result) \<Rightarrow>
               (fabric\<lparr>sf_sequences := AList.update (key_of source link kind direction endpoint) (wd_sequence request)
                  (sf_sequences fabric)\<rparr>, impl', result)))"

section \<open>What the driver does to an engine\<close>

text \<open>Publishing leaves the engine alone or performs one honest publication that is labelled synthetic, carries
  the next sequence number of its key and names the generations the link is bound to.\<close>

lemma synthetic_publish_call:
  assumes "publish_endpoint_impl source link endpoint direction kind claim cause detail fabric impl = (fabric', impl', result)"
  shows "fabric' = fabric \<and> impl' = impl \<and> is_error (mr_outcome result) \<or>
    (\<exists>r. impl' = perform (PublishEvidence r) impl \<and> honest (PublishEvidence r) \<and>
       ev_class (pe_observation r) = Synthetic \<and> ev_epoch (pe_observation r) = im_epoch impl \<and>
       ev_sequence (pe_observation r) = sequence_of link source kind direction endpoint fabric + 1 \<and>
       sequence_of link source kind direction endpoint fabric' = ev_sequence (pe_observation r) \<and>
       map_option tb_topology_generation (topology_binding link impl) = Some (ev_topology_generation (pe_observation r)))"
proof -
  consider "fabric' = fabric" "impl' = impl" "is_error (mr_outcome result)"
    | binding g where "topology_binding link impl = Some binding"
        "bound_endpoint_generation endpoint (tb_endpoints binding) = Some g"
    using assms by (auto simp: publish_endpoint_impl_def is_error_def code_is_error_def make_outcome_def split: option.splits)
  then show ?thesis
  proof cases
    case 2
    let ?n = "sequence_of link source kind direction endpoint fabric + 1"
    let ?r = "\<lparr>pe_observation = synthetic_observation (EvidenceKey link source endpoint direction kind) claim cause detail
        (tb_topology_generation binding) g ?n (sf_observation_counter fabric + 1) (im_epoch impl) fabric,
      pe_expected_evidence_generation = None, pe_expected_state_generation = None,
      pe_publication = from_validated (''pub.synth.'' @ id_value (sf_publisher fabric) @ ''.'' @
        format_u64 (sf_observation_counter fabric + 1))\<rparr>"
    have "impl' = perform (PublishEvidence ?r) impl" and "sequence_of link source kind direction endpoint fabric' = ?n"
      using assms 2 by (auto simp: publish_endpoint_impl_def Let_def sequence_of_def [of _ _ _ _ _ "_\<lparr>sf_sequences := _\<rparr>"]
          sequence_of_def [of _ _ _ _ _ "_\<lparr>sf_epoch := _\<rparr>"] map_of_update split: prod.splits)
    then show ?thesis
      using 2 by (intro disjI2 exI [of _ ?r]) (simp add: synthetic_observation_def)
  qed simp
qed

text \<open>Every other operation is a sequence of engine calls.\<close>

lemma bind_specs_run: "\<exists>ops. list_all honest ops \<and> fst (bind_specs specs impl) = fold perform ops impl"
proof (induction specs arbitrary: impl)
  case Nil
  then show ?case by (intro exI [of _ "[]"]) simp
next
  case (Cons spec specs)
  let ?next = "fst (bind_link (to_binding spec) impl)"
  obtain ops where "list_all honest ops" "fst (bind_specs specs ?next) = fold perform ops ?next"
    using Cons.IH by blast
  then have "list_all honest (BindLink (to_binding spec) # ops)"
    and "fst (bind_specs (spec # specs) impl) \<in>
      {fold perform [BindLink (to_binding spec)] impl, fold perform (BindLink (to_binding spec) # ops) impl}"
    by (auto split: prod.split)
  moreover have "list_all honest [BindLink (to_binding spec)]" by simp
  ultimately show ?case by (smt (verit) empty_iff insert_iff)
qed

end
