(* ===== verification/Canonical.thy ===== *)
theory Canonical
  imports Codecs
begin

text \<open>
  Canonical encodings: readers that accept a sequence of bytes only when it is what the writer wrote,
  so that an accepted message has one spelling.  The locale \<open>canonical_codec\<close> turns a successful read
  into an equivalence; every field reader of \<open>Codecs\<close> is an instance.
\<close>

definition spells :: "('e, 'a) reader \<Rightarrow> ('a \<Rightarrow> bytes) \<Rightarrow> bool" where
  "spells dec enc \<longleftrightarrow> (\<forall>data x rest. dec data = Inr (x, rest) \<longrightarrow> data = enc x @ rest)"

lemma spellsD: "spells dec enc \<Longrightarrow> dec data = Inr (x, rest) \<Longrightarrow> data = enc x @ rest"
  by (simp add: spells_def)

lemma after_Inr:
  "after m f data = Inr (y, rest) \<longleftrightarrow> (\<exists>x r. m data = Inr (x, r) \<and> f x r = Inr (y, rest))"
  by (simp add: after_def split: sum.split prod.split)

lemma give_Inr: "give x data = Inr (y, rest) \<longleftrightarrow> x = y \<and> data = rest"
  by (simp add: give_def)

lemma fail_Inr: "\<not> fail_with e data = Inr r"
  by (simp add: fail_with_def)

lemma raw_Inr: "read_raw err n data = Inr (x, rest) \<longleftrightarrow> length x = n \<and> data = x @ rest"
  by (auto simp: read_raw_def)

lemma check_Inr: "check c e data = Inr (u, rest) \<longleftrightarrow> c \<and> data = rest"
  by (cases c) (simp_all add: give_Inr fail_Inr)

lemmas reads = after_Inr give_Inr fail_Inr raw_Inr check_Inr

section \<open>Numbers and text\<close>

lemma bit_or_fold:
  "bit (fold (\<lambda>(k, b) v. v OR push_bit (8 * k) (ucast b)) ps v) n \<longleftrightarrow>
     bit v n \<or> (\<exists>(k, b) \<in> set ps. bit (push_bit (8 * k) (ucast b) :: 'w word) n)"
  for ps :: "(nat \<times> u8) list" and v :: "'w::len word"
  by (induction ps arbitrary: v) (auto simp: bit_or_iff)

text \<open>Byte \<open>k\<close> of a number loaded from \<open>data\<close> is \<open>data ! k\<close>.\<close>

lemma byte_of_load:
  fixes data :: bytes
  assumes "k < length data" and "8 * length data \<le> LENGTH('w)"
  shows "(ucast (drop_bit (8 * k) (load_le data :: 'w::len word) AND 0xff) :: u8) = data ! k"
proof (rule bit_word_eqI)
  fix n assume "n < LENGTH(8)"
  then have n: "n < 8" by simp
  have "bit (load_le data :: 'w word) (8 * k + n) \<longleftrightarrow>
      (\<exists>i < length data. bit (push_bit (8 * i) (ucast (data ! i)) :: 'w word) (8 * k + n))"
    unfolding load_le_def bit_or_fold by (force simp: in_set_enumerate_eq)
  also have "\<dots> \<longleftrightarrow> bit (data ! k) n"
  proof
    assume "\<exists>i < length data. bit (push_bit (8 * i) (ucast (data ! i)) :: 'w word) (8 * k + n)"
    then obtain i where "8 * i \<le> 8 * k + n" and bit: "bit (data ! i) (8 * k + n - 8 * i)"
      by (auto simp: bit_push_bit_iff bit_unsigned_iff)
    moreover from bit have "8 * k + n - 8 * i < 8"
      using bit_imp_le_length [of "data ! i"] by simp
    ultimately have "i = k" using n by simp
    with bit show "bit (data ! k) n" by simp
  next
    assume "bit (data ! k) n"
    moreover have "8 * k + n < LENGTH('w)" using assms n by simp
    ultimately show "\<exists>i < length data. bit (push_bit (8 * i) (ucast (data ! i)) :: 'w word) (8 * k + n)"
      using assms(1) by (intro exI [of _ k]) (auto simp: bit_push_bit_iff bit_unsigned_iff possible_bit_word)
  qed
  finally show "bit (ucast (drop_bit (8 * k) (load_le data :: 'w word) AND 0xff) :: u8) n \<longleftrightarrow> bit (data ! k) n"
    using n by (simp add: bit_byte bit_drop_bit_eq)
qed

lemma bytes_of_load:
  fixes data :: bytes
  assumes "length data = n" and "8 * n \<le> LENGTH('w)"
  shows "map (\<lambda>k. ucast (drop_bit (8 * k) (load_le data :: 'w::len word) AND 0xff)) [0..<n] = data"
  using assms by (intro nth_equalityI) (simp_all add: byte_of_load)

lemma spells_u8: "spells (read_u8 err) append_u8"
  by (auto simp: spells_def read_u8_def append_u8_def reads length_Suc_conv)

lemma spells_u16: "spells (read_u16 err) append_u16"
proof -
  have "ucast ((ucast a OR push_bit 8 (ucast b) :: u16) AND 0xff) = a"
    and "ucast (drop_bit 8 (ucast a OR push_bit 8 (ucast b) :: u16) AND 0xff) = b" for a b :: u8
    by (rule bit_word_eqI; simp only: bit_byte bit_drop_bit_eq;
        auto simp: bit_or_iff bit_push_bit_iff bit_unsigned_iff possible_bit_word dest: bit_imp_le_length)+
  then have "append_u16 (ucast a OR push_bit 8 (ucast b)) = [a, b]" for a b :: u8
    by (simp add: append_u16_def append_u8_def)
  then show ?thesis
    by (auto simp: spells_def read_u16_def reads length_Suc_conv eval_nat_numeral)
qed

lemma spells_u32: "spells (read_u32 err) append_u32"
  using bytes_of_load [where 'w = 32, of _ 4]
  by (auto simp: spells_def read_u32_def reads append_u32_bytes simp del: upt_Suc)

lemma spells_u64: "spells (read_u64 err) append_u64"
  using bytes_of_load [where 'w = 64, of _ 8]
  by (auto simp: spells_def read_u64_def reads append_u64_bytes simp del: upt_Suc)

lemma bytes_of_string_of_bytes [simp]: "bytes_of_string (string_of_bytes data) = data"
proof -
  have "(of_char (char_of (unat b)) :: u8) = b" for b
  proof -
    have "(of_char (char_of (unat b)) :: u8) = of_nat (unat b mod 256)"
      by (metis of_char_of of_nat_of_char)
    moreover have "unat b < 256" using unsigned_less [where 'a = nat, of b] by simp
    ultimately show ?thesis by simp
  qed
  then show ?thesis
    by (simp add: bytes_of_string_def string_of_bytes_def o_def)
qed

lemma length_string_of_bytes [simp]: "length (string_of_bytes data) = length data"
  by (simp add: string_of_bytes_def)

lemma spells_text: "spells (read_text err n) append_text"
  by (auto simp: spells_def read_text_def reads append_text_def split: option.splits dest!: spellsD [OF spells_u32])

lemma spells_blob: "spells (read_blob err too_long n) append_blob"
  by (auto simp: spells_def read_blob_def reads append_blob_def dest!: spellsD [OF spells_u32])

lemma spells_id: "spells (read_id err allow_empty) (\<lambda>i. append_text (id_value i))"
  by (auto simp: spells_def read_id_def reads from_validated_def split: if_splits dest!: spellsD [OF spells_text])

lemma spells_generation: "spells (read_generation err) (\<lambda>g. append_u64 (gen_value g))"
  by (auto simp: spells_def read_generation_def reads dest!: spellsD [OF spells_u64])

lemma spells_bool: "spells (read_bool err invalid) append_bool"
proof -
  have "v = 0" if "\<not> 1 < v" and "v \<noteq> 1" for v :: u8
    using that by (metis linorder_neqE word_less_1)
  then show ?thesis
    by (auto simp: spells_def read_bool_def reads append_bool_def split: if_splits dest!: spellsD [OF spells_u8])
qed

section \<open>Enumerations and lists\<close>

locale numbering = enumeration +
  assumes numbered: "map index elements = [0..<length elements]"
begin

lemma spells_enum:
  assumes "length elements = Suc maximum"
  shows "spells (read_enum err maximum elements field) (append_enum index)"
proof -
  have "index (elements ! i) = i" if "i \<le> maximum" for i
    using that assms numbered by (metis add_0 diff_zero le_imp_less_Suc length_upt nth_map nth_upt)
  then show ?thesis
    by (auto simp: spells_def read_enum_def reads append_enum_def split: if_splits dest!: spellsD [OF spells_u8])
qed

end

interpretation direction: numbering direction_index direction_values
  by unfold_locales (simp add: direction_values_def)

interpretation kind: numbering kind_index kind_values
  by unfold_locales (simp add: kind_values_def upt_rec)

interpretation evidence_class: numbering class_index class_values
  by unfold_locales (simp add: class_values_def upt_rec)

interpretation claim: numbering claim_index claim_values
  by unfold_locales (simp add: claim_values_def upt_rec)

interpretation cause: numbering cause_index cause_values
  by unfold_locales (simp add: cause_values_def upt_rec)

interpretation state: numbering state_index state_values
  by unfold_locales (simp add: state_values_def upt_rec)

interpretation outcome: numbering outcome_index outcome_values
  by unfold_locales (simp add: outcome_values_def upt_rec)

lemma spells_many:
  assumes "spells item enc"
  shows "read_many (\<lambda>_. item) n acc data = Inr (xs, rest) \<Longrightarrow>
    \<exists>ys. xs = acc @ ys \<and> length ys = n \<and> data = concat (map enc ys) @ rest"
proof (induction n arbitrary: acc data)
  case 0
  then show ?case by (simp add: reads)
next
  case (Suc n)
  then obtain x r where "item data = Inr (x, r)" and "read_many (\<lambda>_. item) n (acc @ [x]) r = Inr (xs, rest)"
    by (auto simp: reads)
  with Suc.IH obtain ys where "xs = (acc @ [x]) @ ys" "length ys = n" "r = concat (map enc ys) @ rest"
    and "data = enc x @ r"
    using spellsD [OF assms] by blast
  then show ?case by (intro exI [of _ "x # ys"]) simp
qed

lemma spells_counted:
  assumes "spells item enc"
  shows "spells (read_counted err maximum too_many (\<lambda>_. item))
    (\<lambda>xs. append_u32 (of_nat (length xs)) @ concat (map enc xs))"
  by (auto simp: spells_def read_counted_def reads split: if_splits
      dest!: spellsD [OF spells_u32] spells_many [OF assms])

section \<open>The interface\<close>

locale canonical_codec = exact_codec +
  assumes spelled: "spells dec enc"
begin

lemma decodes: "dec data = Inr (x, rest) \<longleftrightarrow> fits x \<and> data = enc x @ rest"
  using read_back [of x rest] spellsD [OF spelled, of data x rest] yieldsD [OF dec_fits, of data x rest] by blast

end

text \<open>The fields a composite reader reads, each spelled one way.\<close>

lemmas spelled_field =
  spells_u8 [THEN spellsD] spells_u16 [THEN spellsD] spells_u32 [THEN spellsD] spells_u64 [THEN spellsD]
  spells_text [THEN spellsD] spells_blob [THEN spellsD] spells_id [THEN spellsD]
  spells_generation [THEN spellsD] spells_bool [THEN spellsD]
  direction.spells_enum [of 2, simplified, THEN spellsD] kind.spells_enum [of 10, simplified, THEN spellsD]
  evidence_class.spells_enum [of 2, simplified, THEN spellsD] claim.spells_enum [of 6, simplified, THEN spellsD]
  cause.spells_enum [of 8, simplified, THEN spellsD] state.spells_enum [of 8, simplified, THEN spellsD]
  outcome.spells_enum [of 23, simplified, THEN spellsD]

end
