(* ===== verification/Protocol.thy ===== *)
theory Protocol
  imports Canonical
begin

text \<open>
  The framed publication protocol (\<^verbatim>\<open>src/protocol.cpp\<close>, \<^verbatim>\<open>include/linkstate/protocol.hpp\<close>): frames with
  their header and truncated SHA-256 integrity field, and the payload of every message type.  The
  writers and the reader are those of \<open>Codecs\<close> with the failure texts of the wire; a decoding failure
  is its text.  Every enumerator can be encoded, so the error of \<^verbatim>\<open>encode_message\<close> never arises.
\<close>

section \<open>Frames\<close>

datatype MessageType = Hello | HelloAck | RegisterPublisher | RegisterResult | PublishEvidence
  | PublishResult | WithdrawEvidence | WithdrawResult | InvalidatePublisher | InvalidateResult
  | QueryState | QueryResult | Shutdown | Error

primrec message_type_value :: "MessageType \<Rightarrow> nat" where
  "message_type_value Hello = 1"
| "message_type_value HelloAck = 2"
| "message_type_value RegisterPublisher = 3"
| "message_type_value RegisterResult = 4"
| "message_type_value PublishEvidence = 5"
| "message_type_value PublishResult = 6"
| "message_type_value WithdrawEvidence = 7"
| "message_type_value WithdrawResult = 8"
| "message_type_value InvalidatePublisher = 9"
| "message_type_value InvalidateResult = 10"
| "message_type_value QueryState = 11"
| "message_type_value QueryResult = 12"
| "message_type_value Shutdown = 13"
| "message_type_value Error = 14"

definition message_types :: "MessageType list" where
  "message_types = [Hello, HelloAck, RegisterPublisher, RegisterResult, PublishEvidence, PublishResult,
     WithdrawEvidence, WithdrawResult, InvalidatePublisher, InvalidateResult, QueryState, QueryResult,
     Shutdown, Error]"

primrec to_string_message_type :: "MessageType \<Rightarrow> string" where
  "to_string_message_type Hello = ''HELLO''"
| "to_string_message_type HelloAck = ''HELLO_ACK''"
| "to_string_message_type RegisterPublisher = ''REGISTER_PUBLISHER''"
| "to_string_message_type RegisterResult = ''REGISTER_RESULT''"
| "to_string_message_type PublishEvidence = ''PUBLISH_EVIDENCE''"
| "to_string_message_type PublishResult = ''PUBLISH_RESULT''"
| "to_string_message_type WithdrawEvidence = ''WITHDRAW_EVIDENCE''"
| "to_string_message_type WithdrawResult = ''WITHDRAW_RESULT''"
| "to_string_message_type InvalidatePublisher = ''INVALIDATE_PUBLISHER''"
| "to_string_message_type InvalidateResult = ''INVALIDATE_RESULT''"
| "to_string_message_type QueryState = ''QUERY_STATE''"
| "to_string_message_type QueryResult = ''QUERY_RESULT''"
| "to_string_message_type Shutdown = ''SHUTDOWN''"
| "to_string_message_type Error = ''ERROR''"

definition is_known_message_type :: "u16 \<Rightarrow> bool" where
  "is_known_message_type value \<longleftrightarrow>
     unat value \<ge> message_type_value Hello \<and> unat value \<le> message_type_value Error"

datatype FrameDecodeStatus = Complete | Incomplete | Malformed | UnsupportedVersion | TooLarge

primrec to_string_frame_status :: "FrameDecodeStatus \<Rightarrow> string" where
  "to_string_frame_status Complete = ''COMPLETE''"
| "to_string_frame_status Incomplete = ''INCOMPLETE''"
| "to_string_frame_status Malformed = ''MALFORMED''"
| "to_string_frame_status UnsupportedVersion = ''UNSUPPORTED_VERSION''"
| "to_string_frame_status TooLarge = ''TOO_LARGE''"

definition protocol_version :: u16 where
  "protocol_version = 1"

definition frame_magic_text :: string where
  "frame_magic_text = ''LSFP''"

definition frame_header_bytes :: nat where
  "frame_header_bytes = 24"

definition frame_integrity_bytes :: nat where
  "frame_integrity_bytes = 8"

definition max_frame_payload_bytes :: nat where
  "max_frame_payload_bytes = 1048576"

record Frame =
  fr_type :: MessageType
  fr_request_id :: u64
  fr_payload :: bytes

record FrameDecodeResult =
  fd_status :: FrameDecodeStatus
  fd_frame :: Frame
  fd_consumed :: nat
  fd_detail :: string

definition no_frame :: Frame where
  "no_frame = \<lparr>fr_type = Hello, fr_request_id = 0, fr_payload = []\<rparr>"

definition refused_frame :: "FrameDecodeStatus \<Rightarrow> string \<Rightarrow> FrameDecodeResult" where
  "refused_frame status detail = \<lparr>fd_status = status, fd_frame = no_frame, fd_consumed = 0, fd_detail = detail\<rparr>"

definition encode_frame :: "MessageType \<Rightarrow> u64 \<Rightarrow> bytes \<Rightarrow> bytes" where
  "encode_frame type request_id payload =
     (let frame = bytes_of_string frame_magic_text @ append_u16 protocol_version @
            append_u16 (of_nat (message_type_value type)) @ append_u64 request_id @
            append_u32 (of_nat (length payload)) @ append_u32 0 @ payload
      in frame @ take frame_integrity_bytes (digest_bytes (sha256 frame)))"

definition wire_errors :: "string reader_errors" where
  "wire_errors =
     \<lparr>er_truncated = ''message is truncated'', er_text_long = ''text field exceeds the accepted length'',
      er_text_malformed = (\<lambda>error. ''text field is malformed: '' @ error),
      er_id_empty = ''a required identifier is empty'',
      er_id_malformed = (\<lambda>v. ''identifier is malformed: '' @ to_string_IdValidation v),
      er_enum = (\<lambda>field. field @ '' holds an invalid enumeration value'')\<rparr>"

abbreviation (input) wr_u8 :: "(string, u8) reader" where
  "wr_u8 \<equiv> read_u8 wire_errors"

abbreviation (input) wr_u16 :: "(string, u16) reader" where
  "wr_u16 \<equiv> read_u16 wire_errors"

abbreviation (input) wr_u32 :: "(string, u32) reader" where
  "wr_u32 \<equiv> read_u32 wire_errors"

abbreviation (input) wr_u64 :: "(string, u64) reader" where
  "wr_u64 \<equiv> read_u64 wire_errors"

abbreviation (input) wr_id :: "bool \<Rightarrow> (string, 'tag StrongId) reader" where
  "wr_id \<equiv> read_id wire_errors"

abbreviation (input) wr_gen :: "(string, 'tag StrongGeneration) reader" where
  "wr_gen \<equiv> read_generation wire_errors"

abbreviation (input) wr_text :: "nat \<Rightarrow> (string, string) reader" where
  "wr_text \<equiv> read_text wire_errors"

abbreviation (input) wr_enum :: "nat \<Rightarrow> 'a list \<Rightarrow> string \<Rightarrow> (string, 'a) reader" where
  "wr_enum \<equiv> read_enum wire_errors"

text \<open>The header after the magic: version, type, request, payload length and reserved field.\<close>

definition read_frame_header :: "(string, u16 \<times> u16 \<times> u64 \<times> u32 \<times> u32) reader" where
  "read_frame_header =
     after wr_u16 (\<lambda>version. after wr_u16 (\<lambda>type. after wr_u64 (\<lambda>request_id.
     after wr_u32 (\<lambda>payload_length. after wr_u32 (\<lambda>reserved.
     give (version, type, request_id, payload_length, reserved))))))"

definition decode_frame :: "bytes \<Rightarrow> FrameDecodeResult" where
  "decode_frame buffer =
     (if length buffer < frame_header_bytes then refused_frame Incomplete ''frame header is not complete''
      else if take 4 buffer \<noteq> bytes_of_string frame_magic_text
      then refused_frame Malformed ''frame magic does not match LSFP''
      else case read_frame_header (drop 4 buffer) of
        Inl _ \<Rightarrow> refused_frame Malformed ''frame header could not be decoded''
      | Inr ((version, type, request_id, payload_length, reserved), _) \<Rightarrow>
          if version \<noteq> protocol_version
          then refused_frame UnsupportedVersion ''frame protocol version is not supported''
          else if \<not> is_known_message_type type
          then refused_frame Malformed ''frame carries an unknown message type''
          else if reserved \<noteq> 0 then refused_frame Malformed ''frame reserved field is not zero''
          else if unat payload_length > max_frame_payload_bytes
          then refused_frame TooLarge ''frame payload exceeds the maximum accepted size''
          else let covered = frame_header_bytes + unat payload_length;
                   total = covered + frame_integrity_bytes
               in if length buffer < total then refused_frame Incomplete ''frame payload is not complete''
                  else if take frame_integrity_bytes (digest_bytes (sha256 (take covered buffer))) \<noteq>
                          take frame_integrity_bytes (drop covered buffer)
                  then refused_frame Malformed ''frame integrity check failed''
                  else \<lparr>fd_status = Complete,
                    fd_frame = \<lparr>fr_type = message_types ! (unat type - 1), fr_request_id = request_id,
                      fr_payload = take (unat payload_length) (drop frame_header_bytes buffer)\<rparr>,
                    fd_consumed = total, fd_detail = []\<rparr>)"

section \<open>Messages\<close>

record HelloMessage =
  hm_agent :: string
  hm_worker_boot :: WorkerBootId
  hm_epoch :: CoordinatorEpoch

record HelloAckMessage =
  ha_version :: u16
  ha_epoch :: CoordinatorEpoch
  ha_coordinator :: string
  ha_link_count :: u64

record RegisterMessage =
  rm_publisher :: PublisherId
  rm_worker_boot :: WorkerBootId
  rm_source :: SourceId
  rm_fabric :: FabricId
  rm_epoch :: CoordinatorEpoch
  rm_links :: "LinkId list"

record PublishMessage =
  pm_publication :: PublicationId
  pm_observation :: EvidenceRecord
  pm_has_expected_evidence_generation :: bool
  pm_expected_evidence_generation :: EvidenceGeneration
  pm_has_expected_state_generation :: bool
  pm_expected_state_generation :: LinkStateGeneration

record WithdrawMessage =
  wm_key :: EvidenceKey
  wm_observation :: ObservationId
  wm_publisher :: PublisherId
  wm_worker_boot :: WorkerBootId
  wm_epoch :: CoordinatorEpoch
  wm_source_generation :: SourceGeneration
  wm_sequence :: u64
  wm_reason :: string

record InvalidateMessage =
  im_publisher :: PublisherId
  im_worker_boot :: WorkerBootId
  im_message_epoch :: CoordinatorEpoch
  im_reason :: string

record QueryMessage =
  qm_link :: LinkId

record ResultMessage =
  rs_code :: OutcomeCode
  rs_detail :: string
  rs_link_state :: LinkOperationalState
  rs_state_generation :: LinkStateGeneration
  rs_evidence_generation :: EvidenceGeneration
  rs_global_generation :: GlobalGeneration
  rs_topology_generation :: TopologyGeneration
  rs_endpoint_generation :: EndpointGeneration
  rs_found :: bool

record Message =
  mg_type :: MessageType
  mg_hello :: HelloMessage
  mg_hello_ack :: HelloAckMessage
  mg_registration :: RegisterMessage
  mg_publish :: PublishMessage
  mg_withdraw :: WithdrawMessage
  mg_invalidate :: InvalidateMessage
  mg_query :: QueryMessage
  mg_result :: ResultMessage

definition default_evidence :: EvidenceRecord where
  "default_evidence =
     \<lparr>ev_key = EvidenceKey null_id null_id null_id Bidirectional CarrierState, ev_observation = null_id,
      ev_publisher = null_id, ev_worker_boot = null_id, ev_epoch = gen_zero,
      ev_source_generation = gen_zero, ev_sequence = 0, ev_topology_generation = gen_zero,
      ev_endpoint_generation = gen_zero, ev_class = Real, ev_claim = EvidenceClaim.Unknown,
      ev_degradation_cause = NoCause, ev_observed_at_unix_nanos = 0, ev_detail = [], ev_metadata = [],
      ev_status = Current, ev_evidence_generation = gen_zero, ev_commit_sequence = gen_zero,
      ev_record_digest = zero_digest\<rparr>"

definition default_result :: ResultMessage where
  "default_result =
     \<lparr>rs_code = MalformedRequest, rs_detail = [], rs_link_state = LinkOperationalState.Unknown,
      rs_state_generation = gen_zero, rs_evidence_generation = gen_zero, rs_global_generation = gen_zero,
      rs_topology_generation = gen_zero, rs_endpoint_generation = gen_zero, rs_found = False\<rparr>"

text \<open>\<^verbatim>\<open>Message{}\<close> with its type.\<close>

definition blank_message :: "MessageType \<Rightarrow> Message" where
  "blank_message type =
     \<lparr>mg_type = type, mg_hello = \<lparr>hm_agent = [], hm_worker_boot = null_id, hm_epoch = gen_zero\<rparr>,
      mg_hello_ack = \<lparr>ha_version = protocol_version, ha_epoch = gen_zero, ha_coordinator = [], ha_link_count = 0\<rparr>,
      mg_registration = \<lparr>rm_publisher = null_id, rm_worker_boot = null_id, rm_source = null_id,
        rm_fabric = null_id, rm_epoch = gen_zero, rm_links = []\<rparr>,
      mg_publish = \<lparr>pm_publication = null_id, pm_observation = default_evidence,
        pm_has_expected_evidence_generation = False, pm_expected_evidence_generation = gen_zero,
        pm_has_expected_state_generation = False, pm_expected_state_generation = gen_zero\<rparr>,
      mg_withdraw = \<lparr>wm_key = ev_key default_evidence, wm_observation = null_id, wm_publisher = null_id,
        wm_worker_boot = null_id, wm_epoch = gen_zero, wm_source_generation = gen_zero, wm_sequence = 0,
        wm_reason = []\<rparr>,
      mg_invalidate = \<lparr>im_publisher = null_id, im_worker_boot = null_id, im_message_epoch = gen_zero,
        im_reason = []\<rparr>,
      mg_query = \<lparr>qm_link = null_id\<rparr>, mg_result = default_result\<rparr>"

section \<open>Payloads\<close>

definition write_evidence :: "EvidenceRecord \<Rightarrow> bytes" where
  "write_evidence e =
     append_text (id_value (ev_link e)) @ append_text (id_value (ev_source e)) @
     append_text (id_value (ev_endpoint e)) @ append_enum direction_index (ev_direction e) @
     append_enum kind_index (ev_kind e) @ append_text (id_value (ev_observation e)) @
     append_text (id_value (ev_publisher e)) @ append_text (id_value (ev_worker_boot e)) @
     append_u64 (gen_value (ev_epoch e)) @ append_u64 (gen_value (ev_source_generation e)) @
     append_u64 (ev_sequence e) @ append_u64 (gen_value (ev_topology_generation e)) @
     append_u64 (gen_value (ev_endpoint_generation e)) @ append_enum class_index (ev_class e) @
     append_enum claim_index (ev_claim e) @ append_enum cause_index (ev_degradation_cause e) @
     append_u64 (ev_observed_at_unix_nanos e) @ append_text (ev_detail e) @ append_blob (ev_metadata e)"

definition read_evidence :: "(string, EvidenceRecord) reader" where
  "read_evidence =
     after (wr_id False) (\<lambda>link. after (wr_id False) (\<lambda>source. after (wr_id True) (\<lambda>endpoint.
     after (wr_enum 2 direction_values ''evidence direction'') (\<lambda>direction.
     after (wr_enum 10 kind_values ''evidence kind'') (\<lambda>kind.
     after (wr_id False) (\<lambda>observation. after (wr_id False) (\<lambda>publisher. after (wr_id False) (\<lambda>worker_boot.
     after wr_gen (\<lambda>epoch. after wr_gen (\<lambda>source_generation. after wr_u64 (\<lambda>sequence.
     after wr_gen (\<lambda>topology_generation. after wr_gen (\<lambda>endpoint_generation.
     after (wr_enum 2 class_values ''evidence class'') (\<lambda>evidence_class.
     after (wr_enum 6 claim_values ''evidence claim'') (\<lambda>claim.
     after (wr_enum 8 cause_values ''degradation cause'') (\<lambda>cause.
     after wr_u64 (\<lambda>observed. after (wr_text max_detail_length) (\<lambda>detail.
     after (read_blob wire_errors ''evidence metadata exceeds the accepted length''
              max_evidence_metadata_bytes) (\<lambda>metadata.
     give (default_evidence
       \<lparr>ev_key := EvidenceKey link source endpoint direction kind, ev_observation := observation,
        ev_publisher := publisher, ev_worker_boot := worker_boot, ev_epoch := epoch,
        ev_source_generation := source_generation, ev_sequence := sequence,
        ev_topology_generation := topology_generation,
        ev_endpoint_generation := endpoint_generation, ev_class := evidence_class, ev_claim := claim,
        ev_degradation_cause := cause, ev_observed_at_unix_nanos := observed, ev_detail := detail,
        ev_metadata := metadata\<rparr>))))))))))))))))))))"

definition write_hello :: "HelloMessage \<Rightarrow> bytes" where
  "write_hello m = append_text (hm_agent m) @ append_text (id_value (hm_worker_boot m)) @
     append_u64 (gen_value (hm_epoch m))"

definition read_hello :: "(string, HelloMessage) reader" where
  "read_hello = after (wr_text max_identifier_length) (\<lambda>agent. after (wr_id False) (\<lambda>worker_boot.
     after wr_gen (\<lambda>epoch. give \<lparr>hm_agent = agent, hm_worker_boot = worker_boot, hm_epoch = epoch\<rparr>)))"

definition write_hello_ack :: "HelloAckMessage \<Rightarrow> bytes" where
  "write_hello_ack m = append_u16 (ha_version m) @ append_u64 (gen_value (ha_epoch m)) @
     append_text (ha_coordinator m) @ append_u64 (ha_link_count m)"

definition read_hello_ack :: "(string, HelloAckMessage) reader" where
  "read_hello_ack = after wr_u16 (\<lambda>version. after wr_gen (\<lambda>epoch.
     after (wr_text max_identifier_length) (\<lambda>coordinator. after wr_u64 (\<lambda>link_count.
     give \<lparr>ha_version = version, ha_epoch = epoch, ha_coordinator = coordinator, ha_link_count = link_count\<rparr>))))"

definition write_registration :: "RegisterMessage \<Rightarrow> bytes" where
  "write_registration m =
     append_text (id_value (rm_publisher m)) @ append_text (id_value (rm_worker_boot m)) @
     append_text (id_value (rm_source m)) @ append_text (id_value (rm_fabric m)) @
     append_u64 (gen_value (rm_epoch m)) @ append_u32 (of_nat (length (rm_links m))) @
     concat (map (\<lambda>link. append_text (id_value link)) (rm_links m))"

definition read_registration :: "(string, RegisterMessage) reader" where
  "read_registration =
     after (wr_id False) (\<lambda>publisher. after (wr_id False) (\<lambda>worker_boot. after (wr_id False) (\<lambda>source.
     after (wr_id True) (\<lambda>fabric. after wr_gen (\<lambda>epoch.
     after (read_counted wire_errors max_authority_scope_links
              ''registration link count exceeds the accepted maximum'' (\<lambda>_. wr_id False)) (\<lambda>links.
     give \<lparr>rm_publisher = publisher, rm_worker_boot = worker_boot, rm_source = source, rm_fabric = fabric,
           rm_epoch = epoch, rm_links = links\<rparr>))))))"

definition write_publish :: "PublishMessage \<Rightarrow> bytes" where
  "write_publish m =
     append_text (id_value (pm_publication m)) @ write_evidence (pm_observation m) @
     append_bool (pm_has_expected_evidence_generation m) @
     append_u64 (gen_value (pm_expected_evidence_generation m)) @
     append_bool (pm_has_expected_state_generation m) @
     append_u64 (gen_value (pm_expected_state_generation m))"

definition read_publish :: "(string, PublishMessage) reader" where
  "read_publish =
     after (wr_id False) (\<lambda>publication. after read_evidence (\<lambda>observation.
     after (read_bool wire_errors ''expected evidence generation flag is invalid'') (\<lambda>has_evidence.
     after wr_gen (\<lambda>evidence_generation.
     after (read_bool wire_errors ''expected state generation flag is invalid'') (\<lambda>has_state.
     after wr_gen (\<lambda>state_generation.
     give \<lparr>pm_publication = publication, pm_observation = observation,
           pm_has_expected_evidence_generation = has_evidence,
           pm_expected_evidence_generation = evidence_generation,
           pm_has_expected_state_generation = has_state,
           pm_expected_state_generation = state_generation\<rparr>))))))"

definition write_withdraw :: "WithdrawMessage \<Rightarrow> bytes" where
  "write_withdraw m =
     append_text (id_value (key_link (wm_key m))) @ append_text (id_value (key_source (wm_key m))) @
     append_text (id_value (key_endpoint (wm_key m))) @
     append_enum direction_index (key_direction (wm_key m)) @ append_enum kind_index (key_kind (wm_key m)) @
     append_text (id_value (wm_observation m)) @ append_text (id_value (wm_publisher m)) @
     append_text (id_value (wm_worker_boot m)) @ append_u64 (gen_value (wm_epoch m)) @
     append_u64 (gen_value (wm_source_generation m)) @ append_u64 (wm_sequence m) @
     append_text (wm_reason m)"

definition read_withdraw :: "(string, WithdrawMessage) reader" where
  "read_withdraw =
     after (wr_id False) (\<lambda>link. after (wr_id False) (\<lambda>source. after (wr_id True) (\<lambda>endpoint.
     after (wr_enum 2 direction_values ''withdrawal direction'') (\<lambda>direction.
     after (wr_enum 10 kind_values ''withdrawal kind'') (\<lambda>kind.
     after (wr_id False) (\<lambda>observation. after (wr_id False) (\<lambda>publisher. after (wr_id False) (\<lambda>worker_boot.
     after wr_gen (\<lambda>epoch. after wr_gen (\<lambda>source_generation. after wr_u64 (\<lambda>sequence.
     after (wr_text max_detail_length) (\<lambda>reason.
     give \<lparr>wm_key = EvidenceKey link source endpoint direction kind, wm_observation = observation,
           wm_publisher = publisher, wm_worker_boot = worker_boot, wm_epoch = epoch,
           wm_source_generation = source_generation, wm_sequence = sequence, wm_reason = reason\<rparr>))))))))))))"

definition write_invalidate :: "InvalidateMessage \<Rightarrow> bytes" where
  "write_invalidate m =
     append_text (id_value (im_publisher m)) @ append_text (id_value (im_worker_boot m)) @
     append_u64 (gen_value (im_message_epoch m)) @ append_text (im_reason m)"

definition read_invalidate :: "(string, InvalidateMessage) reader" where
  "read_invalidate =
     after (wr_id False) (\<lambda>publisher. after (wr_id True) (\<lambda>worker_boot. after wr_gen (\<lambda>epoch.
     after (wr_text max_detail_length) (\<lambda>reason.
     give \<lparr>im_publisher = publisher, im_worker_boot = worker_boot, im_message_epoch = epoch,
           im_reason = reason\<rparr>))))"

definition write_result :: "ResultMessage \<Rightarrow> bytes" where
  "write_result m =
     append_enum outcome_index (rs_code m) @ append_text (rs_detail m) @
     append_enum state_index (rs_link_state m) @ append_u64 (gen_value (rs_state_generation m)) @
     append_u64 (gen_value (rs_evidence_generation m)) @ append_u64 (gen_value (rs_global_generation m)) @
     append_u64 (gen_value (rs_topology_generation m)) @ append_u64 (gen_value (rs_endpoint_generation m)) @
     append_bool (rs_found m)"

definition read_result :: "(string, ResultMessage) reader" where
  "read_result =
     after (wr_enum 23 outcome_values ''outcome code'') (\<lambda>code. after (wr_text max_detail_length) (\<lambda>detail.
     after (wr_enum 8 state_values ''state'') (\<lambda>state. after wr_gen (\<lambda>state_generation.
     after wr_gen (\<lambda>evidence_generation. after wr_gen (\<lambda>global_generation.
     after wr_gen (\<lambda>topology_generation. after wr_gen (\<lambda>endpoint_generation.
     after (read_bool wire_errors ''found flag is invalid'') (\<lambda>found.
     give \<lparr>rs_code = code, rs_detail = detail, rs_link_state = state, rs_state_generation = state_generation,
           rs_evidence_generation = evidence_generation, rs_global_generation = global_generation,
           rs_topology_generation = topology_generation, rs_endpoint_generation = endpoint_generation,
           rs_found = found\<rparr>)))))))))"

definition encode_message :: "Message \<Rightarrow> bytes" where
  "encode_message m =
     (case mg_type m of
        Hello \<Rightarrow> write_hello (mg_hello m)
      | HelloAck \<Rightarrow> write_hello_ack (mg_hello_ack m)
      | RegisterPublisher \<Rightarrow> write_registration (mg_registration m)
      | PublishEvidence \<Rightarrow> write_publish (mg_publish m)
      | WithdrawEvidence \<Rightarrow> write_withdraw (mg_withdraw m)
      | InvalidatePublisher \<Rightarrow> write_invalidate (mg_invalidate m)
      | QueryState \<Rightarrow> append_text (id_value (qm_link (mg_query m)))
      | Shutdown \<Rightarrow> append_text (rs_detail (mg_result m))
      | _ \<Rightarrow> write_result (mg_result m))"

definition read_message :: "MessageType \<Rightarrow> (string, Message) reader" where
  "read_message type =
     (let message = blank_message type in
      case type of
        Hello \<Rightarrow> after read_hello (\<lambda>m. give (message\<lparr>mg_hello := m\<rparr>))
      | HelloAck \<Rightarrow> after read_hello_ack (\<lambda>m. give (message\<lparr>mg_hello_ack := m\<rparr>))
      | RegisterPublisher \<Rightarrow> after read_registration (\<lambda>m. give (message\<lparr>mg_registration := m\<rparr>))
      | PublishEvidence \<Rightarrow> after read_publish (\<lambda>m. give (message\<lparr>mg_publish := m\<rparr>))
      | WithdrawEvidence \<Rightarrow> after read_withdraw (\<lambda>m. give (message\<lparr>mg_withdraw := m\<rparr>))
      | InvalidatePublisher \<Rightarrow> after read_invalidate (\<lambda>m. give (message\<lparr>mg_invalidate := m\<rparr>))
      | QueryState \<Rightarrow> after (wr_id False) (\<lambda>link. give (message\<lparr>mg_query := \<lparr>qm_link = link\<rparr>\<rparr>))
      | Shutdown \<Rightarrow> after (wr_text max_detail_length) (\<lambda>detail.
          give (message\<lparr>mg_result := (mg_result message)\<lparr>rs_detail := detail\<rparr>\<rparr>))
      | _ \<Rightarrow> after read_result (\<lambda>m. give (message\<lparr>mg_result := m\<rparr>)))"

definition decode_message :: "MessageType \<Rightarrow> bytes \<Rightarrow> string + Message" where
  "decode_message type payload =
     (case read_message type payload of
        Inl error \<Rightarrow> Inl error
      | Inr (message, rest) \<Rightarrow>
          if rest \<noteq> [] then Inl ''message payload holds trailing bytes'' else Inr message)"

section \<open>What can be sent\<close>

definition detail_fits :: "string \<Rightarrow> bool" where
  "detail_fits t \<longleftrightarrow> validate_text t max_detail_length = None"

text \<open>The fields the wire does not carry are those a record gets when it is committed.\<close>

definition as_received :: "EvidenceRecord \<Rightarrow> EvidenceRecord" where
  "as_received e = e\<lparr>ev_status := Current, ev_evidence_generation := gen_zero, ev_commit_sequence := gen_zero,
     ev_record_digest := zero_digest\<rparr>"

definition observation_fits :: "EvidenceRecord \<Rightarrow> bool" where
  "observation_fits e \<longleftrightarrow>
     id_fits False (ev_link e) \<and> id_fits False (ev_source e) \<and> id_fits True (ev_endpoint e) \<and>
     id_fits False (ev_observation e) \<and> id_fits False (ev_publisher e) \<and> id_fits False (ev_worker_boot e) \<and>
     detail_fits (ev_detail e) \<and> length (ev_metadata e) \<le> max_evidence_metadata_bytes \<and> as_received e = e"

definition hello_fits :: "HelloMessage \<Rightarrow> bool" where
  "hello_fits m \<longleftrightarrow> validate_text (hm_agent m) max_identifier_length = None \<and> id_fits False (hm_worker_boot m)"

definition hello_ack_fits :: "HelloAckMessage \<Rightarrow> bool" where
  "hello_ack_fits m \<longleftrightarrow> validate_text (ha_coordinator m) max_identifier_length = None"

definition registration_fits :: "RegisterMessage \<Rightarrow> bool" where
  "registration_fits m \<longleftrightarrow>
     id_fits False (rm_publisher m) \<and> id_fits False (rm_worker_boot m) \<and> id_fits False (rm_source m) \<and>
     id_fits True (rm_fabric m) \<and> list_all (id_fits False) (rm_links m) \<and>
     length (rm_links m) \<le> max_authority_scope_links"

definition publish_fits :: "PublishMessage \<Rightarrow> bool" where
  "publish_fits m \<longleftrightarrow> id_fits False (pm_publication m) \<and> observation_fits (pm_observation m)"

definition withdraw_fits :: "WithdrawMessage \<Rightarrow> bool" where
  "withdraw_fits m \<longleftrightarrow>
     id_fits False (key_link (wm_key m)) \<and> id_fits False (key_source (wm_key m)) \<and>
     id_fits True (key_endpoint (wm_key m)) \<and> id_fits False (wm_observation m) \<and>
     id_fits False (wm_publisher m) \<and> id_fits False (wm_worker_boot m) \<and> detail_fits (wm_reason m)"

definition invalidate_fits :: "InvalidateMessage \<Rightarrow> bool" where
  "invalidate_fits m \<longleftrightarrow>
     id_fits False (im_publisher m) \<and> id_fits True (im_worker_boot m) \<and> detail_fits (im_reason m)"

text \<open>A message the wire can carry: its payload fits, and every other member has its default.\<close>

definition message_fits :: "Message \<Rightarrow> bool" where
  "message_fits m \<longleftrightarrow>
     (let blank = blank_message (mg_type m) in
      case mg_type m of
        Hello \<Rightarrow> hello_fits (mg_hello m) \<and> m = blank\<lparr>mg_hello := mg_hello m\<rparr>
      | HelloAck \<Rightarrow> hello_ack_fits (mg_hello_ack m) \<and> m = blank\<lparr>mg_hello_ack := mg_hello_ack m\<rparr>
      | RegisterPublisher \<Rightarrow>
          registration_fits (mg_registration m) \<and> m = blank\<lparr>mg_registration := mg_registration m\<rparr>
      | PublishEvidence \<Rightarrow> publish_fits (mg_publish m) \<and> m = blank\<lparr>mg_publish := mg_publish m\<rparr>
      | WithdrawEvidence \<Rightarrow> withdraw_fits (mg_withdraw m) \<and> m = blank\<lparr>mg_withdraw := mg_withdraw m\<rparr>
      | InvalidatePublisher \<Rightarrow> invalidate_fits (mg_invalidate m) \<and> m = blank\<lparr>mg_invalidate := mg_invalidate m\<rparr>
      | QueryState \<Rightarrow> id_fits False (qm_link (mg_query m)) \<and> m = blank\<lparr>mg_query := mg_query m\<rparr>
      | Shutdown \<Rightarrow> detail_fits (rs_detail (mg_result m)) \<and>
          m = blank\<lparr>mg_result := default_result\<lparr>rs_detail := rs_detail (mg_result m)\<rparr>\<rparr>
      | _ \<Rightarrow> detail_fits (rs_detail (mg_result m)) \<and> m = blank\<lparr>mg_result := mg_result m\<rparr>)"

lemmas payload_fits =
  detail_fits_def observation_fits_def hello_fits_def hello_ack_fits_def registration_fits_def publish_fits_def
  withdraw_fits_def invalidate_fits_def as_received_def

lemmas wire_limits =
  max_identifier_length_def max_detail_length_def max_evidence_metadata_bytes_def max_authority_scope_links_def

section \<open>Every payload has one spelling\<close>

lemmas yields_wire =
  yields_after [OF yields_id] yields_after [OF yields_text] yields_after [OF yields_blob]
  yields_after [OF yields_any]

interpretation wire_evidence: canonical_codec write_evidence read_evidence observation_fits
proof unfold_locales
  fix e rest assume "observation_fits e"
  then show "read_evidence (write_evidence e @ rest) = Inr (e, rest)"
    by (cases e; cases "ev_key e")
      (simp add: read_evidence_def write_evidence_def field_back give_def payload_fits wire_limits default_evidence_def)
next
  show "spells read_evidence write_evidence"
    unfolding spells_def read_evidence_def reads
    by (auto simp: write_evidence_def dest!: spelled_field)
next
  show "yields read_evidence observation_fits"
    unfolding read_evidence_def
    by (rule yields_wire)+ (simp add: yields_give payload_fits default_evidence_def)
qed

interpretation wire_hello: canonical_codec write_hello read_hello hello_fits
proof unfold_locales
  show "hello_fits m \<Longrightarrow> read_hello (write_hello m @ rest) = Inr (m, rest)" for m rest
    by (simp add: read_hello_def write_hello_def field_back give_def payload_fits wire_limits)
  show "spells read_hello write_hello"
    unfolding spells_def read_hello_def reads by (auto simp: write_hello_def dest!: spelled_field)
  show "yields read_hello hello_fits"
    unfolding read_hello_def by (rule yields_wire)+ (simp add: yields_give payload_fits)
qed

interpretation wire_hello_ack: canonical_codec write_hello_ack read_hello_ack hello_ack_fits
proof unfold_locales
  show "hello_ack_fits m \<Longrightarrow> read_hello_ack (write_hello_ack m @ rest) = Inr (m, rest)" for m rest
    by (simp add: read_hello_ack_def write_hello_ack_def field_back give_def payload_fits wire_limits)
  show "spells read_hello_ack write_hello_ack"
    unfolding spells_def read_hello_ack_def reads by (auto simp: write_hello_ack_def dest!: spelled_field)
  show "yields read_hello_ack hello_ack_fits"
    unfolding read_hello_ack_def by (rule yields_wire)+ (simp add: yields_give payload_fits)
qed

interpretation wire_registration: canonical_codec write_registration read_registration registration_fits
proof unfold_locales
  show "registration_fits m \<Longrightarrow> read_registration (write_registration m @ rest) = Inr (m, rest)" for m rest
    by (simp add: read_registration_def write_registration_def field_back ident.read_list_back give_def
        payload_fits wire_limits)
  show "spells read_registration write_registration"
    unfolding spells_def read_registration_def reads
    by (auto simp: write_registration_def dest!: spelled_field spells_counted [OF spells_id, THEN spellsD])
  show "yields read_registration registration_fits"
    unfolding read_registration_def
    by (rule yields_after [OF ident.yields_some] yields_wire)+ (simp add: yields_give payload_fits)
qed

interpretation wire_publish: canonical_codec write_publish read_publish publish_fits
proof unfold_locales
  show "publish_fits m \<Longrightarrow> read_publish (write_publish m @ rest) = Inr (m, rest)" for m rest
    by (simp add: read_publish_def write_publish_def field_back wire_evidence.after_read_back give_def publish_fits_def)
  show "spells read_publish write_publish"
    unfolding spells_def read_publish_def reads wire_evidence.decodes
    by (auto simp: write_publish_def dest!: spelled_field)
  show "yields read_publish publish_fits"
    unfolding read_publish_def
    by (rule yields_after [OF wire_evidence.dec_fits] yields_wire)+ (simp add: yields_give publish_fits_def)
qed

interpretation wire_withdraw: canonical_codec write_withdraw read_withdraw withdraw_fits
proof unfold_locales
  show "withdraw_fits m \<Longrightarrow> read_withdraw (write_withdraw m @ rest) = Inr (m, rest)" for m rest
    by (cases m; cases "wm_key m")
      (simp add: read_withdraw_def write_withdraw_def field_back give_def payload_fits wire_limits)
  show "spells read_withdraw write_withdraw"
    unfolding spells_def read_withdraw_def reads by (auto simp: write_withdraw_def dest!: spelled_field)
  show "yields read_withdraw withdraw_fits"
    unfolding read_withdraw_def by (rule yields_wire)+ (simp add: yields_give payload_fits)
qed

interpretation wire_invalidate: canonical_codec write_invalidate read_invalidate invalidate_fits
proof unfold_locales
  show "invalidate_fits m \<Longrightarrow> read_invalidate (write_invalidate m @ rest) = Inr (m, rest)" for m rest
    by (simp add: read_invalidate_def write_invalidate_def field_back give_def payload_fits wire_limits)
  show "spells read_invalidate write_invalidate"
    unfolding spells_def read_invalidate_def reads by (auto simp: write_invalidate_def dest!: spelled_field)
  show "yields read_invalidate invalidate_fits"
    unfolding read_invalidate_def by (rule yields_wire)+ (simp add: yields_give payload_fits)
qed

interpretation wire_result: canonical_codec write_result read_result "\<lambda>m. detail_fits (rs_detail m)"
proof unfold_locales
  show "detail_fits (rs_detail m) \<Longrightarrow> read_result (write_result m @ rest) = Inr (m, rest)" for m rest
    by (simp add: read_result_def write_result_def field_back give_def detail_fits_def wire_limits)
  show "spells read_result write_result"
    unfolding spells_def read_result_def reads by (auto simp: write_result_def dest!: spelled_field)
  show "yields read_result (\<lambda>m. detail_fits (rs_detail m))"
    unfolding read_result_def by (rule yields_wire)+ (simp add: yields_give detail_fits_def)
qed

interpretation wire_link: canonical_codec "\<lambda>i. append_text (id_value i)" "wr_id False" "id_fits False"
  by unfold_locales (rule spells_id)

interpretation wire_detail: canonical_codec append_text "wr_text max_detail_length" detail_fits
proof unfold_locales
  show "detail_fits t \<Longrightarrow> wr_text max_detail_length (append_text t @ rest) = Inr (t, rest)" for t rest
    by (simp add: detail_fits_def wire_limits read_text_back)
  show "spells (wr_text max_detail_length) append_text" by (rule spells_text)
  show "yields (wr_text max_detail_length) detail_fits"
    unfolding detail_fits_def by (rule yields_text)
qed

lemmas payload_decodes =
  wire_hello.decodes wire_hello_ack.decodes wire_registration.decodes wire_publish.decodes wire_withdraw.decodes
  wire_invalidate.decodes wire_result.decodes wire_link.decodes wire_detail.decodes

lemma read_message_decodes:
  "read_message type data = Inr (m, rest) \<longleftrightarrow>
     mg_type m = type \<and> message_fits m \<and> data = encode_message m @ rest"
  unfolding read_message_def Let_def
  by (cases type; cases "mg_type m"; cases "mg_query m";
      auto simp: reads payload_decodes message_fits_def encode_message_def blank_message_def)

lemma decode_message_accepts:
  "decode_message type payload = Inr m \<longleftrightarrow> mg_type m = type \<and> message_fits m \<and> payload = encode_message m"
proof -
  have "decode_message type payload = Inr m \<longleftrightarrow> read_message type payload = Inr (m, [])"
    by (auto simp: decode_message_def split: sum.split prod.split)
  then show ?thesis by (simp add: read_message_decodes)
qed

text \<open>C24: A payload decodes to a message exactly when it is the encoding of that message: every message
  that fits the wire limits comes back as it was sent, nothing else is ever accepted, and no message
  has a second spelling (\<^verbatim>\<open>encode_message\<close>, \<^verbatim>\<open>decode_message\<close>).\<close>

theorem decode_message_exact:
  "decode_message type payload = Inr m \<longleftrightarrow>
     mg_type m = type \<and> message_fits m \<and> payload = encode_message m"
  by (rule decode_message_accepts)

section \<open>Frames on a stream\<close>

lemma read_frame_header_decodes:
  "read_frame_header data = Inr ((version, type, request_id, payload_length, reserved), rest) \<longleftrightarrow>
     data = append_u16 version @ append_u16 type @ append_u64 request_id @ append_u32 payload_length @
       append_u32 reserved @ rest"
  by (auto simp: read_frame_header_def reads dest!: spelled_field)
     (simp add: field_back give_def read_u16_back read_u64_back read_u32_back)+

text \<open>Enough bytes always hold a number.\<close>

lemma number_ahead:
  "2 \<le> length data \<Longrightarrow> \<exists>v r. data = append_u16 v @ r"
  "4 \<le> length data \<Longrightarrow> \<exists>v r. data = append_u32 v @ r"
  "8 \<le> length data \<Longrightarrow> \<exists>v r. data = append_u64 v @ r"
proof -
  have read: "read_raw wire_errors n data = Inr (take n data, drop n data)" if "n \<le> length data" for n
    using that by (simp add: read_raw_def)
  show "2 \<le> length data \<Longrightarrow> \<exists>v r. data = append_u16 v @ r"
    using spellsD [OF spells_u16, of wire_errors data] by (auto simp: read_u16_def after_def read give_def)
  show "4 \<le> length data \<Longrightarrow> \<exists>v r. data = append_u32 v @ r"
    using spellsD [OF spells_u32, of wire_errors data] by (auto simp: read_u32_def after_def read give_def)
  show "8 \<le> length data \<Longrightarrow> \<exists>v r. data = append_u64 v @ r"
    using spellsD [OF spells_u64, of wire_errors data] by (auto simp: read_u64_def after_def read give_def)
qed

lemma header_ahead:
  assumes "20 \<le> length data"
  obtains version type request_id payload_length reserved rest
  where "data = append_u16 version @ append_u16 type @ append_u64 request_id @ append_u32 payload_length @
      append_u32 reserved @ rest"
proof -
  obtain v r1 where 1: "data = append_u16 v @ r1" using number_ahead(1) [of data] assms by auto
  obtain t r2 where 2: "r1 = append_u16 t @ r2" using number_ahead(1) [of r1] assms 1 by auto
  obtain i r3 where 3: "r2 = append_u64 i @ r3" using number_ahead(3) [of r2] assms 1 2 by auto
  obtain l r4 where 4: "r3 = append_u32 l @ r4" using number_ahead(2) [of r3] assms 1 2 3 by auto
  obtain z r5 where 5: "r4 = append_u32 z @ r5" using number_ahead(2) [of r4] assms 1 2 3 4 by auto
  from 1 2 3 4 5 that show ?thesis by blast
qed

lemma message_type_number: "is_known_message_type (of_nat (message_type_value t)) \<and>
    unat (of_nat (message_type_value t) :: u16) = message_type_value t \<and>
    message_types ! (message_type_value t - 1) = t"
  by (cases t) (simp_all add: is_known_message_type_def message_types_def unat_of_nat)

lemma known_message_type:
  assumes "is_known_message_type v"
  shows "v = of_nat (message_type_value (message_types ! (unat v - 1)))"
proof -
  have "unat v \<in> {1, 2, 3, 4, 5, 6, 7, 8, 9, 10, 11, 12, 13, 14}"
    using assms unfolding is_known_message_type_def insert_iff by simp presburger
  then have "message_type_value (message_types ! (unat v - 1)) = unat v"
    by (elim insertE emptyE; simp add: message_types_def)
  then show ?thesis by simp
qed

text \<open>A received frame and the bytes it stood for.\<close>

definition received :: "Frame \<Rightarrow> FrameDecodeResult" where
  "received f = \<lparr>fd_status = Complete, fd_frame = f,
     fd_consumed = frame_header_bytes + length (fr_payload f) + frame_integrity_bytes, fd_detail = []\<rparr>"

definition frame_bytes :: "Frame \<Rightarrow> bytes" where
  "frame_bytes f = encode_frame (fr_type f) (fr_request_id f) (fr_payload f)"

lemmas frame_sizes = frame_header_bytes_def frame_integrity_bytes_def max_frame_payload_bytes_def

text \<open>The decoder on a buffer with a whole header.\<close>

lemma decode_frame_header:
  assumes "buffer = bytes_of_string frame_magic_text @ append_u16 version @ append_u16 type @
      append_u64 request_id @ append_u32 payload_length @ append_u32 reserved @ rest"
  shows "decode_frame buffer =
     (if version \<noteq> protocol_version
      then refused_frame UnsupportedVersion ''frame protocol version is not supported''
      else if \<not> is_known_message_type type
      then refused_frame Malformed ''frame carries an unknown message type''
      else if reserved \<noteq> 0 then refused_frame Malformed ''frame reserved field is not zero''
      else if unat payload_length > max_frame_payload_bytes
      then refused_frame TooLarge ''frame payload exceeds the maximum accepted size''
      else if length rest < unat payload_length + frame_integrity_bytes
      then refused_frame Incomplete ''frame payload is not complete''
      else if take frame_integrity_bytes (digest_bytes (sha256 (take (24 + unat payload_length) buffer))) \<noteq>
              take frame_integrity_bytes (drop (unat payload_length) rest)
      then refused_frame Malformed ''frame integrity check failed''
      else received \<lparr>fr_type = message_types ! (unat type - 1), fr_request_id = request_id,
             fr_payload = take (unat payload_length) rest\<rparr>)"
proof -
  have "take 4 buffer = bytes_of_string frame_magic_text" and "\<not> length buffer < 24"
    using assms by (simp_all add: frame_magic_text_def)
  moreover have rest: "drop (24 + k) buffer = drop k rest" for k
    using assms drop_drop [of k 24 buffer, symmetric] by (simp add: frame_magic_text_def add.commute)
  moreover have "length buffer = 24 + length rest"
    using assms by (simp add: frame_magic_text_def)
  moreover have "read_frame_header (drop 4 buffer) = Inr ((version, type, request_id, payload_length, reserved), rest)"
    unfolding read_frame_header_decodes using assms by (simp add: frame_magic_text_def)
  ultimately show ?thesis
    using rest [of 0]
    by (simp add: decode_frame_def Let_def frame_header_bytes_def frame_integrity_bytes_def received_def)
qed

lemma decode_frame_short: "length buffer < frame_header_bytes \<Longrightarrow>
    decode_frame buffer = refused_frame Incomplete ''frame header is not complete''"
  by (simp add: decode_frame_def)

lemma decode_frame_foreign:
  "frame_header_bytes \<le> length buffer \<Longrightarrow> take 4 buffer \<noteq> bytes_of_string frame_magic_text \<Longrightarrow>
     decode_frame buffer = refused_frame Malformed ''frame magic does not match LSFP''"
  by (simp add: decode_frame_def)

text \<open>The three shapes of a buffer.\<close>

lemma buffer_cases [case_names short foreign header]:
  assumes "length buffer < frame_header_bytes \<Longrightarrow> thesis"
    and "frame_header_bytes \<le> length buffer \<Longrightarrow> take 4 buffer \<noteq> bytes_of_string frame_magic_text \<Longrightarrow> thesis"
    and "\<And>version type request_id payload_length reserved rest.
      buffer = bytes_of_string frame_magic_text @ append_u16 version @ append_u16 type @
        append_u64 request_id @ append_u32 payload_length @ append_u32 reserved @ rest \<Longrightarrow> thesis"
  shows thesis
proof (cases "length buffer < frame_header_bytes \<or> take 4 buffer \<noteq> bytes_of_string frame_magic_text")
  case True
  then show ?thesis using assms(1,2) by force
next
  case False
  then have "20 \<le> length (drop 4 buffer)" unfolding frame_header_bytes_def by auto
  then obtain version type request_id payload_length reserved rest
    where "drop 4 buffer = append_u16 version @ append_u16 type @ append_u64 request_id @
      append_u32 payload_length @ append_u32 reserved @ rest"
    by (rule header_ahead)
  then have "buffer = bytes_of_string frame_magic_text @ append_u16 version @ append_u16 type @
      append_u64 request_id @ append_u32 payload_length @ append_u32 reserved @ rest"
    using False append_take_drop_id [of 4 buffer] by metis
  then show ?thesis by (rule assms(3))
qed

lemma length_frame_bytes [simp]: "length (frame_bytes f) = 32 + length (fr_payload f)"
  by (simp add: frame_bytes_def encode_frame_def Let_def frame_magic_text_def frame_integrity_bytes_def digest_byte_count_def)

lemma decode_frame_back:
  assumes "length (fr_payload f) \<le> max_frame_payload_bytes"
  shows "decode_frame (frame_bytes f @ rest) = received f"
proof -
  let ?n = "length (fr_payload f)"
  let ?head = "bytes_of_string frame_magic_text @ append_u16 protocol_version @
     append_u16 (of_nat (message_type_value (fr_type f))) @ append_u64 (fr_request_id f) @
     append_u32 (of_nat ?n) @ append_u32 0"
  let ?sum = "take frame_integrity_bytes (digest_bytes (sha256 (?head @ fr_payload f)))"
  have n: "unat (of_nat ?n :: u32) = ?n"
    using assms by (intro unat_u32) (simp add: max_frame_payload_bytes_def)
  have frame: "frame_bytes f @ rest = ?head @ fr_payload f @ ?sum @ rest"
    by (simp add: frame_bytes_def encode_frame_def Let_def)
  moreover have "length ?head = 24" by (simp add: frame_magic_text_def)
  moreover have "length ?sum = frame_integrity_bytes"
    by (simp add: frame_integrity_bytes_def digest_byte_count_def)
  ultimately have "take (24 + ?n) (frame_bytes f @ rest) = ?head @ fr_payload f"
    and "take frame_integrity_bytes (drop ?n (fr_payload f @ ?sum @ rest)) = ?sum"
    and "length (fr_payload f @ ?sum @ rest) \<ge> ?n + frame_integrity_bytes"
    by simp_all
  moreover note decode_frame_header [of "frame_bytes f @ rest" protocol_version
      "of_nat (message_type_value (fr_type f))" "fr_request_id f" "of_nat ?n" 0 "fr_payload f @ ?sum @ rest"]
  ultimately have "decode_frame (frame_bytes f @ rest) = received
      \<lparr>fr_type = fr_type f, fr_request_id = fr_request_id f, fr_payload = fr_payload f\<rparr>"
    using assms frame message_type_number [of "fr_type f"] by (simp add: n)
  then show ?thesis by (cases f) simp
qed

lemma decode_frame_received:
  assumes "fd_status (decode_frame buffer) = Complete"
  obtains f rest where "decode_frame buffer = received f" and "buffer = frame_bytes f @ rest"
    and "length (fr_payload f) \<le> max_frame_payload_bytes"
proof (cases buffer rule: buffer_cases)
  case (header version type request_id payload_length reserved rest)
  let ?n = "unat payload_length"
  let ?f = "\<lparr>fr_type = message_types ! (unat type - 1), fr_request_id = request_id, fr_payload = take ?n rest\<rparr>"
  have decoded: "decode_frame buffer = received ?f" and ok: "version = protocol_version" "is_known_message_type type"
      "reserved = 0" "?n \<le> max_frame_payload_bytes" "?n + frame_integrity_bytes \<le> length rest"
      "take frame_integrity_bytes (drop ?n rest) =
        take frame_integrity_bytes (digest_bytes (sha256 (take (24 + ?n) buffer)))"
    using assms unfolding decode_frame_header [OF header]
    by (simp_all add: refused_frame_def not_less split: if_splits)
  have "take (24 + ?n) buffer = bytes_of_string frame_magic_text @ append_u16 protocol_version @
      append_u16 type @ append_u64 request_id @ append_u32 payload_length @ append_u32 0 @ take ?n rest"
    using header ok by (simp add: frame_magic_text_def)
  then have "frame_bytes ?f = take (24 + ?n) buffer @ take frame_integrity_bytes (drop ?n rest)"
    using ok(2,5,6) known_message_type [OF ok(2)] by (simp add: frame_bytes_def encode_frame_def Let_def min_absorb2)
  also have "\<dots> @ drop (?n + frame_integrity_bytes) rest = buffer"
    using header by (simp add: frame_magic_text_def add.commute flip: drop_drop)
  finally show ?thesis
    using decoded ok by (intro that [of ?f "drop (?n + frame_integrity_bytes) rest"]) simp_all
qed (use assms in \<open>simp_all add: decode_frame_short decode_frame_foreign refused_frame_def\<close>)

text \<open>The decoder reports a complete frame exactly when the buffer starts with the encoding of that
  frame and its payload is within the limit, and then it consumes just that encoding: whatever a peer
  frames is recovered at the head of any stream, and no other bytes are taken for a frame
  (\<^verbatim>\<open>encode_frame\<close>, \<^verbatim>\<open>decode_frame\<close>).\<close>

theorem decode_frame_exact:
  "decode_frame buffer = received f \<longleftrightarrow>
     length (fr_payload f) \<le> max_frame_payload_bytes \<and> (\<exists>rest. buffer = frame_bytes f @ rest)"
proof
  assume decoded: "decode_frame buffer = received f"
  then have "fd_status (decode_frame buffer) = Complete" by (simp add: received_def)
  then obtain g rest where "decode_frame buffer = received g" "buffer = frame_bytes g @ rest"
      "length (fr_payload g) \<le> max_frame_payload_bytes"
    by (rule decode_frame_received)
  moreover from this(1) decoded have "g = f" by (simp add: received_def)
  ultimately show "length (fr_payload f) \<le> max_frame_payload_bytes \<and> (\<exists>rest. buffer = frame_bytes f @ rest)"
    by blast
qed (auto simp: decode_frame_back)

text \<open>A verdict other than \<open>Incomplete\<close> stands whatever follows, and an incomplete frame is shorter than the
  largest one.\<close>

lemma decode_frame_more:
  assumes "fd_status (decode_frame buffer) \<noteq> Incomplete"
  shows "decode_frame (buffer @ tail) = decode_frame buffer"
proof (cases buffer rule: buffer_cases)
  case (header version type request_id payload_length reserved rest)
  then have longer: "buffer @ tail = bytes_of_string frame_magic_text @ append_u16 version @ append_u16 type @
      append_u64 request_id @ append_u32 payload_length @ append_u32 reserved @ rest @ tail"
    by simp
  show ?thesis
  proof (cases "length rest < unat payload_length + frame_integrity_bytes")
    case True
    then show ?thesis
      using assms unfolding decode_frame_header [OF header] decode_frame_header [OF longer]
      by (simp add: refused_frame_def split: if_splits)
  next
    case False
    moreover have "length buffer = 24 + length rest" using header by (simp add: frame_magic_text_def)
    ultimately have "take (24 + unat payload_length) (buffer @ tail) = take (24 + unat payload_length) buffer"
      and "take (unat payload_length) (rest @ tail) = take (unat payload_length) rest"
      and "take frame_integrity_bytes (drop (unat payload_length) (rest @ tail)) =
        take frame_integrity_bytes (drop (unat payload_length) rest)"
      by simp_all
    with False show ?thesis
      unfolding decode_frame_header [OF header] decode_frame_header [OF longer]
      by (simp del: take_append drop_append)
  qed
next
  case foreign
  then have "take 4 (buffer @ tail) = take 4 buffer" by (simp add: frame_header_bytes_def)
  with foreign show ?thesis by (simp add: decode_frame_foreign del: take_append)
qed (use assms in \<open>simp add: decode_frame_short refused_frame_def\<close>)

definition buffered_limit :: nat where
  "buffered_limit = max_frame_payload_bytes + frame_header_bytes + frame_integrity_bytes"

lemma decode_frame_incomplete:
  assumes "fd_status (decode_frame buffer) = Incomplete"
  shows "length buffer < buffered_limit"
proof (cases buffer rule: buffer_cases)
  case (header version type request_id payload_length reserved rest)
  moreover have "length rest < max_frame_payload_bytes + frame_integrity_bytes"
    using assms unfolding decode_frame_header [OF header]
    by (auto simp: refused_frame_def received_def split: if_splits)
  ultimately show ?thesis
    by (simp add: frame_magic_text_def buffered_limit_def frame_header_bytes_def)
qed (use assms in \<open>simp_all add: decode_frame_foreign refused_frame_def buffered_limit_def\<close>)

lemma decode_frame_consumed:
  assumes "fd_status (decode_frame buffer) = Complete"
  shows "32 \<le> fd_consumed (decode_frame buffer)" and "fd_consumed (decode_frame buffer) \<le> length buffer"
proof -
  obtain f rest where "decode_frame buffer = received f" and "buffer = frame_bytes f @ rest"
    using assms by (rule decode_frame_received)
  then show "32 \<le> fd_consumed (decode_frame buffer)" and "fd_consumed (decode_frame buffer) \<le> length buffer"
    by (simp_all add: received_def frame_header_bytes_def frame_integrity_bytes_def)
qed

section \<open>A registration that no frame can carry\<close>

text \<open>The scope limit of a registration exceeds the frame limit: a registration within every field limit may be
  longer than the largest payload, which the receiver refuses as \<^verbatim>\<open>TOO_LARGE\<close>.\<close>

lemma registration_exceeds_frame:
  "\<exists>m. registration_fits m \<and> length (write_registration m) > max_frame_payload_bytes"
proof -
  let ?link = "StrongId ''aaaaaaaaaaaaaaaa'' :: LinkId"
  let ?m = "\<lparr>rm_publisher = StrongId ''p'', rm_worker_boot = StrongId ''b'', rm_source = StrongId ''s'',
    rm_fabric = null_id, rm_epoch = gen_zero, rm_links = replicate 65536 ?link\<rparr>"
  have ids: "validate_identifier ''aaaaaaaaaaaaaaaa'' = Ok" "validate_identifier ''p'' = Ok"
      "validate_identifier ''b'' = Ok" "validate_identifier ''s'' = Ok"
    by code_simp+
  have "length (concat (map (\<lambda>link. append_text (id_value link)) (replicate n ?link))) = n * 20" for n
    by (induction n) (simp_all add: append_text_def)
  then have "length (write_registration ?m) > max_frame_payload_bytes"
    by (simp add: write_registration_def max_frame_payload_bytes_def append_text_def del: length_concat)
  moreover have "list_all (id_fits False) (replicate n ?link)" for n
    by (induction n) (simp_all add: id_fits_def ids)
  then have "registration_fits ?m"
    by (simp add: registration_fits_def id_fits_def ids max_authority_scope_links_def)
  ultimately show ?thesis by blast
qed

end
