(* ===== verification/Server.thy ===== *)
theory Server
  imports Protocol Recovery Engine_Queries
begin

text \<open>
  The coordinator's side of the protocol (\<^verbatim>\<open>src/server.cpp\<close>, \<^verbatim>\<open>include/linkstate/server.hpp\<close>): the
  handling of one frame, the receive loop of a session, the end of a session, admission of sessions,
  and starting and stopping.  The transport is an argument: the chunks a socket delivers before it
  ends, how many sends succeed, and what listening reports.  A session's thread is its sequence of
  frames; threads meet only in the engine, whose calls are atomic, and in the counters.
\<close>

section \<open>Configuration\<close>

record CoordinatorConfig =
  cc_bind_address :: string
  cc_port :: u16
  cc_max_sessions :: nat
  cc_coordinator_name :: string
  cc_fence_on_disconnect :: bool
  cc_fence_on_shutdown :: bool
  cc_journal_path :: string
  cc_journal_history :: bool
  cc_session_observer :: bool

definition limit_sessions :: nat where
  "limit_sessions = 1024"

definition default_coordinator :: CoordinatorConfig where
  "default_coordinator =
     \<lparr>cc_bind_address = ''127.0.0.1'', cc_port = 0, cc_max_sessions = limit_sessions,
      cc_coordinator_name = ''link-state-coordinator'', cc_fence_on_disconnect = True,
      cc_fence_on_shutdown = False, cc_journal_path = [], cc_journal_history = False,
      cc_session_observer = False\<rparr>"

text \<open>The persistence configuration the server builds from its own; the rest has its defaults.\<close>

definition server_persistence :: "CoordinatorConfig \<Rightarrow> PersistenceConfig" where
  "server_persistence config =
     \<lparr>pc_path = cc_journal_path config, pc_max_records = max_persisted_records,
      pc_include_history = cc_journal_history config, pc_create_parent_directory = False\<rparr>"

definition validate_coordinator :: "CoordinatorConfig \<Rightarrow> string" where
  "validate_coordinator config =
     (if cc_bind_address config = [] then ''bind address is required''
      else if cc_max_sessions config = 0 \<or> cc_max_sessions config > limit_sessions
      then ''max_sessions must be between 1 and limits::max_sessions''
      else if cc_coordinator_name config = [] then ''coordinator name is required''
      else if cc_journal_path config \<noteq> [] then validate_persistence (server_persistence config)
      else [])"

section \<open>State\<close>

datatype SessionEventKind = Accepted | Closed

primrec to_string_session_event :: "SessionEventKind \<Rightarrow> string" where
  "to_string_session_event Accepted = ''ACCEPTED''"
| "to_string_session_event Closed = ''CLOSED''"

record SessionEvent =
  se_kind :: SessionEventKind
  se_agent :: string
  se_registrations :: nat
  se_fenced :: nat
  se_publisher :: PublisherId
  se_worker_boot :: WorkerBootId

text \<open>A session: what the code keeps for it, the frames its socket has accepted for sending, and how
  many more sends will succeed.\<close>

record Session =
  ss_agent :: string
  ss_registrations :: "(PublisherId \<times> WorkerBootId) list"
  ss_finished :: bool
  ss_sent :: "bytes list"
  ss_sendable :: nat

definition new_session :: "nat \<Rightarrow> Session" where
  "new_session sendable =
     \<lparr>ss_agent = [], ss_registrations = [], ss_finished = False, ss_sent = [], ss_sendable = sendable\<rparr>"

text \<open>The server, the engine it serves, the disk its journal is on with the failures the coming saves
  meet, and the events its observer was given.\<close>

record Coordinator =
  cd_engine :: Impl
  cd_disk :: Disk
  cd_faults :: "IoFaults list"
  cd_sessions_accepted :: u64
  cd_frames_received :: u64
  cd_frames_rejected :: u64
  cd_requests_handled :: u64
  cd_fences_applied :: u64
  cd_events :: "SessionEvent list"

definition send_all :: "bytes \<Rightarrow> Session \<Rightarrow> bool \<times> Session" where
  "send_all data session =
     (if ss_sendable session = 0 then (False, session)
      else (True, session\<lparr>ss_sent := ss_sent session @ [data], ss_sendable := ss_sendable session - 1\<rparr>))"

definition reject_frame :: "Coordinator \<Rightarrow> Coordinator" where
  "reject_frame server = server\<lparr>cd_frames_rejected := cd_frames_rejected server + 1\<rparr>"

definition count_fence :: "Coordinator \<Rightarrow> Coordinator" where
  "count_fence server = server\<lparr>cd_fences_applied := cd_fences_applied server + 1\<rparr>"

definition observe :: "CoordinatorConfig \<Rightarrow> SessionEvent \<Rightarrow> Coordinator \<Rightarrow> Coordinator" where
  "observe config event server =
     (if cc_session_observer config then server\<lparr>cd_events := cd_events server @ [event]\<rparr> else server)"

section \<open>Results\<close>

definition fill_result :: "Outcome \<Rightarrow> LinkStateView option \<Rightarrow> ResultMessage" where
  "fill_result outcome view =
     (let result = default_result\<lparr>rs_code := oc_code outcome, rs_detail := oc_detail outcome,
            rs_state_generation := oc_state_generation outcome,
            rs_evidence_generation := oc_evidence_generation outcome,
            rs_global_generation := oc_global_generation outcome\<rparr>
      in case view of
           None \<Rightarrow> result
         | Some v \<Rightarrow> result\<lparr>rs_found := True, rs_link_state := lr_state (vw_record v),
             rs_state_generation := lr_state_generation (vw_record v),
             rs_evidence_generation := lr_evidence_generation (vw_record v),
             rs_global_generation := lr_global_generation (vw_record v),
             rs_topology_generation := tb_topology_generation (lr_binding (vw_record v)),
             rs_endpoint_generation := eb_local_generation (tb_endpoints (lr_binding (vw_record v)))\<rparr>)"

definition checkpoint :: "CoordinatorConfig \<Rightarrow> Outcome \<Rightarrow> Coordinator \<Rightarrow> Coordinator" where
  "checkpoint config outcome server =
     (if cc_journal_path config = [] then server
      else if \<not> outcome_committed outcome \<and> oc_code outcome \<noteq> OutcomeCode.EvidenceConflict then server
      else let faults = (case cd_faults server of [] \<Rightarrow> no_faults | f # _ \<Rightarrow> f);
               disk = cd_disk server
           in server\<lparr>cd_disk := disk_after disk (save faults (server_persistence config) (cd_engine server) disk),
                cd_faults := tl (cd_faults server)\<rparr>)"

text \<open>An engine call and the checkpoint that follows it.\<close>

definition mutate ::
  "CoordinatorConfig \<Rightarrow> (Impl \<Rightarrow> Impl \<times> LinkMutationResult) \<Rightarrow> Coordinator \<Rightarrow> Coordinator \<times> LinkMutationResult" where
  "mutate config call server =
     (case call (cd_engine server) of
        (engine, result) \<Rightarrow>
          (checkpoint config (mr_outcome result) (server\<lparr>cd_engine := engine\<rparr>), result))"

section \<open>One frame\<close>

definition error_message :: "string \<Rightarrow> Message" where
  "error_message detail =
     (blank_message Error)\<lparr>mg_result := default_result\<lparr>rs_code := MalformedRequest, rs_detail := detail\<rparr>\<rparr>"

definition result_message :: "MessageType \<Rightarrow> ResultMessage \<Rightarrow> Message" where
  "result_message type result = (blank_message type)\<lparr>mg_result := result\<rparr>"

definition registration_request :: "RegisterMessage \<Rightarrow> PublisherRegistration" where
  "registration_request m =
     \<lparr>rg_publisher = rm_publisher m, rg_worker_boot = rm_worker_boot m, rg_source = rm_source m,
      rg_scope = \<lparr>sc_fabric = rm_fabric m, sc_links = rm_links m\<rparr>, rg_epoch = rm_epoch m\<rparr>"

definition publication_request :: "PublishMessage \<Rightarrow> PublishEvidenceRequest" where
  "publication_request m =
     \<lparr>pe_observation = pm_observation m,
      pe_expected_evidence_generation =
        (if pm_has_expected_evidence_generation m then Some (pm_expected_evidence_generation m) else None),
      pe_expected_state_generation =
        (if pm_has_expected_state_generation m then Some (pm_expected_state_generation m) else None),
      pe_publication = pm_publication m\<rparr>"

definition withdrawal_request :: "WithdrawMessage \<Rightarrow> WithdrawEvidenceRequest" where
  "withdrawal_request m =
     \<lparr>wd_key = wm_key m, wd_observation = wm_observation m, wd_publisher = wm_publisher m,
      wd_worker_boot = wm_worker_boot m, wd_epoch = wm_epoch m,
      wd_source_generation = wm_source_generation m, wd_sequence = wm_sequence m, wd_reason = wm_reason m\<rparr>"

definition invalidation_request :: "InvalidateMessage \<Rightarrow> InvalidatePublisherRequest" where
  "invalidation_request m =
     \<lparr>iv_publisher = im_publisher m, iv_worker_boot = Some (im_worker_boot m), iv_epoch = im_message_epoch m,
      iv_reason = im_reason m\<rparr>"

definition note_registration :: "RegisterMessage \<Rightarrow> Outcome \<Rightarrow> Session \<Rightarrow> Session" where
  "note_registration m outcome session =
     (let entry = (rm_publisher m, rm_worker_boot m)
      in if is_error outcome \<or> entry \<in> set (ss_registrations session) then session
         else session\<lparr>ss_registrations := ss_registrations session @ [entry]\<rparr>)"

text \<open>The cases of the switch: the server, the session, the reply and whether the session stays open.\<close>

definition handle_request ::
  "CoordinatorConfig \<Rightarrow> MessageType \<Rightarrow> Message \<Rightarrow> Session \<Rightarrow> Coordinator \<Rightarrow> Coordinator \<times> Session \<times> Message \<times> bool" where
  "handle_request config type request session server =
     (case type of
        Hello \<Rightarrow>
          (server, session\<lparr>ss_agent := hm_agent (mg_hello request)\<rparr>,
           (blank_message HelloAck)\<lparr>mg_hello_ack :=
              \<lparr>ha_version = protocol_version, ha_epoch = im_epoch (cd_engine server),
               ha_coordinator = cc_coordinator_name config,
               ha_link_count = of_nat (link_count (cd_engine server))\<rparr>\<rparr>, True)
      | RegisterPublisher \<Rightarrow>
          (case mutate config (register_publisher (registration_request (mg_registration request))) server of
             (server', result) \<Rightarrow>
               (server', note_registration (mg_registration request) (mr_outcome result) session,
                result_message RegisterResult (fill_result (mr_outcome result) None), True))
      | PublishEvidence \<Rightarrow>
          (case mutate config (publish_evidence (publication_request (mg_publish request))) server of
             (server', result) \<Rightarrow>
               (server', session,
                result_message PublishResult (fill_result (mr_outcome result) (mr_view result)), True))
      | WithdrawEvidence \<Rightarrow>
          (case mutate config (withdraw_evidence (withdrawal_request (mg_withdraw request))) server of
             (server', result) \<Rightarrow>
               (server', session,
                result_message WithdrawResult (fill_result (mr_outcome result) (mr_view result)), True))
      | InvalidatePublisher \<Rightarrow>
          if im_publisher (mg_invalidate request) \<notin> fst ` set (ss_registrations session)
          then (server, session,
                result_message InvalidateResult (default_result\<lparr>rs_code := UnauthorizedScope,
                  rs_detail := ''a session may only invalidate publisher incarnations it registered''\<rparr>), True)
          else (case mutate config (invalidate_publisher (invalidation_request (mg_invalidate request))) server of
                  (server', result) \<Rightarrow>
                    (if is_error (mr_outcome result) then server' else count_fence server', session,
                     result_message InvalidateResult (fill_result (mr_outcome result) None), True))
      | QueryState \<Rightarrow>
          (server, session,
           (case link_state (qm_link (mg_query request)) (cd_engine server) of
              Some view \<Rightarrow>
                result_message QueryResult (fill_result (make_outcome Committed ''link state'') (Some view))
            | None \<Rightarrow>
                result_message QueryResult (default_result\<lparr>rs_code := UnknownLink,
                  rs_detail := ''link is not bound in this engine'', rs_found := False\<rparr>)), True)
      | Shutdown \<Rightarrow>
          (server, session,
           result_message Shutdown (default_result\<lparr>rs_code := Committed,
             rs_detail := ''session shutdown acknowledged''\<rparr>), False)
      | _ \<Rightarrow>
          (reject_frame server, session,
           result_message Error (default_result\<lparr>rs_code := MalformedRequest,
             rs_detail := ''a worker session may only send request messages''\<rparr>), True))"

definition handle_frame ::
  "CoordinatorConfig \<Rightarrow> Frame \<Rightarrow> Session \<Rightarrow> Coordinator \<Rightarrow> Coordinator \<times> Session \<times> bytes \<times> bool" where
  "handle_frame config frame session server =
     (case decode_message (fr_type frame) (fr_payload frame) of
        Inl error \<Rightarrow>
          (reject_frame server, session,
           encode_frame Error (fr_request_id frame) (encode_message (error_message error)), False)
      | Inr request \<Rightarrow>
          case handle_request config (fr_type frame) request session
                 (server\<lparr>cd_requests_handled := cd_requests_handled server + 1\<rparr>) of
            (server', session', reply, keep_open) \<Rightarrow>
              (server', session',
               encode_frame (mg_type reply) (fr_request_id frame) (encode_message reply), keep_open))"

section \<open>One session\<close>

definition fail_protocol :: "string \<Rightarrow> Session \<Rightarrow> Session" where
  "fail_protocol detail session =
     snd (send_all (encode_frame Error 0 (encode_message (error_message detail))) session)"

text \<open>The inner loop of \<^verbatim>\<open>serve\<close>: every whole frame of the buffer is handled.  The result says whether
  the session is to be closed.\<close>

function drain ::
  "CoordinatorConfig \<Rightarrow> bytes \<Rightarrow> Session \<Rightarrow> Coordinator \<Rightarrow> bool \<times> bytes \<times> Session \<times> Coordinator" where
  "drain config buffer session server =
     (let decoded = decode_frame buffer in
      if fd_status decoded = Incomplete then (False, buffer, session, server)
      else if fd_status decoded \<noteq> Complete
      then (True, buffer,
            fail_protocol (''protocol violation: '' @ to_string_frame_status (fd_status decoded) @ '' ('' @
              fd_detail decoded @ '')'') session, reject_frame server)
      else let remaining = drop (fd_consumed decoded) buffer in
        case handle_frame config (fd_frame decoded) session
               (server\<lparr>cd_frames_received := cd_frames_received server + 1\<rparr>) of
          (server1, session1, response, keep_open) \<Rightarrow>
            case (if response \<noteq> [] then send_all response session1 else (True, session1)) of
              (sent, session2) \<Rightarrow>
                if \<not> sent \<or> \<not> keep_open then (True, remaining, session2, server1)
                else drain config remaining session2 server1)"
  by pat_completeness auto
termination
proof (relation "measure (\<lambda>(config, buffer, session, server). length buffer)", goal_cases)
  case (2 config buffer session server decoded remaining)
  then have "32 \<le> fd_consumed decoded" and "fd_consumed decoded \<le> length buffer"
    using decode_frame_consumed [of buffer] by simp_all
  then show ?case using 2 by simp
qed simp

declare drain.simps [simp del]

text \<open>The loop of \<^verbatim>\<open>end_session\<close> over the incarnations of the session.\<close>

definition fence_registration ::
  "CoordinatorConfig \<Rightarrow> PublisherId \<times> WorkerBootId \<Rightarrow> Coordinator \<times> SessionEvent \<Rightarrow> Coordinator \<times> SessionEvent" where
  "fence_registration config registration state =
     (case state of (server, event) \<Rightarrow>
        case mutate config (invalidate_publisher
               \<lparr>iv_publisher = fst registration, iv_worker_boot = Some (snd registration),
                iv_epoch = im_epoch (cd_engine server), iv_reason = ''worker session ended''\<rparr>) server of
          (server', result) \<Rightarrow>
            if is_error (mr_outcome result) then (server', event)
            else (count_fence server',
                  event\<lparr>se_fenced := se_fenced event + 1, se_publisher := fst registration,
                    se_worker_boot := snd registration\<rparr>))"

definition end_session :: "CoordinatorConfig \<Rightarrow> Session \<Rightarrow> Coordinator \<Rightarrow> Session \<times> Coordinator" where
  "end_session config session server =
     (let event = \<lparr>se_kind = Closed, se_agent = ss_agent session,
            se_registrations = length (ss_registrations session), se_fenced = 0, se_publisher = null_id,
            se_worker_boot = null_id\<rparr>;
          fencing = (cc_fence_on_disconnect config \<and> ss_registrations session \<noteq> []);
          (server', event') = (if fencing then fold (fence_registration config) (ss_registrations session) (server, event)
                               else (server, event))
      in (session\<lparr>ss_registrations := (if fencing then [] else ss_registrations session), ss_finished := True\<rparr>,
          observe config event' server'))"

text \<open>The outer loop, on the chunks received before the socket ends or the server stops.\<close>

fun serve :: "CoordinatorConfig \<Rightarrow> bytes list \<Rightarrow> bytes \<Rightarrow> Session \<Rightarrow> Coordinator \<Rightarrow> Session \<times> Coordinator" where
  "serve config [] buffer session server = end_session config session server"
| "serve config (chunk # chunks) buffer session server =
     (case drain config (buffer @ chunk) session server of
        (close_session, buffer', session', server') \<Rightarrow>
          if close_session then end_session config session' server'
          else if length buffer' > buffered_limit
          then end_session config (fail_protocol ''buffered data exceeds the maximum frame size'' session')
                 (reject_frame server')
          else serve config chunks buffer' session' server')"

section \<open>The server\<close>

record CoordinatorServer =
  sv_coordinator :: Coordinator
  sv_sessions :: "Session list"
  sv_running :: bool
  sv_port :: u16

definition new_server :: "Impl \<Rightarrow> Disk \<Rightarrow> IoFaults list \<Rightarrow> CoordinatorServer" where
  "new_server engine disk faults =
     \<lparr>sv_coordinator = \<lparr>cd_engine = engine, cd_disk = disk, cd_faults = faults, cd_sessions_accepted = 0,
        cd_frames_received = 0, cd_frames_rejected = 0, cd_requests_handled = 0, cd_fences_applied = 0,
        cd_events = []\<rparr>,
      sv_sessions = [], sv_running = False, sv_port = 0\<rparr>"

text \<open>What the platform reports when the server starts: whether there is a transport at all, the error
  or the bound port of \<^verbatim>\<open>net_listen\<close>, and whether a stop handle could be made.\<close>

record Transport =
  tp_available :: bool
  tp_listen :: "string + u16"
  tp_stop_handle :: bool

definition start :: "CoordinatorConfig \<Rightarrow> Transport \<Rightarrow> CoordinatorServer \<Rightarrow> CoordinatorServer \<times> Outcome" where
  "start config transport sv =
     (if sv_running sv then (sv, make_outcome Idempotent ''the coordinator is already listening'')
      else if validate_coordinator config \<noteq> []
      then (sv, make_outcome MalformedRequest (validate_coordinator config))
      else if \<not> tp_available transport
      then (sv, make_outcome UnsupportedCapability ''the distributed transport is unavailable on this platform'')
      else case tp_listen transport of
        Inl error \<Rightarrow> (sv, make_outcome TransportFailure error)
      | Inr bound_port \<Rightarrow>
          if \<not> tp_stop_handle transport
          then (sv, make_outcome TransportFailure ''the stop handle could not be created'')
          else (sv\<lparr>sv_port := bound_port, sv_running := True\<rparr>,
                make_outcome Committed (''listening on '' @ cc_bind_address config @ '':'' @ format_nat (unat bound_port))))"

definition endpoint :: "CoordinatorConfig \<Rightarrow> CoordinatorServer \<Rightarrow> string" where
  "endpoint config sv =
     (if \<not> sv_running sv \<or> sv_port sv = 0 then []
      else cc_bind_address config @ '':'' @ format_nat (unat (sv_port sv)))"

definition session_count :: "CoordinatorServer \<Rightarrow> nat" where
  "session_count sv = length (filter (\<lambda>session. \<not> ss_finished session) (sv_sessions sv))"

text \<open>One turn of \<^verbatim>\<open>accept_loop\<close> that accepts a connection: finished sessions are dropped first, and a
  connection beyond the limit is closed at once.\<close>

definition accept_session :: "CoordinatorConfig \<Rightarrow> nat \<Rightarrow> CoordinatorServer \<Rightarrow> CoordinatorServer" where
  "accept_session config sendable sv =
     (let live = filter (\<lambda>session. \<not> ss_finished session) (sv_sessions sv); server = sv_coordinator sv
      in if length live \<ge> cc_max_sessions config then sv\<lparr>sv_sessions := live\<rparr>
         else sv\<lparr>sv_sessions := live @ [new_session sendable],
                 sv_coordinator := server\<lparr>cd_sessions_accepted := cd_sessions_accepted server + 1\<rparr>\<rparr>)"

text \<open>Shutdown fencing of one session: no checkpoint follows it.\<close>

definition shutdown_registration ::
  "PublisherId \<times> WorkerBootId \<Rightarrow> Coordinator \<times> nat \<Rightarrow> Coordinator \<times> nat" where
  "shutdown_registration registration state =
     (case state of (server, fenced) \<Rightarrow>
        case invalidate_publisher
               \<lparr>iv_publisher = fst registration, iv_worker_boot = Some (snd registration),
                iv_epoch = im_epoch (cd_engine server), iv_reason = ''coordinator shutdown''\<rparr> (cd_engine server) of
          (engine, result) \<Rightarrow>
            if is_error (mr_outcome result) then (server\<lparr>cd_engine := engine\<rparr>, fenced)
            else (count_fence (server\<lparr>cd_engine := engine\<rparr>), fenced + 1))"

definition stop_session :: "CoordinatorConfig \<Rightarrow> Session \<Rightarrow> Coordinator \<Rightarrow> Coordinator" where
  "stop_session config session server =
     (if cc_fence_on_shutdown config \<and> ss_registrations session \<noteq> []
      then case fold shutdown_registration (ss_registrations session) (server, 0) of
        (server', fenced) \<Rightarrow>
          if fenced > 0
          then observe config \<lparr>se_kind = Closed, se_agent = ss_agent session,
                 se_registrations = length (ss_registrations session), se_fenced = fenced,
                 se_publisher = fst (hd (ss_registrations session)),
                 se_worker_boot = snd (hd (ss_registrations session))\<rparr> server'
          else server'
      else server)"

text \<open>Joining a session's thread lets it run to its \<^verbatim>\<open>end_session\<close>; a finished one is past it.\<close>

definition join_session :: "CoordinatorConfig \<Rightarrow> Session \<Rightarrow> Coordinator \<Rightarrow> Coordinator" where
  "join_session config session server =
     (case (if ss_finished session then (session, server) else end_session config session server) of
        (session', server') \<Rightarrow> stop_session config session' server')"

definition stop :: "CoordinatorConfig \<Rightarrow> CoordinatorServer \<Rightarrow> CoordinatorServer \<times> Outcome" where
  "stop config sv =
     (if \<not> sv_running sv then (sv, make_outcome Idempotent ''the coordinator is not listening'')
      else (sv\<lparr>sv_coordinator := fold (join_session config) (sv_sessions sv) (sv_coordinator sv),
               sv_sessions := [], sv_port := 0, sv_running := False\<rparr>,
            make_outcome Committed ''the coordinator stopped''))"

text \<open>Session \<open>i\<close> handles one more frame, or ends.\<close>

definition session_frame :: "CoordinatorConfig \<Rightarrow> nat \<Rightarrow> Frame \<Rightarrow> CoordinatorServer \<Rightarrow> CoordinatorServer" where
  "session_frame config i frame sv =
     (if i < length (sv_sessions sv) \<and> \<not> ss_finished (sv_sessions sv ! i)
      then case handle_frame config frame (sv_sessions sv ! i) (sv_coordinator sv) of
        (server, session, _, _) \<Rightarrow> sv\<lparr>sv_coordinator := server, sv_sessions := (sv_sessions sv)[i := session]\<rparr>
      else sv)"

definition session_end :: "CoordinatorConfig \<Rightarrow> nat \<Rightarrow> CoordinatorServer \<Rightarrow> CoordinatorServer" where
  "session_end config i sv =
     (if i < length (sv_sessions sv) \<and> \<not> ss_finished (sv_sessions sv ! i)
      then case end_session config (sv_sessions sv ! i) (sv_coordinator sv) of
        (session, server) \<Rightarrow> sv\<lparr>sv_coordinator := server, sv_sessions := (sv_sessions sv)[i := session]\<rparr>
      else sv)"

end
