(* ===== verification/Server_Guarantees.thy ===== *)
theory Server_Guarantees
  imports Server Recovery_Guarantees Engine_Lifecycle
begin

text \<open>
  What the coordinator guarantees: a session is served as if its whole stream had arrived at once; a
  frame does to the engine exactly what its message asks for; whatever traffic arrives, the engine is
  one that local calls could have produced; a positive answer leaves only after the journal holds the
  change; and a session that ends leaves none of its evidence current.
\<close>

section \<open>The receive loop\<close>

lemma drain_incomplete: "fd_status (decode_frame buffer) = Incomplete \<Longrightarrow>
    drain config buffer session server = (False, buffer, session, server)"
  by (simp add: drain.simps [of config buffer])

lemma drain_open:
  "drain config buffer session server = (False, rest, session', server') \<Longrightarrow>
     fd_status (decode_frame rest) = Incomplete"
  by (induction config buffer session server rule: drain.induct)
    (subst (asm) drain.simps, auto simp: Let_def split: if_splits prod.splits)

definition respond :: "bytes \<Rightarrow> Session \<Rightarrow> bool \<times> Session" where
  "respond response session = (if response \<noteq> [] then send_all response session else (True, session))"

lemma drain_complete:
  assumes "fd_status (decode_frame buffer) = Complete"
    and "handle_frame config (fd_frame (decode_frame buffer)) session
        (server\<lparr>cd_frames_received := cd_frames_received server + 1\<rparr>) = (server1, session1, response, keep_open)"
    and "respond response session1 = (sent, session2)"
  shows "drain config buffer session server =
    (if \<not> sent \<or> \<not> keep_open then (True, drop (fd_consumed (decode_frame buffer)) buffer, session2, server1)
     else drain config (drop (fd_consumed (decode_frame buffer)) buffer) session2 server1)"
  using assms by (subst drain.simps) (simp add: Let_def respond_def)

lemma drain_append:
  "drain config (buffer @ tail) session server =
     (case drain config buffer session server of
        (closed, rest, session', server') \<Rightarrow>
          if closed then (True, rest @ tail, session', server')
          else drain config (rest @ tail) session' server')"
proof (induction config buffer session server rule: drain.induct)
  case (1 config buffer session server)
  show ?case
  proof (cases "fd_status (decode_frame buffer) = Incomplete")
    case True
    then show ?thesis by (simp add: drain_incomplete)
  next
    case False
    then have same: "decode_frame (buffer @ tail) = decode_frame buffer" by (rule decode_frame_more)
    show ?thesis
    proof (cases "fd_status (decode_frame buffer) = Complete")
      case True
      then have within: "fd_consumed (decode_frame buffer) \<le> length buffer" by (rule decode_frame_consumed)
      obtain server1 session1 response keep_open where h: "handle_frame config (fd_frame (decode_frame buffer)) session
          (server\<lparr>cd_frames_received := cd_frames_received server + 1\<rparr>) = (server1, session1, response, keep_open)"
        by (metis prod_cases4)
      obtain sent session2 where r: "respond response session1 = (sent, session2)" by fastforce
      note step = drain_complete [where config = config and session = session and server = server, OF _ _ r]
      show ?thesis
        using step [of buffer] step [of "buffer @ tail"] True h within
          1 [OF refl _ _ refl h [symmetric]] False r unfolding respond_def same by auto
    qed (use False in \<open>subst (1 2) drain.simps, simp add: Let_def same\<close>)
  qed
qed

text \<open>
  C15: how the transport cuts a session's bytes into chunks cannot be observed.  Serving any list of
  chunks is handling every frame of their concatenation and then ending the session: replies, engine,
  counters and journal are the same for every split, every frame is handled exactly once, and the
  guard against an overfull buffer never closes a session.
\<close>

theorem serve_stream:
  "serve config chunks [] session server =
     (case drain config (concat chunks) session server of
        (_, _, session', server') \<Rightarrow> end_session config session' server')"
proof -
  have "serve config chunks buffer session server =
      (case drain config (buffer @ concat chunks) session server of
        (_, _, session', server') \<Rightarrow> end_session config session' server')"
    if "fd_status (decode_frame buffer) = Incomplete" for buffer
    using that
  proof (induction chunks arbitrary: buffer session server)
    case Nil
    then show ?case by (simp add: drain_incomplete)
  next
    case (Cons chunk chunks)
    obtain closed rest session1 server1
      where d: "drain config (buffer @ chunk) session server = (closed, rest, session1, server1)"
      by (metis prod_cases4)
    show ?case
    proof (cases closed)
      case True
      then show ?thesis
        using drain_append [of config "buffer @ chunk" "concat chunks" session server] by (simp add: d)
    next
      case False
      then have "fd_status (decode_frame rest) = Incomplete"
        using d by (auto intro: drain_open)
      then show ?thesis
        using drain_append [of config "buffer @ chunk" "concat chunks" session server] False
          decode_frame_incomplete [of rest] Cons.IH [of rest session1 server1] by (simp add: d)
    qed
  qed
  moreover have "fd_status (decode_frame []) = Incomplete"
    by (simp add: decode_frame_short frame_header_bytes_def refused_frame_def)
  ultimately show ?thesis by fastforce
qed

section \<open>Frames and the engine\<close>

lemma checkpoint_engine [simp]: "cd_engine (checkpoint config oc server) = cd_engine server"
  by (simp add: checkpoint_def Let_def)

lemma mutate_sel [simp]:
  "cd_engine (fst (mutate config call server)) = fst (call (cd_engine server))"
  "snd (mutate config call server) = snd (call (cd_engine server))"
  by (simp_all add: mutate_def split: prod.split)

lemma count_sel [simp]: "cd_engine (count_fence server) = cd_engine server" "cd_engine (reject_frame server) = cd_engine server"
  "cd_engine (observe config event server) = cd_engine server"
  by (simp_all add: count_fence_def reject_frame_def observe_def)

text \<open>The engine call a message asks for.\<close>

definition request_operation :: "MessageType \<Rightarrow> Message \<Rightarrow> Session \<Rightarrow> engine_operation option" where
  "request_operation type m session =
     (case type of
        MessageType.RegisterPublisher \<Rightarrow>
          Some (engine_operation.RegisterPublisher (registration_request (mg_registration m)))
      | MessageType.PublishEvidence \<Rightarrow>
          Some (engine_operation.PublishEvidence (publication_request (mg_publish m)))
      | MessageType.WithdrawEvidence \<Rightarrow>
          Some (engine_operation.WithdrawEvidence (withdrawal_request (mg_withdraw m)))
      | MessageType.InvalidatePublisher \<Rightarrow>
          if im_publisher (mg_invalidate m) \<in> fst ` set (ss_registrations session)
          then Some (engine_operation.InvalidatePublisher (invalidation_request (mg_invalidate m))) else None
      | _ \<Rightarrow> None)"

definition frame_operation :: "Frame \<Rightarrow> Session \<Rightarrow> engine_operation option" where
  "frame_operation frame session =
     (case decode_message (fr_type frame) (fr_payload frame) of
        Inl _ \<Rightarrow> None
      | Inr m \<Rightarrow> request_operation (fr_type frame) m session)"

lemma handle_request_engine:
  "cd_engine (fst (handle_request config type m session server)) =
     (case request_operation type m session of None \<Rightarrow> cd_engine server | Some op \<Rightarrow> perform op (cd_engine server))"
  by (cases type) (simp_all add: handle_request_def request_operation_def split_beta)

lemma handle_frame_engine:
  "cd_engine (fst (handle_frame config frame session server)) =
     (case frame_operation frame session of None \<Rightarrow> cd_engine server | Some op \<Rightarrow> perform op (cd_engine server))"
  by (simp add: handle_frame_def frame_operation_def split_beta handle_request_engine split: sum.split option.split)

lemma frame_operation_honest:
  assumes "frame_operation frame session = Some op"
  shows "honest op"
proof -
  obtain m where m: "decode_message (fr_type frame) (fr_payload frame) = Inr m"
    and op: "request_operation (fr_type frame) m session = Some op"
    using assms by (auto simp: frame_operation_def split: sum.splits)
  have "mg_type m = fr_type frame" and "message_fits m"
    using m by (simp_all add: decode_message_accepts)
  with op show ?thesis
    by (cases "fr_type frame") (auto simp: request_operation_def message_fits_def publish_fits_def observation_fits_def
        as_received_def publication_request_def split: if_splits dest: arg_cong [of _ _ ev_status])
qed

text \<open>
  A frame does to the engine exactly what its message says.  Handling it performs one engine call,
  the one the decoded message asks for, or none at all when the payload does not decode, the message is
  no request, or it would invalidate a publisher that this session did not register; and an observation
  that comes over the wire always enters as CURRENT, whatever the peer sends.
\<close>

theorem handle_frame_effect:
  "cd_engine (fst (handle_frame config frame session server)) =
     (case frame_operation frame session of None \<Rightarrow> cd_engine server | Some op \<Rightarrow> perform op (cd_engine server)) \<and>
   (case frame_operation frame session of None \<Rightarrow> True | Some op \<Rightarrow> honest op)"
  using handle_frame_engine frame_operation_honest by (simp split: option.split)

section \<open>Any traffic\<close>

lemma invalidation_step:
  "cd_engine (fst (fence_registration config r (server, event))) =
     perform (engine_operation.InvalidatePublisher \<lparr>iv_publisher = fst r, iv_worker_boot = Some (snd r),
       iv_epoch = im_epoch (cd_engine server), iv_reason = ''worker session ended''\<rparr>) (cd_engine server)"
  by (simp add: fence_registration_def split_beta)

lemma shutdown_step:
  "cd_engine (fst (shutdown_registration r (server, n))) =
     perform (engine_operation.InvalidatePublisher \<lparr>iv_publisher = fst r, iv_worker_boot = Some (snd r),
       iv_epoch = im_epoch (cd_engine server), iv_reason = ''coordinator shutdown''\<rparr>) (cd_engine server)"
  by (simp add: shutdown_registration_def split_beta)

datatype server_action =
  Connect nat | FrameArrives nat Frame | SessionEnds nat | Stop | HostCall engine_operation

primrec server_step :: "CoordinatorConfig \<Rightarrow> server_action \<Rightarrow> CoordinatorServer \<Rightarrow> CoordinatorServer" where
  "server_step config (Connect sendable) sv = accept_session config sendable sv"
| "server_step config (FrameArrives i frame) sv = session_frame config i frame sv"
| "server_step config (SessionEnds i) sv = session_end config i sv"
| "server_step config Stop sv = fst (stop config sv)"
| "server_step config (HostCall op) sv =
     sv\<lparr>sv_coordinator := (sv_coordinator sv)\<lparr>cd_engine := perform op (cd_engine (sv_coordinator sv))\<rparr>\<rparr>"

fun honest_host :: "server_action \<Rightarrow> bool" where
  "honest_host (HostCall op) = honest op"
| "honest_host _ = True"

definition initial_server :: "Impl \<Rightarrow> CoordinatorServer \<Rightarrow> bool" where
  "initial_server engine0 sv \<longleftrightarrow> (\<exists>disk faults. sv = (new_server engine0 disk faults)\<lparr>sv_running := True\<rparr>)"

abbreviation honest_from :: "Impl \<Rightarrow> Impl \<Rightarrow> bool" where
  "honest_from engine0 \<equiv> reachable ((=) engine0) honest perform"

definition server_ok :: "Impl \<Rightarrow> CoordinatorConfig \<Rightarrow> CoordinatorServer \<Rightarrow> bool" where
  "server_ok engine0 config sv \<longleftrightarrow>
     honest_from engine0 (cd_engine (sv_coordinator sv)) \<and> length (sv_sessions sv) \<le> cc_max_sessions config"

lemma honest_invalidation: "honest_from engine0 impl \<Longrightarrow>
    honest_from engine0 (perform (engine_operation.InvalidatePublisher r) impl)"
  by (rule stepping) simp_all

lemma honest_fencing:
  "honest_from engine0 (cd_engine (fst s)) \<Longrightarrow> honest_from engine0 (cd_engine (fst (fold (fence_registration config) rs s)))"
proof (induction rs arbitrary: s)
  case (Cons r rs)
  then have "honest_from engine0 (cd_engine (fst (fence_registration config r s)))"
    by (cases s) (simp only: invalidation_step fst_conv honest_invalidation)
  with Cons.IH show ?case by simp
qed simp

lemma honest_shutdown:
  "honest_from engine0 (cd_engine (fst s)) \<Longrightarrow> honest_from engine0 (cd_engine (fst (fold shutdown_registration rs s)))"
proof (induction rs arbitrary: s)
  case (Cons r rs)
  then have "honest_from engine0 (cd_engine (fst (shutdown_registration r s)))"
    by (cases s) (simp only: shutdown_step fst_conv honest_invalidation)
  with Cons.IH show ?case by simp
qed simp

lemma honest_end_session:
  "honest_from engine0 (cd_engine server) \<Longrightarrow> honest_from engine0 (cd_engine (snd (end_session config session server)))"
  using honest_fencing [of engine0 "(server, _)"] by (simp add: end_session_def Let_def split_beta)

lemma honest_stop:
  "honest_from engine0 (cd_engine server) \<Longrightarrow> honest_from engine0 (cd_engine (fold (join_session config) sessions server))"
proof (induction sessions arbitrary: server)
  case (Cons session sessions)
  have "honest_from engine0 (cd_engine (stop_session config s t))" if "honest_from engine0 (cd_engine t)" for s t
    using honest_shutdown [of engine0 "(t, 0)"] that by (simp add: stop_session_def split_beta)
  then have "honest_from engine0 (cd_engine (join_session config session server))"
    using honest_end_session Cons.prems by (simp add: join_session_def split_beta)
  with Cons.IH show ?case by simp
qed simp

interpretation served: machine_invariant "initial_server engine0" honest_host "server_step config" "server_ok engine0 config"
  for engine0 config
proof unfold_locales
  show "initial_server engine0 sv \<Longrightarrow> server_ok engine0 config sv" for sv
    by (auto simp: initial_server_def server_ok_def new_server_def initial_engine_def intro!: initially)
  show "server_ok engine0 config (server_step config action sv)"
    if ok: "server_ok engine0 config sv" and "honest_host action" for sv action
  proof (cases action)
    case (Connect sendable)
    have "length (filter (\<lambda>session. \<not> ss_finished session) (sv_sessions sv)) \<le> cc_max_sessions config"
      using ok by (auto simp: server_ok_def intro: le_trans [OF length_filter_le])
    with ok Connect show ?thesis
      by (auto simp: server_ok_def accept_session_def Let_def)
  next
    case (FrameArrives i frame)
    have "honest_from engine0 (cd_engine (fst (handle_frame config frame session (sv_coordinator sv))))" for session
      using ok frame_operation_honest [of frame session]
      by (auto simp: handle_frame_engine server_ok_def split: option.split intro: stepping)
    with ok FrameArrives show ?thesis
      by (simp add: server_ok_def session_frame_def split_beta)
  next
    case (SessionEnds i)
    with ok show ?thesis by (simp add: server_ok_def session_end_def split_beta honest_end_session)
  next
    case Stop
    with ok show ?thesis by (simp add: server_ok_def stop_def honest_stop)
  next
    case (HostCall op)
    with that show ?thesis by (simp add: server_ok_def stepping)
  qed
qed

lemma honest_from_run: "honest_from engine0 impl \<Longrightarrow> \<exists>ops. list_all honest ops \<and> impl = fold perform ops engine0"
proof (induction rule: reachable.induct)
  case (initially s)
  then show ?case by (intro exI [of _ "[]"]) simp
next
  case (stepping s op)
  then obtain ops where "list_all honest ops" "s = fold perform ops engine0" by blast
  with stepping.hyps show ?case by (intro exI [of _ "ops @ [op]"]) simp
qed

text \<open>
  C5: the network adds no behaviour.  Whatever connects, sends, hangs up or stops, interleaved in any
  order with honest calls of the host, the engine is always one that a sequence of honest local calls
  produces from the engine the server was given, fresh or recovered; so its structure and its verdicts
  stay intact if they were.  And there are never more sessions than the configured maximum.
\<close>

theorem served_engine:
  assumes "reachable (initial_server engine0) honest_host (server_step config) sv"
  shows "(\<exists>ops. list_all honest ops \<and> cd_engine (sv_coordinator sv) = fold perform ops engine0) \<and>
    (verdicts_hold engine0 \<longrightarrow> verdicts_hold (cd_engine (sv_coordinator sv))) \<and>
    length (sv_sessions sv) \<le> cc_max_sessions config"
proof -
  have ok: "server_ok engine0 config sv" using assms by (rule served.reachable_invariant)
  then obtain ops where "list_all honest ops" "cd_engine (sv_coordinator sv) = fold perform ops engine0"
    using honest_from_run by (auto simp: server_ok_def)
  with ok verdicts.run_invariant [of engine0 ops] show ?thesis by (auto simp: server_ok_def)
qed

section \<open>The end of a session\<close>

text \<open>Incarnation \<open>(p, boot)\<close> is not the active one.\<close>

definition dismissed :: "PublisherId \<Rightarrow> WorkerBootId \<Rightarrow> Impl \<Rightarrow> bool" where
  "dismissed p boot impl \<longleftrightarrow>
     (\<forall>a. find_publisher p impl = Some a \<longrightarrow> pa_worker_boot a = boot \<longrightarrow> pa_status a \<noteq> Active)"

lemma invalidate_dismisses:
  assumes inv: "store_inv nobody impl"
    and r: "iv_worker_boot r = Some boot" "iv_epoch r = im_epoch impl"
  shows "dismissed (iv_publisher r) boot (fst (invalidate_publisher r impl))"
    and "dismissed q c impl \<Longrightarrow> dismissed q c (fst (invalidate_publisher r impl))"
    and "store_inv nobody (fst (invalidate_publisher r impl))"
proof -
  note fenced = fence_publisher_effect(6) [OF inv, of Fenced]
  have valid: "valid p" if "find_publisher p impl = Some a" for p a
    using inv that by (auto simp: store_inv_def publishers_ok_def authority_ok_def)
  show "dismissed (iv_publisher r) boot (fst (invalidate_publisher r impl))"
    using r valid by (auto simp: dismissed_def invalidate_publisher_def fenced split: option.splits if_splits)
  show "dismissed q c impl \<Longrightarrow> dismissed q c (fst (invalidate_publisher r impl))"
    by (auto simp: dismissed_def invalidate_publisher_def fenced split: option.splits if_splits)
  show "store_inv nobody (fst (invalidate_publisher r impl))" by (rule inv_invalidate_publisher) fact
qed

lemma fencing_dismisses:
  assumes "store_inv nobody (cd_engine (fst s))"
  shows "store_inv nobody (cd_engine (fst (fold (fence_registration config) rs s))) \<and>
    (dismissed q c (cd_engine (fst s)) \<or> (q, c) \<in> set rs \<longrightarrow>
     dismissed q c (cd_engine (fst (fold (fence_registration config) rs s))))"
  using assms
proof (induction rs arbitrary: s)
  case (Cons r rs)
  obtain server event where s: "s = (server, event)" by fastforce
  obtain p boot where r: "r = (p, boot)" by fastforce
  let ?t = "fence_registration config r s"
  note step = invalidate_dismisses [OF Cons.prems, of "\<lparr>iv_publisher = p, iv_worker_boot = Some boot,
      iv_epoch = im_epoch (cd_engine server), iv_reason = ''worker session ended''\<rparr>" boot]
  have "store_inv nobody (cd_engine (fst ?t))" "dismissed p boot (cd_engine (fst ?t))"
      "dismissed q c (cd_engine (fst s)) \<Longrightarrow> dismissed q c (cd_engine (fst ?t))"
    using step by (simp_all add: s r invalidation_step)
  with Cons.IH [of ?t] show ?case by (auto simp: r)
qed simp

text \<open>
  C13: a worker that is gone speaks for no link.  When a session ends, gracefully or not, and fencing on
  disconnect is on, no link holds a current record of any incarnation the session registered, and none
  of these incarnations is active; the session keeps no registration.
\<close>

theorem end_session_fences:
  assumes "engine_reachable (cd_engine server)" and "cc_fence_on_disconnect config"
    and "(p, boot) \<in> set (ss_registrations session)"
    and "end_session config session server = (session', server')"
  shows "(\<forall>l e v. find_link l (cd_engine server') = Some e \<longrightarrow> v \<in> set (le_current e) \<longrightarrow>
       \<not> (ev_publisher v = p \<and> ev_worker_boot v = boot)) \<and>
    (\<forall>a. find_publisher p (cd_engine server') = Some a \<longrightarrow> pa_worker_boot a = boot \<longrightarrow> pa_status a \<noteq> Active) \<and>
    ss_registrations session' = []"
proof -
  have "store_inv nobody (cd_engine server)" by (rule engine.reachable_invariant [OF assms(1)])
  with fencing_dismisses [of "(server, _)" config "ss_registrations session" p boot]
  have inv: "store_inv nobody (cd_engine server')" and gone: "dismissed p boot (cd_engine server')"
    and none: "ss_registrations session' = []"
    using assms(2-4) by (auto simp: end_session_def Let_def split_beta)
  have "\<not> (ev_publisher v = p \<and> ev_worker_boot v = boot)"
    if "find_link l (cd_engine server') = Some e" "v \<in> set (le_current e)" for l e v
    using inv_slot [OF inv that] gone by (auto simp: slot_ok_def owned_ok_def dismissed_def)
  with gone none show ?thesis by (auto simp: dismissed_def)
qed

section \<open>Durable acknowledgements\<close>

lemma frame_read_back:
  assumes "length response \<le> buffered_limit" and "response = frame_bytes f" and "decode_frame response = received g"
  shows "g = f"
proof -
  have "decode_frame (frame_bytes f @ []) = received f"
    using assms(1,2) by (intro decode_frame_back) (simp add: buffered_limit_def frame_header_bytes_def frame_integrity_bytes_def)
  then show ?thesis using assms(2,3) by (simp add: received_def)
qed

lemma result_code_read:
  assumes "decode_message type (encode_message (result_message type r)) = Inr m"
    and "type \<in> {RegisterResult, PublishResult, WithdrawResult, InvalidateResult, QueryResult, Error}"
  shows "rs_code (mg_result m) = rs_code r"
proof -
  have "write_result r = write_result (mg_result m)"
    using assms by (auto simp: decode_message_accepts encode_message_def result_message_def blank_message_def)
  then have "append_enum outcome_index (rs_code r) = append_enum outcome_index (rs_code (mg_result m))"
    by (simp add: write_result_def append_enum_def append_u8_def)
  then have "(Inr (rs_code r, []) :: string + OutcomeCode \<times> bytes) = Inr (rs_code (mg_result m), [])"
    using outcome.read_enum_back [of 23 wire_errors "[]" "rs_code r" "[]"]
      outcome.read_enum_back [of 23 wire_errors "[]" "rs_code (mg_result m)" "[]"] by simp
  then show ?thesis by simp
qed

text \<open>The codes after which the server writes its journal.\<close>

definition acknowledges :: "OutcomeCode \<Rightarrow> bool" where
  "acknowledges code \<longleftrightarrow> code \<in> {Committed, NoChange, OutcomeCode.EvidenceConflict}"

definition journal_of :: "CoordinatorConfig \<Rightarrow> Impl \<Rightarrow> bytes" where
  "journal_of config engine =
     fst (encode_journal (build_payload engine (cc_journal_history config)) (server_persistence config))"

lemma mutate_durable:
  assumes "validate_coordinator config = []" and "cc_journal_path config \<noteq> []"
    and "journal_directory (cc_journal_path config) \<in> set (dk_directories (cd_disk server))" and "cd_faults server = []"
    and "mutate config call server = (server', result)" and "acknowledges (oc_code (mr_outcome result))"
  shows "map_of (dk_files (cd_disk server')) (cc_journal_path config) = Some (journal_of config (cd_engine server'))"
proof -
  have "validate_persistence (server_persistence config) = []"
    using assms(1,2) by (simp add: validate_coordinator_def split: if_splits)
  from saved_file [OF this, of "cd_disk server"] assms(2-) show ?thesis
    by (auto simp: mutate_def checkpoint_def Let_def journal_of_def server_persistence_def acknowledges_def
        outcome_committed_def split: prod.splits)
qed

lemma fill_result_code [simp]: "rs_code (fill_result oc view) = oc_code oc"
  by (simp add: fill_result_def Let_def split: option.split)

lemma fill_result_detail [simp]: "rs_detail (fill_result oc view) = oc_detail oc"
  by (simp add: fill_result_def Let_def split: option.split)

lemma mutation_reply:
  assumes "handle_request config type m session server = (server', session', reply, keep_open)"
    and "type \<in> {MessageType.RegisterPublisher, MessageType.PublishEvidence, MessageType.WithdrawEvidence,
      MessageType.InvalidatePublisher}"
  shows "\<exists>reply_type r. reply = result_message reply_type r \<and>
    reply_type \<in> {RegisterResult, PublishResult, WithdrawResult, InvalidateResult, QueryResult, Error} \<and>
    (acknowledges (rs_code r) \<longrightarrow> (\<exists>call t result. mutate config call server = (t, result) \<and>
       acknowledges (oc_code (mr_outcome result)) \<and> cd_disk server' = cd_disk t \<and> cd_engine server' = cd_engine t))"
proof (cases "type = MessageType.InvalidatePublisher \<and> im_publisher (mg_invalidate m) \<notin> fst ` set (ss_registrations session)")
  case True
  with assms show ?thesis
    by (auto simp: handle_request_def acknowledges_def intro!: exI [of _ InvalidateResult])
next
  case False
  obtain call reply_type t result view
    where "reply = result_message reply_type (fill_result (mr_outcome result) view)"
      "mutate config call server = (t, result)" "cd_disk server' = cd_disk t" "cd_engine server' = cd_engine t"
      "reply_type \<in> {RegisterResult, PublishResult, WithdrawResult, InvalidateResult}"
    using assms False unfolding handle_request_def insert_iff empty_iff
    by (elim disjE FalseE) (auto simp: count_fence_def split: prod.splits if_splits)
  then show ?thesis by fastforce
qed


lemma length_result_message:
  assumes "detail_fits (rs_detail r)"
    and "type \<in> {RegisterResult, PublishResult, WithdrawResult, InvalidateResult, QueryResult, Error}"
  shows "length (encode_message (result_message type r)) \<le> max_frame_payload_bytes"
    and "message_fits (result_message type r)"
proof -
  have "length (rs_detail r) \<le> 256"
    using assms(1) validate_text_length by (auto simp: detail_fits_def max_detail_length_def)
  then show "length (encode_message (result_message type r)) \<le> max_frame_payload_bytes"
    using assms(2) by (auto simp: encode_message_def result_message_def blank_message_def write_result_def
        append_text_def append_enum_def append_bool_def max_frame_payload_bytes_def)
  show "message_fits (result_message type r)"
    using assms by (auto simp: message_fits_def result_message_def blank_message_def)
qed

section \<open>Overlapping checkpoints\<close>

text \<open>\<^verbatim>\<open>LinkStateEngine::save\<close> encodes the engine under the engine's lock and writes the file after releasing it.
  When checkpoints of several sessions overlap, the files are written one after the other in an order that
  need not be the order in which the engine was encoded.\<close>

definition write_encoded :: "CoordinatorConfig \<Rightarrow> Impl \<Rightarrow> Disk \<Rightarrow> Disk" where
  "write_encoded config engine disk =
     disk_after disk (write_journal_file no_faults (server_persistence config) (journal_of config engine) disk)"

lemma saved_is_written:
  "disk_after disk (save no_faults (server_persistence config) engine disk) = write_encoded config engine disk"
  by (simp add: save_def write_encoded_def journal_of_def server_persistence_def split: prod.split)

lemma write_encoded_sel:
  assumes "validate_coordinator config = []" and "cc_journal_path config \<noteq> []"
    and "journal_directory (cc_journal_path config) \<in> set (dk_directories disk)"
  shows "map_of (dk_files (write_encoded config engine disk)) (cc_journal_path config) = Some (journal_of config engine)"
    and "dk_directories (write_encoded config engine disk) = dk_directories disk"
proof -
  have valid: "validate_persistence (server_persistence config) = []"
    using assms(1,2) by (simp add: validate_coordinator_def split: if_splits)
  have path: "pc_path (server_persistence config) = cc_journal_path config"
    by (simp add: server_persistence_def)
  show "map_of (dk_files (write_encoded config engine disk)) (cc_journal_path config) = Some (journal_of config engine)"
    using saved_file [OF valid, of disk engine] assms(3) unfolding saved_is_written
    by (simp add: path journal_of_def server_persistence_def)
  show "dk_directories (write_encoded config engine disk) = dk_directories disk"
    using valid assms(3) by (simp add: write_encoded_def write_journal_file_def path Let_def replace_journal_def no_faults_def
        rename_file_def put_file_def remove_file_def)
qed


section \<open>A concrete server\<close>

definition demo_server :: Coordinator where
  "demo_server = sv_coordinator (new_server demo_registered demo_disk [])"

definition demo_session :: Session where
  "demo_session = (new_session 5)\<lparr>ss_registrations := [(StrongId ''agent'', StrongId ''boot1'')]\<rparr>"

definition demo_coordinator :: CoordinatorConfig where
  "demo_coordinator = default_coordinator\<lparr>cc_journal_path := ''linkstate.lsfjournal''\<rparr>"

definition demo_message :: Message where
  "demo_message = (blank_message MessageType.PublishEvidence)\<lparr>mg_publish :=
     \<lparr>pm_publication = StrongId ''p1'', pm_observation = demo_observation,
      pm_has_expected_evidence_generation = False, pm_expected_evidence_generation = gen_zero,
      pm_has_expected_state_generation = False, pm_expected_state_generation = gen_zero\<rparr>\<rparr>"

definition demo_frame :: Frame where
  "demo_frame = \<lparr>fr_type = MessageType.PublishEvidence, fr_request_id = 1, fr_payload = encode_message demo_message\<rparr>"

lemma demo_sent_names:
  "validate_identifier ''probe'' = Ok" "validate_identifier ''o1'' = Ok" "validate_identifier ''agent'' = Ok"
  "validate_identifier ''boot1'' = Ok" "validate_identifier ''p1'' = Ok"
  by code_simp+

lemma demo_message_fits: "publish_fits (mg_publish demo_message)" "message_fits demo_message"
  by (simp_all add: message_fits_def demo_message_def blank_message_def publish_fits_def observation_fits_def as_received_def
      demo_observation_def demo_link_def id_fits_def demo_names demo_sent_names detail_fits_def validate_text_def)

lemma demo_published_detail: "oc_detail (mr_outcome (snd (publish_evidence demo_publication demo_registered))) = []"
  unfolding demo_published_commit unfolding demo_registered_eq
  by (simp add: demo_agreed commit_publication_def Let_def drop_evidence_def
        advance_global_evidence_def advance_def next_gen_small result_for_def failure_def make_outcome_def split: prod.split)

lemma demo_coordinator_ready:
  "validate_coordinator demo_coordinator = []"
  "journal_directory (cc_journal_path demo_coordinator) \<in> set (dk_directories (cd_disk demo_server))"
  by (simp_all add: validate_coordinator_def demo_coordinator_def default_coordinator_def server_persistence_def limit_sessions_def
      validate_persistence_def is_plain_path_def is_relative_path_def max_persisted_records_def
      demo_server_def new_server_def demo_disk_def journal_directory_def parent_path_def directory_part_def)


theorem end_session_fences_witness:
  "\<not> (\<exists>l e v. find_link l (cd_engine (snd (end_session default_coordinator demo_session
       (demo_server\<lparr>cd_engine := demo_published\<rparr>)))) = Some e \<and> v \<in> set (le_current e) \<and>
       ev_publisher v = StrongId ''agent'' \<and> ev_worker_boot v = StrongId ''boot1'')"
proof -
  have "engine_reachable demo_published" by (rule demo_engines(2)) simp
  then show ?thesis
    using end_session_fences [of "demo_server\<lparr>cd_engine := demo_published\<rparr>" default_coordinator "StrongId ''agent''"
      "StrongId ''boot1''" demo_session]
    by (cases "end_session default_coordinator demo_session (demo_server\<lparr>cd_engine := demo_published\<rparr>)")
      (auto simp: demo_session_def default_coordinator_def)
qed

theorem served_engine_witness:
  "verdicts_hold (cd_engine (sv_coordinator (fold (server_step default_coordinator)
     [Connect 5, FrameArrives 0 demo_frame, SessionEnds 0, Stop]
     ((new_server demo_registered demo_disk [])\<lparr>sv_running := True\<rparr>))))"
proof -
  have "verdicts_hold demo_registered" by (rule verdicts.reachable_invariant [OF demo_reachable(1)])
  moreover have "reachable (initial_server demo_registered) honest_host (server_step default_coordinator)
      (fold (server_step default_coordinator) [Connect 5, FrameArrives 0 demo_frame, SessionEnds 0, Stop]
        ((new_server demo_registered demo_disk [])\<lparr>sv_running := True\<rparr>))"
    by (intro reachable_run initially) (auto simp: initial_server_def)
  ultimately show ?thesis using served_engine by blast
qed


end
