(* ===== verification/Client.thy ===== *)
theory Client
  imports Protocol Engine_Publish Engine_Authority
begin

text \<open>
  The worker's side of the protocol (\<^verbatim>\<open>src/client.cpp\<close>, \<^verbatim>\<open>include/linkstate/client.hpp\<close>): the requests of
  \<^verbatim>\<open>PublisherClient\<close> and the exchange \<^verbatim>\<open>transact\<close> they share.  What the socket does during an exchange is
  an argument: whether the send fails, the chunks that arrive and the error the last receive reports.
\<close>

record PublisherClientConfig =
  pk_address :: string
  pk_port :: u16
  pk_publisher :: PublisherId
  pk_worker_boot :: WorkerBootId
  pk_source :: SourceId
  pk_fabric :: FabricId
  pk_links :: "LinkId list"
  pk_agent_name :: string

definition validate_client :: "PublisherClientConfig \<Rightarrow> string" where
  "validate_client config =
     (if pk_address config = [] then ''coordinator address is required''
      else if pk_port config = 0 then ''coordinator port is required''
      else if \<not> valid (pk_publisher config) then ''publisher identity is required''
      else if \<not> valid (pk_worker_boot config) then ''worker boot identity is required''
      else if \<not> valid (pk_source config) then ''source identity is required''
      else if pk_links config = [] then ''at least one authorized link is required''
      else if pk_agent_name config = [] then ''agent name is required''
      else [])"

text \<open>The client: \<open>cl_socket\<close> says whether it holds a socket.\<close>

record PublisherClient =
  cl_socket :: bool
  cl_connected :: bool
  cl_epoch :: CoordinatorEpoch
  cl_request_counter :: u64
  cl_requests_sent :: u64
  cl_responses_received :: u64
  cl_last_error :: string

definition new_client :: PublisherClient where
  "new_client = \<lparr>cl_socket = False, cl_connected = False, cl_epoch = gen_zero, cl_request_counter = 0,
     cl_requests_sent = 0, cl_responses_received = 0, cl_last_error = []\<rparr>"

record Wire =
  wr_send_error :: "string option"
  wr_chunks :: "bytes list"
  wr_end_error :: string

definition request_link :: "Message \<Rightarrow> LinkId" where
  "request_link request =
     (case mg_type request of
        PublishEvidence \<Rightarrow> ev_link (pm_observation (mg_publish request))
      | WithdrawEvidence \<Rightarrow> key_link (wm_key (mg_withdraw request))
      | QueryState \<Rightarrow> qm_link (mg_query request)
      | _ \<Rightarrow> null_id)"

text \<open>\<^verbatim>\<open>LinkStateView{}\<close>.\<close>

definition default_view :: LinkStateView where
  "default_view =
     \<lparr>vw_record = \<lparr>lr_record = null_id,
        lr_binding = \<lparr>tb_fabric = null_id, tb_site = null_id, tb_link = null_id, tb_topology_generation = gen_zero,
          tb_endpoints = \<lparr>eb_local = null_id, eb_local_generation = gen_zero, eb_local_device = null_id,
            eb_local_port = null_id, eb_remote = null_id, eb_remote_generation = gen_zero,
            eb_remote_device = null_id, eb_remote_port = null_id\<rparr>,
          tb_link_class = LinkClass.Unknown, tb_symmetry = Unspecified, tb_member_links = [], tb_backing_links = []\<rparr>,
        lr_state = LinkOperationalState.Unknown, lr_result_class = AuthoritativeUnknown,
        lr_degradation_cause = NoCause, lr_state_generation = gen_zero, lr_global_generation = gen_zero,
        lr_evidence_generation = gen_zero, lr_last_publication = null_id, lr_last_transition = null_id,
        lr_last_publisher = null_id, lr_last_outcome = NoChange, lr_ever_established = False, lr_durable = False,
        lr_admin_intent = None, lr_provenance_digest = zero_digest, lr_history = []\<rparr>,
      vw_current_evidence = 0, vw_retained_dispositions = 0, vw_conflicted = False, vw_synthetic_backed = False\<rparr>"

definition view_from :: "ResultMessage \<Rightarrow> LinkId \<Rightarrow> LinkStateView" where
  "view_from result link =
     (let record0 = vw_record default_view; binding0 = lr_binding record0
      in default_view\<lparr>vw_record := record0
        \<lparr>lr_binding := binding0\<lparr>tb_link := link, tb_topology_generation := rs_topology_generation result,
            tb_endpoints := (tb_endpoints binding0)\<lparr>eb_local_generation := rs_endpoint_generation result\<rparr>\<rparr>,
         lr_state := rs_link_state result, lr_state_generation := rs_state_generation result,
         lr_evidence_generation := rs_evidence_generation result,
         lr_global_generation := rs_global_generation result,
         lr_result_class := AuthoritativeUnknown\<rparr>\<rparr>)"

section \<open>An exchange\<close>

datatype 'a arrival = Arrived 'a | Lost string

text \<open>The receive loop of \<^verbatim>\<open>transact\<close>.\<close>

fun await :: "bytes list \<Rightarrow> string \<Rightarrow> bytes \<Rightarrow> Frame arrival" where
  "await chunks end_error buffer =
     (let decoded = decode_frame buffer in
      if fd_status decoded = Complete then Arrived (fd_frame decoded)
      else if fd_status decoded \<noteq> Incomplete
      then Lost (''protocol violation: '' @ to_string_frame_status (fd_status decoded))
      else case chunks of
        [] \<Rightarrow> Lost (if end_error = [] then ''the coordinator closed the connection'' else end_error)
      | chunk # later \<Rightarrow>
          if length (buffer @ chunk) > buffered_limit then Lost ''the response exceeds the maximum frame size''
          else await later end_error (buffer @ chunk))"

declare await.simps [simp del]

definition lose :: "string \<Rightarrow> PublisherClient \<Rightarrow> PublisherClient" where
  "lose error client = client\<lparr>cl_last_error := error, cl_connected := False\<rparr>"

text \<open>The outcome a decoded response stands for, and the view it carries.\<close>

definition response_outcome :: "MessageType \<Rightarrow> Message \<Rightarrow> Message \<Rightarrow> Outcome \<times> LinkStateView option" where
  "response_outcome type request response =
     (case type of
        HelloAck \<Rightarrow> (make_outcome Committed ''coordinator handshake complete'', None)
      | Shutdown \<Rightarrow> (make_outcome Committed (rs_detail (mg_result response)), None)
      | _ \<Rightarrow>
          let result = mg_result response
          in ((make_outcome (rs_code result) (rs_detail result))
                \<lparr>oc_state_generation := rs_state_generation result,
                 oc_evidence_generation := rs_evidence_generation result,
                 oc_global_generation := rs_global_generation result\<rparr>,
              if rs_found result then Some (view_from result (request_link request)) else None))"

text \<open>The handling of the frame that arrived.  The results are the client, the outcome, the response
  message and the view written through the pointer when there is one.\<close>

definition accept_reply ::
  "Message \<Rightarrow> MessageType \<Rightarrow> u64 \<Rightarrow> Frame \<Rightarrow> PublisherClient \<Rightarrow>
     PublisherClient \<times> Outcome \<times> Message \<times> LinkStateView option" where
  "accept_reply request expected request_id frame client =
     (let mismatch = ''the response does not match the outstanding request'';
          unexpected = ''the coordinator replied with an unexpected message type'';
          refuse = (\<lambda>error. (client\<lparr>cl_last_error := error\<rparr>, make_outcome TransportFailure error,
            blank_message Hello, None))
      in if fr_request_id frame \<noteq> request_id then refuse mismatch
         else if fr_type frame \<noteq> expected
         then (if fr_type frame = Error
               then case decode_message Error (fr_payload frame) of
                 Inl _ \<Rightarrow> refuse unexpected
               | Inr rejection \<Rightarrow>
                   (client\<lparr>cl_last_error := rs_detail (mg_result rejection)\<rparr>,
                    make_outcome (rs_code (mg_result rejection)) (rs_detail (mg_result rejection)),
                    blank_message Hello, None)
               else refuse unexpected)
         else case decode_message (fr_type frame) (fr_payload frame) of
           Inl error \<Rightarrow>
             (client\<lparr>cl_last_error := error\<rparr>, make_outcome MalformedRequest error, blank_message Hello, None)
         | Inr response \<Rightarrow>
             (case response_outcome (fr_type frame) request response of
                (outcome, view) \<Rightarrow>
                  (client\<lparr>cl_responses_received := cl_responses_received client + 1\<rparr>, outcome, response, view)))"

definition transact ::
  "Wire \<Rightarrow> Message \<Rightarrow> MessageType \<Rightarrow> PublisherClient \<Rightarrow>
     PublisherClient \<times> Outcome \<times> Message \<times> LinkStateView option" where
  "transact wire request expected client =
     (if \<not> cl_connected client \<or> \<not> cl_socket client
      then (client, make_outcome TransportFailure ''the client is not connected'', blank_message Hello, None)
      else let request_id = cl_request_counter client + 1;
               client1 = client\<lparr>cl_request_counter := request_id\<rparr>
           in case wr_send_error wire of
             Some error \<Rightarrow> (lose error client1, make_outcome TransportFailure error, blank_message Hello, None)
           | None \<Rightarrow>
               (let client2 = client1\<lparr>cl_requests_sent := cl_requests_sent client1 + 1\<rparr>
                in case await (wr_chunks wire) (wr_end_error wire) [] of
                  Lost error \<Rightarrow> (lose error client2, make_outcome TransportFailure error, blank_message Hello, None)
                | Arrived frame \<Rightarrow> accept_reply request expected request_id frame client2))"

text \<open>The bytes an exchange sends.\<close>

definition request_frame :: "Message \<Rightarrow> PublisherClient \<Rightarrow> Frame" where
  "request_frame request client =
     \<lparr>fr_type = mg_type request, fr_request_id = cl_request_counter client + 1, fr_payload = encode_message request\<rparr>"

section \<open>Requests\<close>

definition hello_request :: "PublisherClientConfig \<Rightarrow> PublisherClient \<Rightarrow> Message" where
  "hello_request config client =
     (blank_message Hello)\<lparr>mg_hello := \<lparr>hm_agent = pk_agent_name config, hm_worker_boot = pk_worker_boot config,
       hm_epoch = cl_epoch client\<rparr>\<rparr>"

definition register_request :: "PublisherClientConfig \<Rightarrow> PublisherClient \<Rightarrow> Message" where
  "register_request config client =
     (blank_message RegisterPublisher)\<lparr>mg_registration :=
       \<lparr>rm_publisher = pk_publisher config, rm_worker_boot = pk_worker_boot config, rm_source = pk_source config,
        rm_fabric = pk_fabric config, rm_epoch = cl_epoch client, rm_links = pk_links config\<rparr>\<rparr>"

definition publish_request :: "PublishEvidenceRequest \<Rightarrow> Message" where
  "publish_request request =
     (blank_message PublishEvidence)\<lparr>mg_publish :=
       \<lparr>pm_publication = pe_publication request, pm_observation = pe_observation request,
        pm_has_expected_evidence_generation = (pe_expected_evidence_generation request \<noteq> None),
        pm_expected_evidence_generation =
          (case pe_expected_evidence_generation request of None \<Rightarrow> gen_zero | Some g \<Rightarrow> g),
        pm_has_expected_state_generation = (pe_expected_state_generation request \<noteq> None),
        pm_expected_state_generation =
          (case pe_expected_state_generation request of None \<Rightarrow> gen_zero | Some g \<Rightarrow> g)\<rparr>\<rparr>"

definition withdraw_request :: "WithdrawEvidenceRequest \<Rightarrow> Message" where
  "withdraw_request request =
     (blank_message WithdrawEvidence)\<lparr>mg_withdraw :=
       \<lparr>wm_key = wd_key request, wm_observation = wd_observation request, wm_publisher = wd_publisher request,
        wm_worker_boot = wd_worker_boot request, wm_epoch = wd_epoch request,
        wm_source_generation = wd_source_generation request, wm_sequence = wd_sequence request,
        wm_reason = wd_reason request\<rparr>\<rparr>"

definition invalidate_request :: "InvalidatePublisherRequest \<Rightarrow> Message" where
  "invalidate_request request =
     (blank_message InvalidatePublisher)\<lparr>mg_invalidate :=
       \<lparr>im_publisher = iv_publisher request,
        im_worker_boot = (case iv_worker_boot request of None \<Rightarrow> null_id | Some boot \<Rightarrow> boot),
        im_message_epoch = iv_epoch request, im_reason = iv_reason request\<rparr>\<rparr>"

definition query_request :: "LinkId \<Rightarrow> Message" where
  "query_request link = (blank_message QueryState)\<lparr>mg_query := \<lparr>qm_link = link\<rparr>\<rparr>"

definition shutdown_request :: Message where
  "shutdown_request = (blank_message Shutdown)\<lparr>mg_result := default_result\<lparr>rs_detail := ''worker shutdown''\<rparr>\<rparr>"

section \<open>Operations\<close>

definition close_client :: "PublisherClient \<Rightarrow> PublisherClient" where
  "close_client client = client\<lparr>cl_socket := False, cl_connected := False\<rparr>"

text \<open>\<open>reached\<close> is the result of \<^verbatim>\<open>net_connect\<close>: an error, or a socket.\<close>

definition connect ::
  "PublisherClientConfig \<Rightarrow> bool \<Rightarrow> string + unit \<Rightarrow> Wire \<Rightarrow> PublisherClient \<Rightarrow> PublisherClient \<times> Outcome" where
  "connect config available reached wire client =
     (let refuse = (\<lambda>code error. (client\<lparr>cl_last_error := error\<rparr>, make_outcome code error))
      in if cl_connected client then (client, make_outcome Idempotent ''the client is already connected'')
         else if validate_client config \<noteq> [] then refuse MalformedRequest (validate_client config)
         else if \<not> available
         then refuse UnsupportedCapability ''the distributed transport is unavailable on this platform''
         else case reached of
           Inl error \<Rightarrow> refuse TransportFailure error
         | Inr _ \<Rightarrow>
             (let client1 = client\<lparr>cl_socket := True, cl_connected := True\<rparr>
              in case transact wire (hello_request config client1) HelloAck client1 of
                (client2, outcome, ack, _) \<Rightarrow>
                  if is_error outcome
                  then ((close_client client2)\<lparr>cl_last_error := oc_detail outcome\<rparr>, outcome)
                  else if ha_version (mg_hello_ack ack) \<noteq> protocol_version
                  then ((close_client client2)\<lparr>cl_last_error :=
                          ''the coordinator speaks an unsupported protocol version''\<rparr>,
                        make_outcome UnsupportedState ''the coordinator speaks an unsupported protocol version'')
                  else (client2\<lparr>cl_epoch := ha_epoch (mg_hello_ack ack), cl_last_error := []\<rparr>,
                        make_outcome Committed (''connected to '' @ ha_coordinator (mg_hello_ack ack) @
                          '' at coordinator epoch '' @ gen_to_string (ha_epoch (mg_hello_ack ack))))))"

definition client_register :: "PublisherClientConfig \<Rightarrow> Wire \<Rightarrow> PublisherClient \<Rightarrow> PublisherClient \<times> Outcome" where
  "client_register config wire client =
     (case transact wire (register_request config client) RegisterResult client of
        (client', outcome, _, _) \<Rightarrow> (client', outcome))"

definition disconnect :: "Wire \<Rightarrow> PublisherClient \<Rightarrow> PublisherClient \<times> Outcome" where
  "disconnect wire client =
     (if \<not> cl_connected client \<or> \<not> cl_socket client
      then (client, make_outcome Idempotent ''the client is not connected'')
      else case transact wire shutdown_request Shutdown client of
        (client', outcome, _, _) \<Rightarrow>
          if is_error outcome then ((close_client client')\<lparr>cl_last_error := oc_detail outcome\<rparr>, outcome)
          else (close_client client', make_outcome Committed ''the session was shut down cleanly''))"

definition abandon :: "PublisherClient \<Rightarrow> PublisherClient" where
  "abandon client = close_client client"

definition publish ::
  "Wire \<Rightarrow> PublishEvidenceRequest \<Rightarrow> PublisherClient \<Rightarrow> PublisherClient \<times> Outcome \<times> LinkStateView option" where
  "publish wire request client =
     (case transact wire (publish_request request) PublishResult client of
        (client', outcome, _, view) \<Rightarrow> (client', outcome, view))"

definition withdraw ::
  "Wire \<Rightarrow> WithdrawEvidenceRequest \<Rightarrow> PublisherClient \<Rightarrow> PublisherClient \<times> Outcome \<times> LinkStateView option" where
  "withdraw wire request client =
     (case transact wire (withdraw_request request) WithdrawResult client of
        (client', outcome, _, view) \<Rightarrow> (client', outcome, view))"

definition client_invalidate ::
  "Wire \<Rightarrow> InvalidatePublisherRequest \<Rightarrow> PublisherClient \<Rightarrow> PublisherClient \<times> Outcome" where
  "client_invalidate wire request client =
     (case transact wire (invalidate_request request) InvalidateResult client of
        (client', outcome, _, _) \<Rightarrow> (client', outcome))"

definition query_state :: "Wire \<Rightarrow> LinkId \<Rightarrow> PublisherClient \<Rightarrow> PublisherClient \<times> bool \<times> LinkStateView option" where
  "query_state wire link client =
     (case transact wire (query_request link) QueryResult client of
        (client', outcome, _, view) \<Rightarrow> (client', \<not> is_error outcome, view))"

end
