(* ===== verification/End_To_End.thy ===== *)
theory End_To_End
  imports Server_Guarantees Client
begin

text \<open>
  The client and the coordinator together: an exchange over any split of the reply into chunks has the
  effect and the result of the local call.
\<close>

section \<open>Exchanges\<close>

lemma await_frame:
  assumes "length (fr_payload f) \<le> max_frame_payload_bytes" and "buffer @ concat chunks = frame_bytes f"
  shows "await chunks end_error buffer = Arrived f"
  using assms(2)
proof (induction chunks arbitrary: buffer)
  case Nil
  then have "decode_frame buffer = received f"
    using decode_frame_back [OF assms(1), of "[]"] by simp
  then show ?case by (simp add: await.simps received_def)
next
  case (Cons chunk chunks)
  have whole: "decode_frame (buffer @ concat (chunk # chunks)) = received f"
    unfolding Cons.prems using decode_frame_back [OF assms(1), of "[]"] by simp
  show ?case
  proof (cases "fd_status (decode_frame buffer) = Incomplete")
    case True
    have "length (buffer @ chunk) \<le> length (frame_bytes f)" unfolding Cons.prems [symmetric] by simp
    also have "\<dots> \<le> buffered_limit"
      using assms(1) by (simp add: buffered_limit_def frame_header_bytes_def frame_integrity_bytes_def)
    finally have "length (buffer @ chunk) \<le> buffered_limit" .
    moreover have "await chunks end_error (buffer @ chunk) = Arrived f"
      using Cons.prems by (intro Cons.IH) simp
    ultimately show ?thesis
      using True by (subst await.simps) (simp del: length_append)
  next
    case False
    then have "decode_frame buffer = received f"
      using decode_frame_more [of buffer "concat (chunk # chunks)"] whole by simp
    then show ?thesis by (subst await.simps) (simp add: received_def)
  qed
qed

text \<open>A request that fits, served by the coordinator, and a reply that fits, delivered in any chunks.\<close>

lemma transact_served:
  assumes "cl_connected client" and "cl_socket client" and "wr_send_error wire = None"
    and "message_fits m" and "mg_type m = mg_type request" and "encode_message m = encode_message request"
    and "handle_request config (mg_type m) m session
        (server\<lparr>cd_requests_handled := cd_requests_handled server + 1\<rparr>) = (server', session', reply, keep_open)"
    and "message_fits reply" and "length (encode_message reply) \<le> max_frame_payload_bytes"
    and "mg_type reply = expected"
    and "handle_frame config (request_frame request client) session server = (server1, session1, response, keep1)"
    and "concat (wr_chunks wire) = response"
  shows "server1 = server' \<and> session1 = session' \<and>
    transact wire request expected client =
      (client\<lparr>cl_request_counter := cl_request_counter client + 1, cl_requests_sent := cl_requests_sent client + 1,
         cl_responses_received := cl_responses_received client + 1\<rparr>,
       fst (response_outcome expected request reply), reply, snd (response_outcome expected request reply))"
proof -
  let ?f = "\<lparr>fr_type = mg_type reply, fr_request_id = cl_request_counter client + 1, fr_payload = encode_message reply\<rparr>"
  have "decode_message (mg_type request) (encode_message request) = Inr m"
    using assms(4-6) by (simp add: decode_message_accepts)
  then have served: "server1 = server'" "session1 = session'" "response = frame_bytes ?f"
    using assms(5,7,11) by (simp_all add: handle_frame_def request_frame_def frame_bytes_def)
  have "await (wr_chunks wire) (wr_end_error wire) [] = Arrived ?f"
    using assms(9,12) served(3) by (intro await_frame) simp_all
  moreover have "decode_message expected (encode_message reply) = Inr reply"
    using assms(8,10) by (simp add: decode_message_accepts)
  ultimately show ?thesis
    using assms(1-3,10) served
    by (simp add: transact_def Let_def accept_reply_def split: prod.split)
qed

section \<open>Remote calls\<close>

definition wire_publication :: "PublishEvidenceRequest \<Rightarrow> PublishEvidenceRequest" where
  "wire_publication request = request\<lparr>pe_observation := as_received (pe_observation request)\<rparr>"

text \<open>What the reply says of a link is what the record of the link says.\<close>

definition reports :: "LinkStateView \<Rightarrow> LinkStateView \<Rightarrow> bool" where
  "reports w v \<longleftrightarrow>
     lr_state (vw_record w) = lr_state (vw_record v) \<and>
     lr_state_generation (vw_record w) = lr_state_generation (vw_record v) \<and>
     lr_evidence_generation (vw_record w) = lr_evidence_generation (vw_record v) \<and>
     lr_global_generation (vw_record w) = lr_global_generation (vw_record v) \<and>
     tb_topology_generation (lr_binding (vw_record w)) = tb_topology_generation (lr_binding (vw_record v)) \<and>
     eb_local_generation (tb_endpoints (lr_binding (vw_record w))) =
       eb_local_generation (tb_endpoints (lr_binding (vw_record v)))"

lemma reply_view:
  assumes "type \<in> {RegisterResult, PublishResult, WithdrawResult, InvalidateResult, QueryResult}"
    and "response_outcome type request (result_message type (fill_result oc view)) = (outcome, view')"
  shows "oc_code outcome = oc_code oc" and "oc_detail outcome = oc_detail oc"
    and "view = None \<Longrightarrow> view' = None \<and> oc_state_generation outcome = oc_state_generation oc \<and>
      oc_evidence_generation outcome = oc_evidence_generation oc \<and> oc_global_generation outcome = oc_global_generation oc"
    and "view = Some v \<Longrightarrow> \<exists>w. view' = Some w \<and> reports w v \<and> tb_link (lr_binding (vw_record w)) = request_link request"
  using assms
  by (auto simp: response_outcome_def result_message_def blank_message_def fill_result_def default_result_def Let_def
      make_outcome_def view_from_def default_view_def reports_def split: option.splits)

lemma publication_request_of [simp]: "publication_request (mg_publish (publish_request r)) = r"
  by (cases r) (simp add: publication_request_def publish_request_def split: option.split)

lemma publish_request_wire: "encode_message (publish_request (wire_publication r)) = encode_message (publish_request r)"
  by (simp add: publish_request_def wire_publication_def encode_message_def blank_message_def write_publish_def
      write_evidence_def as_received_def)


text \<open>
  A query through a connection answers what the engine knows.  It changes nothing, it succeeds
  exactly for the links bound in the coordinator's engine, and the view it returns carries the state
  and the generations of the link's record.
\<close>

theorem remote_query:
  assumes "cl_connected client" and "cl_socket client" and "wr_send_error wire = None" and "id_fits False link"
    and "handle_frame config (request_frame (query_request link) client) session server =
      (server', session', response, keep_open)"
    and "concat (wr_chunks wire) = response"
    and "query_state wire link client = (client', found, view)"
  shows "cd_engine server' = cd_engine server \<and> session' = session \<and>
    (case link_state link (cd_engine server) of
       None \<Rightarrow> \<not> found \<and> view = None
     | Some v \<Rightarrow> found \<and> (\<exists>w. view = Some w \<and> reports w v \<and> tb_link (lr_binding (vw_record w)) = link))"
proof -
  let ?m = "query_request link"
  let ?served = "server\<lparr>cd_requests_handled := cd_requests_handled server + 1\<rparr>"
  let ?r = "(case link_state link (cd_engine server) of
      Some view \<Rightarrow> fill_result (make_outcome Committed ''link state'') (Some view)
    | None \<Rightarrow> fill_result (make_outcome UnknownLink ''link is not bound in this engine'') None)"
  have fits: "message_fits ?m" and type: "mg_type ?m = QueryState"
    using assms(4) by (simp_all add: message_fits_def query_request_def blank_message_def)
  have handled: "handle_request config (mg_type ?m) ?m session ?served = (?served, session, result_message QueryResult ?r, True)"
    unfolding type by (simp add: handle_request_def query_request_def fill_result_def Let_def make_outcome_def default_result_def
        split: option.split)
  have "detail_fits (rs_detail ?r)"
    by (simp add: make_outcome_def detail_fits_def validate_text_def max_detail_length_def is_valid_utf8.simps(2)
        split: option.split)
  then have reply: "message_fits (result_message QueryResult ?r)"
      "length (encode_message (result_message QueryResult ?r)) \<le> max_frame_payload_bytes"
      "mg_type (result_message QueryResult ?r) = QueryResult"
    using length_result_message [of ?r QueryResult] by (simp_all add: result_message_def blank_message_def)
  from transact_served [OF assms(1-3) fits refl refl handled reply assms(5,6)] assms(7)
  obtain outcome where server: "server' = ?served" "session' = session" and found: "found \<longleftrightarrow> \<not> is_error outcome"
    and outcome: "response_outcome QueryResult ?m (result_message QueryResult ?r) = (outcome, view)"
    by (cases "response_outcome QueryResult ?m (result_message QueryResult ?r)") (auto simp: query_state_def)
  have "request_link ?m = link" by (simp add: request_link_def query_request_def blank_message_def)
  then show ?thesis
    using outcome server found
      reply_view [of QueryResult ?m "make_outcome UnknownLink ''link is not bound in this engine''" None outcome view]
      reply_view [of QueryResult ?m "make_outcome Committed ''link state''" "link_state link (cd_engine server)" outcome view]
    by (cases "link_state link (cd_engine server)") (auto simp: is_error_def code_is_error_def make_outcome_def)
qed

section \<open>A concrete exchange\<close>

definition demo_client :: PublisherClient where
  "demo_client = new_client\<lparr>cl_socket := True, cl_connected := True\<rparr>"

definition demo_reply :: "Message \<Rightarrow> bytes" where
  "demo_reply request = fst (snd (snd (handle_frame default_coordinator (request_frame request demo_client) demo_session demo_server)))"

text \<open>The reply in two chunks.\<close>

definition demo_wire :: "Message \<Rightarrow> Wire" where
  "demo_wire request = \<lparr>wr_send_error = None, wr_chunks = [take 7 (demo_reply request), drop 7 (demo_reply request)],
     wr_end_error = []\<rparr>"

lemma demo_exchange:
  "handle_frame default_coordinator (request_frame request demo_client) demo_session demo_server =
     (fst (handle_frame default_coordinator (request_frame request demo_client) demo_session demo_server),
      fst (snd (handle_frame default_coordinator (request_frame request demo_client) demo_session demo_server)),
      demo_reply request,
      snd (snd (snd (handle_frame default_coordinator (request_frame request demo_client) demo_session demo_server))))"
  by (simp add: demo_reply_def)


theorem remote_query_witness:
  "fst (snd (query_state (demo_wire (query_request demo_link)) demo_link demo_client))"
proof -
  have "link_state demo_link (cd_engine demo_server) \<noteq> None"
    by (simp add: demo_server_def new_server_def link_state_def demo_registered_eq)
  moreover have "id_fits False demo_link" by (simp add: id_fits_def demo_names)
  ultimately show ?thesis
    using remote_query [of demo_client "demo_wire (query_request demo_link)" demo_link
      default_coordinator demo_session demo_server, OF _ _ _ _ demo_exchange]
    by (cases "query_state (demo_wire (query_request demo_link)) demo_link demo_client")
      (auto simp: demo_client_def demo_wire_def)
qed

end
