(* ===== verification/Text_Renderings.thy ===== *)
theory Text_Renderings
  imports Texts Identifiers Digests
begin

text \<open>
  The rest of \<^verbatim>\<open>src/text.cpp\<close>: the helpers that append to a text, the hexadecimal rendering of bytes and the free
  hash, and that they agree with the members of the digest and identifier classes that do the same.
\<close>

definition append_decimal :: "string \<Rightarrow> u64 \<Rightarrow> string" where
  "append_decimal out value = out @ format_u64 value"

definition append_truth :: "string \<Rightarrow> bool \<Rightarrow> string" where
  "append_truth out value = out @ (if value then ''true'' else ''false'')"

definition append_hex_byte :: "string \<Rightarrow> u8 \<Rightarrow> string" where
  "append_hex_byte out value = out @ [kDigits ! unat (drop_bit 4 value AND 15), kDigits ! unat (value AND 15)]"

definition bytes_to_hex :: "bytes \<Rightarrow> string" where
  "bytes_to_hex data = fold (\<lambda>value out. append_hex_byte out value) data []"

definition fnv1a :: "string \<Rightarrow> u64" where
  "fnv1a text = fold (\<lambda>ch hash. (hash XOR of_char ch) * 1099511628211) text 1469598103934665603"

lemma hash_of_fnv1a: "hash_of text = (if fnv1a text = 0 then 1 else fnv1a text)"
  by (simp add: hash_of_def fnv1a_def Let_def)

lemma bytes_to_hex_append: "fold (\<lambda>value out. append_hex_byte out value) data out = out @ bytes_to_hex data"
proof (induction data arbitrary: out)
  case (Cons b data)
  show ?case
    using Cons [of "append_hex_byte out b"] Cons [of "append_hex_byte [] b"] by (simp add: bytes_to_hex_def append_hex_byte_def)
qed (simp add: bytes_to_hex_def)

text \<open>The rendering of a digest is that of its bytes, two digits for each.\<close>

lemma to_hex_bytes: "to_hex d = bytes_to_hex (digest_bytes d)"
proof -
  have "bytes_to_hex data = concat (map (\<lambda>value. [kDigits ! unat (drop_bit 4 value AND 15), kDigits ! unat (value AND 15)]) data)"
    for data
  proof (induction data)
    case (Cons b data)
    then show ?case
      using bytes_to_hex_append [of data "append_hex_byte [] b"] by (simp add: bytes_to_hex_def append_hex_byte_def)
  qed (simp add: bytes_to_hex_def)
  then show ?thesis by (simp add: to_hex_def)
qed

end
