(* ===== verification/Host_Evidence.thy ===== *)
theory Host_Evidence
  imports Engine_Publish
begin

text \<open>
  Host evidence (\<^verbatim>\<open>src/platform_windows.cpp\<close>, \<^verbatim>\<open>include/linkstate/platform.hpp\<close>): what the interface table
  of the operating system is turned into, and the publisher that turns the rounds of a host into
  publication requests.  The table is an argument: a row carries the fields the code reads, its alias and
  description already converted to UTF-8 by the operating system.  The enumerators of the operating system's
  headers are constructors; a value the code has no name for is one of the \<open>Other\<close> constructors.
\<close>

section \<open>The interface table\<close>

datatype IfType = IF_TYPE_ETHERNET_CSMACD | IF_TYPE_IEEE80211 | IF_TYPE_FASTETHER
  | IF_TYPE_GIGABITETHERNET | IF_TYPE_TUNNEL | IF_TYPE_SOFTWARE_LOOPBACK | OtherIfType u32

datatype MediaConnectState = MediaConnectStateUnknown | MediaConnectStateConnected
  | MediaConnectStateDisconnected

datatype IfOperStatus = IfOperStatusUp | IfOperStatusDown | IfOperStatusTesting | IfOperStatusUnknown
  | IfOperStatusDormant | IfOperStatusNotPresent | IfOperStatusLowerLayerDown | OtherOperStatus u32

record Guid =
  gd_data1 :: u32
  gd_data2 :: u16
  gd_data3 :: u16
  gd_data4 :: "u8 list"

record InterfaceRow =
  ir_guid :: Guid
  ir_alias :: string
  ir_description :: string
  ir_index :: u32
  ir_type :: IfType
  ir_medium :: u32
  ir_media_connect :: MediaConnectState
  ir_oper_status :: IfOperStatus
  ir_admin_status :: u32
  ir_transmit_speed :: u64
  ir_receive_speed :: u64

text \<open>\<^verbatim>\<open>%0<width>x\<close> of a value that fits the width.\<close>

definition hex_field :: "nat \<Rightarrow> nat \<Rightarrow> string" where
  "hex_field width value = map (\<lambda>i. kDigits ! (value div 16 ^ i mod 16)) (rev [0..<width])"

definition lower_hex :: "char \<Rightarrow> char" where
  "lower_hex ch = (if CHR ''A'' \<le> ch \<and> ch \<le> CHR ''F'' then char_of (of_char ch - 65 + 97 :: nat) else ch)"

definition guid_identifier :: "Guid \<Rightarrow> string" where
  "guid_identifier guid =
     (let byte = (\<lambda>i. hex_field 2 (unat (gd_data4 guid ! i)));
          out = hex_field 8 (unat (gd_data1 guid)) @ ''-'' @ hex_field 4 (unat (gd_data2 guid)) @ ''-'' @
            hex_field 4 (unat (gd_data3 guid)) @ ''-'' @ byte 0 @ byte 1 @ ''-'' @
            byte 2 @ byte 3 @ byte 4 @ byte 5 @ byte 6 @ byte 7
      in if length out \<le> 0 then [] else map lower_hex out)"

fun class_for_if_type :: "IfType \<Rightarrow> LinkClass" where
  "class_for_if_type IF_TYPE_ETHERNET_CSMACD = HostNic"
| "class_for_if_type IF_TYPE_IEEE80211 = HostNic"
| "class_for_if_type IF_TYPE_FASTETHER = HostNic"
| "class_for_if_type IF_TYPE_GIGABITETHERNET = HostNic"
| "class_for_if_type IF_TYPE_TUNNEL = TunnelBacked"
| "class_for_if_type IF_TYPE_SOFTWARE_LOOPBACK = Logical"
| "class_for_if_type (OtherIfType _) = HostNic"

definition kAdminStatusEnabled :: u32 where
  "kAdminStatusEnabled = 1"

definition kAdminStatusDisabled :: u32 where
  "kAdminStatusDisabled = 2"

definition medium_name :: "u32 \<Rightarrow> string" where
  "medium_name medium =
     (if medium = 0 then ''UNSPECIFIED'' else if medium = 1 then ''WIRELESS_LAN''
      else if medium = 2 then ''CABLE_MODEM'' else if medium = 3 then ''PHONE_LINE''
      else if medium = 4 then ''POWER_LINE'' else if medium = 5 then ''DSL''
      else if medium = 6 then ''FIBRE_CHANNEL'' else if medium = 7 then ''IEEE80211''
      else if medium = 8 then ''IEEE8023_ETHERNET'' else if medium = 9 then ''OTHER''
      else ''UNKNOWN'')"

fun oper_status_name :: "IfOperStatus \<Rightarrow> string" where
  "oper_status_name IfOperStatusUp = ''UP''"
| "oper_status_name IfOperStatusDown = ''DOWN''"
| "oper_status_name IfOperStatusTesting = ''TESTING''"
| "oper_status_name IfOperStatusUnknown = ''UNKNOWN''"
| "oper_status_name IfOperStatusDormant = ''DORMANT''"
| "oper_status_name IfOperStatusNotPresent = ''NOT_PRESENT''"
| "oper_status_name IfOperStatusLowerLayerDown = ''LOWER_LAYER_DOWN''"
| "oper_status_name (OtherOperStatus _) = ''UNKNOWN''"

section \<open>Observations and reports\<close>

datatype HostEvidenceAvailability = Available | Unavailable | Unsupported

primrec to_string_availability :: "HostEvidenceAvailability \<Rightarrow> string" where
  "to_string_availability Available = ''AVAILABLE''"
| "to_string_availability Unavailable = ''UNAVAILABLE''"
| "to_string_availability HostEvidenceAvailability.Unsupported = ''UNSUPPORTED''"

record HostLinkObservation =
  ho_link :: LinkId
  ho_endpoint :: EndpointId
  ho_device :: DeviceId
  ho_port :: PortId
  ho_link_class :: LinkClass
  ho_kind :: EvidenceKind
  ho_claim :: EvidenceClaim
  ho_degradation_cause :: DegradationCause
  ho_evidence_class :: EvidenceClass
  ho_interface_guid :: string
  ho_interface_alias :: string
  ho_description :: string
  ho_media_type :: string
  ho_transmit_speed_bps :: u64
  ho_receive_speed_bps :: u64
  ho_interface_index :: u32
  ho_interface_type :: IfType
  ho_media_connected :: bool
  ho_administratively_enabled :: bool
  ho_detail :: string

record HostDiscoveryReport =
  hr_availability :: HostEvidenceAvailability
  hr_observations :: "HostLinkObservation list"
  hr_notes :: "string list"
  hr_interfaces_enumerated :: nat
  hr_unsupported_interfaces :: nat

definition empty_report :: HostDiscoveryReport where
  "empty_report = \<lparr>hr_availability = Unavailable, hr_observations = [], hr_notes = [],
     hr_interfaces_enumerated = 0, hr_unsupported_interfaces = 0\<rparr>"

text \<open>The truncation of \<^verbatim>\<open>finalize_observation\<close>: bytes are dropped until the text is well formed.\<close>

function pop_invalid :: "string \<Rightarrow> string" where
  "pop_invalid truncated =
     (if truncated \<noteq> [] \<and> \<not> is_valid_utf8 truncated then pop_invalid (butlast truncated) else truncated)"
  by pat_completeness auto
termination
  by (relation "measure length") auto

declare pop_invalid.simps [simp del]

definition bool_text :: "bool \<Rightarrow> string" where
  "bool_text value = (if value then ''true'' else ''false'')"

definition detail_text :: "HostLinkObservation \<Rightarrow> string" where
  "detail_text obs =
     ''interface='' @ (if ho_interface_alias obs = [] then ho_interface_guid obs else ho_interface_alias obs) @
     '' guid='' @ ho_interface_guid obs @
     '' admin_enabled='' @ bool_text (ho_administratively_enabled obs) @
     '' media_connected='' @ bool_text (ho_media_connected obs) @
     '' transmit_bps='' @ format_u64 (ho_transmit_speed_bps obs) @
     '' receive_bps='' @ format_u64 (ho_receive_speed_bps obs) @
     '' medium='' @ ho_media_type obs @
     '' kind='' @ to_string_kind (ho_kind obs) @
     '' claim='' @ to_string_claim (ho_claim obs) @
     '' class='' @ to_string_class (ho_evidence_class obs) @
     (if ho_degradation_cause obs \<noteq> NoCause then '' cause='' @ to_string_cause (ho_degradation_cause obs) else [])"

definition bounded_detail :: "string \<Rightarrow> string" where
  "bounded_detail detail =
     (if length detail > max_detail_length then pop_invalid (take (max_detail_length - 3) detail) @ ''...''
      else detail)"

definition finalize_observation :: "HostLinkObservation \<Rightarrow> HostLinkObservation" where
  "finalize_observation observation = observation\<lparr>ho_detail := bounded_detail (detail_text observation)\<rparr>"

definition render_observation :: "HostLinkObservation \<Rightarrow> string" where
  "render_observation obs =
     (let nl = [CHR 0x0A] in
      ''link            '' @ id_value (ho_link obs) @ nl @
      ''endpoint        '' @ id_value (ho_endpoint obs) @ nl @
      ''device          '' @ id_value (ho_device obs) @ nl @
      ''port            '' @ id_value (ho_port obs) @ nl @
      ''interface_guid  '' @ ho_interface_guid obs @ nl @
      ''alias           '' @ ho_interface_alias obs @ nl @
      ''description     '' @ ho_description obs @ nl @
      ''media_type      '' @ ho_media_type obs @ nl @
      ''link_class      '' @ to_string_link_class (ho_link_class obs) @ nl @
      ''evidence_kind   '' @ to_string_kind (ho_kind obs) @ nl @
      ''claim           '' @ to_string_claim (ho_claim obs) @ nl @
      ''evidence_class  '' @ to_string_class (ho_evidence_class obs) @ nl @
      ''detail          '' @ single_line (ho_detail obs) @ nl)"

section \<open>Discovery\<close>

definition base_observation :: "InterfaceRow \<Rightarrow> string \<Rightarrow> HostLinkObservation" where
  "base_observation row guid =
     \<lparr>ho_link = from_validated (''link.host.'' @ guid), ho_endpoint = from_validated (''ep.host.'' @ guid),
      ho_device = from_validated (''dev.host.'' @ guid), ho_port = from_validated (''port.host.'' @ guid),
      ho_link_class = class_for_if_type (ir_type row), ho_kind = InterfaceOperationalState,
      ho_claim = EvidenceClaim.Unknown, ho_degradation_cause = NoCause, ho_evidence_class = Real,
      ho_interface_guid = guid, ho_interface_alias = ir_alias row, ho_description = ir_description row,
      ho_media_type = medium_name (ir_medium row), ho_transmit_speed_bps = ir_transmit_speed row,
      ho_receive_speed_bps = ir_receive_speed row, ho_interface_index = ir_index row,
      ho_interface_type = ir_type row,
      ho_media_connected = (ir_media_connect row = MediaConnectStateConnected),
      ho_administratively_enabled = (ir_admin_status row \<noteq> kAdminStatusDisabled), ho_detail = []\<rparr>"

definition add_observation :: "HostLinkObservation \<Rightarrow> HostDiscoveryReport \<Rightarrow> HostDiscoveryReport" where
  "add_observation observation report =
     report\<lparr>hr_observations := hr_observations report @ [finalize_observation observation]\<rparr>"

definition add_note :: "string \<Rightarrow> HostDiscoveryReport \<Rightarrow> HostDiscoveryReport" where
  "add_note note report = report\<lparr>hr_notes := hr_notes report @ [note]\<rparr>"

definition skip_interface :: "string \<Rightarrow> HostDiscoveryReport \<Rightarrow> HostDiscoveryReport" where
  "skip_interface note report =
     add_note note (report\<lparr>hr_unsupported_interfaces := hr_unsupported_interfaces report + 1\<rparr>)"

definition report_admin :: "InterfaceRow \<Rightarrow> HostLinkObservation \<Rightarrow> HostDiscoveryReport \<Rightarrow> HostDiscoveryReport" where
  "report_admin row base report =
     (if ir_admin_status row = kAdminStatusDisabled \<or> ir_admin_status row = kAdminStatusEnabled
      then add_observation (base\<lparr>ho_kind := AdministrativeState,
             ho_claim := (if ho_administratively_enabled base then EvidenceClaim.Up else EvidenceClaim.AdminDisabled)\<rparr>)
             report
      else report)"

definition media_known :: "InterfaceRow \<Rightarrow> bool" where
  "media_known row \<longleftrightarrow> ir_media_connect row = MediaConnectStateConnected \<or>
     ir_media_connect row = MediaConnectStateDisconnected"

definition report_carrier :: "InterfaceRow \<Rightarrow> HostLinkObservation \<Rightarrow> HostDiscoveryReport \<Rightarrow> HostDiscoveryReport" where
  "report_carrier row base report =
     (if media_known row
      then add_observation (base\<lparr>ho_kind := CarrierState,
             ho_claim := (if ho_media_connected base then EvidenceClaim.Up else EvidenceClaim.Down)\<rparr>) report
      else add_note (''media connect state is not reported for interface '' @ ho_interface_guid base @
             ''; no carrier evidence was produced'') report)"

definition upstream_down :: "InterfaceRow \<Rightarrow> bool" where
  "upstream_down row \<longleftrightarrow> ir_oper_status row = IfOperStatusDown \<or> ir_oper_status row = IfOperStatusNotPresent \<or>
     ir_oper_status row = IfOperStatusLowerLayerDown \<or> ir_oper_status row = IfOperStatusDormant"

definition asymmetric :: "HostLinkObservation \<Rightarrow> bool" where
  "asymmetric base \<longleftrightarrow> ho_transmit_speed_bps base \<noteq> ho_receive_speed_bps base \<and>
     (ho_transmit_speed_bps base \<noteq> 0 \<or> ho_receive_speed_bps base \<noteq> 0)"

text \<open>The claim of the operational observation with its degradation cause.\<close>

definition operational_claim :: "InterfaceRow \<Rightarrow> HostLinkObservation \<Rightarrow> EvidenceClaim \<times> DegradationCause" where
  "operational_claim row base =
     (let oper_up = (ir_oper_status row = IfOperStatusUp) in
      if \<not> ho_administratively_enabled base then (EvidenceClaim.Down, NoCause)
      else if oper_up \<and> ho_media_connected base
      then (if asymmetric base then (EvidenceClaim.Degraded, ReducedNegotiatedSpeed) else (EvidenceClaim.Up, NoCause))
      else if upstream_down row then (EvidenceClaim.Down, NoCause)
      else if oper_up then (EvidenceClaim.Down, NoCause)
      else (EvidenceClaim.Unknown, NoCause))"

definition report_operational :: "InterfaceRow \<Rightarrow> HostLinkObservation \<Rightarrow> HostDiscoveryReport \<Rightarrow> HostDiscoveryReport" where
  "report_operational row base report =
     (case operational_claim row base of
        (claim, cause) \<Rightarrow>
          if claim \<noteq> EvidenceClaim.Unknown
          then add_observation (base\<lparr>ho_kind := InterfaceOperationalState, ho_claim := claim,
                 ho_degradation_cause := cause\<rparr>) report
          else add_note (''operational state is not reported for interface '' @ ho_interface_guid base @
                 ''; no operational evidence was produced'') report)"

text \<open>One turn of the loop over the table.\<close>

definition discover_row :: "InterfaceRow \<Rightarrow> HostDiscoveryReport \<Rightarrow> HostDiscoveryReport" where
  "discover_row row report0 =
     (let report = report0\<lparr>hr_interfaces_enumerated := hr_interfaces_enumerated report0 + 1\<rparr>;
          guid = guid_identifier (ir_guid row); base = base_observation row guid
      in if ir_type row = IF_TYPE_SOFTWARE_LOOPBACK
         then skip_interface ''software loopback interface was skipped: it is not a fabric link'' report
         else if guid = [] then skip_interface ''interface without a usable interface GUID was skipped'' report
         else report_operational row base (report_carrier row base (report_admin row base report)))"

definition observation_less :: "HostLinkObservation \<Rightarrow> HostLinkObservation \<Rightarrow> bool" where
  "observation_less lhs rhs \<longleftrightarrow>
     (if ho_link lhs \<noteq> ho_link rhs then ho_link lhs < ho_link rhs
      else if ho_kind lhs \<noteq> ho_kind rhs then kind_index (ho_kind lhs) < kind_index (ho_kind rhs)
      else claim_index (ho_claim lhs) < claim_index (ho_claim rhs))"

text \<open>The platform: not Windows, or what \<^verbatim>\<open>GetIfTable2\<close> returned - no table, or its rows.\<close>

datatype HostPlatform = OtherPlatform | WindowsTable "InterfaceRow list option"

definition discover_host_links :: "HostPlatform \<Rightarrow> HostDiscoveryReport" where
  "discover_host_links platform =
     (case platform of
        WindowsTable None \<Rightarrow>
          add_note ''the operating system interface inventory could not be queried''
            (empty_report\<lparr>hr_availability := Unavailable\<rparr>)
      | WindowsTable (Some rows) \<Rightarrow>
          (let report = fold discover_row rows (empty_report\<lparr>hr_availability := Available\<rparr>)
           in report\<lparr>hr_observations := std_sort observation_less (hr_observations report)\<rparr>)
      | OtherPlatform \<Rightarrow>
          (let report = add_note (''host interface discovery is implemented for Windows in this release; '' @
                 ''the capability is UNSUPPORTED on this platform'')
                 (empty_report\<lparr>hr_availability := HostEvidenceAvailability.Unsupported\<rparr>)
           in report\<lparr>hr_observations := std_sort observation_less (hr_observations report)\<rparr>))"

section \<open>The publisher\<close>

record HostBindingContext =
  hb_topology_generation :: TopologyGeneration
  hb_endpoint_generation :: EndpointGeneration

record HostEvidencePublisher =
  hp_publisher :: PublisherId
  hp_worker_boot :: WorkerBootId
  hp_source :: SourceId
  hp_source_generation :: SourceGeneration
  hp_round :: u64
  hp_sequences :: "(string, u64) umap"
  hp_observation_counter :: u64

definition new_host_publisher :: "PublisherId \<Rightarrow> WorkerBootId \<Rightarrow> SourceId \<Rightarrow> HostEvidencePublisher" where
  "new_host_publisher publisher worker_boot source =
     \<lparr>hp_publisher = publisher, hp_worker_boot = worker_boot, hp_source = source, hp_source_generation = Gen 1,
      hp_round = 0, hp_sequences = [], hp_observation_counter = 0\<rparr>"

definition host_key :: "HostLinkObservation \<Rightarrow> HostEvidencePublisher \<Rightarrow> string" where
  "host_key observation p =
     id_value (ho_link observation) @ ''|'' @ id_value (hp_source p) @ ''|'' @ id_value (ho_endpoint observation) @
     ''|'' @ format_nat (kind_index (ho_kind observation))"

definition host_record ::
  "HostLinkObservation \<Rightarrow> HostBindingContext \<Rightarrow> CoordinatorEpoch \<Rightarrow> u64 \<Rightarrow> u64 \<Rightarrow> HostEvidencePublisher \<Rightarrow>
     EvidenceRecord" where
  "host_record observation binding epoch sequence counter p =
     \<lparr>ev_key = EvidenceKey (ho_link observation) (hp_source p) (ho_endpoint observation) Bidirectional
        (ho_kind observation),
      ev_observation = from_validated (''obs.host.'' @ format_u64 counter), ev_publisher = hp_publisher p,
      ev_worker_boot = hp_worker_boot p, ev_epoch = epoch, ev_source_generation = hp_source_generation p,
      ev_sequence = sequence, ev_topology_generation = hb_topology_generation binding,
      ev_endpoint_generation = hb_endpoint_generation binding, ev_class = Real, ev_claim = ho_claim observation,
      ev_degradation_cause = ho_degradation_cause observation, ev_observed_at_unix_nanos = 0,
      ev_detail = ho_detail observation, ev_metadata = [], ev_status = Current,
      ev_evidence_generation = gen_zero, ev_commit_sequence = gen_zero, ev_record_digest = zero_digest\<rparr>"

definition host_request ::
  "HostLinkObservation \<Rightarrow> HostBindingContext \<Rightarrow> CoordinatorEpoch \<Rightarrow> u64 \<Rightarrow> u64 \<Rightarrow> HostEvidencePublisher \<Rightarrow>
     PublishEvidenceRequest" where
  "host_request observation binding epoch sequence counter p =
     \<lparr>pe_observation = host_record observation binding epoch sequence counter p,
      pe_expected_evidence_generation = None, pe_expected_state_generation = None,
      pe_publication = from_validated (''pub.host.'' @ format_u64 counter)\<rparr>"

definition next_sequence :: "string \<Rightarrow> HostEvidencePublisher \<Rightarrow> u64" where
  "next_sequence key p = (case map_of (hp_sequences p) key of None \<Rightarrow> 0 | Some n \<Rightarrow> n) + 1"

text \<open>One turn of the loop of \<^verbatim>\<open>requests\<close>.\<close>

definition request_observation ::
  "(LinkId, HostBindingContext) umap \<Rightarrow> CoordinatorEpoch \<Rightarrow> HostLinkObservation \<Rightarrow>
     HostEvidencePublisher \<times> PublishEvidenceRequest list \<Rightarrow> HostEvidencePublisher \<times> PublishEvidenceRequest list" where
  "request_observation bindings epoch observation state =
     (case state of (p, requests) \<Rightarrow>
        case map_of bindings (ho_link observation) of
          None \<Rightarrow> (p, requests)
        | Some binding \<Rightarrow>
            (let key = host_key observation p;
                 sequence = next_sequence key p;
                 counter = hp_observation_counter p + 1;
                 p' = p\<lparr>hp_sequences := AList.update key sequence (hp_sequences p), hp_observation_counter := counter\<rparr>
             in (p', requests @ [host_request observation binding epoch sequence counter p])))"

definition host_requests ::
  "HostDiscoveryReport \<Rightarrow> (LinkId, HostBindingContext) umap \<Rightarrow> CoordinatorEpoch \<Rightarrow> HostEvidencePublisher \<Rightarrow>
     HostEvidencePublisher \<times> PublishEvidenceRequest list" where
  "host_requests report bindings epoch p =
     (case fold (request_observation bindings epoch) (hr_observations report) (p, []) of
        (p', requests) \<Rightarrow>
          (let p'' = p'\<lparr>hp_round := hp_round p' + 1\<rparr>
           in (case next_gen (hp_source_generation p'') of
                 Some g \<Rightarrow> p''\<lparr>hp_source_generation := g\<rparr>
               | None \<Rightarrow> p'', requests)))"

text \<open>Successive discovery rounds of one publisher.\<close>

type_synonym host_round = "HostDiscoveryReport \<times> (LinkId, HostBindingContext) umap \<times> CoordinatorEpoch"

fun host_rounds :: "host_round list \<Rightarrow> HostEvidencePublisher \<Rightarrow> PublishEvidenceRequest list list" where
  "host_rounds [] p = []"
| "host_rounds ((report, bindings, epoch) # rounds) p =
     (case host_requests report bindings epoch p of (p', requests) \<Rightarrow> requests # host_rounds rounds p')"

end
