(* ===== verification/Utf8.thy ===== *)
theory Utf8
  imports Texts
begin

text \<open>
  What the UTF-8 scanner of \<^verbatim>\<open>src/text.cpp\<close> accepts: exactly the concatenations of encodings of Unicode
  scalar values.
\<close>

section \<open>What the scanner accepts\<close>

text \<open>The encoding of a Unicode scalar value, the reference the byte scanner is compared with.\<close>

definition scalar_value :: "nat \<Rightarrow> bool" where
  "scalar_value c \<longleftrightarrow> c \<le> 0x10ffff \<and> \<not> (0xd800 \<le> c \<and> c \<le> 0xdfff)"

definition utf8_encode :: "nat \<Rightarrow> string" where
  "utf8_encode c =
     (if c < 0x80 then [char_of c]
      else if c < 0x800 then [char_of (0xc0 + c div 64), char_of (0x80 + c mod 64)]
      else if c < 0x10000
      then [char_of (0xe0 + c div 4096), char_of (0x80 + c div 64 mod 64), char_of (0x80 + c mod 64)]
      else [char_of (0xf0 + c div 262144), char_of (0x80 + c div 4096 mod 64),
            char_of (0x80 + c div 64 mod 64), char_of (0x80 + c mod 64)])"

lemma and_field: "b AND push_bit k (mask j) = b div 2 ^ k mod 2 ^ j * (2 :: nat) ^ k"
proof -
  have "b AND push_bit k (mask j) = push_bit k (take_bit j (drop_bit k b))"
    by (rule bit_eqI) (auto simp: bit_simps)
  then show ?thesis
    by (simp add: push_bit_eq_mult take_bit_eq_mod drop_bit_eq_div)
qed

lemma and_0xe0: "b AND 0xe0 = b div 32 mod 8 * 32" for b :: nat
  using and_field [of b 5 3] by (simp add: mask_eq_exp_minus_1)

lemma and_0xf0: "b AND 0xf0 = b div 16 mod 16 * 16" for b :: nat
  using and_field [of b 4 4] by (simp add: mask_eq_exp_minus_1)

lemma and_0xf8: "b AND 0xf8 = b div 8 mod 32 * 8" for b :: nat
  using and_field [of b 3 5] by (simp add: mask_eq_exp_minus_1)

lemma and_0xc0: "b AND 0xc0 = b div 64 mod 4 * 64" for b :: nat
  using and_field [of b 6 2] by (simp add: mask_eq_exp_minus_1)

lemma and_low: "b AND mask j = b mod 2 ^ j" for b :: nat
  using and_field [of b 0 j] by simp

lemma and_0x1f: "b AND 0x1f = b mod 32" for b :: nat
  using and_low [of b 5] by (simp add: mask_eq_exp_minus_1)

lemma and_0x0f: "b AND 0x0f = b mod 16" for b :: nat
  using and_low [of b 4] by (simp add: mask_eq_exp_minus_1)

lemma and_0x07: "b AND 0x07 = b mod 8" for b :: nat
  using and_low [of b 3] by (simp add: mask_eq_exp_minus_1)

lemma and_0x3f: "b AND 0x3f = b mod 64" for b :: nat
  using and_low [of b 6] by (simp add: mask_eq_exp_minus_1)

lemmas byte_fields = and_0xe0 and_0xf0 and_0xf8 and_0xc0 and_0x1f and_0x0f and_0x07 and_0x3f

lemma field_eq:
  assumes "m < n * k" "q < k"
  shows "m div n mod k * n = q * n \<longleftrightarrow> q * n \<le> m \<and> m < Suc q * (n :: nat)"
proof -
  have "0 < n" using assms by (cases n) auto
  moreover have "m div n < k" using assms by (simp add: less_mult_imp_div_less mult.commute)
  moreover have "m div n = q \<longleftrightarrow> q * n \<le> m \<and> m < Suc q * n"
    using \<open>0 < n\<close> by (auto simp: mult.commute dividend_less_div_times dividend_less_times_div
        intro!: div_nat_eqI)
  ultimately show ?thesis by simp
qed

lemma mod_offset: "c < n \<Longrightarrow> (q * n + c) mod n = (c :: nat)"
  by simp

lemma utf8_lead_cases:
  assumes "b < 256"
  shows "utf8_lead b =
     (if 0xc0 \<le> b \<and> b < 0xe0 then Some (1, b - 0xc0, 0x80)
      else if 0xe0 \<le> b \<and> b < 0xf0 then Some (2, b - 0xe0, 0x800)
      else if 0xf0 \<le> b \<and> b < 0xf8 then Some (3, b - 0xf0, 0x10000)
      else None)"
proof -
  have "b div 32 mod 8 * 32 = 0xc0 \<longleftrightarrow> 0xc0 \<le> b \<and> b < 0xe0"
    and "b div 16 mod 16 * 16 = 0xe0 \<longleftrightarrow> 0xe0 \<le> b \<and> b < 0xf0"
    and "b div 8 mod 32 * 8 = 0xf0 \<longleftrightarrow> 0xf0 \<le> b \<and> b < 0xf8"
    using assms field_eq [of b 32 8 6] field_eq [of b 16 16 14] field_eq [of b 8 32 30] by simp_all
  moreover have "0xc0 \<le> b \<and> b < 0xe0 \<longrightarrow> b mod 32 = b - 0xc0"
    and "0xe0 \<le> b \<and> b < 0xf0 \<longrightarrow> b mod 16 = b - 0xe0"
    and "0xf0 \<le> b \<and> b < 0xf8 \<longrightarrow> b mod 8 = b - 0xf0"
    using mod_offset [of _ 32 6] mod_offset [of _ 16 14] mod_offset [of _ 8 30]
    by (auto simp: le_iff_add)
  ultimately show ?thesis
    by (simp add: utf8_lead_def byte_fields)
qed

lemma continuation_byte:
  assumes "b < 256"
  shows "b AND 0xc0 = 0x80 \<longleftrightarrow> 0x80 \<le> b \<and> b < (0xc0 :: nat)"
  using assms field_eq [of b 64 4 2] by (simp add: byte_fields)

lemma shift_or: "push_bit 6 c OR (b mod 64) = c * 64 + b mod (64 :: nat)"
proof -
  have "push_bit 6 c OR take_bit 6 b = push_bit 6 c + take_bit 6 b"
    by (rule disjunctive_add_eq_or [symmetric]) (simp add: bit_eq_iff bit_simps)
  then show ?thesis by (simp add: push_bit_eq_mult take_bit_eq_mod)
qed

lemma of_char_lt [simp]: "of_char ch < (256 :: nat)"
  using nat_of_char_less_256 by simp

lemma continuation_step [simp]:
  "continuation (Suc k) cp (ch # rest) =
     (if 0x80 \<le> (of_char ch :: nat) \<and> (of_char ch :: nat) < 0xc0
      then continuation k (cp * 64 + of_char ch mod 64) rest else None)"
  using continuation_byte [of "of_char ch"] by (simp add: byte_fields shift_or)

declare continuation.simps(3) [simp del]



lemma continuation_digit [simp]:
  "r < 64 \<Longrightarrow> continuation (Suc k) q (char_of (0x80 + r :: nat) # rest) = continuation k (q * 64 + r) rest"
  using mod_offset [of r 64 2] by simp

lemma digit_payload [simp]: "(128 + c mod 64) mod 64 = c mod (64 :: nat)"
  using mod_offset [of "c mod 64" 64 2] by simp

lemma scan_ascii: "c < 0x80 \<Longrightarrow> is_valid_utf8 (char_of c # rest) \<longleftrightarrow> is_valid_utf8 rest" for c :: nat
  by (simp add: is_valid_utf8.simps)

lemma scan_lead:
  assumes "0x80 \<le> b" "b < 0x100" "utf8_lead b = Some (extra, payload, minimum)"
    "extra \<le> length rest" "continuation extra payload rest = Some c"
  shows "is_valid_utf8 (char_of b # rest) \<longleftrightarrow>
    minimum \<le> c \<and> scalar_value c \<and> is_valid_utf8 (drop extra rest)"
  using assms by (auto simp: is_valid_utf8.simps scalar_value_def)

lemma three_digits: "c div 4096 * 64 + c div 64 mod 64 = c div (64 :: nat)"
  using div_mult_mod_eq [of "c div 64" 64] by (simp add: div_mult2_eq [of _ 64 64, simplified] div_mult2_eq [of _ 4096 64, simplified])

lemma four_digits: "c div 262144 * 64 + c div 4096 mod 64 = c div (4096 :: nat)"
  using div_mult_mod_eq [of "c div 4096" 64] by (simp add: div_mult2_eq [of _ 64 64, simplified] div_mult2_eq [of _ 4096 64, simplified])

text \<open>An encoded scalar value is scanned in one turn of the loop.\<close>

lemma scan_encoding:
  assumes "scalar_value c"
  shows "is_valid_utf8 (utf8_encode c @ rest) \<longleftrightarrow> is_valid_utf8 rest"
proof -
  consider "c < 0x80" | "0x80 \<le> c" "c < 0x800" | "0x800 \<le> c" "c < 0x10000"
    | "0x10000 \<le> c" "c \<le> 0x10ffff"
    using assms by (fastforce simp: scalar_value_def)
  then show ?thesis
  proof cases
    case 1
    then show ?thesis by (simp add: utf8_encode_def scan_ascii)
  next
    case 2
    then show ?thesis
      using assms scan_lead [of "0xc0 + c div 64" 1 "c div 64" "0x80" "char_of (0x80 + c mod 64) # rest" c]
      by (simp add: utf8_encode_def utf8_lead_cases)
  next
    case 3
    then show ?thesis
      using assms scan_lead [of "0xe0 + c div 4096" 2 "c div 4096" "0x800"
          "char_of (0x80 + c div 64 mod 64) # char_of (0x80 + c mod 64) # rest" c]
      by (simp add: utf8_encode_def utf8_lead_cases numeral_eq_Suc [of "num.Bit0 num.One"] three_digits)
  next
    case 4
    let ?tail = "char_of (0x80 + c div 4096 mod 64) # char_of (0x80 + c div 64 mod 64) # char_of (0x80 + c mod 64) # rest"
    have top: "c div 262144 < 8" using 4 by simp
    have "continuation 3 (c div 262144) ?tail = Some c"
      unfolding numeral_3_eq_3 by (simp add: three_digits four_digits)
    moreover have "utf8_lead (0xf0 + c div 262144) = Some (3, c div 262144, 0x10000)"
      using top by (simp add: utf8_lead_cases)
    moreover have "drop 3 ?tail = rest" unfolding numeral_3_eq_3 by simp
    ultimately show ?thesis
      using 4 assms top scan_lead [of "0xf0 + c div 262144" 3 "c div 262144" "0x10000" ?tail c]
      by (simp only: utf8_encode_def) simp
  qed
qed

text \<open>A continuation byte is \<open>char_of (0x80 + r)\<close> for its payload \<open>r\<close>.\<close>

lemma continuation_SucE:
  assumes "continuation (Suc k) q bs = Some c"
  obtains r rest where "bs = char_of (0x80 + r :: nat) # rest" "r < 64"
    "continuation k (q * 64 + r) rest = Some c"
proof -
  obtain x rest where bs: "bs = x # rest" using assms by (cases bs) auto
  define r where "r = (of_char x :: nat) - 0x80"
  have x: "0x80 \<le> (of_char x :: nat)" "(of_char x :: nat) < 0xc0"
    using assms bs by (auto split: if_splits)
  then have of_x: "of_char x = 0x80 + r" and "r < 64" by (simp_all add: r_def)
  have "x = char_of (0x80 + r)" unfolding of_x [symmetric] by simp
  with that [of r rest] \<open>r < 64\<close> show thesis
    using assms mod_offset [of r 64 2] by (simp add: bs)
qed

lemma last_digit: "d < 64 \<Longrightarrow> (n * 64 + d) div 64 = n" "d < 64 \<Longrightarrow> (n * 64 + d) mod 64 = (d :: nat)"
  by simp_all

lemma number_of_digits:
  assumes "q < 64" "r < 64" "d < (64 :: nat)"
  shows "(4096 * p + r * 64 + d) div 4096 = p" "(4096 * p + r * 64 + d) div 64 mod 64 = r"
    "(4096 * p + r * 64 + d) mod 64 = d"
    "(262144 * p + 4096 * q + r * 64 + d) div 262144 = p"
    "(262144 * p + 4096 * q + r * 64 + d) div 4096 mod 64 = q"
    "(262144 * p + 4096 * q + r * 64 + d) div 64 mod 64 = r"
    "(262144 * p + 4096 * q + r * 64 + d) mod 64 = d"
proof -
  have three: "4096 * p + r * 64 + d = (p * 64 + r) * 64 + d"
    and four: "262144 * p + 4096 * q + r * 64 + d = ((p * 64 + q) * 64 + r) * 64 + d"
    by simp_all
  have split: "n div 4096 = n div 64 div 64" "n div 262144 = n div 64 div 64 div 64" for n :: nat
    by (simp_all add: div_mult2_eq [symmetric])
  show "(4096 * p + r * 64 + d) div 4096 = p" "(4096 * p + r * 64 + d) div 64 mod 64 = r"
    "(4096 * p + r * 64 + d) mod 64 = d"
    unfolding three split by (simp_all only: last_digit assms)
  show "(262144 * p + 4096 * q + r * 64 + d) div 262144 = p"
    "(262144 * p + 4096 * q + r * 64 + d) div 4096 mod 64 = q"
    "(262144 * p + 4096 * q + r * 64 + d) div 64 mod 64 = r"
    "(262144 * p + 4096 * q + r * 64 + d) mod 64 = d"
    unfolding four split by (simp_all only: last_digit assms)
qed

lemma scan_split:
  assumes "is_valid_utf8 bs" "bs \<noteq> []"
  obtains c rest where "scalar_value c" "bs = utf8_encode c @ rest" "is_valid_utf8 rest"
proof -
  obtain ch s where bs: "bs = ch # s" using assms by (cases bs) auto
  define b where "b = (of_char ch :: nat)"
  have ch: "ch = char_of b" and "b < 256" by (simp_all add: b_def)
  show thesis
  proof (cases "b < 0x80")
    case True
    then show thesis
      using that [of b s] assms by (simp add: bs ch scan_ascii utf8_encode_def scalar_value_def)
  next
    case False
    with assms obtain extra payload minimum c where lead: "utf8_lead b = Some (extra, payload, minimum)"
      and cont: "continuation extra payload s = Some c" and c: "minimum \<le> c" "scalar_value c"
      and rest: "is_valid_utf8 (drop extra s)"
      by (auto simp: bs b_def [symmetric] is_valid_utf8.simps(2) scalar_value_def
          split: option.splits if_splits)
    have "utf8_encode c @ drop extra s = bs"
    proof -
      consider "b - 0xc0 = payload" "extra = Suc 0" "minimum = 0x80" "b = 0xc0 + payload" "payload < 32"
        | "extra = Suc (Suc 0)" "minimum = 0x800" "b = 0xe0 + payload" "payload < 16"
        | "extra = Suc (Suc (Suc 0))" "minimum = 0x10000" "b = 0xf0 + payload" "payload < 8"
        using lead \<open>b < 256\<close> by (auto simp: utf8_lead_cases split: if_splits)
      then show ?thesis
      proof cases
        case 1
        then show ?thesis
          using cont c(1) by (auto elim!: continuation_SucE simp: utf8_encode_def bs ch number_of_digits)
      next
        case 2
        then show ?thesis
          using cont c(1)
          by (auto elim!: continuation_SucE simp: utf8_encode_def bs ch number_of_digits)
      next
        case 3
        then show ?thesis
          using cont c(1)
          by (auto elim!: continuation_SucE simp: utf8_encode_def bs ch number_of_digits)
      qed
    qed
    then show thesis using that [of c "drop extra s"] c(2) rest by simp
  qed
qed

lemma encoding_length: "0 < length (utf8_encode c)" "length (utf8_encode c) \<le> 4"
  by (simp_all add: utf8_encode_def)

lemma scan_encodings: "list_all scalar_value cs \<Longrightarrow> is_valid_utf8 (concat (map utf8_encode cs) @ rest) \<longleftrightarrow> is_valid_utf8 rest"
  by (induction cs) (simp_all add: scan_encoding)

lemma decode_valid: "is_valid_utf8 bs \<Longrightarrow> \<exists>cs. list_all scalar_value cs \<and> bs = concat (map utf8_encode cs)"
proof (induction "length bs" arbitrary: bs rule: less_induct)
  case less
  show ?case
  proof (cases "bs = []")
    case True
    then show ?thesis by (intro exI [of _ "[]"]) simp
  next
    case False
    obtain c rest where c: "scalar_value c" "bs = utf8_encode c @ rest" and "is_valid_utf8 rest"
      using scan_split [OF less.prems False] by blast
    moreover have "length rest < length bs" using c(2) encoding_length(1) [of c] by simp
    ultimately obtain cs where "list_all scalar_value cs" "rest = concat (map utf8_encode cs)"
      using less.hyps by blast
    then show ?thesis using c by (intro exI [of _ "c # cs"]) simp
  qed
qed

text \<open>
  C37: The UTF-8 scanner of the text layer accepts exactly the well formed texts: a byte string passes if and only
  if it is a sequence of encodings of Unicode scalar values.  Overlong encodings, surrogates, code points above
  \<open>0x10ffff\<close>, stray continuation bytes and cut encodings are all refused.
\<close>

theorem utf8_scanner_exact:
  "is_valid_utf8 bs \<longleftrightarrow> (\<exists>cs. list_all scalar_value cs \<and> bs = concat (map utf8_encode cs))"
proof
  assume "\<exists>cs. list_all scalar_value cs \<and> bs = concat (map utf8_encode cs)"
  then show "is_valid_utf8 bs" using scan_encodings [of _ "[]"] by fastforce
qed (rule decode_valid)

section \<open>Cutting a text\<close>

lemma is_valid_utf8_append: "is_valid_utf8 xs \<Longrightarrow> is_valid_utf8 (xs @ ys) \<longleftrightarrow> is_valid_utf8 ys"
  using decode_valid [of xs] scan_encodings by auto

text \<open>A cut of a well formed text is at most three bytes away from the end of an encoding.\<close>

lemma valid_prefix_near:
  "is_valid_utf8 bs \<Longrightarrow> n \<le> length bs \<Longrightarrow> \<exists>m. m \<le> n \<and> n \<le> m + 3 \<and> is_valid_utf8 (take m bs)"
proof (induction "length bs" arbitrary: bs n rule: less_induct)
  case less
  show ?case
  proof (cases "n \<le> 3")
    case True
    then show ?thesis by (intro exI [of _ 0]) simp
  next
    case False
    then have "bs \<noteq> []" using less.prems by auto
    obtain c rest where c: "scalar_value c" "bs = utf8_encode c @ rest" and rest: "is_valid_utf8 rest"
      using scan_split [OF less.prems(1) \<open>bs \<noteq> []\<close>] by blast
    let ?e = "length (utf8_encode c)"
    have "?e \<le> n" using False encoding_length(2) [of c] by simp
    moreover have "length rest < length bs" using c(2) encoding_length(1) [of c] by simp
    moreover have "n - ?e \<le> length rest" using less.prems(2) c(2) by simp
    ultimately obtain m where "m \<le> n - ?e" "n - ?e \<le> m + 3" "is_valid_utf8 (take m rest)"
      using less.hyps [OF _ rest, of "n - ?e"] by blast
    then show ?thesis
      using c \<open>?e \<le> n\<close> by (intro exI [of _ "?e + m"]) (auto simp: scan_encoding)
  qed
qed

end
