(* ===== verification/Host_Guarantees.thy ===== *)
theory Host_Guarantees
  imports Host_Evidence Utf8 Engine_Contracts
begin

text \<open>
  What host evidence guarantees: the diagnostic text of an observation fits the evidence bound, interfaces have
  distinct valid identities, the claims follow the reported interface state, the requests of a round are admitted
  by the engine's validation, and a later round of one publisher supersedes every earlier one.
\<close>

section \<open>The diagnostic text\<close>

lemma pop_invalid_prefix:
  "m \<le> length bs \<Longrightarrow> is_valid_utf8 (take m bs) \<Longrightarrow>
     \<exists>n. m \<le> n \<and> n \<le> length bs \<and> pop_invalid bs = take n bs \<and> is_valid_utf8 (take n bs)"
proof (induction bs rule: pop_invalid.induct)
  case (1 bs)
  show ?case
  proof (cases "bs \<noteq> [] \<and> \<not> is_valid_utf8 bs")
    case True
    then have "m < length bs" using "1.prems" by (metis le_neq_implies_less take_all_iff order_refl)
    then have "take m (butlast bs) = take m bs" "m \<le> length (butlast bs)" by (simp_all add: take_butlast)
    then obtain n where "m \<le> n" "n \<le> length (butlast bs)" "pop_invalid (butlast bs) = take n (butlast bs)"
      "is_valid_utf8 (take n (butlast bs))"
      using "1.IH" [OF True] "1.prems" by auto
    moreover have "pop_invalid bs = pop_invalid (butlast bs)" using True by (simp add: pop_invalid.simps)
    moreover have "take n (butlast bs) = take n bs" if "n \<le> length bs - 1" for n
      using that True by (metis butlast_conv_take min_absorb1 take_take)
    ultimately show ?thesis by (intro exI [of _ n]) auto
  next
    case False
    then show ?thesis
      using "1.prems" by (intro exI [of _ "length bs"]) (auto simp: pop_invalid.simps)
  qed
qed

lemma ascii_marker: "is_valid_utf8 ''...''"
  by (simp add: is_valid_utf8.simps)

lemma detail_contract:
  assumes "is_valid_utf8 (detail_text obs)"
  shows "is_valid_utf8 (ho_detail (finalize_observation obs)) \<and>
    length (ho_detail (finalize_observation obs)) \<le> max_detail_length \<and>
    (if length (detail_text obs) \<le> max_detail_length then ho_detail (finalize_observation obs) = detail_text obs
     else \<exists>n. 250 \<le> n \<and> n \<le> 253 \<and> ho_detail (finalize_observation obs) = take n (detail_text obs) @ ''...'')"
proof (cases "length (detail_text obs) \<le> max_detail_length")
  case True
  then show ?thesis using assms by (simp add: finalize_observation_def bounded_detail_def)
next
  case False
  let ?d = "detail_text obs"
  have long: "253 \<le> length ?d" using False by (simp add: max_detail_length_def)
  obtain m where m: "m \<le> 253" "250 \<le> m" "is_valid_utf8 (take m ?d)"
    using valid_prefix_near [OF assms long] by auto
  then obtain n where n: "m \<le> n" "n \<le> 253" "pop_invalid (take 253 ?d) = take n ?d" "is_valid_utf8 (take n ?d)"
    using pop_invalid_prefix [of m "take 253 ?d"] long by (auto simp: min_absorb1 min_absorb2)
  then have "ho_detail (finalize_observation obs) = take n ?d @ ''...''"
    using False by (simp add: finalize_observation_def bounded_detail_def max_detail_length_def)
  with n m False show ?thesis
    by (auto simp: is_valid_utf8_append ascii_marker max_detail_length_def intro!: exI [of _ n])
qed

lemma detail_bound:
  "is_valid_utf8 (detail_text obs) \<Longrightarrow> is_valid_utf8 (ho_detail (finalize_observation obs))"
  "is_valid_utf8 (detail_text obs) \<Longrightarrow> length (ho_detail (finalize_observation obs)) \<le> max_detail_length"
  using detail_contract by blast+

text \<open>
  The detail of a host observation always fits the evidence bound: it is the full text when that has at most
  256 bytes, and otherwise a prefix of it - at most three bytes shorter than the 253 there is room for - with the
  marker appended.  The result is well formed UTF-8 whenever the text is, and a text that was cut is well formed
  in any case.
\<close>


theorem host_detail_bounded:
  assumes "is_valid_utf8 (detail_text obs)"
  shows "is_valid_utf8 (ho_detail (finalize_observation obs)) \<and>
    length (ho_detail (finalize_observation obs)) \<le> max_detail_length \<and>
    (if length (detail_text obs) \<le> max_detail_length then ho_detail (finalize_observation obs) = detail_text obs
     else \<exists>n. 250 \<le> n \<and> n \<le> 253 \<and> ho_detail (finalize_observation obs) = take n (detail_text obs) @ ''...'')"
  using assms by (rule detail_contract)

section \<open>Identities of interfaces\<close>

lemma length_hex_field [simp]: "length (hex_field w n) = w"
  by (simp add: hex_field_def)

lemma hex_digit_facts:
  assumes "i < 16"
  shows "is_alphanumeric (kDigits ! i)" "lower_hex (kDigits ! i) = kDigits ! i" "kDigits ! i \<noteq> CHR ''.''"
proof -
  have "\<forall>i<16. is_alphanumeric (kDigits ! i) \<and> lower_hex (kDigits ! i) = kDigits ! i \<and> kDigits ! i \<noteq> CHR ''.''"
    unfolding kDigits_def is_alphanumeric_def lower_hex_def by (code_simp)
  with assms show "is_alphanumeric (kDigits ! i)" "lower_hex (kDigits ! i) = kDigits ! i" "kDigits ! i \<noteq> CHR ''.''"
    by auto
qed

lemma kDigits_inj: "i < 16 \<Longrightarrow> j < 16 \<Longrightarrow> kDigits ! i = kDigits ! j \<longleftrightarrow> i = j"
  by (rule nth_eq_iff_index_eq) (simp_all add: kDigits_def)

lemma hex_field_digit: "ch \<in> set (hex_field w n) \<Longrightarrow> \<exists>i<16. ch = kDigits ! i"
  by (auto simp: hex_field_def) (metis mod_less_divisor zero_less_numeral)

lemma lower_hex_field: "map lower_hex (hex_field w n) = hex_field w n"
  by (simp add: hex_field_def hex_digit_facts(2))

lemma hex_field_Suc: "hex_field (Suc w) n = hex_field w (n div 16) @ [kDigits ! (n mod 16)]"
proof (rule nth_equalityI)
  fix i assume "i < length (hex_field (Suc w) n)"
  then have "i < w \<or> i = w" by auto
  then show "hex_field (Suc w) n ! i = (hex_field w (n div 16) @ [kDigits ! (n mod 16)]) ! i"
    by (auto simp: hex_field_def nth_append rev_nth Suc_diff_Suc div_mult2_eq [symmetric]
        power_Suc [symmetric] simp del: upt_Suc power_Suc)
qed simp

lemma hex_field_inj: "m < 16 ^ w \<Longrightarrow> n < 16 ^ w \<Longrightarrow> hex_field w m = hex_field w n \<longleftrightarrow> m = n"
proof (induction w arbitrary: m n)
  case (Suc w)
  have "m div 16 < 16 ^ w" "n div 16 < 16 ^ w" using Suc.prems by auto
  then have "hex_field (Suc w) m = hex_field (Suc w) n \<longleftrightarrow> m div 16 = n div 16 \<and> m mod 16 = n mod 16"
    using Suc.IH by (simp add: hex_field_Suc kDigits_inj)
  also have "\<dots> \<longleftrightarrow> m = n" by (metis div_mult_mod_eq)
  finally show ?case .
qed (simp add: hex_field_def)

lemma guid_identifier_text:
  "guid_identifier g =
     hex_field 8 (unat (gd_data1 g)) @ ''-'' @ hex_field 4 (unat (gd_data2 g)) @ ''-'' @
     hex_field 4 (unat (gd_data3 g)) @ ''-'' @ hex_field 2 (unat (gd_data4 g ! 0)) @ hex_field 2 (unat (gd_data4 g ! 1)) @
     ''-'' @ hex_field 2 (unat (gd_data4 g ! 2)) @ hex_field 2 (unat (gd_data4 g ! 3)) @
     hex_field 2 (unat (gd_data4 g ! 4)) @ hex_field 2 (unat (gd_data4 g ! 5)) @
     hex_field 2 (unat (gd_data4 g ! 6)) @ hex_field 2 (unat (gd_data4 g ! 7))"
  by (simp add: guid_identifier_def lower_hex_field lower_hex_def)

lemma hex_word_inj:
  assumes "LENGTH('a) = 4 * w"
  shows "hex_field w (unat x) = hex_field w (unat y) \<longleftrightarrow> x = (y :: 'a::len word)"
proof -
  have "unat z < 16 ^ w" for z :: "'a word"
    using unsigned_less [of z] by (simp add: assms power_mult)
  then show ?thesis by (simp add: hex_field_inj word_unat_eq_iff)
qed

lemma guid_identifier_inj:
  assumes "length (gd_data4 g) = 8" "length (gd_data4 h) = 8" "guid_identifier g = guid_identifier h"
  shows "g = (h :: Guid)"
proof -
  have fields: "gd_data1 g = gd_data1 h" "gd_data2 g = gd_data2 h" "gd_data3 g = gd_data3 h"
    "\<forall>i\<in>{0, 1, 2, 3, 4, 5, 6, 7}. gd_data4 g ! i = gd_data4 h ! i"
    using assms(3) by (simp_all add: guid_identifier_text hex_word_inj)
  have "gd_data4 g ! i = gd_data4 h ! i" if "i < 8" for i
  proof -
    have "i \<in> {0, 1, 2, 3, 4, 5, 6, 7}" using that by auto
    then show ?thesis using fields(4) by blast
  qed
  then have "gd_data4 g = gd_data4 h"
    using assms by (intro nth_equalityI) simp_all
  with fields show ?thesis by simp
qed

lemma guid_characters: "ch \<in> set (guid_identifier g) \<Longrightarrow> (\<exists>i<16. ch = kDigits ! i) \<or> ch = CHR ''-''"
  by (auto simp: guid_identifier_text dest: hex_field_digit)

lemma length_guid_identifier [simp]: "length (guid_identifier g) = 36"
  by (simp add: guid_identifier_text)

lemma last_guid: "\<exists>i<16. last (guid_identifier g) = kDigits ! i"
proof -
  have "hex_field 2 n \<noteq> []" for n using length_hex_field [of 2 n] by (metis list.size(3) zero_neq_numeral)
  then have "last (guid_identifier g) \<in> set (hex_field 2 (unat (gd_data4 g ! 7)))"
    by (simp add: guid_identifier_text)
  then show ?thesis by (rule hex_field_digit)
qed

text \<open>Identifiers made of a dotted name and a GUID are well formed.\<close>

lemma dotted_identifier:
  assumes "scan_identifier prefix = None" "prefix \<noteq> []" "is_alphanumeric (hd prefix)"
    "\<forall>ch\<in>set name. is_alphanumeric ch \<or> ch = CHR ''-''" "name \<noteq> []" "is_alphanumeric (last name)"
    "length prefix + length name \<le> 128"
  shows "validate_identifier (prefix @ name) = Ok"
proof -
  have plain: "\<forall>ch\<in>set name. (is_alphanumeric ch \<or> is_separator ch) \<and> ch \<noteq> CHR ''.''"
    using assms(4) by (auto simp: is_separator_def is_alphanumeric_def)
  then have name: "scan_identifier name = None" by (induction name) auto
  have "scan_identifier (prefix @ name) = None"
    using assms(1) plain name \<open>name \<noteq> []\<close>
    by (induction prefix rule: scan_identifier.induct) (auto split: if_splits simp: hd_append)
  then show ?thesis
    using assms(2,3,5,6,7) by (simp add: validate_identifier_def max_identifier_length_def)
qed

lemma guid_name: "\<forall>ch\<in>set (guid_identifier g). is_alphanumeric ch \<or> ch = CHR ''-''" "guid_identifier g \<noteq> []"
  "is_alphanumeric (last (guid_identifier g))"
  using guid_characters hex_digit_facts(1) length_guid_identifier [of g] last_guid [of g] by fastforce+

lemma host_identifier:
  assumes "prefix \<in> {''link.host.'', ''ep.host.'', ''dev.host.'', ''port.host.''}"
  shows "validate_identifier (prefix @ guid_identifier g) = Ok"
  using assms guid_name by (intro dotted_identifier) (auto simp: is_alphanumeric_def is_separator_def)

lemma host_links_distinct:
  assumes "length (gd_data4 g) = 8" "length (gd_data4 h) = 8"
  shows "ho_link (base_observation r (guid_identifier g)) = ho_link (base_observation r' (guid_identifier h)) \<longleftrightarrow> g = h"
  using guid_identifier_inj [OF assms] host_identifier [of "''link.host.''"]
  by (auto simp: base_observation_def from_validated_def)

section \<open>Claims\<close>

text \<open>What one row contributes, in the order it is reported.\<close>

definition row_observations :: "InterfaceRow \<Rightarrow> HostLinkObservation list" where
  "row_observations row = hr_observations (discover_row row empty_report)"

lemmas report_defs = discover_row_def report_operational_def report_carrier_def report_admin_def
  add_observation_def add_note_def skip_interface_def

lemma discover_row_observations:
  "hr_observations (discover_row row report) = hr_observations report @ row_observations row"
  by (simp add: row_observations_def report_defs empty_report_def Let_def split: prod.split)

lemma discovered: "hr_observations (fold discover_row rows report) = hr_observations report @ concat (map row_observations rows)"
  by (induction rows arbitrary: report) (simp_all add: discover_row_observations)

lemma host_observations:
  "set (hr_observations (discover_host_links (WindowsTable (Some rows)))) = (\<Union>row\<in>set rows. set (row_observations row))"
  by (simp add: discover_host_links_def Let_def discovered empty_report_def)

lemma finalize_fields [simp]:
  "ho_link (finalize_observation b) = ho_link b" "ho_kind (finalize_observation b) = ho_kind b"
  "ho_endpoint (finalize_observation b) = ho_endpoint b"
  "ho_claim (finalize_observation b) = ho_claim b" "ho_degradation_cause (finalize_observation b) = ho_degradation_cause b"
  by (simp_all add: finalize_observation_def)

lemma row_observationsE:
  assumes "obs \<in> set (row_observations row)"
  obtains (admin) "ir_type row \<noteq> IF_TYPE_SOFTWARE_LOOPBACK" "ir_admin_status row = 1 \<or> ir_admin_status row = 2"
      "obs = finalize_observation ((base_observation row (guid_identifier (ir_guid row)))\<lparr>ho_kind := AdministrativeState,
         ho_claim := (if ir_admin_status row = 2 then EvidenceClaim.AdminDisabled else EvidenceClaim.Up)\<rparr>)"
    | (carrier) "ir_type row \<noteq> IF_TYPE_SOFTWARE_LOOPBACK" "media_known row"
      "obs = finalize_observation ((base_observation row (guid_identifier (ir_guid row)))\<lparr>ho_kind := CarrierState,
         ho_claim := (if ir_media_connect row = MediaConnectStateConnected then EvidenceClaim.Up else EvidenceClaim.Down)\<rparr>)"
    | (operational) claim cause where "ir_type row \<noteq> IF_TYPE_SOFTWARE_LOOPBACK"
      "operational_claim row (base_observation row (guid_identifier (ir_guid row))) = (claim, cause)"
      "claim \<noteq> EvidenceClaim.Unknown"
      "obs = finalize_observation ((base_observation row (guid_identifier (ir_guid row)))
         \<lparr>ho_kind := InterfaceOperationalState, ho_claim := claim, ho_degradation_cause := cause\<rparr>)"
proof -
  let ?base = "base_observation row (guid_identifier (ir_guid row))"
  have base: "ho_administratively_enabled ?base \<longleftrightarrow> ir_admin_status row \<noteq> 2"
    "ho_media_connected ?base \<longleftrightarrow> ir_media_connect row = MediaConnectStateConnected"
    by (simp_all add: base_observation_def kAdminStatusDisabled_def)
  show thesis
    using assms base
    by (auto simp: row_observations_def report_defs empty_report_def Let_def kAdminStatusDisabled_def
        kAdminStatusEnabled_def split: if_splits prod.splits intro: admin carrier operational)
qed

definition reports_row :: "InterfaceRow \<Rightarrow> HostLinkObservation \<Rightarrow> bool" where
  "reports_row row obs \<longleftrightarrow>
     ir_type row \<noteq> IF_TYPE_SOFTWARE_LOOPBACK \<and>
     ho_link obs = from_validated (''link.host.'' @ guid_identifier (ir_guid row)) \<and>
     (case ho_kind obs of
        AdministrativeState \<Rightarrow>
          ir_admin_status row = 1 \<and> ho_claim obs = EvidenceClaim.Up \<or>
          ir_admin_status row = 2 \<and> ho_claim obs = EvidenceClaim.AdminDisabled
      | CarrierState \<Rightarrow>
          ir_media_connect row = MediaConnectStateConnected \<and> ho_claim obs = EvidenceClaim.Up \<or>
          ir_media_connect row = MediaConnectStateDisconnected \<and> ho_claim obs = EvidenceClaim.Down
      | InterfaceOperationalState \<Rightarrow>
          (let working = (ir_admin_status row \<noteq> 2 \<and> ir_oper_status row = IfOperStatusUp \<and>
                 ir_media_connect row = MediaConnectStateConnected)
           in ho_claim obs = (if working \<and> ir_transmit_speed row = ir_receive_speed row then EvidenceClaim.Up
                else if working then EvidenceClaim.Degraded else EvidenceClaim.Down) \<and>
              (working \<or> ir_admin_status row = 2 \<or> ir_oper_status row = IfOperStatusUp \<or> upstream_down row))
      | _ \<Rightarrow> False) \<and>
     (ho_degradation_cause obs \<noteq> NoCause \<longleftrightarrow> ho_claim obs = EvidenceClaim.Degraded)"

section \<open>Requests\<close>

definition sequence_at :: "string \<Rightarrow> HostEvidencePublisher \<Rightarrow> nat" where
  "sequence_at key p = (case map_of (hp_sequences p) key of None \<Rightarrow> 0 | Some n \<Rightarrow> unat n)"

definition same_source :: "HostEvidencePublisher \<Rightarrow> HostEvidencePublisher \<Rightarrow> bool" where
  "same_source p q \<longleftrightarrow> hp_publisher p = hp_publisher q \<and> hp_worker_boot p = hp_worker_boot q \<and> hp_source p = hp_source q"

text \<open>Sequences never run ahead of the observation counter, which is what keeps them from wrapping.\<close>

definition publisher_ok :: "HostEvidencePublisher \<Rightarrow> bool" where
  "publisher_ok p \<longleftrightarrow> (\<forall>key. sequence_at key p \<le> unat (hp_observation_counter p))"

lemma unat_step: "unat (x :: u64) + 1 < 2 ^ 64 \<Longrightarrow> unat (x + 1) = Suc (unat x)"
  by (simp add: unat_word_ariths)

lemma unat_next_sequence:
  assumes "publisher_ok p" "unat (hp_observation_counter p) + 1 < 2 ^ 64"
  shows "unat (next_sequence key p) = sequence_at key p + 1"
proof -
  have "sequence_at key p \<le> unat (hp_observation_counter p)" using assms by (simp add: publisher_ok_def)
  then have "\<And>n. map_of (hp_sequences p) key = Some n \<Longrightarrow> unat (n + 1) = Suc (unat n)"
    using assms(2) unat_step by (simp add: sequence_at_def)
  then show ?thesis by (simp add: sequence_at_def next_sequence_def split: option.split)
qed

text \<open>The key string of a request, as the publisher computes it.\<close>

definition request_key :: "PublishEvidenceRequest \<Rightarrow> string" where
  "request_key r =
     (let k = ev_key (pe_observation r)
      in id_value (key_link k) @ ''|'' @ id_value (key_source k) @ ''|'' @ id_value (key_endpoint k) @ ''|'' @
         format_nat (kind_index (key_kind k)))"

lemma request_key_host: "request_key (host_request obs binding epoch n c p) = host_key obs p"
  by (simp add: request_key_def host_request_def host_record_def host_key_def)

lemma sequence_at_update:
  "sequence_at key (p\<lparr>hp_sequences := AList.update k n (hp_sequences p), hp_observation_counter := c\<rparr>) =
     (if key = k then unat n else sequence_at key p)"
  by (simp add: sequence_at_def map_of_update)

text \<open>What a publisher has become after some requests: the requests are numbered between the sequences it
  had and the sequences it has.\<close>

definition issued :: "HostEvidencePublisher \<Rightarrow> PublishEvidenceRequest list \<Rightarrow> HostEvidencePublisher \<Rightarrow> bool" where
  "issued p rs q \<longleftrightarrow>
     same_source p q \<and> publisher_ok q \<and>
     unat (hp_observation_counter q) = unat (hp_observation_counter p) + length rs \<and>
     (\<forall>key. sequence_at key p \<le> sequence_at key q) \<and>
     (\<forall>r\<in>set rs. sequence_at (request_key r) p < unat (ev_sequence (pe_observation r)) \<and>
        unat (ev_sequence (pe_observation r)) \<le> sequence_at (request_key r) q)"

lemma issued_none: "publisher_ok p \<Longrightarrow> issued p [] p"
  by (simp add: issued_def same_source_def)

lemma issued_append: "issued p rs q \<Longrightarrow> issued q rs' q' \<Longrightarrow> issued p (rs @ rs') q'"
  unfolding issued_def same_source_def
  by (auto intro: le_trans less_le_trans le_less_trans)

lemma request_observation_step:
  assumes "publisher_ok p" "unat (hp_observation_counter p) + 1 < 2 ^ 64"
  shows "\<exists>q rs. request_observation bindings epoch obs (p, rs0) = (q, rs0 @ rs) \<and> issued p rs q \<and> length rs \<le> 1 \<and>
    hp_source_generation q = hp_source_generation p \<and> hp_round q = hp_round p \<and>
    (\<forall>r\<in>set rs. \<exists>binding n c. r = host_request obs binding epoch n c p)"
proof (cases "map_of bindings (ho_link obs)")
  case None
  then show ?thesis using assms issued_none by (simp add: request_observation_def)
next
  case (Some binding)
  let ?k = "host_key obs p" and ?c = "hp_observation_counter p + 1"
  let ?n = "next_sequence ?k p"
  let ?q = "p\<lparr>hp_sequences := AList.update ?k ?n (hp_sequences p), hp_observation_counter := ?c\<rparr>"
  let ?r = "host_request obs binding epoch ?n ?c p"
  have n: "unat ?n = sequence_at ?k p + 1" and c: "unat ?c = Suc (unat (hp_observation_counter p))"
    using unat_next_sequence [OF assms] unat_step [OF assms(2)] by simp_all
  have "publisher_ok ?q"
    using assms(1) by (auto simp: publisher_ok_def sequence_at_update n c le_SucI)
  moreover have "ev_sequence (pe_observation ?r) = ?n" by (simp add: host_request_def host_record_def)
  ultimately have "issued p [?r] ?q"
    by (simp add: issued_def same_source_def request_key_host sequence_at_update n c)
  then show ?thesis
    using Some by (intro exI [of _ ?q] exI [of _ "[?r]"]) (auto simp: request_observation_def Let_def)
qed

lemma host_request_same:
  "same_source p q \<Longrightarrow> hp_source_generation q = hp_source_generation p \<Longrightarrow>
     host_request obs binding epoch n c q = host_request obs binding epoch n c p"
  by (simp add: same_source_def host_request_def host_record_def)

lemma requests_fold:
  assumes "publisher_ok p" "unat (hp_observation_counter p) + length obss < 2 ^ 64"
  shows "\<exists>q rs. fold (request_observation bindings epoch) obss (p, rs0) = (q, rs0 @ rs) \<and> issued p rs q \<and>
    length rs \<le> length obss \<and> hp_source_generation q = hp_source_generation p \<and> hp_round q = hp_round p \<and>
    (\<forall>r\<in>set rs. \<exists>obs\<in>set obss. \<exists>binding n c. r = host_request obs binding epoch n c p)"
  using assms
proof (induction obss arbitrary: p rs0)
  case Nil
  then show ?case by (simp add: issued_none)
next
  case (Cons obs obss)
  obtain p1 rs where one: "request_observation bindings epoch obs (p, rs0) = (p1, rs0 @ rs)" "issued p rs p1"
    "length rs \<le> 1" "hp_source_generation p1 = hp_source_generation p" "hp_round p1 = hp_round p"
    and rs: "\<forall>r\<in>set rs. \<exists>binding n c. r = host_request obs binding epoch n c p"
    using request_observation_step [OF Cons.prems(1), of bindings epoch obs rs0] Cons.prems(2) by auto
  then have "publisher_ok p1" "unat (hp_observation_counter p1) + length obss < 2 ^ 64"
    using Cons.prems(2) by (auto simp: issued_def)
  from Cons.IH [OF this, of "rs0 @ rs"] obtain q rs' where two:
    "fold (request_observation bindings epoch) obss (p1, rs0 @ rs) = (q, (rs0 @ rs) @ rs')" "issued p1 rs' q"
    "length rs' \<le> length obss" "hp_source_generation q = hp_source_generation p1" "hp_round q = hp_round p1"
    and rs': "\<forall>r\<in>set rs'. \<exists>obs\<in>set obss. \<exists>binding n c. r = host_request obs binding epoch n c p1"
    by blast
  have "same_source p p1" using one(2) by (simp add: issued_def)
  then have "\<forall>r\<in>set rs'. \<exists>obs\<in>set obss. \<exists>binding n c. r = host_request obs binding epoch n c p"
    using rs' host_request_same [OF _ one(4)] by simp
  then show ?case
    using one two rs issued_append [OF one(2) two(2)]
    by (intro exI [of _ q] exI [of _ "rs @ rs'"]) auto
qed

lemma host_requests_issue:
  assumes "publisher_ok p" "unat (hp_observation_counter p) + length (hr_observations report) < 2 ^ 64"
    "host_requests report bindings epoch p = (q, rs)"
  shows "issued p rs q" "length rs \<le> length (hr_observations report)"
    "hp_source_generation p < hp_source_generation q \<or> hp_source_generation p = Gen (- 1) \<and> hp_source_generation q = Gen (- 1)"
    "\<forall>r\<in>set rs. \<exists>obs\<in>set (hr_observations report). \<exists>binding n c. r = host_request obs binding epoch n c p"
proof -
  obtain p1 rs1 where f: "fold (request_observation bindings epoch) (hr_observations report) (p, []) = (p1, rs1)"
    "issued p rs1 p1" "length rs1 \<le> length (hr_observations report)"
    "hp_source_generation p1 = hp_source_generation p"
    "\<forall>r\<in>set rs1. \<exists>obs\<in>set (hr_observations report). \<exists>binding n c. r = host_request obs binding epoch n c p"
    using requests_fold [OF assms(1,2), of bindings epoch "[]"] by auto
  then have rs: "rs = rs1" and q: "same_source p1 q" "hp_sequences q = hp_sequences p1"
    "hp_observation_counter q = hp_observation_counter p1"
    using assms(3) by (auto simp: host_requests_def Let_def same_source_def split: option.splits)
  show "length rs \<le> length (hr_observations report)"
    "\<forall>r\<in>set rs. \<exists>obs\<in>set (hr_observations report). \<exists>binding n c. r = host_request obs binding epoch n c p"
    using f rs by auto
  show "issued p rs q"
    using f(2) q rs by (auto simp: issued_def same_source_def publisher_ok_def sequence_at_def)
  show "hp_source_generation p < hp_source_generation q \<or> hp_source_generation p = Gen (- 1) \<and> hp_source_generation q = Gen (- 1)"
    using assms(3) f(1,4) generation.step_less [of "hp_source_generation p"] generation.step_None [of "hp_source_generation p"]
    by (auto simp: host_requests_def Let_def split: option.splits)
qed

section \<open>Rounds\<close>

text \<open>How many observations the rounds carry: enough to bound every counter of the publisher.\<close>

definition round_work :: "host_round list \<Rightarrow> nat" where
  "round_work rounds = sum_list (map (\<lambda>(report, bindings, epoch). length (hr_observations report)) rounds)"

lemma later_rounds:
  assumes "publisher_ok p" "unat (hp_observation_counter p) + round_work rounds < 2 ^ 64"
    "later \<in> set (host_rounds rounds p ! i)" "i < length rounds"
  shows "hp_source_generation p \<le> ev_source_generation (pe_observation later) \<and>
    sequence_at (request_key later) p < unat (ev_sequence (pe_observation later))"
  using assms
proof (induction rounds arbitrary: p i)
  case (Cons round rounds)
  obtain report bindings epoch q rs where round: "round = (report, bindings, epoch)"
    and requests: "host_requests report bindings epoch p = (q, rs)"
    by (metis prod_cases3 surj_pair)
  have room: "unat (hp_observation_counter p) + length (hr_observations report) < 2 ^ 64"
    using Cons.prems(2) by (simp add: round round_work_def)
  note issue = host_requests_issue [OF Cons.prems(1) room requests]
  show ?case
  proof (cases i)
    case 0
    then have "later \<in> set rs" using Cons.prems(3) by (simp add: round requests)
    with issue(1,4) show ?thesis by (auto simp: issued_def host_request_def host_record_def)
  next
    case (Suc j)
    have "publisher_ok q" "unat (hp_observation_counter q) + round_work rounds < 2 ^ 64"
      using issue(1,2) Cons.prems(2) by (auto simp: issued_def round_work_def round)
    moreover have "later \<in> set (host_rounds rounds q ! j)" "j < length rounds"
      using Cons.prems(3,4) by (simp_all add: Suc round requests)
    ultimately have "hp_source_generation q \<le> ev_source_generation (pe_observation later)"
      "sequence_at (request_key later) q < unat (ev_sequence (pe_observation later))"
      using Cons.IH by blast+
    moreover have "hp_source_generation p \<le> hp_source_generation q"
      "sequence_at (request_key later) p \<le> sequence_at (request_key later) q"
      using issue(1,3) by (auto simp: issued_def)
    ultimately show ?thesis by (meson le_less_trans order_trans)
  qed
qed simp

lemma rounds_ordered:
  assumes "publisher_ok p" "unat (hp_observation_counter p) + round_work rounds < 2 ^ 64"
    "i < j" "j < length rounds" "earlier \<in> set (host_rounds rounds p ! i)" "later \<in> set (host_rounds rounds p ! j)"
    "ev_key (pe_observation earlier) = ev_key (pe_observation later)"
  shows "ev_source_generation (pe_observation earlier) \<le> ev_source_generation (pe_observation later) \<and>
    ev_sequence (pe_observation earlier) < ev_sequence (pe_observation later)"
  using assms
proof (induction rounds arbitrary: p i j)
  case (Cons round rounds)
  obtain report bindings epoch q rs where round: "round = (report, bindings, epoch)"
    and requests: "host_requests report bindings epoch p = (q, rs)"
    by (metis prod_cases3 surj_pair)
  have room: "unat (hp_observation_counter p) + length (hr_observations report) < 2 ^ 64"
    using Cons.prems(2) by (simp add: round round_work_def)
  note issue = host_requests_issue [OF Cons.prems(1) room requests]
  have q: "publisher_ok q" "unat (hp_observation_counter q) + round_work rounds < 2 ^ 64"
    using issue(1,2) Cons.prems(2) by (auto simp: issued_def round_work_def round)
  obtain k where j: "j = Suc k" using Cons.prems(3) by (cases j) auto
  have later: "later \<in> set (host_rounds rounds q ! k)" "k < length rounds"
    using Cons.prems(4,6) by (simp_all add: j round requests)
  show ?case
  proof (cases i)
    case 0
    then have "earlier \<in> set rs" using Cons.prems(5) by (simp add: round requests)
    then have "ev_source_generation (pe_observation earlier) = hp_source_generation p"
      "unat (ev_sequence (pe_observation earlier)) \<le> sequence_at (request_key earlier) q"
      using issue(1,4) by (auto simp: issued_def host_request_def host_record_def)
    moreover have "request_key earlier = request_key later" using Cons.prems(7) by (simp add: request_key_def)
    moreover have "hp_source_generation p \<le> hp_source_generation q" using issue(3) by auto
    ultimately show ?thesis
      using later_rounds [OF q later] by (auto simp: word_less_nat_alt)
  next
    case (Suc m)
    then show ?thesis
      using Cons.IH [OF q, of m k] Cons.prems(3,5,7) later by (simp add: j round requests)
  qed
qed simp

section \<open>Rounds at the engine\<close>

text \<open>A current slot and the registered identity of an accepted observation.\<close>

lemma accepted_slot:
  assumes "engine_reachable impl" "publish_evidence request impl = (impl', result)"
    "oc_code (mr_outcome result) \<in> accepting"
  obtains e w where "find_link (ev_link (pe_observation request)) impl' = Some e"
    "find_slot e (ev_key (pe_observation request)) = Some w" "evidence_eq (pe_observation request) w"
    "map_of (st_observations impl') (ev_observation w) = Some (ev_key w)"
proof -
  let ?v = "pe_observation request"
  have inv: "store_inv nobody impl" by (rule engine.reachable_invariant [OF assms(1)])
  have inv': "store_inv nobody impl'"
    using inv_publish_evidence [OF inv, of request] assms(2) by simp
  obtain e w where e: "find_link (ev_link ?v) impl' = Some e" and w: "evidence_eq ?v w" "w \<in> set (le_current e)"
    by (rule publish_move [OF inv assms(2,3)]) auto
  have "distinct (map ev_key (le_current e))" using inv' e by (simp add: store_inv_def entry_ok_def)
  moreover have "ev_key w = ev_key ?v" using w(1) by (simp add: evidence_eq_def)
  ultimately have "find_slot e (ev_key ?v) = Some w"
    unfolding find_slot_def using w(2) by (intro find_distinct_key)
  moreover have "map_of (st_observations impl') (ev_observation w) = Some (ev_key w)"
    using inv' e w by (auto simp: store_inv_def observations_ok_def evidence_eq_def)
  ultimately show thesis using that e w(1) by blast
qed

lemma publish_refused:
  assumes "publish_evidence request impl = (impl', result)"
    "\<And>e prepared. publish_verdict_for request impl \<noteq> PublishAccepted e prepared"
    "\<And>e. publish_verdict_for request impl \<noteq> PublishReplay e"
  shows "oc_code (mr_outcome result) \<notin> {Committed, EvidenceConflict, Idempotent} \<and>
    impl' \<in> {impl, note_rejection (ev_publisher (pe_observation request)) impl}"
  using assms(1) by (cases rule: publish_cases) (use assms in \<open>auto simp: accepting_def\<close>)

lemma publish_replayed:
  assumes "publish_verdict_for request impl = PublishReplay e"
  shows "find_link (ev_link (pe_observation request)) impl = Some e"
    "\<forall>k. map_of (st_observations impl) (ev_observation (pe_observation request)) = Some k \<longrightarrow> k = ev_key (pe_observation request)"
    "slot_check (pe_observation request) (find_slot e (ev_key (pe_observation request))) = SlotReplay"
  using assms
  by (auto simp: publish_verdict_for_def Let_def split: option.splits if_splits prod.splits slot_verdict.splits)

lemma refused_identity:
  assumes "map_of (st_observations impl) (ev_observation (pe_observation request)) = Some k" "k \<noteq> ev_key (pe_observation request)"
    "publish_evidence request impl = (impl', result)"
  shows "oc_code (mr_outcome result) \<notin> {Committed, EvidenceConflict, Idempotent} \<and>
    impl' \<in> {impl, note_rejection (ev_publisher (pe_observation request)) impl}"
  using publish_refused [OF assms(3)] publish_replayed(2) [of request impl] publish_accepted(6) [of request impl] assms(1,2)
  by metis

lemma refused_slot:
  assumes "find_link (ev_link (pe_observation request)) impl = Some e"
    "slot_check (pe_observation request) (find_slot e (ev_key (pe_observation request))) = SlotRefused code why"
    "publish_evidence request impl = (impl', result)"
  shows "oc_code (mr_outcome result) \<notin> {Committed, EvidenceConflict, Idempotent} \<and>
    impl' \<in> {impl, note_rejection (ev_publisher (pe_observation request)) impl}"
  using publish_refused [OF assms(3)] publish_replayed(1,3) [of request impl] publish_accepted(1,7) [of request impl] assms(1,2)
  by (metis option.inject slot_verdict.distinct(1,3))

lemma publisher_ok_new: "publisher_ok (new_host_publisher publisher boot source)"
  by (simp add: publisher_ok_def sequence_at_def new_host_publisher_def)

text \<open>
  C32: A later discovery round always supersedes an earlier one.  Take two rounds of one host publisher and an
  observation of the same evidence key in each: the engine's slot rule accepts the later observation over the
  earlier one, and once the later one has been committed, the earlier one - delayed or replayed - is refused and
  changes nothing but the rejection counters.  This holds through saturation of the source generation, because the
  sequence of the key keeps growing; the rounds together must stay below \<open>2^64\<close> observations.
\<close>

theorem later_round_supersedes:
  assumes "round_work rounds < 2 ^ 64" "i < j" "j < length rounds"
    and "earlier \<in> set (host_rounds rounds (new_host_publisher publisher boot source) ! i)"
    and "later \<in> set (host_rounds rounds (new_host_publisher publisher boot source) ! j)"
    and "ev_key (pe_observation earlier) = ev_key (pe_observation later)"
    and "engine_reachable impl" "publish_evidence later impl = (impl1, committed)"
    and "oc_code (mr_outcome committed) = Committed \<or> oc_code (mr_outcome committed) = EvidenceConflict"
    and "publish_evidence earlier impl1 = (impl2, replayed)"
  shows "slot_check (pe_observation later) (Some (pe_observation earlier)) = SlotAccepts \<and>
    oc_code (mr_outcome replayed) \<notin> {Committed, EvidenceConflict, Idempotent} \<and>
    impl2 \<in> {impl1, note_rejection (ev_publisher (pe_observation earlier)) impl1}"
proof -
  let ?old = "pe_observation earlier" and ?new = "pe_observation later"
  have "hp_observation_counter (new_host_publisher publisher boot source) = 0" by (simp add: new_host_publisher_def)
  then have order: "ev_source_generation ?old \<le> ev_source_generation ?new" "ev_sequence ?old < ev_sequence ?new"
    using rounds_ordered [OF publisher_ok_new _ assms(2-6)] assms(1) by simp_all
  have "oc_code (mr_outcome committed) \<in> accepting" using assms(9) by (simp add: accepting_def)
  then obtain e w where e: "find_link (ev_link ?new) impl1 = Some e" "find_slot e (ev_key ?new) = Some w" "evidence_eq ?new w"
    using accepted_slot [OF assms(7,8)] by blast
  then have "\<exists>code why. slot_check ?old (find_slot e (ev_key ?old)) = SlotRefused code why"
    using order assms(6) by (auto simp: slot_check_def evidence_eq_def less_le)
  then show ?thesis
    using refused_slot [OF _ _ assms(10)] e(1) assms(6) order by (auto simp: slot_check_def [of ?new] less_le)
qed

section \<open>Identities of observations\<close>

lemma requests_extend: "\<exists>rs. snd (fold (request_observation bindings epoch) obss (p, rs0)) = rs0 @ rs"
proof (induction obss arbitrary: p rs0)
  case (Cons obs obss)
  have "\<exists>p1 rs1. request_observation bindings epoch obs (p, rs0) = (p1, rs0 @ rs1)"
    by (cases "map_of bindings (ho_link obs)") (simp_all add: request_observation_def Let_def)
  then obtain p1 rs1 where "request_observation bindings epoch obs (p, rs0) = (p1, rs0 @ rs1)" by blast
  then show ?case using Cons.IH [of p1 "rs0 @ rs1"] by auto
qed simp

lemma first_request:
  "fold (request_observation bindings epoch) obss (p, []) = (q, r # rs) \<Longrightarrow>
     \<exists>obs binding n. r = host_request obs binding epoch n (hp_observation_counter p + 1) p"
proof (induction obss)
  case (Cons obs obss)
  show ?case
  proof (cases "map_of bindings (ho_link obs)")
    case None
    then show ?thesis using Cons by (simp add: request_observation_def)
  next
    case (Some binding)
    let ?r = "host_request obs binding epoch (next_sequence (host_key obs p) p) (hp_observation_counter p + 1) p"
    obtain p1 where "request_observation bindings epoch obs (p, []) = (p1, [?r])"
      using Some by (simp add: request_observation_def Let_def)
    then have "r = ?r"
      using Cons.prems requests_extend [of bindings epoch obss p1 "[?r]"] by auto
    then show ?thesis by blast
  qed
qed simp

lemma first_host_request:
  assumes "host_requests report bindings epoch (new_host_publisher publisher boot source) = (q, r # rs)"
  shows "ev_observation (pe_observation r) = from_validated (''obs.host.'' @ format_u64 1)"
    "key_source (ev_key (pe_observation r)) = source"
proof -
  obtain p1 where "fold (request_observation bindings epoch) (hr_observations report)
      (new_host_publisher publisher boot source, []) = (p1, r # rs)"
    using assms by (auto simp: host_requests_def Let_def split: prod.splits)
  then obtain obs binding n where "r = host_request obs binding epoch n 1 (new_host_publisher publisher boot source)"
    using first_request by (fastforce simp: new_host_publisher_def)
  then show "ev_observation (pe_observation r) = from_validated (''obs.host.'' @ format_u64 1)"
    "key_source (ev_key (pe_observation r)) = source"
    by (simp_all add: host_request_def host_record_def new_host_publisher_def)
qed

text \<open>
  C33: Two host publishers get in each other's way.  The observation identities of every host publisher are
  numbered from one under the same prefix, and an engine refuses an identity that a current observation of another
  evidence key holds.  So when the first request of one host publisher has been committed, the first request of a
  host publisher with another source carries the same observation identity and is refused, for whatever link, and
  changes nothing but the rejection counters.
\<close>

theorem host_publishers_collide:
  assumes "engine_reachable impl"
    and "host_requests report bindings epoch (new_host_publisher publisher boot source) = (p, first # rest)"
    and "host_requests report' bindings' epoch' (new_host_publisher publisher' boot' source') = (p', second # rest')"
    and "source \<noteq> source'" "publish_evidence first impl = (impl1, committed)"
    and "oc_code (mr_outcome committed) = Committed \<or> oc_code (mr_outcome committed) = EvidenceConflict"
    and "publish_evidence second impl1 = (impl2, refused)"
  shows "ev_observation (pe_observation second) = ev_observation (pe_observation first) \<and>
    oc_code (mr_outcome refused) \<notin> {Committed, EvidenceConflict, Idempotent} \<and>
    impl2 \<in> {impl1, note_rejection (ev_publisher (pe_observation second)) impl1}"
proof -
  let ?a = "pe_observation first" and ?b = "pe_observation second"
  have same: "ev_observation ?b = ev_observation ?a" and keys: "ev_key ?a \<noteq> ev_key ?b"
    using first_host_request [OF assms(2)] first_host_request [OF assms(3)] assms(4) by auto
  have "oc_code (mr_outcome committed) \<in> accepting" using assms(6) by (simp add: accepting_def)
  then obtain w where "evidence_eq ?a w" "map_of (st_observations impl1) (ev_observation w) = Some (ev_key w)"
    using accepted_slot [OF assms(1,5)] by blast
  then have "map_of (st_observations impl1) (ev_observation ?b) = Some (ev_key ?a)"
    using same by (simp add: evidence_eq_def)
  then show ?thesis using same refused_identity [OF _ keys assms(7)] by blast
qed

section \<open>Admission\<close>

text \<open>Plain text is printable ASCII; printable text has no control character.\<close>

definition printable :: "char \<Rightarrow> bool" where
  "printable ch \<longleftrightarrow> \<not> (of_char ch < (0x20 :: nat) \<or> of_char ch = (0x7f :: nat))"

definition plain :: "string \<Rightarrow> bool" where
  "plain bs \<longleftrightarrow> list_all (\<lambda>ch. 0x20 \<le> (of_char ch :: nat) \<and> of_char ch < (0x7f :: nat)) bs"

lemma plain_simps [simp]:
  "plain []" "plain (ch # bs) \<longleftrightarrow> 0x20 \<le> (of_char ch :: nat) \<and> of_char ch < (0x7f :: nat) \<and> plain bs"
  "plain (bs @ cs) \<longleftrightarrow> plain bs \<and> plain cs"
  by (auto simp: plain_def)

lemma plain_printable: "plain bs \<Longrightarrow> list_all printable bs"
  by (auto simp: plain_def printable_def list_all_iff)

lemma printable_text: "list_all printable bs \<Longrightarrow> \<not> list_ex (\<lambda>ch. of_char ch < (0x20 :: nat) \<or> of_char ch = (0x7f :: nat)) bs"
  by (induction bs) (simp_all add: printable_def)

lemma plain_valid: "plain bs \<Longrightarrow> is_valid_utf8 bs"
  by (induction bs) (simp_all add: is_valid_utf8.simps)

lemma alphanumeric_plain: "is_alphanumeric ch \<Longrightarrow> 0x20 \<le> (of_char ch :: nat) \<and> of_char ch < (0x7f :: nat)"
  by (auto simp: is_alphanumeric_def less_eq_char_def)

lemma digit_char: "d < 10 \<Longrightarrow> is_alphanumeric (char_of (48 + d :: nat))"
  by (simp add: is_alphanumeric_def less_eq_char_def)

lemma format_nat_digits: "ch \<in> set (format_nat n) \<Longrightarrow> is_alphanumeric ch"
proof (induction n rule: format_nat.induct)
  case (1 n)
  then show ?case using digit_char [of "n mod 10"] digit_char [of n] by (auto simp: format_nat.simps [of n] split: if_splits)
qed

lemma format_nat_nonempty: "format_nat n \<noteq> []"
  by (simp add: format_nat.simps [of n])

lemma length_format_nat: "n < 10 ^ Suc k \<Longrightarrow> length (format_nat n) \<le> Suc k"
proof (induction k arbitrary: n)
  case (Suc k)
  then have "n div 10 < 10 ^ Suc k" by (simp add: less_mult_imp_div_less)
  then show ?case using Suc.IH [of "n div 10"] by (simp add: format_nat.simps [of n])
next
  case 0
  then show ?case by (simp add: format_nat.simps [of n])
qed

lemma format_u64_text: "\<forall>ch\<in>set (format_u64 n). is_alphanumeric ch" "format_u64 n \<noteq> []" "length (format_u64 n) \<le> 20"
proof -
  have "unat n < 2 ^ 64" using unsigned_less [of n] by simp
  then have "unat n < 10 ^ Suc 19" by (rule less_trans) simp
  then show "length (format_u64 n) \<le> 20" using length_format_nat [of "unat n" 19] by (simp add: format_u64_def)
qed (simp_all add: format_u64_def format_nat_digits format_nat_nonempty)

lemma plain_format_u64 [simp]: "plain (format_u64 n)"
  using format_u64_text(1) [of n] alphanumeric_plain by (auto simp: plain_def list_all_iff)

lemma plain_guid [simp]: "plain (guid_identifier g)"
  using guid_name(1) [of g] alphanumeric_plain by (auto simp: plain_def list_all_iff)

lemma plain_names [simp]:
  "plain (to_string_kind k)" "plain (to_string_claim c)" "plain (to_string_class s)" "plain (to_string_cause d)"
  "plain (medium_name m)" "plain (bool_text b)"
  by (cases k, simp_all, cases c, simp_all, cases s, simp_all, cases d, simp_all add: medium_name_def bool_text_def)

lemma numbered_identifier:
  assumes "prefix \<in> {''obs.host.'', ''pub.host.''}"
  shows "validate_identifier (prefix @ format_u64 n) = Ok"
  using assms format_u64_text [of n] by (intro dotted_identifier) (auto simp: is_alphanumeric_def is_separator_def)

lemma detail_plain_around:
  assumes "plain (ho_interface_guid obs)" "plain (ho_media_type obs)"
  shows "\<exists>pre post. detail_text obs = pre @ ho_interface_alias obs @ post \<and> plain pre \<and> plain post"
proof (cases "ho_interface_alias obs = []")
  case True
  have "plain (detail_text obs)" using assms by (simp add: detail_text_def True)
  then show ?thesis using True by (intro exI [of _ "detail_text obs"] exI [of _ "[]"]) simp
next
  case False
  then obtain post where "detail_text obs = ''interface='' @ ho_interface_alias obs @ post" "plain post"
    unfolding detail_text_def using assms by auto
  then show ?thesis by (intro exI [of _ "''interface=''"] exI [of _ post]) simp
qed

lemma detail_valid:
  assumes "plain (ho_interface_guid obs)" "plain (ho_media_type obs)" "is_valid_utf8 (ho_interface_alias obs)"
  shows "is_valid_utf8 (detail_text obs)"
  using detail_plain_around [OF assms(1,2)] assms(3) by (auto simp: is_valid_utf8_append plain_valid)

lemma set_pop_invalid: "set (pop_invalid bs) \<subseteq> set bs"
proof (induction bs rule: pop_invalid.induct)
  case (1 bs)
  then show ?case
    using in_set_butlastD [of _ bs] by (cases "bs \<noteq> [] \<and> \<not> is_valid_utf8 bs") (auto simp: pop_invalid.simps [of bs])
qed

lemma detail_printable:
  assumes "plain (ho_interface_guid obs)" "plain (ho_media_type obs)" "list_all printable (ho_interface_alias obs)"
  shows "list_all printable (ho_detail (finalize_observation obs))"
proof -
  have whole: "list_all printable (detail_text obs)"
    using detail_plain_around [OF assms(1,2)] assms(3) by (auto simp: plain_printable)
  have "set (pop_invalid (take n (detail_text obs))) \<subseteq> set (detail_text obs)" for n
    by (rule order_trans [OF set_pop_invalid set_take_subset])
  moreover have "list_all printable ''...''" by (simp add: printable_def)
  ultimately have "list_all printable (bounded_detail (detail_text obs))"
    using whole by (simp add: bounded_detail_def list_all_iff subset_iff)
  then show ?thesis by (simp add: finalize_observation_def)
qed

lemma requests_shape:
  "r \<in> set (snd (fold (request_observation bindings epoch) obss (p, rs0))) \<Longrightarrow>
     r \<in> set rs0 \<or> (\<exists>obs\<in>set obss. \<exists>binding n c q. same_source p q \<and> r = host_request obs binding epoch n c q)"
proof (induction obss arbitrary: p rs0)
  case (Cons obs obss)
  show ?case
  proof (cases "map_of bindings (ho_link obs)")
    case None
    then have "request_observation bindings epoch obs (p, rs0) = (p, rs0)" by (simp add: request_observation_def)
    then show ?thesis using Cons.IH [of p rs0] Cons.prems by auto
  next
    case (Some binding)
    let ?n = "next_sequence (host_key obs p) p" and ?c = "hp_observation_counter p + 1"
    let ?p = "p\<lparr>hp_sequences := AList.update (host_key obs p) ?n (hp_sequences p), hp_observation_counter := ?c\<rparr>"
    have "request_observation bindings epoch obs (p, rs0) = (?p, rs0 @ [host_request obs binding epoch ?n ?c p])"
      using Some by (simp add: request_observation_def Let_def)
    with Cons.prems have "r \<in> set (snd (fold (request_observation bindings epoch) obss (?p, rs0 @ [host_request obs binding epoch ?n ?c p])))"
      by simp
    from Cons.IH [OF this] show ?thesis by (auto simp: same_source_def)
  qed
qed simp

lemma row_observation_facts:
  assumes "obs \<in> set (row_observations row)"
  obtains b where "obs = finalize_observation b" "plain (ho_interface_guid b)" "plain (ho_media_type b)"
    "ho_interface_alias b = ir_alias row" "valid (ho_link obs)"
    "ho_claim obs = EvidenceClaim.Degraded \<longleftrightarrow> ho_degradation_cause obs \<noteq> NoCause"
proof -
  have "\<exists>b. obs = finalize_observation b \<and> plain (ho_interface_guid b) \<and> plain (ho_media_type b) \<and>
      ho_interface_alias b = ir_alias row \<and>
      ho_link b = from_validated (''link.host.'' @ guid_identifier (ir_guid row)) \<and>
      (ho_claim b = EvidenceClaim.Degraded \<longleftrightarrow> ho_degradation_cause b \<noteq> NoCause)"
    using assms
  proof (cases rule: row_observationsE)
    case (operational claim cause)
    then have "claim = EvidenceClaim.Degraded \<longleftrightarrow> cause \<noteq> NoCause"
      by (auto simp: operational_claim_def Let_def split: if_splits)
    with operational(4) show ?thesis
      by (auto simp: base_observation_def intro!: exI [of _ "(base_observation row (guid_identifier (ir_guid row)))
        \<lparr>ho_kind := InterfaceOperationalState, ho_claim := claim, ho_degradation_cause := cause\<rparr>"])
  qed (auto simp: base_observation_def intro!: exI)
  then show thesis
    using that host_identifier [of "''link.host.''" "ir_guid row"] by (force simp: valid_from_validated)
qed


section \<open>Concrete hosts\<close>

text \<open>An interface that is operationally up and reports no media state: no carrier observation is made, and the
  operational observation claims down.\<close>

definition silent_row :: InterfaceRow where
  "silent_row = \<lparr>ir_guid = \<lparr>gd_data1 = 1, gd_data2 = 2, gd_data3 = 3, gd_data4 = replicate 8 0\<rparr>, ir_alias = ''eth0'',
     ir_description = [], ir_index = 1, ir_type = IF_TYPE_TUNNEL, ir_medium = 0,
     ir_media_connect = MediaConnectStateUnknown, ir_oper_status = IfOperStatusUp, ir_admin_status = 0,
     ir_transmit_speed = 0, ir_receive_speed = 0\<rparr>"

abbreviation silent_base :: HostLinkObservation where
  "silent_base \<equiv> base_observation silent_row (guid_identifier (ir_guid silent_row))"

definition silent_observation :: HostLinkObservation where
  "silent_observation = finalize_observation (silent_base\<lparr>ho_kind := InterfaceOperationalState, ho_claim := EvidenceClaim.Down\<rparr>)"

lemma silent_report: "hr_observations (discover_host_links (WindowsTable (Some [silent_row]))) = [silent_observation]"
proof -
  have guid: "guid_identifier (ir_guid silent_row) \<noteq> []" by (rule guid_name(2))
  have "operational_claim silent_row silent_base = (EvidenceClaim.Down, NoCause)"
    by (simp add: operational_claim_def silent_row_def base_observation_def upstream_down_def kAdminStatusDisabled_def Let_def)
  moreover have "silent_base\<lparr>ho_kind := k, ho_claim := c, ho_degradation_cause := NoCause\<rparr> = silent_base\<lparr>ho_kind := k, ho_claim := c\<rparr>" for k c
    by (simp add: base_observation_def)
  ultimately show ?thesis
    using guid
    by (simp add: discover_host_links_def empty_report_def discover_row_def report_operational_def report_carrier_def
        report_admin_def media_known_def add_observation_def add_note_def kAdminStatusDisabled_def kAdminStatusEnabled_def
        silent_observation_def Let_def std_sort_def)
      (simp add: silent_row_def)
qed


definition long_host :: HostLinkObservation where
  "long_host = silent_base\<lparr>ho_interface_alias := replicate 300 (CHR ''x'')\<rparr>"

theorem host_detail_bounded_witness:
  "\<exists>n. 250 \<le> n \<and> n \<le> 253 \<and> ho_detail (finalize_observation long_host) = take n (detail_text long_host) @ ''...''"
proof -
  have named: "ho_interface_alias long_host = replicate 300 (CHR ''x'')" by (simp add: long_host_def)
  then have "length (detail_text long_host) > max_detail_length" by (simp add: detail_text_def max_detail_length_def)
  moreover have "plain (replicate n (CHR ''x''))" for n by (induction n) simp_all
  then have "is_valid_utf8 (detail_text long_host)"
    using named by (intro detail_valid) (simp_all add: plain_valid long_host_def base_observation_def)
  ultimately show ?thesis using host_detail_bounded [of long_host] by auto
qed

definition silent_publisher :: HostEvidencePublisher where
  "silent_publisher = new_host_publisher (StrongId ''agent'') (StrongId ''boot1'') (StrongId ''probe'')"


text \<open>A host agent that observes a link of the demonstration engine.\<close>

definition agent_observation :: HostLinkObservation where
  "agent_observation = silent_base\<lparr>ho_link := demo_link, ho_endpoint := StrongId ''leaf1'', ho_kind := CarrierState,
     ho_claim := EvidenceClaim.Up\<rparr>"

definition agent_round :: host_round where
  "agent_round = (empty_report\<lparr>hr_observations := [agent_observation]\<rparr>,
     [(demo_link, \<lparr>hb_topology_generation = Gen 1, hb_endpoint_generation = Gen 1\<rparr>)], gen_zero)"

definition agent_request :: "SourceId \<Rightarrow> SourceGeneration \<Rightarrow> u64 \<Rightarrow> PublishEvidenceRequest" where
  "agent_request source g n = \<lparr>pe_observation = demo_observation\<lparr>
       ev_key := EvidenceKey demo_link source (StrongId ''leaf1'') Bidirectional CarrierState,
       ev_observation := from_validated (''obs.host.'' @ format_u64 n),
       ev_source_generation := g, ev_sequence := n\<rparr>,
     pe_expected_evidence_generation = None, pe_expected_state_generation = None,
     pe_publication = from_validated (''pub.host.'' @ format_u64 n)\<rparr>"

abbreviation agent :: "SourceId \<Rightarrow> HostEvidencePublisher" where
  "agent source \<equiv> new_host_publisher (StrongId ''agent'') (StrongId ''boot1'') source"

lemma agent_rounds:
  "host_rounds [agent_round, agent_round] (agent source) = [[agent_request source (Gen 1) 1], [agent_request source (Gen 2) 2]]"
  "\<exists>p. host_requests (fst agent_round) (fst (snd agent_round)) gen_zero (agent source) = (p, [agent_request source (Gen 1) 1])"
  by (simp_all add: agent_round_def host_requests_def request_observation_def new_host_publisher_def empty_report_def
      agent_observation_def base_observation_def next_sequence_def host_request_def host_record_def agent_request_def
      demo_observation_def next_gen_small Let_def host_key_def)

lemma agent_accepted:
  "oc_code (mr_outcome (snd (publish_evidence (agent_request (StrongId ''probe'') g n) demo_registered))) \<in> {Committed, EvidenceConflict}"
proof -
  let ?r = "agent_request (StrongId ''probe'') g n"
  let ?v = "pe_observation ?r"
  have ids: "valid (from_validated (''obs.host.'' @ format_u64 n) :: ObservationId)"
    "valid (from_validated (''pub.host.'' @ format_u64 n) :: PublicationId)"
    using numbered_identifier [of "''obs.host.''" n] numbered_identifier [of "''pub.host.''" n]
    by (simp_all add: valid_from_validated)
  have v: "ev_link ?v = demo_link" "ev_publisher ?v = StrongId ''agent''" "ev_worker_boot ?v = ev_worker_boot demo_observation"
    "ev_source ?v = ev_source demo_observation" "ev_epoch ?v = ev_epoch demo_observation" "ev_topology_generation ?v = Gen 1"
    "pe_expected_evidence_generation ?r = None" "pe_expected_state_generation ?r = None"
    by (simp_all add: agent_request_def demo_observation_def)
  have admitted: "validate_observation ?v (pe_publication ?r) = None" "endpoint_refusal ?v demo_binding = None"
    using ids demo_checks
    by (simp_all add: agent_request_def demo_observation_def validate_observation_def endpoint_refusal_def demo_link_def valid_def
        demo_binding_def demo_endpoints_def validate_text_def)
  let ?prepared = "prepare_commit gen_zero demo_entry [?v] EvidenceResolution"
  have ok: "pc_ok ?prepared"
    using prepare_commit_refused(2) [of gen_zero demo_entry "[?v]" EvidenceResolution] by (auto simp: next_gen_small)
  have "publish_verdict_for ?r demo_registered = PublishAccepted demo_entry ?prepared"
    unfolding demo_registered_eq
    by (simp add: publish_verdict_for_def Let_def demo_authorized admitted backing_stale_def find_slot_def slot_check_def
        default_config_def max_evidence_per_link_def prospective_evidence_def ok v)
  then have "publish_evidence ?r demo_registered = commit_publication ?r demo_registered demo_entry ?prepared"
    by (simp add: publish_evidence_def admitted)
  then show ?thesis
    unfolding demo_registered_eq
    by (simp add: commit_publication_def Let_def drop_evidence_def advance_global_evidence_def advance_def next_gen_small
        split: prod.split)
qed

theorem later_round_supersedes_witness:
  "oc_code (mr_outcome (snd (publish_evidence (agent_request (StrongId ''probe'') (Gen 1) 1)
       (fst (publish_evidence (agent_request (StrongId ''probe'') (Gen 2) 2) demo_registered)))))
     \<notin> {Committed, EvidenceConflict, Idempotent}"
proof -
  let ?old = "agent_request (StrongId ''probe'') (Gen 1) 1" and ?new = "agent_request (StrongId ''probe'') (Gen 2) 2"
  have "round_work [agent_round, agent_round] < 2 ^ 64" by (simp add: round_work_def agent_round_def empty_report_def)
  moreover have "?old \<in> set (host_rounds [agent_round, agent_round] (agent (StrongId ''probe'')) ! 0)"
    "?new \<in> set (host_rounds [agent_round, agent_round] (agent (StrongId ''probe'')) ! 1)"
    by (simp_all add: agent_rounds(1))
  moreover have "ev_key (pe_observation ?old) = ev_key (pe_observation ?new)" by (simp add: agent_request_def)
  moreover have "engine_reachable demo_registered" by (rule demo_engines(1)) simp
  ultimately show ?thesis
    using later_round_supersedes [of "[agent_round, agent_round]" 0 1 ?old "StrongId ''agent''" "StrongId ''boot1''"
        "StrongId ''probe''" ?new demo_registered] agent_accepted [of "Gen 2" 2]
    by (simp add: prod_eq_iff)
qed

theorem host_publishers_collide_witness:
  "oc_code (mr_outcome (snd (publish_evidence (agent_request (StrongId ''other'') (Gen 1) 1)
       (fst (publish_evidence (agent_request (StrongId ''probe'') (Gen 1) 1) demo_registered)))))
     \<notin> {Committed, EvidenceConflict, Idempotent}"
proof -
  let ?first = "agent_request (StrongId ''probe'') (Gen 1) 1" and ?second = "agent_request (StrongId ''other'') (Gen 1) 1"
  obtain p p' where
    "host_requests (fst agent_round) (fst (snd agent_round)) gen_zero (agent (StrongId ''probe'')) = (p, ?first # [])"
    "host_requests (fst agent_round) (fst (snd agent_round)) gen_zero (agent (StrongId ''other'')) = (p', ?second # [])"
    using agent_rounds(2) by blast
  moreover have "engine_reachable demo_registered" by (rule demo_engines(1)) simp
  moreover have "(StrongId ''probe'' :: SourceId) \<noteq> StrongId ''other''" by simp
  ultimately show ?thesis
    using host_publishers_collide [of demo_registered _ _ _ _ _ _ _ ?first "[]" _ _ _ _ _ _ _ ?second "[]"]
      agent_accepted [of "Gen 1" 1] by (metis insertE prod.collapse singletonD)
qed

end
