(* ===== verification/Network.thy ===== *)
theory Network
  imports LSF_Prelude
begin

text \<open>
  The socket layer (\<^verbatim>\<open>src/net.cpp\<close>, \<^verbatim>\<open>src/net.hpp\<close>).  What each system call does is an argument: the
  resolved addresses with the socket each attempt gets, the results of the sends and of the calls around an
  accept.  A call returns what it reports and the sockets it opened and closed, so that it can be said that none
  is lost.
\<close>

type_synonym socket_handle = nat

text \<open>A host without Windows sockets, or one with them; then \<^verbatim>\<open>runtime_ok\<close> and the error number that
  \<^verbatim>\<open>WSAGetLastError\<close> reports are given.\<close>

datatype SocketHost = OtherHost | WinsockHost (runtime_started: bool) (last_error: nat)

definition unsupported_transport :: string where
  "unsupported_transport = ''the distributed transport is implemented for Windows in this release; the capability is '' @
     ''UNSUPPORTED on this platform''"

definition socket_error_text :: "string \<Rightarrow> nat \<Rightarrow> string" where
  "socket_error_text prefix code = prefix @ '' (winsock error '' @ format_nat code @ '')''"

definition net_available :: "SocketHost \<Rightarrow> bool" where
  "net_available host = (case host of WinsockHost ok _ \<Rightarrow> ok | OtherHost \<Rightarrow> False)"

text \<open>What happened to sockets during a call.\<close>

record SocketUse =
  su_opened :: "socket_handle list"
  su_closed :: "socket_handle list"

definition no_sockets :: SocketUse where
  "no_sockets = \<lparr>su_opened = [], su_closed = []\<rparr>"

definition opened_socket :: "socket_handle \<Rightarrow> SocketUse \<Rightarrow> SocketUse" where
  "opened_socket s use = use\<lparr>su_opened := su_opened use @ [s]\<rparr>"

definition closed_socket :: "socket_handle \<Rightarrow> SocketUse \<Rightarrow> SocketUse" where
  "closed_socket s use = use\<lparr>su_closed := su_closed use @ [s]\<rparr>"

section \<open>Listening and connecting\<close>

text \<open>One resolved address: the socket made for it, if any, and whether the following calls succeed.\<close>

record Candidate =
  ca_socket :: "socket_handle option"
  ca_first :: bool
  ca_second :: bool

text \<open>The loop over the addresses: \<open>ca_first\<close> is \<^verbatim>\<open>bind\<close> or \<^verbatim>\<open>connect\<close>, \<open>ca_second\<close> is \<^verbatim>\<open>listen\<close>, which a
  client does not call.\<close>

fun listen_candidates :: "Candidate list \<Rightarrow> SocketUse \<Rightarrow> socket_handle option \<times> SocketUse" where
  "listen_candidates [] use = (None, use)"
| "listen_candidates (candidate # rest) use =
     (case ca_socket candidate of
        None \<Rightarrow> listen_candidates rest use
      | Some s \<Rightarrow>
          if \<not> ca_first candidate then listen_candidates rest (closed_socket s (opened_socket s use))
          else if \<not> ca_second candidate then listen_candidates rest (closed_socket s (opened_socket s use))
          else (Some s, opened_socket s use))"

fun connect_candidates :: "Candidate list \<Rightarrow> SocketUse \<Rightarrow> socket_handle option \<times> SocketUse" where
  "connect_candidates [] use = (None, use)"
| "connect_candidates (candidate # rest) use =
     (case ca_socket candidate of
        None \<Rightarrow> connect_candidates rest use
      | Some s \<Rightarrow>
          if \<not> ca_first candidate then connect_candidates rest (closed_socket s (opened_socket s use))
          else (Some s, opened_socket s use))"

text \<open>\<open>resolved\<close> is what \<^verbatim>\<open>getaddrinfo\<close> gives, \<open>local_port\<close> what \<^verbatim>\<open>getsockname\<close> gives for the socket bound.\<close>

definition net_listen ::
  "SocketHost \<Rightarrow> Candidate list option \<Rightarrow> u16 option \<Rightarrow> (string + socket_handle \<times> u16) \<times> SocketUse" where
  "net_listen host resolved local_port =
     (case host of
        OtherHost \<Rightarrow> (Inl unsupported_transport, no_sockets)
      | WinsockHost ok code \<Rightarrow>
          if \<not> ok then (Inl ''the socket runtime is unavailable on this host'', no_sockets)
          else case resolved of
            None \<Rightarrow> (Inl ''the listening address could not be resolved'', no_sockets)
          | Some candidates \<Rightarrow>
              case listen_candidates candidates no_sockets of
                (None, use) \<Rightarrow> (Inl (socket_error_text ''the coordinator could not bind its listening socket'' code), use)
              | (Some listener, use) \<Rightarrow>
                  case local_port of
                    None \<Rightarrow> (Inl (socket_error_text ''the listening socket address could not be read'' code),
                             closed_socket listener use)
                  | Some bound_port \<Rightarrow> (Inr (listener, bound_port), use))"

definition net_connect ::
  "SocketHost \<Rightarrow> Candidate list option \<Rightarrow> (string + socket_handle) \<times> SocketUse" where
  "net_connect host resolved =
     (case host of
        OtherHost \<Rightarrow> (Inl unsupported_transport, no_sockets)
      | WinsockHost ok code \<Rightarrow>
          if \<not> ok then (Inl ''the socket runtime is unavailable on this host'', no_sockets)
          else case resolved of
            None \<Rightarrow> (Inl ''the coordinator address could not be resolved'', no_sockets)
          | Some candidates \<Rightarrow>
              case connect_candidates candidates no_sockets of
                (None, use) \<Rightarrow> (Inl (socket_error_text ''the coordinator could not be reached'' code), use)
              | (Some client, use) \<Rightarrow> (Inr client, use))"

section \<open>Accepting\<close>

datatype WaitResult = AcceptSignalled | StopSignalled | WaitFailed

record AcceptCalls =
  al_event_created :: bool
  al_armed :: bool
  al_wait :: WaitResult
  al_enumerated :: bool
  al_reports_accept :: bool
  al_accepted :: "socket_handle option"
  al_blocking :: bool

record Acceptance =
  at_client :: "socket_handle option"
  at_stopped :: bool
  at_error :: string

definition refused_accept :: "string \<Rightarrow> Acceptance" where
  "refused_accept error = \<lparr>at_client = None, at_stopped = False, at_error = error\<rparr>"

definition net_accept :: "SocketHost \<Rightarrow> AcceptCalls \<Rightarrow> Acceptance \<times> SocketUse" where
  "net_accept host calls =
     (case host of
        OtherHost \<Rightarrow> (refused_accept unsupported_transport, no_sockets)
      | WinsockHost _ code \<Rightarrow>
          if \<not> al_event_created calls
          then (refused_accept (socket_error_text ''the accept event could not be created'' code), no_sockets)
          else if \<not> al_armed calls
          then (refused_accept (socket_error_text ''the listening socket could not be armed for accept'' code), no_sockets)
          else case al_wait calls of
            AcceptSignalled \<Rightarrow>
              if \<not> al_enumerated calls
              then (refused_accept (socket_error_text ''the accept event could not be inspected'' code), no_sockets)
              else if al_reports_accept calls
              then (case al_accepted calls of
                      None \<Rightarrow> (refused_accept (socket_error_text ''an inbound connection could not be accepted'' code), no_sockets)
                    | Some client \<Rightarrow>
                        if \<not> al_blocking calls
                        then (refused_accept (socket_error_text ''a session socket could not be set to blocking mode'' code),
                              closed_socket client (opened_socket client no_sockets))
                        else (\<lparr>at_client = Some client, at_stopped = False, at_error = []\<rparr>, opened_socket client no_sockets))
              else (refused_accept ''the accept event did not report an inbound connection'', no_sockets)
          | StopSignalled \<Rightarrow> (\<lparr>at_client = None, at_stopped = True, at_error = []\<rparr>, no_sockets)
          | WaitFailed \<Rightarrow> (refused_accept (socket_error_text ''waiting for an inbound connection failed'' code), no_sockets))"

section \<open>Sending and receiving\<close>

definition send_chunk :: nat where
  "send_chunk = 2 ^ 20"

text \<open>The loop of \<^verbatim>\<open>net_send_all\<close>.  \<open>send offset chunk\<close> is the result of the system call made at that offset:
  the number of bytes taken, or a number that is not positive for a failure.  The result lists what each
  successful call took.\<close>

function send_loop :: "(nat \<Rightarrow> nat \<Rightarrow> int) \<Rightarrow> bytes \<Rightarrow> nat \<Rightarrow> bool \<times> bytes list" where
  "send_loop send data offset =
     (if offset < length data then
        let chunk = min (length data - offset) send_chunk; sent = send offset chunk
        in if sent \<le> 0 then (False, [])
           else (case send_loop send data (offset + nat sent) of
                   (ok, taken) \<Rightarrow> (ok, take (nat sent) (drop offset data) # taken))
      else (True, []))"
  by pat_completeness auto
termination
  by (relation "measure (\<lambda>(send, data, offset). length data - offset)") auto

declare send_loop.simps [simp del]

definition net_send_all :: "SocketHost \<Rightarrow> (nat \<Rightarrow> nat \<Rightarrow> int) \<Rightarrow> bytes \<Rightarrow> (string + unit) \<times> bytes list" where
  "net_send_all host send data =
     (case host of
        OtherHost \<Rightarrow> (Inl unsupported_transport, [])
      | WinsockHost _ code \<Rightarrow>
          (case send_loop send data 0 of
             (True, taken) \<Rightarrow> (Inr (), taken)
           | (False, taken) \<Rightarrow> (Inl (socket_error_text ''a frame could not be sent'' code), taken)))"

text \<open>\<open>recv\<close> reports an error by \<open>None\<close> and the end of the stream by no bytes.\<close>

definition net_receive :: "SocketHost \<Rightarrow> bytes option \<Rightarrow> string + bytes" where
  "net_receive host received =
     (case host of
        OtherHost \<Rightarrow> Inl unsupported_transport
      | WinsockHost _ code \<Rightarrow>
          (case received of None \<Rightarrow> Inl (socket_error_text ''a frame could not be received'' code) | Some data \<Rightarrow> Inr data))"

section \<open>Single calls\<close>

text \<open>The invalid handle is \<open>None\<close>.  The results are the handles on which the system call is made.\<close>

definition net_create_stop_handle :: "SocketHost \<Rightarrow> nat option \<Rightarrow> nat option" where
  "net_create_stop_handle host created = (case host of OtherHost \<Rightarrow> None | WinsockHost _ _ \<Rightarrow> created)"

definition on_handle :: "SocketHost \<Rightarrow> nat option \<Rightarrow> nat list" where
  "on_handle host handle =
     (case host of
        OtherHost \<Rightarrow> []
      | WinsockHost _ _ \<Rightarrow> (case handle of None \<Rightarrow> [] | Some h \<Rightarrow> [h]))"

definition net_signal_stop :: "SocketHost \<Rightarrow> nat option \<Rightarrow> nat list" where
  "net_signal_stop host handle = on_handle host handle"

definition net_destroy_stop_handle :: "SocketHost \<Rightarrow> nat option \<Rightarrow> nat list" where
  "net_destroy_stop_handle host handle = on_handle host handle"

definition net_shutdown :: "SocketHost \<Rightarrow> socket_handle option \<Rightarrow> socket_handle list" where
  "net_shutdown host s = on_handle host s"

definition net_close :: "SocketHost \<Rightarrow> socket_handle option \<Rightarrow> socket_handle list" where
  "net_close host s = on_handle host s"

section \<open>Sockets are accounted for\<close>

definition accounted :: "socket_handle option \<Rightarrow> SocketUse \<Rightarrow> bool" where
  "accounted handed use \<longleftrightarrow>
     mset (su_opened use) = mset (su_closed use) + (case handed of None \<Rightarrow> {#} | Some s \<Rightarrow> {#s#})"

lemma accounted_steps [simp]:
  "accounted None no_sockets" "accounted None use \<Longrightarrow> accounted None (closed_socket s (opened_socket s use))"
  "accounted None use \<Longrightarrow> Some s = handed \<Longrightarrow> accounted handed (opened_socket s use)"
  "accounted (Some s) use \<Longrightarrow> accounted None (closed_socket s use)"
  by (auto simp: accounted_def no_sockets_def opened_socket_def closed_socket_def)

lemma candidates_accounted:
  "listen_candidates candidates use = (result, use') \<Longrightarrow> accounted None use \<Longrightarrow> accounted result use'"
  "connect_candidates candidates use = (result, use') \<Longrightarrow> accounted None use \<Longrightarrow> accounted result use'"
  by (induction candidates arbitrary: use) (auto split: option.splits if_splits)

text \<open>
  No socket is lost.  Whatever the system calls report, every socket that listening, connecting or accepting
  opens is either closed again before the call returns or is the socket handed to the caller; a call that reports
  an error hands out none, and on a host without Windows sockets nothing is opened at all.
\<close>

theorem sockets_accounted:
  "accounted (case fst (net_listen host resolved local_port) of Inl _ \<Rightarrow> None | Inr (listener, _) \<Rightarrow> Some listener)
     (snd (net_listen host resolved local_port)) \<and>
   accounted (case fst (net_connect host resolved) of Inl _ \<Rightarrow> None | Inr client \<Rightarrow> Some client)
     (snd (net_connect host resolved)) \<and>
   accounted (at_client (fst (net_accept host calls))) (snd (net_accept host calls)) \<and>
   su_opened (snd (net_listen OtherHost resolved local_port)) = [] \<and>
   su_opened (snd (net_connect OtherHost resolved)) = [] \<and> su_opened (snd (net_accept OtherHost calls)) = []"
proof (intro conjI)
  show "accounted (case fst (net_listen host resolved local_port) of Inl _ \<Rightarrow> None | Inr (listener, _) \<Rightarrow> Some listener)
      (snd (net_listen host resolved local_port))"
    by (auto simp: net_listen_def split: SocketHost.split option.split prod.split dest: candidates_accounted)
  show "accounted (case fst (net_connect host resolved) of Inl _ \<Rightarrow> None | Inr client \<Rightarrow> Some client)
      (snd (net_connect host resolved))"
    by (auto simp: net_connect_def split: SocketHost.split option.split prod.split dest: candidates_accounted)
  show "accounted (at_client (fst (net_accept host calls))) (snd (net_accept host calls))"
    by (auto simp: net_accept_def refused_accept_def split: SocketHost.split option.split WaitResult.split)
qed (auto simp: net_listen_def net_connect_def net_accept_def no_sockets_def)

section \<open>Sending ends\<close>

lemma send_loop_exact:
  assumes "\<And>offset chunk. send offset chunk \<le> int chunk" "offset \<le> length data"
  shows "\<exists>ok taken rest. send_loop send data offset = (ok, taken) \<and> length taken \<le> length data - offset \<and>
    drop offset data = concat taken @ rest \<and> (ok \<longleftrightarrow> rest = []) \<and>
    (ok \<or> (\<exists>offset' chunk. 0 < chunk \<and> send offset' chunk \<le> 0))"
  using assms(2)
proof (induction "length data - offset" arbitrary: offset rule: less_induct)
  case less
  let ?chunk = "min (length data - offset) send_chunk"
  let ?sent = "send offset ?chunk"
  consider (finished) "length data \<le> offset" | (failed) "offset < length data" "?sent \<le> 0"
    | (taken) "offset < length data" "0 < ?sent" by linarith
  then show ?case
  proof cases
    case finished
    then show ?thesis using less.prems by (intro exI [of _ True] exI [of _ "[]"]) (simp add: send_loop.simps)
  next
    case failed
    then have "send_loop send data offset = (False, [])" "0 < ?chunk"
      by (simp_all add: send_loop.simps Let_def send_chunk_def)
    moreover from this have "\<exists>offset' chunk. 0 < chunk \<and> send offset' chunk \<le> 0" using failed(2) by blast
    ultimately show ?thesis
      using failed(1) by (intro exI [of _ False] exI [of _ "[]"] exI [of _ "drop offset data"]) simp
  next
    case taken
    let ?next = "offset + nat ?sent"
    have bound: "nat ?sent \<le> length data - offset" using assms(1) [of offset ?chunk] by simp
    moreover have "0 < nat ?sent" using taken(2) by simp
    ultimately have "?next \<le> length data" and "length data - ?next < length data - offset"
      using taken(1) by linarith+
    then obtain ok pieces rest where rest: "send_loop send data ?next = (ok, pieces)" "length pieces \<le> length data - ?next"
      "drop ?next data = concat pieces @ rest" "ok \<longleftrightarrow> rest = []"
      "ok \<or> (\<exists>offset' chunk. 0 < chunk \<and> send offset' chunk \<le> 0)"
      using less.hyps by blast
    have "send_loop send data offset = (ok, take (nat ?sent) (drop offset data) # pieces)"
      using taken rest(1) by (simp add: send_loop.simps [of send data offset] Let_def)
    moreover have "drop offset data = concat (take (nat ?sent) (drop offset data) # pieces) @ rest"
      unfolding concat.simps append_assoc rest(3) [symmetric] by (metis add.commute append_take_drop_id drop_drop)
    moreover have "length (take (nat ?sent) (drop offset data) # pieces) \<le> length data - offset"
      using rest(2) \<open>length data - ?next < length data - offset\<close> by simp
    ultimately show ?thesis using rest(4,5) by blast
  qed
qed

text \<open>
  Sending a frame ends, and reports exactly what happened.  Provided the system call never takes more than it is
  offered, the loop makes at most one successful call per byte, what the calls took is a prefix of the frame in
  order, and success is reported exactly when that prefix is the whole frame; a call that always makes progress
  leads to success.
\<close>

theorem send_all_ends:
  assumes "\<And>offset chunk. send offset chunk \<le> int chunk"
  shows "\<exists>result taken rest. net_send_all (WinsockHost started code) send data = (result, taken) \<and>
    length taken \<le> length data \<and> data = concat taken @ rest \<and> (result = Inr () \<longleftrightarrow> rest = []) \<and>
    (result = Inr () \<or> (\<exists>offset chunk. 0 < chunk \<and> send offset chunk \<le> 0))"
proof -
  obtain ok taken rest where "send_loop send data 0 = (ok, taken)" "length taken \<le> length data"
    "data = concat taken @ rest" "ok \<longleftrightarrow> rest = []" "ok \<or> (\<exists>offset' chunk. 0 < chunk \<and> send offset' chunk \<le> 0)"
    using send_loop_exact [of send 0 data, OF assms le0] unfolding drop_0 diff_zero by blast
  then show ?thesis
    by (cases ok) (auto simp: net_send_all_def)
qed

theorem send_all_ends_witness:
  "\<exists>taken. net_send_all (WinsockHost True 0) (\<lambda>offset chunk. int chunk) [1, 2, 3] = (Inr (), taken) \<and> concat taken = [1, 2, 3]"
  using send_all_ends [of "\<lambda>offset chunk. int chunk" True 0 "[1, 2, 3]"] by auto

end
