(* ===== verification/Command_Line.thy ===== *)
theory Command_Line
  imports LSF_Prelude
begin

text \<open>
  What the three programs share: the version banner (\<^verbatim>\<open>src/version.cpp\<close>, \<^verbatim>\<open>include/linkstate/version.hpp\<close>) and the
  facilities of the standard library their argument handling and the bind file rest on - \<^verbatim>\<open>std::stoi\<close>,
  \<^verbatim>\<open>std::strtoull\<close> and formatted extraction from a string stream.
\<close>

section \<open>Version\<close>

record Version =
  ve_major :: nat
  ve_minor :: nat
  ve_patch :: nat

definition runtime_version :: Version where
  "runtime_version = \<lparr>ve_major = 1, ve_minor = 0, ve_patch = 0\<rparr>"

definition to_string_version :: "Version \<Rightarrow> string" where
  "to_string_version version =
     format_nat (ve_major version) @ ''.'' @ format_nat (ve_minor version) @ ''.'' @ format_nat (ve_patch version)"

definition product_name :: string where
  "product_name = ''Link State Fabric''"

section \<open>Numbers in text\<close>

definition is_space :: "char \<Rightarrow> bool" where
  "is_space ch \<longleftrightarrow> ch = CHR '' '' \<or> (0x09 \<le> (of_char ch :: nat) \<and> of_char ch \<le> (0x0d :: nat))"

definition is_digit :: "char \<Rightarrow> bool" where
  "is_digit ch \<longleftrightarrow> CHR ''0'' \<le> ch \<and> ch \<le> CHR ''9''"

definition digits_value :: "string \<Rightarrow> nat" where
  "digits_value digits = fold (\<lambda>ch value. value * 10 + (of_char ch - 48)) digits 0"

text \<open>An optional sign, as whether the number is negative, and what follows it.\<close>

definition split_sign :: "string \<Rightarrow> bool \<times> string" where
  "split_sign s = (case s of
     [] \<Rightarrow> (False, [])
   | ch # rest \<Rightarrow> if ch = CHR ''-'' then (True, rest) else if ch = CHR ''+'' then (False, rest) else (False, s))"

text \<open>\<^verbatim>\<open>std::stoi\<close>; \<open>None\<close> is an exception: no number, or one that is no \<^verbatim>\<open>int\<close>.\<close>

definition stoi :: "string \<Rightarrow> int option" where
  "stoi value =
     (case split_sign (dropWhile is_space value) of
        (negative, rest) \<Rightarrow>
          (let digits = takeWhile is_digit rest;
               magnitude = int (digits_value digits); number = (if negative then - magnitude else magnitude)
           in if digits = [] then None
              else if number < - (2 ^ 31) \<or> number \<ge> 2 ^ 31 then None
              else Some number))"

text \<open>\<^verbatim>\<open>std::strtoull\<close> in base ten: nothing that looks like a number gives zero, too large a number the largest one.\<close>

definition strtoull :: "string \<Rightarrow> u64" where
  "strtoull value =
     (case split_sign (dropWhile is_space value) of
        (negative, rest) \<Rightarrow>
          (let digits = takeWhile is_digit rest; magnitude = digits_value digits
           in if magnitude \<ge> 2 ^ 64 then - 1 else if negative then - of_nat magnitude else of_nat magnitude))"

section \<open>String streams\<close>

text \<open>A stream is the rest of its text; a failed stream is \<open>None\<close> and every later extraction from it does nothing.\<close>

type_synonym stream = "string option"

definition stream_word :: "stream \<Rightarrow> string \<Rightarrow> string \<times> stream" where
  "stream_word stream before =
     (case stream of
        None \<Rightarrow> (before, None)
      | Some text \<Rightarrow>
          (let rest = dropWhile is_space text
           in if rest = [] then (before, None)
              else (takeWhile (\<lambda>ch. \<not> is_space ch) rest, Some (dropWhile (\<lambda>ch. \<not> is_space ch) rest))))"

text \<open>An unsigned number: nothing left keeps the value, no digits store zero, too many store the largest
  number; all three fail the stream.\<close>

definition stream_u64 :: "stream \<Rightarrow> u64 \<Rightarrow> u64 \<times> stream" where
  "stream_u64 stream before =
     (case stream of
        None \<Rightarrow> (before, None)
      | Some text \<Rightarrow>
          (let start = dropWhile is_space text
           in if start = [] then (before, None)
              else case split_sign start of
                (negative, rest) \<Rightarrow>
                  (let digits = takeWhile is_digit rest; magnitude = digits_value digits
                   in if digits = [] then (0, None)
                      else if magnitude \<ge> 2 ^ 64 then (- 1, None)
                      else (if negative then - of_nat magnitude else of_nat magnitude, Some (dropWhile is_digit rest)))))"

section \<open>What a program does\<close>

text \<open>A command line is either accepted, or ends the program with an exit code and a line, or makes a number
  conversion throw, which nothing catches.\<close>

datatype 'o command_line = Accepted_options 'o | Exits nat string | Throws

text \<open>How a program ends: with an exit code and what it printed, by an exception, or not at all.\<close>

datatype program_end = Ended nat "string list" | Uncaught | Runs_forever

lemma digits_value_snoc: "digits_value (ds @ [d]) = digits_value ds * 10 + (of_char d - 48)"
  by (simp add: digits_value_def)

lemma digits_of_format: "digits_value (format_nat n) = n"
proof (induction n rule: format_nat.induct)
  case (1 n)
  have digit: "of_char (char_of (48 + d :: nat)) - 48 = d" if "d < 10" for d using that by simp
  show ?case
  proof (cases "n < 10")
    case True
    then show ?thesis using digit [of n] by (simp add: format_nat.simps [of n] digits_value_def)
  next
    case False
    then show ?thesis using 1 digit [of "n mod 10"] by (simp add: format_nat.simps [of n] digits_value_snoc)
  qed
qed

end
