(* ===== verification/Coordinator_App.thy ===== *)
theory Coordinator_App
  imports Command_Line Server_Guarantees Synthetic_Fabrics Recovery_Guarantees
begin

text \<open>
  The coordinator program (\<^verbatim>\<open>apps/lsf_coordinator/main.cpp\<close>): its command line, the bind file, the start of the
  engine and the server, and the orderly stop.  Output is the list of texts printed.  The disk with the faults of
  each access, the lines of the bind file and what the platform reports when the server starts are arguments; what
  happens while it serves is an argument of the stop.
\<close>

section \<open>The command line\<close>

record CoordinatorOptions =
  co_config :: CoordinatorConfig
  co_path :: string
  co_bind_file :: string
  co_use_journal :: bool
  co_durable_writes :: bool

definition default_options :: CoordinatorOptions where
  "default_options = \<lparr>co_config = default_coordinator, co_path = ''linkstate.lsfjournal'', co_bind_file = [], co_use_journal = False,
     co_durable_writes = True\<rparr>"

definition coordinator_usage :: string where
  "coordinator_usage =
     ''lsf-coordinator '' @ to_string_version runtime_version @ [CHR 0x0A] @
     ''usage: lsf-coordinator [--journal PATH] [--address ADDR] [--port N]'' @ [CHR 0x0A] @
     ''                       [--name NAME] [--bind-file PATH] [--fence-on-shutdown]'' @ [CHR 0x0A] @
     ''                       [--no-durable-writes]'' @ [CHR 0x0A] @
     ''  --journal PATH        journal file loaded at start and written after every'' @ [CHR 0x0A] @
     ''                        accepted mutation and at shutdown'' @ [CHR 0x0A] @
     ''  --address ADDR        listening address (default 127.0.0.1)'' @ [CHR 0x0A] @
     ''  --port N              listening port, 0 selects an ephemeral port (default 0)'' @ [CHR 0x0A] @
     ''  --bind-file PATH      bind links from a text file; one link per line:'' @ [CHR 0x0A] @
     ''                        <link> <local-endpoint> <remote-endpoint>'' @ [CHR 0x0A] @
     ''                        [LINK_CLASS] [topology-generation] [endpoint-generation]'' @ [CHR 0x0A]"

fun coordinator_arguments :: "string list \<Rightarrow> CoordinatorOptions \<Rightarrow> CoordinatorOptions command_line" where
  "coordinator_arguments [] options = Accepted_options options"
| "coordinator_arguments (argument # rest) options =
     (if argument = ''--help'' \<or> argument = ''-h'' then Exits 0 coordinator_usage
      else if argument = ''--fence-on-shutdown''
      then coordinator_arguments rest (options\<lparr>co_config := (co_config options)\<lparr>cc_fence_on_shutdown := True\<rparr>\<rparr>)
      else if argument = ''--no-durable-writes''
      then coordinator_arguments rest (options\<lparr>co_durable_writes := False\<rparr>)
      else case rest of
        [] \<Rightarrow> Exits 2 (''error: '' @ argument @ '' requires a value'')
      | value # later \<Rightarrow>
          if argument = ''--journal''
          then coordinator_arguments later (options\<lparr>co_path := value, co_use_journal := True\<rparr>)
          else if argument = ''--bind-file'' then coordinator_arguments later (options\<lparr>co_bind_file := value\<rparr>)
          else if argument = ''--address''
          then coordinator_arguments later (options\<lparr>co_config := (co_config options)\<lparr>cc_bind_address := value\<rparr>\<rparr>)
          else if argument = ''--port''
          then (case stoi value of
                  None \<Rightarrow> Throws
                | Some port \<Rightarrow>
                    coordinator_arguments later (options\<lparr>co_config := (co_config options)\<lparr>cc_port := of_int port\<rparr>\<rparr>))
          else if argument = ''--name''
          then coordinator_arguments later (options\<lparr>co_config := (co_config options)\<lparr>cc_coordinator_name := value\<rparr>\<rparr>)
          else Exits 2 (''error: unknown option '' @ argument))"

section \<open>The bind file\<close>

text \<open>The fields of a line: the three names and the stream after them, or \<open>None\<close> when one is missing.\<close>

definition line_names :: "string \<Rightarrow> (string \<times> string \<times> string \<times> stream) option" where
  "line_names line =
     (case stream_word (Some line) [] of (link, s1) \<Rightarrow>
      case stream_word s1 [] of (local, s2) \<Rightarrow>
      case stream_word s2 [] of (remote, s3) \<Rightarrow>
        if s3 = None then None else Some (link, local, remote, s3))"

definition line_spec :: "LinkId \<Rightarrow> EndpointId \<Rightarrow> EndpointId \<Rightarrow> LinkClass \<Rightarrow> u64 \<Rightarrow> u64 \<Rightarrow> SyntheticLinkSpec" where
  "line_spec link local remote link_class topology endpoints =
     \<lparr>sl_link = link, sl_local_endpoint = local, sl_remote_endpoint = remote,
      sl_fabric = from_validated ''fabric.coordinator'', sl_site = from_validated ''site.coordinator'',
      sl_link_class = link_class, sl_symmetry = Unspecified, sl_topology_generation = Gen topology,
      sl_endpoint_generation = Gen endpoints, sl_backing_links = [], sl_member_links = []\<rparr>"

text \<open>The body of the loop for a line that is not skipped: the link to bind, or an error.\<close>

definition parse_bind_line :: "nat \<Rightarrow> string \<Rightarrow> string + SyntheticLinkSpec" where
  "parse_bind_line line_number line =
     (let where = ''bind file line '' @ format_nat line_number in
      case line_names line of
        None \<Rightarrow> Inl (where @ '' is malformed'')
      | Some (link, local, remote, s3) \<Rightarrow>
          (case stream_word s3 [] of (link_class, s4) \<Rightarrow>
           case stream_u64 s4 1 of (topology, s5) \<Rightarrow>
           case stream_u64 s5 1 of (endpoints, _) \<Rightarrow>
             (case (parse_id link, parse_id local, parse_id remote) of
                (Some parsed_link, Some parsed_local, Some parsed_remote) \<Rightarrow>
                  if link_class = []
                  then Inr (line_spec parsed_link parsed_local parsed_remote EthernetLike topology endpoints)
                  else (case parse_link_class link_class of
                          None \<Rightarrow> Inl (where @ '' holds an unknown link class'')
                        | Some parsed_class \<Rightarrow>
                            Inr (line_spec parsed_link parsed_local parsed_remote parsed_class topology endpoints))
              | _ \<Rightarrow> Inl (where @ '' holds a malformed identity''))))"

fun bind_lines :: "nat \<Rightarrow> string list \<Rightarrow> Impl \<Rightarrow> Impl \<times> string option" where
  "bind_lines line_number [] impl = (impl, None)"
| "bind_lines line_number (line # lines) impl =
     (if line = [] \<or> hd line = CHR ''#'' then bind_lines (line_number + 1) lines impl
      else case parse_bind_line line_number line of
        Inl error \<Rightarrow> (impl, Some error)
      | Inr spec \<Rightarrow>
          (case bind_link (to_binding spec) impl of
             (impl', bound) \<Rightarrow>
               if is_error (mr_outcome bound)
               then (impl', Some (''bind file line '' @ format_nat line_number @ '': '' @ outcome_to_string (mr_outcome bound)))
               else bind_lines (line_number + 1) lines impl'))"

text \<open>\<open>content\<close> is \<open>None\<close> when the file cannot be opened.\<close>

definition bind_from_file :: "string list option \<Rightarrow> Impl \<Rightarrow> Impl \<times> string option" where
  "bind_from_file content impl =
     (case content of None \<Rightarrow> (impl, Some ''the bind file could not be opened'') | Some lines \<Rightarrow> bind_lines 1 lines impl)"

section \<open>Start\<close>

definition coordinator_engine :: EngineConfig where
  "coordinator_engine = default_config\<lparr>cf_max_links := 100000, cf_max_publishers := 4096\<rparr>"

definition coordinator_persistence :: "CoordinatorOptions \<Rightarrow> PersistenceConfig" where
  "coordinator_persistence options =
     \<lparr>pc_path = co_path options, pc_max_records = max_persisted_records, pc_include_history = False,
      pc_create_parent_directory = False\<rparr>"

text \<open>A step of the start: the engine it leaves or the exit code, with what was printed.\<close>

type_synonym boot_step = "(nat + Impl) \<times> string list"

definition recover_engine :: "CoordinatorOptions \<Rightarrow> IoFaults \<Rightarrow> Disk \<Rightarrow> Impl \<Rightarrow> boot_step" where
  "recover_engine options faults disk engine =
     (if \<not> co_use_journal options then (Inr engine, [])
      else case load faults disk (coordinator_persistence options) engine of
        (engine1, loaded) \<Rightarrow>
          if is_error (lo_outcome loaded) \<and> oc_code (lo_outcome loaded) \<noteq> PersistenceIoFailure
          then (Inl 3, [''error: journal could not be loaded: '' @ outcome_to_string (lo_outcome loaded)])
          else if is_error (lo_outcome loaded) then (Inr engine1, [])
          else (let report = ''recovered '' @ format_nat (lo_records_loaded loaded) @ '' durable records, '' @
                      format_nat (lo_records_revalidated loaded) @ '' require revalidation''
                in case advance_coordinator_epoch
                     \<lparr>ae_new_epoch = Gen (gen_value (im_epoch engine1) + 1), ae_reason = ''coordinator restart''\<rparr> engine1 of
                  (engine2, advanced) \<Rightarrow>
                    if is_error (mr_outcome advanced)
                    then (Inl 3, [report, ''error: coordinator epoch could not be advanced''])
                    else (Inr engine2, [report, ''epoch advanced to '' @ gen_to_string (im_epoch engine2)])))"

definition bind_engine :: "CoordinatorOptions \<Rightarrow> string list option \<Rightarrow> Impl \<Rightarrow> boot_step" where
  "bind_engine options content engine =
     (if co_bind_file options = [] then (Inr engine, [])
      else case bind_from_file content engine of
        (engine1, Some error) \<Rightarrow> (Inl 3, [''error: '' @ error])
      | (engine1, None) \<Rightarrow>
          (Inr engine1, [''bound '' @ format_nat (link_count engine1) @ '' links from '' @ co_bind_file options]))"

definition serving_config :: "CoordinatorOptions \<Rightarrow> CoordinatorConfig" where
  "serving_config options =
     (let config = (co_config options)\<lparr>cc_session_observer := True\<rparr>
      in if co_use_journal options \<and> co_durable_writes options
         then config\<lparr>cc_journal_path := co_path options,
                cc_journal_history := pc_include_history (coordinator_persistence options)\<rparr>
         else config)"

text \<open>The program up to the line that says it is ready.\<close>

definition coordinator_boot ::
  "CoordinatorOptions \<Rightarrow> IoFaults \<Rightarrow> Disk \<Rightarrow> IoFaults list \<Rightarrow> string list option \<Rightarrow> Transport \<Rightarrow>
     (nat + CoordinatorServer) \<times> string list" where
  "coordinator_boot options faults disk coming content transport =
     (case recover_engine options faults disk (new_impl coordinator_engine) of
        (Inl code, out1) \<Rightarrow> (Inl code, out1)
      | (Inr engine1, out1) \<Rightarrow>
          case bind_engine options content engine1 of
            (Inl code, out2) \<Rightarrow> (Inl code, out1 @ out2)
          | (Inr engine2, out2) \<Rightarrow>
              case start (serving_config options) transport (new_server engine2 disk coming) of
                (server, started) \<Rightarrow>
                  if is_error started then (Inl 4, out1 @ out2 @ [''error: '' @ outcome_to_string started])
                  else (Inr server, out1 @ out2 @
                          [''endpoint '' @ endpoint (serving_config options) server,
                           ''epoch '' @ gen_to_string (im_epoch engine2),
                           ''links '' @ format_nat (link_count engine2), ''ready'']))"

text \<open>The line the session observer prints for a closed session.\<close>

definition session_lines :: "SessionEvent \<Rightarrow> string list" where
  "session_lines event =
     (if se_kind event \<noteq> Closed then []
      else [''session closed agent='' @ (if se_agent event = [] then ''<unnamed>'' else se_agent event) @
            '' registrations='' @ format_nat (se_registrations event) @ '' fenced='' @ format_nat (se_fenced event)] @
           (if se_fenced event > 0
            then [''fenced publisher='' @ id_value (se_publisher event) @ '' boot='' @ id_value (se_worker_boot event)]
            else []))"

section \<open>Stop\<close>

definition coordinator_finish ::
  "CoordinatorOptions \<Rightarrow> IoFaults \<Rightarrow> CoordinatorServer \<Rightarrow> nat \<times> string list \<times> Disk" where
  "coordinator_finish options faults sv =
     (case stop (serving_config options) sv of
        (sv', stopped) \<Rightarrow>
          (let server = sv_coordinator sv'; disk = cd_disk server;
               (saved, states) = (if co_use_journal options
                 then save faults (coordinator_persistence options) (cd_engine server) disk
                 else (make_outcome Committed [], []));
               disk' = last (disk # states)
           in if is_error saved
              then (5, [''error: journal could not be written: '' @ outcome_to_string saved], disk')
              else (0, [''stopped '' @ outcome_to_string stopped @ '' frames='' @ format_u64 (cd_frames_received server) @
                        '' rejected='' @ format_u64 (cd_frames_rejected server) @ '' sessions='' @
                        format_u64 (cd_sessions_accepted server)], disk')))"

section \<open>The program\<close>

datatype ConsoleSignal = CTRL_C_EVENT | CTRL_CLOSE_EVENT | CTRL_BREAK_EVENT | OtherSignal

text \<open>The stop flag after a signal, and whether the signal was handled.\<close>

definition console_handler :: "ConsoleSignal \<Rightarrow> bool \<Rightarrow> bool \<times> bool" where
  "console_handler signal stop_flag =
     (if signal = CTRL_C_EVENT \<or> signal = CTRL_CLOSE_EVENT \<or> signal = CTRL_BREAK_EVENT then (True, True)
      else (stop_flag, False))"

text \<open>What a run meets.  \<open>rw_traffic\<close> is what happens at the server until the stop flag is set.\<close>

record RunWorld =
  rw_load_faults :: IoFaults
  rw_disk :: Disk
  rw_checkpoint_faults :: "IoFaults list"
  rw_bind_file :: "string list option"
  rw_transport :: Transport
  rw_traffic :: "server_action list"
  rw_save_faults :: IoFaults

definition coordinator_main :: "string list \<Rightarrow> RunWorld \<Rightarrow> program_end \<times> Disk" where
  "coordinator_main arguments world =
     (case coordinator_arguments arguments default_options of
        Exits code line \<Rightarrow> (Ended code [line], rw_disk world)
      | Throws \<Rightarrow> (Uncaught, rw_disk world)
      | Accepted_options options \<Rightarrow>
          case coordinator_boot options (rw_load_faults world) (rw_disk world) (rw_checkpoint_faults world)
                 (rw_bind_file world) (rw_transport world) of
            (Inl code, lines) \<Rightarrow> (Ended code lines, rw_disk world)
          | (Inr server, lines) \<Rightarrow>
              (let served = fold (server_step (serving_config options)) (rw_traffic world) server;
                   observed = cd_events (sv_coordinator (fst (stop (serving_config options) served)))
               in case coordinator_finish options (rw_save_faults world) served of
                 (code, last_lines, disk) \<Rightarrow>
                   (Ended code (lines @ concat (map session_lines observed) @ last_lines), disk)))"

end
