(* ===== verification/Coordinator_Guarantees.thy ===== *)
theory Coordinator_Guarantees
  imports Coordinator_App Engine_Contracts
begin

text \<open>
  What a start of the coordinator guarantees: after a recovery the engine is cold - no publisher, no current
  evidence - and in a new epoch, so that nothing of the previous run is accepted; and what an unreadable journal
  leads to.
\<close>

section \<open>Cold engines\<close>

definition cold :: "Impl \<Rightarrow> bool" where
  "cold impl \<longleftrightarrow> st_publishers impl = [] \<and> (\<forall>l e. find_link l impl = Some e \<longrightarrow> le_current e = [])"

lemma cold_new: "cold (new_impl config)"
  by (simp add: cold_def new_impl_def find_link_def)

lemma cold_frame:
  "cold impl \<Longrightarrow> st_publishers impl' = st_publishers impl \<Longrightarrow> st_links impl' = st_links impl \<Longrightarrow> cold impl'"
  by (simp add: cold_def find_link_def)

lemma cold_put_entry: "cold impl \<Longrightarrow> le_current e = [] \<Longrightarrow> cold (put_entry l e impl)"
  by (simp add: cold_def)

lemma cold_dependents: "cold impl \<Longrightarrow> fold invalidate_dependent ds impl = impl"
  by (induction ds) (auto simp: cold_def invalidate_dependent_def split: option.split)

lemma cold_load:
  assumes "load faults disk config impl = (impl', result)" "\<not> is_error (lo_outcome result)"
  shows "cold impl'"
  using assms(1)
proof (cases rule: load_cases)
  case (recovered data payload summary a b)
  have "distinct (map persisted_link (jp_links payload))"
    by (rule journal_fits_distinct [OF decode_checked_fits [OF recovered(3)]])
  note engine = recovered_engine [OF this recovered(4)]
  show ?thesis
    using engine(2,3) by (auto simp: cold_def find_link_def dest!: map_of_SomeD)
qed (use assms(2) in simp)

lemma cold_advance:
  assumes "cold impl" "advance_coordinator_epoch request impl = (impl', result)" "\<not> is_error (mr_outcome result)"
  shows "cold impl' \<and> im_epoch impl' = ae_new_epoch request \<and> im_epoch impl \<le> ae_new_epoch request"
proof -
  have "stale_publishers (impl\<lparr>im_epoch := e\<rparr>) = []" for e
    using assms(1) by (simp add: stale_publishers_def cold_def)
  then show ?thesis
    using assms
    by (auto simp: advance_coordinator_epoch_def Let_def not_less is_error_def code_is_error_def intro: cold_frame split: if_splits)
qed

lemma cold_rebinding:
  assumes "cold impl" "find_link link impl = Some entry"
  shows "cold (fst (apply_rebinding link binding reason impl entry)) \<and>
    im_epoch (fst (apply_rebinding link binding reason impl entry)) = im_epoch impl"
proof -
  have empty: "le_current entry = []" using assms by (simp add: cold_def)
  obtain impl2 entry2 where rebind: "rebind_entry binding impl entry = (impl2, entry2)" by fastforce
  have two: "cold impl2" "im_epoch impl2 = im_epoch impl" "le_current entry2 = []"
    using rebind assms(1) empty
    by (auto simp: rebind_entry_def Let_def index_endpoints_sel index_dependents_sel intro: cold_frame)
  obtain b impl3 entry3 where advance: "advance_evidence_global impl2 entry2 = (b, impl3, entry3)" by (metis prod_cases3)
  have three: "cold impl3" "im_epoch impl3 = im_epoch impl" "le_current entry3 = []"
    using advance_evidence_global_frame(1-3) [OF advance] two
    by (auto simp: same_authority_def kept_def intro: cold_frame)
  let ?impl4 = "raise_topology (tb_topology_generation binding) impl3"
  have four: "cold ?impl4" "im_epoch ?impl4 = im_epoch impl"
    using three by (auto simp: raise_topology_def intro: cold_frame)
  obtain r impl5 entry5 where recompute: "recompute_link TopologyInvalidation (minted_publication ''topology'' ?impl4) null_id
      ?impl4 (stamp_global impl3 entry3) = (r, impl5, entry5)" by (metis prod_cases3)
  have five: "cold impl5" "im_epoch impl5 = im_epoch impl" "le_current entry5 = []"
    using recompute_link_frame [OF recompute] four three(3)
    by (auto simp: same_authority_def kept_def stamp_global_def intro: cold_frame)
  have drop: "drop_evidence p s w impl entry = (impl, entry)" for p s w
    by (simp add: drop_evidence_def empty)
  show ?thesis
    using five three
    by (cases b; cases r)
      (auto simp: apply_rebinding_def drop rebind advance recompute Let_def invalidate_stale_dependents_def
        cold_dependents cold_put_entry)
qed

lemma indexing_frames [simp]:
  "cold (index_link l s impl) = cold impl" "im_epoch (index_link l s impl) = im_epoch impl"
  "cold (index_endpoints c True impl) = cold impl" "im_epoch (index_endpoints c True impl) = im_epoch impl"
  "cold (index_dependents c True impl) = cold impl" "im_epoch (index_dependents c True impl) = im_epoch impl"
  "cold (raise_topology t impl) = cold impl" "im_epoch (raise_topology t impl) = im_epoch impl"
  by (simp_all add: cold_def find_link_def index_link_def index_endpoints_sel index_dependents_sel raise_topology_def)

lemma cold_bind_new: "cold impl \<Longrightarrow> cold (fst (bind_new_link b impl)) \<and> im_epoch (fst (bind_new_link b impl)) = im_epoch impl"
  using cold_frame [of impl "impl\<lparr>im_global_generation := g\<rparr>" for g]
  by (auto simp: bind_new_link_def Let_def fresh_entry_def stamp_global_def intro!: cold_put_entry split: prod.split bool.split)

lemma cold_bind:
  "cold impl \<Longrightarrow> cold (fst (bind_link binding impl)) \<and> im_epoch (fst (bind_link binding impl)) = im_epoch impl"
  using cold_bind_new cold_rebinding by (auto simp: bind_link_def Let_def split: option.split)

lemma cold_bind_lines:
  "cold impl \<Longrightarrow> cold (fst (bind_lines n lines impl)) \<and> im_epoch (fst (bind_lines n lines impl)) = im_epoch impl"
proof (induction lines arbitrary: n impl)
  case (Cons line lines)
  show ?case
  proof (cases "line = [] \<or> hd line = CHR ''#''")
    case True
    then show ?thesis using Cons by simp
  next
    case False
    show ?thesis
    proof (cases "parse_bind_line n line")
      case (Inl error)
      then show ?thesis using False Cons.prems by simp
    next
      case (Inr spec)
      obtain impl1 bound where bind: "bind_link (to_binding spec) impl = (impl1, bound)" by fastforce
      then have "cold impl1 \<and> im_epoch impl1 = im_epoch impl" using cold_bind [OF Cons.prems, of "to_binding spec"] by simp
      then show ?thesis using Cons.IH [of impl1 "n + 1"] False Inr by (simp add: bind)
    qed
  qed
qed simp

section \<open>After a restart\<close>

lemma cold_refuses_publication:
  assumes "cold impl"
  shows "oc_code (mr_outcome (snd (publish_evidence request impl))) \<notin> {Committed, EvidenceConflict, Idempotent}"
proof -
  obtain impl' result where publish: "publish_evidence request impl = (impl', result)" by fastforce
  from publish show ?thesis
  proof (cases rule: publish_cases)
    case (replay e)
    then have "find_link (ev_link (pe_observation request)) impl = Some e"
      "find_slot e (ev_key (pe_observation request)) \<noteq> None"
      by (auto simp: publish_verdict_for_def slot_check_def Let_def split: option.splits if_splits prod.splits slot_verdict.splits)
    then show ?thesis using assms by (auto simp: cold_def find_slot_def)
  next
    case (accepted e prepared)
    then show ?thesis
      using assms publish_accepted(2) [OF accepted(1)] by (auto simp: authorize_def cold_def find_publisher_def)
  qed (simp add: publish accepting_def)
qed

text \<open>The engine of a coordinator that has recovered its journal and is ready.\<close>

lemma booted_engine:
  assumes "co_use_journal options"
    and "load faults disk (coordinator_persistence options) (new_impl coordinator_engine) = (recovered, loaded)"
    and "\<not> is_error (lo_outcome loaded)"
    and "coordinator_boot options faults disk coming content transport = (Inr server, out)"
  defines "engine \<equiv> cd_engine (sv_coordinator server)"
  shows "cold engine" and "gen_value (im_epoch engine) = gen_value (im_epoch recovered) + 1"
    and "im_epoch recovered < im_epoch engine"
proof -
  let ?e = "Gen (gen_value (im_epoch recovered) + 1) :: CoordinatorEpoch"
  obtain engine1 out1 engine2 out2 started where
    recover: "recover_engine options faults disk (new_impl coordinator_engine) = (Inr engine1, out1)"
    and bind: "bind_engine options content engine1 = (Inr engine2, out2)"
    and start: "start (serving_config options) transport (new_server engine2 disk coming) = (server, started)"
    using assms(4) by (auto simp: coordinator_boot_def split: prod.splits sum.splits if_splits)
  have engine: "engine = engine2"
    using start by (auto simp: engine_def start_def new_server_def split: if_splits sum.splits)
  have "cold recovered" by (rule cold_load [OF assms(2,3)])
  moreover obtain advanced where advance: "advance_coordinator_epoch \<lparr>ae_new_epoch = ?e, ae_reason = ''coordinator restart''\<rparr> recovered
      = (engine1, advanced)" "\<not> is_error (mr_outcome advanced)"
    using recover assms(1-3) by (auto simp: recover_engine_def Let_def split: prod.splits if_splits)
  ultimately have one: "cold engine1" "im_epoch engine1 = ?e" "im_epoch recovered \<le> ?e"
    using cold_advance by fastforce+
  have two: "cold engine2" "im_epoch engine2 = ?e"
    using bind one(1,2) cold_bind_lines [OF one(1)]
    by (auto simp: bind_engine_def bind_from_file_def split: if_splits option.splits prod.splits) (metis fst_conv)+
  have "im_epoch recovered \<noteq> ?e" by (metis StrongGeneration.sel add.right_neutral add_left_cancel zero_neq_one)
  then show "cold engine" and "gen_value (im_epoch engine) = gen_value (im_epoch recovered) + 1"
    and "im_epoch recovered < im_epoch engine"
    using one(3) two by (simp_all add: engine less_le)
qed

text \<open>
  C17: A restarted coordinator inherits no authority.  When it has recovered its journal and says that it is ready -
  with or without a bind file - its epoch is one more than the epoch of the journal, no publisher is registered and
  no link has current evidence.  So every publication is refused until a worker has registered, and a registration
  that names the epoch of the journal or an earlier one is refused and changes nothing.
\<close>

theorem coordinator_restart:
  assumes "co_use_journal options"
    and "load faults disk (coordinator_persistence options) (new_impl coordinator_engine) = (recovered, loaded)"
    and "\<not> is_error (lo_outcome loaded)"
    and "coordinator_boot options faults disk coming content transport = (Inr server, out)"
  defines "engine \<equiv> cd_engine (sv_coordinator server)"
  shows "gen_value (im_epoch engine) = gen_value (im_epoch recovered) + 1 \<and> im_epoch recovered < im_epoch engine \<and>
    st_publishers engine = [] \<and> (\<forall>l e. find_link l engine = Some e \<longrightarrow> le_current e = []) \<and>
    (\<forall>request. oc_code (mr_outcome (snd (publish_evidence request engine))) \<notin> {Committed, EvidenceConflict, Idempotent}) \<and>
    (\<forall>registration. rg_epoch registration \<le> im_epoch recovered \<longrightarrow>
       is_error (mr_outcome (snd (register_publisher registration engine))) \<and>
       fst (register_publisher registration engine) = engine)"
proof -
  note booted = booted_engine [OF assms(1-4), folded engine_def]
  have "is_error (mr_outcome (snd (register_publisher registration engine))) \<and>
      fst (register_publisher registration engine) = engine" if "rg_epoch registration \<le> im_epoch recovered" for registration
  proof -
    have "rg_epoch registration \<noteq> im_epoch engine" using that booted(3) by auto
    then show ?thesis
      by (auto simp: register_publisher_def Let_def is_error_def code_is_error_def split: prod.split)
  qed
  then show ?thesis
    using booted cold_refuses_publication [OF booted(1)] by (auto simp: cold_def)
qed

section \<open>An unreadable journal\<close>

text \<open>
  C34: A journal that cannot be read is treated as if there were none, and lost.  If the journal exists but opening
  it fails, the coordinator starts all the same, with an empty engine in the initial epoch, and says nothing about
  the journal; and when it stops, it reports success and has replaced the journal by one without any link.
\<close>

theorem unreadable_journal_lost:
  assumes "co_use_journal options" "co_bind_file options = []" "io_open faults"
    and "validate_persistence (coordinator_persistence options) = []"
    and "map_of (dk_files disk) (co_path options) = Some journal"
    and "length journal \<le> max_journal_bytes (coordinator_persistence options)"
    and "journal_directory (co_path options) \<in> set (dk_directories disk)"
    and "coordinator_boot options faults disk coming content transport = (Inr server, out)"
    and "coordinator_finish options no_faults server = (code, lines, disk')"
  shows "cd_engine (sv_coordinator server) = new_impl coordinator_engine \<and> length out = 4 \<and> code = 0 \<and>
    map_of (dk_files disk') (co_path options) =
      Some (fst (encode_journal (build_payload (new_impl coordinator_engine) False) (coordinator_persistence options))) \<and>
    jp_links (build_payload (new_impl coordinator_engine) False) = []"
proof -
  let ?config = "coordinator_persistence options" and ?empty = "new_impl coordinator_engine"
  have path: "pc_path ?config = co_path options" "pc_include_history ?config = False"
    by (simp_all add: coordinator_persistence_def)
  have "\<exists>why. load faults disk ?config ?empty = (?empty, refused_load (make_outcome PersistenceIoFailure why))"
    using assms(3-6)
    by (auto simp: load_def read_journal_file_def path is_error_def code_is_error_def make_outcome_def split: option.split)
  then have recover: "recover_engine options faults disk ?empty = (Inr ?empty, [])"
    using assms(1) by (auto simp: recover_engine_def refused_load_def make_outcome_def is_error_def code_is_error_def)
  moreover have "bind_engine options content ?empty = (Inr ?empty, [])" using assms(2) by (simp add: bind_engine_def)
  ultimately obtain started where start: "start (serving_config options) transport (new_server ?empty disk coming) = (server, started)"
    "\<not> is_error started" and out: "length out = 4"
    using assms(8) by (auto simp: coordinator_boot_def split: prod.splits if_splits)
  then have server: "cd_engine (sv_coordinator server) = ?empty" "cd_disk (sv_coordinator server) = disk" "sv_sessions server = []"
    by (auto simp: start_def new_server_def split: if_splits sum.splits)
  have "sv_coordinator (fst (stop (serving_config options) server)) = sv_coordinator server"
    by (simp add: stop_def server)
  moreover obtain saved states where save: "save no_faults ?config ?empty disk = (saved, states)" by fastforce
  note stored = saved_file [OF assms(4), of disk ?empty, unfolded path, OF assms(7)]
  ultimately have "code = 0" "disk' = last (disk # states)"
    using assms(1,9) stored save server by (auto simp: coordinator_finish_def Let_def path split: prod.splits if_splits)
  moreover have "jp_links (build_payload ?empty False) = []"
    by (simp add: build_payload_def new_impl_def)
  ultimately show ?thesis using server(1) out stored save by simp
qed

section \<open>A concrete restart of the program\<close>

definition app_options :: CoordinatorOptions where
  "app_options = default_options\<lparr>co_use_journal := True\<rparr>"

definition app_disk :: Disk where
  "app_disk = \<lparr>dk_files = [(''linkstate.lsfjournal'', fst (encode_journal demo_payload (coordinator_persistence app_options)))],
     dk_directories = [''.'']\<rparr>"

definition app_transport :: Transport where
  "app_transport = \<lparr>tp_available = True, tp_listen = Inr 4040, tp_stop_handle = True\<rparr>"

lemma app_config:
  "validate_persistence (coordinator_persistence app_options) = []" "pc_path (coordinator_persistence app_options) = ''linkstate.lsfjournal''"
  "pc_include_history (coordinator_persistence app_options) = False" "co_path app_options = ''linkstate.lsfjournal''"
  "server_persistence (serving_config app_options) = coordinator_persistence app_options"
  by (simp_all add: validate_persistence_def coordinator_persistence_def app_options_def default_options_def is_plain_path_def
      is_relative_path_def max_persisted_records_def server_persistence_def serving_config_def default_coordinator_def)

lemma app_payload: "encode_payload payload (coordinator_persistence app_options) = encode_payload payload demo_config"
  by (simp add: encode_payload_def app_config encode_link_def demo_config_def)

lemma app_bytes: "3000 \<le> max_journal_bytes (coordinator_persistence app_options)"
  by (simp add: max_journal_bytes_def coordinator_persistence_def max_persisted_records_def Let_def kMaxJournalBytes_def
      journal_header_bytes_def journal_trailer_bytes_def digest_byte_count_def)

lemma app_size: "length (fst (encode_journal demo_payload (coordinator_persistence app_options))) \<le>
    max_journal_bytes (coordinator_persistence app_options)"
  using demo_size app_bytes by (simp add: length_encode_journal app_payload)

lemma app_decoded:
  "decode_checked (fst (encode_journal demo_payload (coordinator_persistence app_options))) (coordinator_persistence app_options) =
     Inr (recorded demo_payload, snd (encode_journal demo_payload (coordinator_persistence app_options)))"
proof (rule journal_back [OF app_config(1)])
  show "length (jp_links demo_payload) \<le> pc_max_records (coordinator_persistence app_options)"
    using demo_journal(3) by (simp add: coordinator_persistence_def demo_config_def max_persisted_records_def)
qed (use demo_journal in \<open>simp_all add: app_payload\<close>)

lemma app_file: "map_of (dk_files app_disk) (pc_path (coordinator_persistence app_options)) =
    Some (fst (encode_journal demo_payload (coordinator_persistence app_options)))"
  by (simp add: app_disk_def app_config)

lemma app_listening:
  "\<exists>server. start (serving_config app_options) app_transport (new_server engine disk coming) = (server, make_outcome Committed ''listening on 127.0.0.1:4040'')"
proof -
  have "validate_coordinator (serving_config app_options) = []"
    using app_config(1) unfolding validate_coordinator_def app_config(5)
    by (simp add: serving_config_def app_options_def default_options_def default_coordinator_def limit_sessions_def Let_def)
  moreover have "format_nat 4040 = ''4040''" by code_simp
  ultimately show ?thesis
    by (simp add: start_def app_transport_def new_server_def serving_config_def app_options_def default_options_def
        default_coordinator_def Let_def)
qed

lemma app_boot:
  assumes load: "load no_faults disk (coordinator_persistence app_options) (new_impl coordinator_engine) = (recovered, loaded)"
    and ok: "\<not> is_error (lo_outcome loaded)" and epoch: "im_epoch recovered = gen_zero \<or> im_epoch recovered = Gen 1"
  shows "\<exists>server out. coordinator_boot app_options no_faults disk [] None app_transport = (Inr server, out)"
proof -
  have "\<exists>engine out. recover_engine app_options no_faults disk (new_impl coordinator_engine) = (Inr engine, out)"
    using load ok epoch cold_load [OF load ok]
    by (auto simp: recover_engine_def app_options_def default_options_def advance_coordinator_epoch_def stale_publishers_def cold_def
        Let_def is_error_def code_is_error_def)
  then obtain engine out1 where "recover_engine app_options no_faults disk (new_impl coordinator_engine) = (Inr engine, out1)" by blast
  moreover have "bind_engine app_options None engine = (Inr engine, [])"
    by (simp add: bind_engine_def app_options_def default_options_def)
  ultimately show ?thesis
    using app_listening [of engine disk "[]"]
    by (auto simp: coordinator_boot_def is_error_def code_is_error_def make_outcome_def)
qed

theorem coordinator_restart_witness:
  "\<exists>server out. coordinator_boot app_options no_faults app_disk [] None app_transport = (Inr server, out) \<and>
     st_publishers (cd_engine (sv_coordinator server)) = []"
proof -
  obtain recovered loaded where load: "load no_faults app_disk (coordinator_persistence app_options) (new_impl coordinator_engine) = (recovered, loaded)"
    by fastforce
  obtain a b where ok: "\<not> is_error (lo_outcome loaded)" and recover: "recover (recorded demo_payload) (new_impl coordinator_engine) = (recovered, a, b)"
    using loaded_file [OF app_config(1) app_file app_size app_decoded load] by blast
  have "distinct (map persisted_link (jp_links (recorded demo_payload)))"
    by (rule journal_fits_distinct [OF decode_checked_fits [OF app_decoded]])
  from recovered_engine(6) [OF this recover] have "im_epoch recovered = gen_zero \<or> im_epoch recovered = Gen 1"
    by (simp add: recorded_def demo_payload_def)
  from app_boot [OF load ok this] obtain server out where
    boot: "coordinator_boot app_options no_faults app_disk [] None app_transport = (Inr server, out)" by blast
  have "co_use_journal app_options" by (simp add: app_options_def)
  with coordinator_restart [OF _ load ok boot] boot show ?thesis by blast
qed

theorem unreadable_journal_lost_witness:
  "\<exists>server out. coordinator_boot app_options (no_faults\<lparr>io_open := True\<rparr>) app_disk [] None app_transport = (Inr server, out) \<and>
     map_of (dk_files (snd (snd (coordinator_finish app_options no_faults server)))) ''linkstate.lsfjournal'' =
       Some (fst (encode_journal (build_payload (new_impl coordinator_engine) False) (coordinator_persistence app_options)))"
proof -
  let ?faults = "no_faults\<lparr>io_open := True\<rparr>"
  have "\<exists>why. load ?faults app_disk (coordinator_persistence app_options) (new_impl coordinator_engine) =
      (new_impl coordinator_engine, refused_load (make_outcome PersistenceIoFailure why))"
    using app_size app_file
    by (auto simp: load_def read_journal_file_def app_config no_faults_def is_error_def code_is_error_def make_outcome_def)
  then have "recover_engine app_options ?faults app_disk (new_impl coordinator_engine) = (Inr (new_impl coordinator_engine), [])"
    by (auto simp: recover_engine_def refused_load_def make_outcome_def is_error_def code_is_error_def)
  moreover have "bind_engine app_options None (new_impl coordinator_engine) = (Inr (new_impl coordinator_engine), [])"
    by (simp add: bind_engine_def app_options_def default_options_def)
  ultimately obtain server out where boot: "coordinator_boot app_options ?faults app_disk [] None app_transport = (Inr server, out)"
    using app_listening [of "new_impl coordinator_engine" app_disk "[]"]
    by (auto simp: coordinator_boot_def is_error_def code_is_error_def make_outcome_def)
  obtain code lines disk' where finish: "coordinator_finish app_options no_faults server = (code, lines, disk')" by (metis prod_cases3)
  have "co_use_journal app_options" "co_bind_file app_options = []" "io_open ?faults"
    by (simp_all add: app_options_def default_options_def)
  moreover have "journal_directory (co_path app_options) \<in> set (dk_directories app_disk)"
    by (simp add: app_disk_def app_config journal_directory_def parent_path_def directory_part_def)
  moreover have "map_of (dk_files app_disk) (co_path app_options) =
      Some (fst (encode_journal demo_payload (coordinator_persistence app_options)))"
    by (simp add: app_disk_def app_config)
  ultimately show ?thesis
    using unreadable_journal_lost [of app_options ?faults, OF _ _ _ app_config(1) _ app_size _ boot finish] boot finish
    by (simp add: app_config(4))
qed

end
