(* ===== verification/Worker_App.thy ===== *)
theory Worker_App
  imports Command_Line Client
begin

text \<open>
  The worker program (\<^verbatim>\<open>apps/lsf_worker/main.cpp\<close>): its command line, the session it holds with a coordinator
  and what it publishes.  The socket's behaviour is an argument: what \<^verbatim>\<open>net_connect\<close> reports and, for each
  exchange of the publishing loop, by its number, what arrives.  Output is the list of the lines printed.
\<close>

section \<open>The command line\<close>

record WorkerOptions =
  wo_config :: PublisherClientConfig
  wo_links :: "string list"
  wo_claim :: EvidenceClaim
  wo_kind :: EvidenceKind
  wo_count :: u64
  wo_hold :: bool
  wo_endpoint :: string

definition default_worker :: WorkerOptions where
  "default_worker =
     \<lparr>wo_config = \<lparr>pk_address = ''127.0.0.1'', pk_port = 0, pk_publisher = null_id, pk_worker_boot = null_id,
        pk_source = null_id, pk_fabric = null_id, pk_links = [], pk_agent_name = ''link-state-worker''\<rparr>,
      wo_links = [], wo_claim = EvidenceClaim.Up, wo_kind = PlatformDiscovery, wo_count = 1, wo_hold = False,
      wo_endpoint = []\<rparr>"

definition worker_usage :: string where
  "worker_usage =
     ''lsf-worker '' @ to_string_version runtime_version @ nl @
     ''usage: lsf-worker --endpoint ADDR:PORT --publisher ID --boot ID --source ID'' @ nl @
     ''                  --link ID [--link ID ...] [--claim UP|DOWN|DEGRADED|FAULTED|'' @ nl @
     ''                  ADMIN_DISABLED|DRAINING|UNKNOWN] [--kind KIND] [--count N] [--hold]'' @ nl"

text \<open>The candidates of the index loop, in order.\<close>

definition all_claims :: "EvidenceClaim list" where
  "all_claims = [EvidenceClaim.Unknown, EvidenceClaim.Up, EvidenceClaim.Down, EvidenceClaim.Degraded,
     EvidenceClaim.AdminDisabled, EvidenceClaim.Draining, EvidenceClaim.Faulted]"

definition parse_claim :: "string \<Rightarrow> EvidenceClaim option" where
  "parse_claim text = find (\<lambda>claim. text = to_string_claim claim) all_claims"

fun worker_arguments :: "string list \<Rightarrow> WorkerOptions \<Rightarrow> WorkerOptions command_line" where
  "worker_arguments [] options = Accepted_options options"
| "worker_arguments (argument # rest) options =
     (if argument = ''--help'' \<or> argument = ''-h'' then Exits 0 worker_usage
      else if argument = ''--hold'' then worker_arguments rest (options\<lparr>wo_hold := True\<rparr>)
      else case rest of
        [] \<Rightarrow> Exits 2 (''error: '' @ argument @ '' requires a value'')
      | value # later \<Rightarrow>
          if argument = ''--endpoint'' then worker_arguments later (options\<lparr>wo_endpoint := value\<rparr>)
          else if argument = ''--publisher''
          then worker_arguments later (options\<lparr>wo_config := (wo_config options)\<lparr>pk_publisher := from_validated value\<rparr>\<rparr>)
          else if argument = ''--boot''
          then worker_arguments later (options\<lparr>wo_config := (wo_config options)\<lparr>pk_worker_boot := from_validated value\<rparr>\<rparr>)
          else if argument = ''--source''
          then worker_arguments later (options\<lparr>wo_config := (wo_config options)\<lparr>pk_source := from_validated value\<rparr>\<rparr>)
          else if argument = ''--link'' then worker_arguments later (options\<lparr>wo_links := wo_links options @ [value]\<rparr>)
          else if argument = ''--claim''
          then (case parse_claim value of
                  None \<Rightarrow> Exits 2 (''error: unknown claim '' @ value)
                | Some claim \<Rightarrow> worker_arguments later (options\<lparr>wo_claim := claim\<rparr>))
          else if argument = ''--kind''
          then (case parse_evidence_kind value of
                  None \<Rightarrow> Exits 2 (''error: unknown evidence kind '' @ value)
                | Some kind \<Rightarrow> worker_arguments later (options\<lparr>wo_kind := kind\<rparr>))
          else if argument = ''--count'' then worker_arguments later (options\<lparr>wo_count := strtoull value\<rparr>)
          else Exits 2 (''error: unknown option '' @ argument))"

text \<open>The text before and after the last colon.\<close>

definition split_endpoint :: "string \<Rightarrow> (string \<times> string) option" where
  "split_endpoint endpoint =
     (if CHR '':'' \<notin> set endpoint then None
      else let backwards = rev endpoint
           in Some (rev (tl (dropWhile (\<lambda>ch. ch \<noteq> CHR '':'') backwards)),
                    rev (takeWhile (\<lambda>ch. ch \<noteq> CHR '':'') backwards)))"

fun parse_links :: "string list \<Rightarrow> string + LinkId list" where
  "parse_links [] = Inr []"
| "parse_links (link # links) =
     (case parse_id link of
        None \<Rightarrow> Inl (''error: malformed link identity '' @ link)
      | Some parsed \<Rightarrow> (case parse_links links of Inl error \<Rightarrow> Inl error | Inr later \<Rightarrow> Inr (parsed # later)))"

text \<open>Everything before the client is made; the program continues with the options and the configuration.\<close>

definition worker_config :: "WorkerOptions \<Rightarrow> PublisherClientConfig command_line" where
  "worker_config options =
     (case split_endpoint (wo_endpoint options) of
        None \<Rightarrow> Exits 2 ''error: --endpoint must be ADDR:PORT''
      | Some (address, port_text) \<Rightarrow>
          case stoi port_text of
            None \<Rightarrow> Throws
          | Some port \<Rightarrow>
              case parse_links (wo_links options) of
                Inl error \<Rightarrow> Exits 2 error
              | Inr links \<Rightarrow>
                  (let config = (wo_config options)\<lparr>pk_address := address, pk_port := of_int port, pk_links := links,
                         pk_agent_name := ''lsf-worker''\<rparr>
                   in if validate_client config \<noteq> [] then Exits 2 (''error: '' @ validate_client config)
                      else Accepted_options config))"

section \<open>Publishing\<close>

definition worker_identity :: "string \<Rightarrow> PublisherClientConfig \<Rightarrow> LinkId \<Rightarrow> u64 \<Rightarrow> string" where
  "worker_identity prefix config link sequence =
     prefix @ id_value (pk_publisher config) @ ''.'' @ id_value link @ ''.'' @ format_u64 sequence"

definition worker_observation ::
  "WorkerOptions \<Rightarrow> PublisherClientConfig \<Rightarrow> CoordinatorEpoch \<Rightarrow> LinkId \<Rightarrow> TopologyGeneration \<Rightarrow> u64 \<Rightarrow> EvidenceRecord" where
  "worker_observation options config epoch link topology sequence =
     \<lparr>ev_key = EvidenceKey link (pk_source config) null_id Bidirectional (wo_kind options),
      ev_observation = from_validated (worker_identity ''obs.'' config link sequence),
      ev_publisher = pk_publisher config, ev_worker_boot = pk_worker_boot config, ev_epoch = epoch,
      ev_source_generation = Gen 1, ev_sequence = sequence, ev_topology_generation = topology,
      ev_endpoint_generation = gen_zero, ev_class = Synthetic, ev_claim = wo_claim options,
      ev_degradation_cause =
        (if wo_claim options = EvidenceClaim.Degraded then HardwareReportedImpairment else NoCause),
      ev_observed_at_unix_nanos = 0,
      ev_detail = ''worker publication from '' @ id_value (pk_publisher config), ev_metadata = [],
      ev_status = Current, ev_evidence_generation = gen_zero, ev_commit_sequence = gen_zero,
      ev_record_digest = zero_digest\<rparr>"

definition worker_publication ::
  "WorkerOptions \<Rightarrow> PublisherClientConfig \<Rightarrow> CoordinatorEpoch \<Rightarrow> LinkId \<Rightarrow> TopologyGeneration \<Rightarrow> u64 \<Rightarrow>
     PublishEvidenceRequest" where
  "worker_publication options config epoch link topology sequence =
     \<lparr>pe_observation = worker_observation options config epoch link topology sequence,
      pe_expected_evidence_generation = None, pe_expected_state_generation = None,
      pe_publication = from_validated (worker_identity ''pub.'' config link sequence)\<rparr>"

text \<open>What the program has when it runs: the client, how many exchanges of the loop are over, and the lines.\<close>

record Worker =
  wk_client :: PublisherClient
  wk_exchanges :: nat
  wk_lines :: "string list"

definition print_line :: "string \<Rightarrow> Worker \<Rightarrow> Worker" where
  "print_line line worker = worker\<lparr>wk_lines := wk_lines worker @ [line]\<rparr>"

text \<open>The body of the inner loop; a view that the client does not write keeps its initial value.\<close>

definition worker_publish ::
  "WorkerOptions \<Rightarrow> PublisherClientConfig \<Rightarrow> (nat \<Rightarrow> Wire) \<Rightarrow> u64 \<Rightarrow> LinkId \<Rightarrow> Worker \<Rightarrow> Worker" where
  "worker_publish options config wires sequence link worker =
     (case query_state (wires (wk_exchanges worker)) link (wk_client worker) of
        (client1, answered, found) \<Rightarrow>
          let worker1 = worker\<lparr>wk_client := client1, wk_exchanges := wk_exchanges worker + 1\<rparr>
          in if \<not> answered then print_line (''publish '' @ id_value link @ '' SKIPPED unknown link'') worker1
             else
               (let view = (case found of None \<Rightarrow> default_view | Some v \<Rightarrow> v);
                    request = worker_publication options config (cl_epoch client1) link
                      (tb_topology_generation (lr_binding (vw_record view))) sequence
                in case publish (wires (wk_exchanges worker1)) request client1 of
                  (client2, outcome, written) \<Rightarrow>
                    print_line (''publish '' @ id_value link @ '' '' @ outcome_to_string outcome @ '' state='' @
                      to_string_state (lr_state (vw_record (case written of None \<Rightarrow> default_view | Some v \<Rightarrow> v))))
                      (worker1\<lparr>wk_client := client2, wk_exchanges := wk_exchanges worker1 + 1\<rparr>)))"

text \<open>The outer loop.  Its counter has the width of the count, so it is not clear that it ends.\<close>

partial_function (option) worker_rounds ::
  "WorkerOptions \<Rightarrow> PublisherClientConfig \<Rightarrow> (nat \<Rightarrow> Wire) \<Rightarrow> u64 \<Rightarrow> Worker \<Rightarrow> Worker option" where
  "worker_rounds options config wires sequence worker =
     (if sequence \<le> wo_count options
      then worker_rounds options config wires (sequence + 1)
             (fold (worker_publish options config wires sequence) (pk_links config) worker)
      else Some worker)"

section \<open>The session\<close>

record WorkerWorld =
  ww_available :: bool
  ww_reached :: "string + unit"
  ww_hello :: Wire
  ww_register :: Wire
  ww_exchange :: "nat \<Rightarrow> Wire"
  ww_shutdown :: Wire

text \<open>From the connection to the end: exit code and lines, or \<open>None\<close> when the loop does not end.  The wait for a line on
  the standard input has no effect on either.\<close>

definition worker_session :: "WorkerOptions \<Rightarrow> PublisherClientConfig \<Rightarrow> WorkerWorld \<Rightarrow> (nat \<times> string list) option" where
  "worker_session options config world =
     (case connect config (ww_available world) (ww_reached world) (ww_hello world) new_client of
        (client1, connected) \<Rightarrow>
          if is_error connected then Some (3, [''connect_failed '' @ outcome_to_string connected])
          else case client_register config (ww_register world) client1 of
            (client2, registered) \<Rightarrow>
              if is_error registered then Some (3, [''register_failed '' @ outcome_to_string registered])
              else case worker_rounds options config (ww_exchange world) 1
                       \<lparr>wk_client = client2, wk_exchanges = 0,
                        wk_lines = [''connected epoch='' @ gen_to_string (cl_epoch client2)]\<rparr> of
                None \<Rightarrow> None
              | Some worker \<Rightarrow>
                  (case disconnect (ww_shutdown world) (wk_client worker) of
                     (_, closed) \<Rightarrow> Some (0, wk_lines worker @ [''closed '' @ outcome_to_string closed])))"

definition worker_main :: "string list \<Rightarrow> WorkerWorld \<Rightarrow> program_end" where
  "worker_main arguments world =
     (case worker_arguments arguments default_worker of
        Exits code line \<Rightarrow> Ended code [line]
      | Throws \<Rightarrow> Uncaught
      | Accepted_options options \<Rightarrow>
          case worker_config options of
            Exits code line \<Rightarrow> Ended code [line]
          | Throws \<Rightarrow> Uncaught
          | Accepted_options config \<Rightarrow>
              case worker_session options config world of
                None \<Rightarrow> Runs_forever
              | Some (code, lines) \<Rightarrow> Ended code lines)"

section \<open>The length of the publishing loop\<close>

lemma lines_worker_publish: "length (wk_lines (worker_publish options config wires sequence link worker)) = Suc (length (wk_lines worker))"
  by (simp add: worker_publish_def print_line_def Let_def split: prod.split)

lemma lines_round:
  "length (wk_lines (fold (worker_publish options config wires sequence) links worker)) = length (wk_lines worker) + length links"
  by (induction links arbitrary: worker) (simp_all add: lines_worker_publish)

text \<open>With the largest count the condition of the loop never fails.\<close>

lemma endless_rounds: "worker_rounds options config wires sequence worker = Some ended \<Longrightarrow> wo_count options \<noteq> - 1"
proof (induction rule: worker_rounds.raw_induct [rotated, consumes 1, case_names step])
  case (step rounds options config wires sequence worker)
  then show ?case by (cases "sequence \<le> wo_count options") auto
qed

lemma rounds_left:
  assumes "wo_count options \<noteq> - 1" and "unat sequence + n = unat (wo_count options) + 1"
  shows "map_option (\<lambda>w. length (wk_lines w)) (worker_rounds options config wires sequence worker) =
    Some (length (wk_lines worker) + n * length (pk_links config))"
  using assms(2)
proof (induction n arbitrary: sequence worker)
  case 0
  then have "\<not> sequence \<le> wo_count options" by (simp add: word_le_nat_alt)
  then show ?case by (subst worker_rounds.simps) simp
next
  case (Suc n)
  have "unat (wo_count options) \<noteq> unat (- 1 :: u64)" using assms(1) by (metis word_unat_eq_iff)
  then have "unat (wo_count options) < 2 ^ 64 - 1"
    using unsigned_less [of "wo_count options", where ?'a = nat]
    by (simp add: unsigned_minus_1_eq_mask mask_eq_exp_minus_1)
  then have "unat (sequence + 1) + n = unat (wo_count options) + 1" and "sequence \<le> wo_count options"
    using Suc.prems by (auto simp: word_le_nat_alt unat_word_ariths)
  then show ?case
    using Suc.IH [of "sequence + 1" "fold (worker_publish options config wires sequence) (pk_links config) worker"]
    by (subst worker_rounds.simps) (simp add: lines_round algebra_simps)
qed

text \<open>
  C36: The worker's publishing loop ends exactly when the count asked for is not the largest 64-bit number, and then
  it has printed one line for every link in every round: a publication that is refused, a link that is unknown and
  a connection that is lost do not end it.  The largest number is what \<^verbatim>\<open>--count -1\<close> gives, and every number that does
  not fit.
\<close>

theorem worker_loop_ends:
  "map_option (\<lambda>worker'. length (wk_lines worker')) (worker_rounds options config wires 1 worker) =
     (if wo_count options = - 1 then None
      else Some (length (wk_lines worker) + unat (wo_count options) * length (pk_links config))) \<and>
   strtoull ''-1'' = - 1 \<and> strtoull ''18446744073709551616'' = - 1"
proof -
  have "worker_rounds options config wires 1 worker = None" if "wo_count options = - 1"
    using endless_rounds [of options config wires 1 worker] that by (cases "worker_rounds options config wires 1 worker") auto
  moreover have "strtoull ''-1'' = - 1" "strtoull ''18446744073709551616'' = - 1"
    by (simp_all add: strtoull_def split_sign_def is_space_def is_digit_def digits_value_def)
  ultimately show ?thesis using rounds_left [of options 1 "unat (wo_count options)"] by auto
qed

end
