(* ===== verification/Inspect_App.thy ===== *)
theory Inspect_App
  imports Command_Line Recovery_Guarantees Explanations Synthetic_Fabrics Host_Evidence
begin

text \<open>
  The inspection program (\<^verbatim>\<open>apps/lsf_inspect/main.cpp\<close>).  Every command returns its exit code and the texts it
  prints, in order; the disk with the faults of the access and the platform are arguments.
\<close>

type_synonym printed = "nat \<times> string list"

definition inspect_usage :: string where
  "inspect_usage =
     ''lsf-inspect '' @ to_string_version runtime_version @ nl @
     ''usage:'' @ nl @
     ''  lsf-inspect journal <path>    validate a journal and print its summary'' @ nl @
     ''  lsf-inspect records <path>    print the durable link records of a journal'' @ nl @
     ''  lsf-inspect digest <path>     print the journal file digest'' @ nl @
     ''  lsf-inspect host              enumerate real host visible link evidence'' @ nl @
     ''  lsf-inspect scenario <name>   run a synthetic scenario (up, down, degraded,'' @ nl @
     ''                                conflict, admin-disable, topology-change)'' @ nl @
     ''  lsf-inspect version           print the runtime version'' @ nl"

text \<open>The line of an outcome that ends a command.\<close>

definition error_line :: "string \<Rightarrow> string" where
  "error_line what = ''error: '' @ what @ nl"

section \<open>Journals\<close>

definition inspect_persistence :: "string \<Rightarrow> PersistenceConfig" where
  "inspect_persistence path =
     \<lparr>pc_path = path, pc_max_records = max_persisted_records, pc_include_history = False,
      pc_create_parent_directory = False\<rparr>"

definition listed_record :: "PersistedLink \<Rightarrow> string list" where
  "listed_record link =
     [render_record (pl_record link),
      ''persisted_evidence    '' @ format_nat (length (pl_evidence link)) @ nl, nl]"

definition recovery_note :: "string list" where
  "recovery_note =
     [''recovery_note         loading this journal restores durable records only;'' @ nl,
      ''                      dynamic evidence and live authority are never restored'' @ nl]"

definition inspect_journal_command :: "IoFaults \<Rightarrow> Disk \<Rightarrow> string \<Rightarrow> bool \<Rightarrow> printed" where
  "inspect_journal_command faults disk path records_only =
     (let config = inspect_persistence path
      in if validate_persistence config \<noteq> [] then (2, [error_line (validate_persistence config)])
         else case read_journal_file faults disk config ([], empty_summary) of
           (read, data, summary0) \<Rightarrow>
             if is_error read then (3, [error_line (outcome_to_string read)])
             else case decode_journal data config (empty_payload, summary0) of
               (decoded, payload, summary) \<Rightarrow>
                 if is_error decoded then (3, [error_line (outcome_to_string decoded)])
                 else (0, (if records_only then [] else [render_summary summary]) @
                          concat (map listed_record (jp_links payload)) @ recovery_note))"

definition inspect_digest :: "IoFaults \<Rightarrow> Disk \<Rightarrow> string \<Rightarrow> printed" where
  "inspect_digest faults disk path =
     (case read_journal_file faults disk (inspect_persistence path) ([], empty_summary) of
        (read, data, _) \<Rightarrow>
          if is_error read then (3, [error_line (outcome_to_string read)])
          else (0, [''file                  '' @ path @ nl,
                    ''size                  '' @ format_nat (length data) @ nl,
                    ''digest                '' @ to_hex (sha256 data) @ nl]))"

section \<open>The host\<close>

definition inspect_host :: "HostPlatform \<Rightarrow> printed" where
  "inspect_host platform =
     (let report = discover_host_links platform
      in (0, [''availability          '' @ to_string_availability (hr_availability report) @ nl,
              ''interfaces            '' @ format_nat (hr_interfaces_enumerated report) @ nl,
              ''observations          '' @ format_nat (length (hr_observations report)) @ nl,
              ''unsupported           '' @ format_nat (hr_unsupported_interfaces report) @ nl] @
             map (\<lambda>note. ''note                  '' @ note @ nl) (hr_notes report) @
             concat (map (\<lambda>observation. [render_observation observation, nl]) (hr_observations report))))"

section \<open>Scenarios\<close>

definition scenario_link :: LinkId where
  "scenario_link = from_validated ''link.scenario''"

definition scenario_spec :: SyntheticLinkSpec where
  "scenario_spec =
     \<lparr>sl_link = scenario_link, sl_local_endpoint = from_validated ''ep.scenario.a'',
      sl_remote_endpoint = from_validated ''ep.scenario.b'', sl_fabric = from_validated ''fabric.scenario'',
      sl_site = from_validated ''site.scenario'', sl_link_class = EthernetLike, sl_symmetry = Unspecified,
      sl_topology_generation = Gen 1, sl_endpoint_generation = Gen 1, sl_backing_links = [], sl_member_links = []\<rparr>"

definition scenario_engine :: EngineConfig where
  "scenario_engine = default_config\<lparr>cf_max_links := 64, cf_max_publishers := 8\<rparr>"

text \<open>The calls with their default arguments.\<close>

definition scenario_publish ::
  "EvidenceClaim \<Rightarrow> DegradationCause \<Rightarrow> EvidenceKind \<Rightarrow> SyntheticFabric \<times> Impl \<Rightarrow> (SyntheticFabric \<times> Impl) \<times> Outcome" where
  "scenario_publish claim cause kind state =
     (case state of (fabric, impl) \<Rightarrow>
        case fabric_publish scenario_link claim cause kind [] fabric impl of
          (fabric', impl', result) \<Rightarrow> ((fabric', impl'), mr_outcome result))"

definition scenario_supersession :: SupersedeTopologyRequest where
  "scenario_supersession =
     (let binding = to_binding scenario_spec
      in \<lparr>su_link = scenario_link, su_new_topology_generation = Gen 2,
          su_replacement = Some (binding\<lparr>tb_topology_generation := Gen 2,
            tb_endpoints := (tb_endpoints binding)\<lparr>eb_local := from_validated ''ep.scenario.a2''\<rparr>\<rparr>),
          su_reason = ''endpoint replaced''\<rparr>)"

text \<open>The chain of comparisons: the engine after the named scenario and the outcome it prints.\<close>

definition scenario_steps :: "string \<Rightarrow> SyntheticFabric \<Rightarrow> SyntheticFabric \<Rightarrow> Impl \<Rightarrow> (Impl \<times> Outcome) option" where
  "scenario_steps name local peer impl =
     (let up = scenario_publish EvidenceClaim.Up NoCause SyntheticTest (local, impl);
          ended = (\<lambda>result. case result of ((_, impl'), outcome) \<Rightarrow> Some (impl', outcome))
      in if name = ''up'' then ended up
         else if name = ''down''
         then ended (scenario_publish EvidenceClaim.Down NoCause SyntheticTest (fst up))
         else if name = ''degraded''
         then ended (scenario_publish EvidenceClaim.Degraded ErrorRateThresholdExceeded SyntheticTest (local, impl))
         else if name = ''conflict''
         then ended (scenario_publish EvidenceClaim.Down NoCause SyntheticTest (peer, snd (fst up)))
         else if name = ''admin-disable''
         then ended (scenario_publish EvidenceClaim.AdminDisabled NoCause AdministrativeState (fst up))
         else if name = ''topology-change''
         then (case supersede_topology scenario_supersession (snd (fst up)) of
                 (impl', result) \<Rightarrow> Some (impl', mr_outcome result))
         else None)"

definition scenario_report :: "Impl \<Rightarrow> Outcome \<Rightarrow> string list" where
  "scenario_report impl outcome =
     [''outcome               '' @ outcome_to_string outcome @ nl] @
     (case link_state scenario_link impl of
        None \<Rightarrow> []
      | Some view \<Rightarrow>
          [''state                 '' @ to_string_state (lr_state (vw_record view)) @ nl,
           ''current_evidence      '' @ format_nat (vw_current_evidence view) @ nl]) @
     [nl @ render_explanation (explain scenario_link impl)]"

definition run_scenario :: "string \<Rightarrow> printed" where
  "run_scenario name =
     (case bind_link (to_binding scenario_spec) (new_impl scenario_engine) of
        (impl0, bound) \<Rightarrow>
          if is_error (mr_outcome bound) then (4, [error_line ''the scenario link could not be bound''])
          else
            (let local = new_fabric (from_validated ''publisher.local'') (from_validated ''boot.local'')
                   (from_validated ''source.local'') impl0;
                 peer = new_fabric (from_validated ''publisher.peer'') (from_validated ''boot.peer'')
                   (from_validated ''source.peer'') impl0;
                 refused = (4, [error_line ''the scenario publishers could not be registered''])
             in case fabric_rebind (im_epoch impl0) [scenario_link] local impl0 of
               (local1, impl1, registered) \<Rightarrow>
                 if is_error registered then refused
                 else case fabric_rebind (im_epoch impl1) [scenario_link] peer impl1 of
                   (peer1, impl2, registered2) \<Rightarrow>
                     if is_error registered2 then refused
                     else case scenario_steps name local1 peer1 impl2 of
                       None \<Rightarrow> (2, [error_line (''unknown scenario '' @ [CHR 0x27] @ name @ [CHR 0x27])])
                     | Some (impl3, outcome) \<Rightarrow> (0, scenario_report impl3 outcome)))"

section \<open>The command line\<close>

definition inspect_main :: "IoFaults \<Rightarrow> Disk \<Rightarrow> HostPlatform \<Rightarrow> string list \<Rightarrow> printed" where
  "inspect_main faults disk platform arguments =
     (case arguments of
        [] \<Rightarrow> (0, [inspect_usage])
      | command # operands \<Rightarrow>
          if command = ''help'' \<or> command = ''--help'' \<or> command = ''-h'' then (0, [inspect_usage])
          else if command = ''version''
          then (0, [''link-state-fabric '' @ to_string_version runtime_version @ nl])
          else if command = ''host'' then inspect_host platform
          else if command = ''journal'' \<or> command = ''records''
          then (case operands of
                  [] \<Rightarrow> (2, [error_line (command @ '' requires a journal path'')])
                | path # _ \<Rightarrow> inspect_journal_command faults disk path (command = ''records''))
          else if command = ''digest''
          then (case operands of
                  [] \<Rightarrow> (2, [error_line ''digest requires a journal path''])
                | path # _ \<Rightarrow> inspect_digest faults disk path)
          else if command = ''scenario''
          then (case operands of
                  [] \<Rightarrow> (2, [error_line ''scenario requires a name''])
                | name # _ \<Rightarrow> run_scenario name)
          else (2, [error_line (''unknown command '' @ [CHR 0x27] @ command @ [CHR 0x27])]))"

section \<open>The verdict on a journal\<close>

text \<open>
  C35: What \<^verbatim>\<open>lsf-inspect journal\<close> and \<^verbatim>\<open>lsf-inspect records\<close> say of a journal is what the engine makes of it.  On the
  same file with the same failures of the disk, either command exits with 2 exactly if the path is not acceptable,
  otherwise with 3 exactly if the engine would refuse to load the journal, printing the engine's reason and nothing
  else, and otherwise with 0; then it lists exactly the links that the engine would hold, in the same order, and the
  summary it prints carries the digest that the engine reports.
\<close>

theorem inspect_agrees_with_load:
  "\<exists>summary links.
     inspect_journal_command faults disk path records_only =
       (if validate_persistence (inspect_persistence path) \<noteq> []
        then (2, [error_line (validate_persistence (inspect_persistence path))])
        else if is_error (lo_outcome (snd (load faults disk (inspect_persistence path) impl)))
        then (3, [error_line (outcome_to_string (lo_outcome (snd (load faults disk (inspect_persistence path) impl))))])
        else (0, (if records_only then [] else [render_summary summary]) @ concat (map listed_record links) @ recovery_note)) \<and>
     js_file_digest summary = lo_journal_digest (snd (load faults disk (inspect_persistence path) impl)) \<and>
     map persisted_link links =
       (if is_error (lo_outcome (snd (load faults disk (inspect_persistence path) impl))) then []
        else map fst (st_links (fst (load faults disk (inspect_persistence path) impl))))"
proof -
  let ?config = "inspect_persistence path"
  obtain read data summary0 where read: "read_journal_file faults disk ?config ([], empty_summary) = (read, data, summary0)"
    by (metis prod_cases3)
  obtain decoded payload summary where decode: "decode_journal data ?config (empty_payload, summary0) = (decoded, payload, summary)"
    by (metis prod_cases3)
  obtain impl' a b where recover: "recover payload impl = (impl', a, b)" by (metis prod_cases3)
  show ?thesis
  proof (cases "is_error read \<or> is_error decoded")
    case True
    have "js_file_digest empty_summary = zero_digest" by (simp add: empty_summary_def)
    with True show ?thesis
      by (intro exI [of _ empty_summary] exI [of _ "[]"])
        (auto simp: inspect_journal_command_def load_def refused_load_def read decode Let_def)
  next
    case False
    then have "decode_checked data ?config = Inr (payload, summary)" using decode by (auto intro: decode_journal_ok)
    then have "distinct (map persisted_link (jp_links payload))" by (intro journal_fits_distinct decode_checked_fits)
    from recovered_engine(2) [OF this recover] have "map persisted_link (jp_links payload) = map fst (st_links impl')" by simp
    moreover have "is_error (make_outcome Committed why) = False" for why
      by (simp add: is_error_def code_is_error_def make_outcome_def)
    ultimately show ?thesis
      using False by (intro exI [of _ summary] exI [of _ "jp_links payload"])
        (simp add: inspect_journal_command_def load_def read decode recover Let_def)
  qed
qed

end
