(* ===== verification/Programs.thy ===== *)
theory Programs
  imports Coordinator_Guarantees Worker_App Inspect_App Network
begin

text \<open>
  The programs together: two runs of the coordinator on the same journal, and the line by which a worker finds the
  coordinator.
\<close>

section \<open>One run after another\<close>

lemma advance_keeps_links:
  assumes "cold impl" "advance_coordinator_epoch request impl = (impl', result)"
  shows "st_links impl' = st_links impl"
proof -
  have "stale_publishers (impl\<lparr>im_epoch := e\<rparr>) = []" for e
    using assms(1) by (simp add: stale_publishers_def cold_def)
  then show ?thesis using assms(2) by (auto simp: advance_coordinator_epoch_def Let_def split: if_splits)
qed

lemma booted_links:
  assumes "co_use_journal options" "co_bind_file options = []"
    and "load faults disk (coordinator_persistence options) (new_impl coordinator_engine) = (recovered, loaded)"
    and "\<not> is_error (lo_outcome loaded)"
    and "coordinator_boot options faults disk coming content transport = (Inr server, out)"
  shows "find_link l (cd_engine (sv_coordinator server)) = find_link l recovered"
proof -
  obtain engine1 out1 started where
    recover: "recover_engine options faults disk (new_impl coordinator_engine) = (Inr engine1, out1)"
    and start: "start (serving_config options) transport (new_server engine1 disk coming) = (server, started)"
    using assms(2,5) by (auto simp: coordinator_boot_def bind_engine_def split: prod.splits sum.splits if_splits)
  have "cd_engine (sv_coordinator server) = engine1"
    using start by (auto simp: start_def new_server_def split: if_splits sum.splits)
  moreover have "st_links engine1 = st_links recovered"
    using recover assms(1,3,4) advance_keeps_links [OF cold_load [OF assms(3,4)]]
    by (auto simp: recover_engine_def Let_def split: prod.splits if_splits)
  ultimately show ?thesis by (simp add: find_link_def)
qed



section \<open>The line that names the endpoint\<close>

lemma format_nat_is_digits: "format_nat n \<noteq> [] \<and> (\<forall>ch \<in> set (format_nat n). is_digit ch)"
proof (induction n rule: format_nat.induct)
  case (1 n)
  have "is_digit (char_of (48 + d :: nat))" if "d < 10" for d
    using that by (simp add: is_digit_def less_eq_char_def)
  with 1 show ?case by (auto simp: format_nat.simps [of n])
qed

lemma split_last_colon: "CHR '':'' \<notin> set port \<Longrightarrow> split_endpoint (address @ '':'' @ port) = Some (address, port)"
  by (simp add: split_endpoint_def Let_def takeWhile_append dropWhile_append3 dropWhile_append)

lemma stoi_format: "n < 2 ^ 31 \<Longrightarrow> stoi (format_nat n) = Some (int n)"
proof -
  assume bound: "n < 2 ^ 31"
  obtain ch rest where digits: "format_nat n = ch # rest" and all: "is_digit ch" "\<forall>ch \<in> set rest. is_digit ch"
    using format_nat_is_digits [of n] by (cases "format_nat n") auto
  have "\<not> is_space ch" "ch \<noteq> CHR ''-''" "ch \<noteq> CHR ''+''"
    using all(1) by (auto simp: is_digit_def is_space_def less_eq_char_def)
  moreover have "takeWhile is_digit (ch # rest) = ch # rest" using all by (simp add: takeWhile_eq_all_conv)
  moreover have "digits_value (ch # rest) = n" using digits_of_format [of n] digits by simp
  ultimately show ?thesis using bound by (simp add: stoi_def split_sign_def digits Let_def)
qed

theorem endpoint_found:
  assumes "sv_running server" "sv_port server \<noteq> 0"
  shows "map_option (\<lambda>(address, port). (address, map_option of_int (stoi port))) (split_endpoint (endpoint config server)) =
    Some (cc_bind_address config, Some (sv_port server))"
proof -
  have colon: "\<not> is_digit CHR '':''" by (simp add: is_digit_def less_eq_char_def)
  have "CHR '':'' \<notin> set (format_nat (unat (sv_port server)))"
    using format_nat_is_digits [of "unat (sv_port server)"] colon by blast
  moreover have "unat (sv_port server) < 2 ^ 31" using unsigned_less [of "sv_port server", where ?'a = nat] by simp
  ultimately show ?thesis
    using assms by (simp add: endpoint_def split_last_colon [simplified] stoi_format)
qed

section \<open>Hosts\<close>

text \<open>What a server meets on a host: the transport is what the socket layer makes of the system calls.\<close>

definition host_transport :: "SocketHost \<Rightarrow> Candidate list option \<Rightarrow> u16 option \<Rightarrow> nat option \<Rightarrow> Transport" where
  "host_transport host resolved local_port created =
     \<lparr>tp_available = net_available host,
      tp_listen = (case fst (net_listen host resolved local_port) of
        Inl error \<Rightarrow> Inl error | Inr (_, bound_port) \<Rightarrow> Inr bound_port),
      tp_stop_handle = (net_create_stop_handle host created \<noteq> None)\<rparr>"

text \<open>A server runs only where a socket listens: on a host without Windows sockets, or where the sockets cannot be
  started, no address resolves or none can be bound, the start is refused and leaves the server as it was.\<close>

theorem start_needs_listener:
  "(case start config (host_transport host resolved local_port created) server of
      (server', outcome) \<Rightarrow> is_error outcome \<and> server' = server \<or> sv_running server \<and> server' = server \<or>
        (\<exists>listener bound_port. fst (net_listen host resolved local_port) = Inr (listener, bound_port) \<and>
           server' = server\<lparr>sv_port := bound_port, sv_running := True\<rparr>))"
  by (auto simp: start_def host_transport_def make_outcome_def is_error_def code_is_error_def split: sum.splits prod.splits)

lemma no_listener_elsewhere: "fst (net_listen OtherHost resolved local_port) = Inl unsupported_transport"
  by (simp add: net_listen_def)

text \<open>So the coordinator is never ready on a host without Windows sockets.\<close>

theorem never_ready_elsewhere:
  "\<nexists>server out. coordinator_boot options faults disk coming content
     (host_transport OtherHost resolved local_port created) = (Inr server, out)"
proof
  assume "\<exists>server out. coordinator_boot options faults disk coming content
     (host_transport OtherHost resolved local_port created) = (Inr server, out)"
  then obtain engine server started where "start (serving_config options) (host_transport OtherHost resolved local_port created)
      (new_server engine disk coming) = (server, started)" "\<not> is_error started"
    by (auto simp: coordinator_boot_def split: prod.splits sum.splits if_splits)
  then show False
    by (auto simp: start_def host_transport_def net_available_def new_server_def make_outcome_def is_error_def code_is_error_def
        split: if_splits)
qed

section \<open>How the coordinator ends\<close>

lemma argument_exits: "coordinator_arguments arguments options = Exits code line \<Longrightarrow> code \<in> {0, 2}"
  by (induction arguments options rule: coordinator_arguments.induct) (auto split: if_splits list.splits option.splits)

lemma boot_exits:
  "coordinator_boot options faults disk coming content transport = (Inl code, lines) \<Longrightarrow> code \<in> {3, 4}"
  by (auto simp: coordinator_boot_def recover_engine_def bind_engine_def Let_def split: prod.splits sum.splits if_splits option.splits)

lemma finish_exits: "coordinator_finish options faults server = (code, lines, disk) \<Longrightarrow> code \<in> {0, 5}"
  by (auto simp: coordinator_finish_def Let_def split: prod.splits if_splits)

text \<open>The coordinator always ends once its stop flag is set: with one of five exit codes, or by the exception of a port
  that is no number.  A run that does not become ready - a refused command line, a journal or a bind file that is
  refused, a server that cannot start - leaves the disk as it was, and so does the exception.\<close>

theorem coordinator_exits:
  "case coordinator_main arguments world of
     (Ended code lines, disk) \<Rightarrow> code \<in> {0, 2, 3, 4, 5} \<and> (code \<in> {2, 3, 4} \<longrightarrow> disk = rw_disk world)
   | (Uncaught, disk) \<Rightarrow> disk = rw_disk world
   | (Runs_forever, disk) \<Rightarrow> False"
  using argument_exits [of arguments default_options] boot_exits finish_exits
  by (fastforce simp: coordinator_main_def Let_def split: command_line.splits sum.splits prod.splits)

end
