(* ===== verification/Spec2Isabelle.thy ===== *)
theory Spec2Isabelle
  imports Engine_Lifecycle Recovery_Guarantees Explanations Synthetic_Fabrics End_To_End
    Text_Renderings Host_Guarantees Network Programs
begin

text \<open>
  Link State Fabric: a verified model of the engine, its journal, its publication protocol and its programs.

  \<^bold>\<open>The program.\<close>  A \<^verbatim>\<open>LinkStateEngine\<close> keeps the authoritative operational state of network links.
  Publishers, each an incarnation of a publisher identity with a worker boot, publish observations about
  links; the engine decides the state of a link from the observations that are current.  The engine is
  saved to and recovered from a journal file, and a coordinator serves it to workers over framed
  connections.  Three programs put this together: a coordinator, a worker and an inspection tool.  On a
  Windows host the interface table is a source of evidence.

  \<^bold>\<open>Theories and sources.\<close>
  \<^item> \<open>LSF_Prelude\<close>, \<open>Texts\<close>, \<open>Identifiers\<close>, \<open>Generations\<close>, \<open>States\<close>, \<open>Outcomes\<close>, \<open>Digests\<close>, \<open>Evidence\<close>,
    \<open>Authority\<close>, \<open>Records\<close>, \<open>Snapshots\<close>: the value types with their validation, order, rendering and
    digests (\<^verbatim>\<open>text.cpp\<close>, \<^verbatim>\<open>ids.cpp\<close>, \<^verbatim>\<open>generation.hpp\<close>, \<^verbatim>\<open>state.cpp\<close>, \<^verbatim>\<open>outcome.cpp\<close>, \<^verbatim>\<open>digest.cpp\<close>,
    \<^verbatim>\<open>evidence.cpp\<close>, \<^verbatim>\<open>authority.cpp\<close>, \<^verbatim>\<open>record.cpp\<close>, \<^verbatim>\<open>snapshot.cpp\<close>).  Numbers that wrap are words;
    unordered maps are association lists whose order nothing may depend on.
  \<^item> \<open>Text_Renderings\<close>, \<open>Utf8\<close>: the rest of \<^verbatim>\<open>text.cpp\<close>, and that its UTF-8 scanner accepts exactly the
    concatenations of encodings of Unicode scalar values.
  \<^item> \<open>Resolution\<close>: the resolver (\<^verbatim>\<open>engine_resolution.cpp\<close>) with every rule and text, and the policy it
    implements, stated on the set of records.
  \<^item> \<open>Engine_Store\<close>, \<open>Engine_Support\<close>, \<open>Engine_Topology\<close>, \<open>Engine_Authority\<close>, \<open>Engine_Publish\<close>,
    \<open>Engine_Queries\<close>: the engine (\<^verbatim>\<open>engine_internal.hpp\<close>, \<^verbatim>\<open>engine_support.cpp\<close>, \<^verbatim>\<open>engine.cpp\<close>,
    \<^verbatim>\<open>engine_publish.cpp\<close>, \<^verbatim>\<open>engine_queries.cpp\<close>).  The record \<open>Impl\<close> is \<^verbatim>\<open>LinkStateEngine::Impl\<close>; a method
    is a function from a request and the engine to the engine and the result.  The engine's mutex makes
    every method atomic, so that concurrent use is a sequence of calls.
  \<^item> \<open>Engine_Frames\<close>, \<open>Engine_Invariants\<close>, \<open>Engine_Preservation\<close>, \<open>Engine_Operations\<close>, \<open>Engine_Fencing\<close>,
    \<open>Engine_Rebinding\<close>, \<open>Engine_Evolution\<close>, \<open>Engine_Progress\<close>, \<open>Engine_Moves\<close>, \<open>Engine_Backing\<close>: the
    structural invariant, the order along which every operation moves, and their preservation.
  \<^item> \<open>Runs\<close>, \<open>Engine_Runs\<close>, \<open>Engine_Scenario\<close>, \<open>Engine_Guarantees\<close>, \<open>Engine_Contracts\<close>, \<open>Engine_Lifecycle\<close>:
    the engine as a machine, a concrete run for the witnesses, and its guarantees: the invariant and the
    verdicts of every reachable engine, monotone generations, terminal retirement, the effect of
    publication, exact queries, fencing, epochs, reconciliation, snapshots and capacity.
  \<^item> \<open>Explanations\<close>: \<^verbatim>\<open>engine_explain.cpp\<close>, and that an explanation derives the stored state.
  \<^item> \<open>Synthetic_Fabrics\<close>: \<^verbatim>\<open>synthetic.cpp\<close>, and that its driver publishes labelled evidence only.
  \<^item> \<open>Codecs\<close>, \<open>Canonical\<close>: the writers and the reader that the journal and the wire share, with the
    locales \<open>codec\<close>, \<open>exact_codec\<close> and \<open>canonical_codec\<close>: what was written is read back, nothing else is
    accepted, and nothing has two spellings.
  \<^item> \<open>Journal\<close>, \<open>Recovery\<close>, \<open>Recovery_Guarantees\<close>: the journal format and the file operations
    (\<^verbatim>\<open>persistence.cpp\<close>), saving and loading (\<^verbatim>\<open>engine_persistence.cpp\<close>), and their guarantees: round
    trip, refusal of damaged files, atomic replacement, conservative recovery, lasting fences.
  \<^item> \<open>Protocol\<close>: frames and messages (\<^verbatim>\<open>protocol.cpp\<close>); the decoders accept exactly the encodings.
  \<^item> \<open>Server\<close>, \<open>Server_Guarantees\<close>: the coordinator (\<^verbatim>\<open>server.cpp\<close>); a session is served as if its stream had
    arrived at once, a frame performs the one call it asks for, traffic adds no behaviour to the engine,
    an acknowledged change is in the journal unless checkpoints of sessions overlap, a session that ended
    leaves no current evidence.
  \<^item> \<open>Client\<close>, \<open>End_To_End\<close>: the worker's client (\<^verbatim>\<open>client.cpp\<close>), and that remote calls have the effect and
    the result of local ones.
  \<^item> \<open>Host_Evidence\<close>, \<open>Host_Guarantees\<close>: \<^verbatim>\<open>platform_windows.cpp\<close> and \<^verbatim>\<open>platform.hpp\<close>; what is claimed follows from the
    interface table, the requests pass the engine's validation, a later round supersedes an earlier one, and
    the identities of two publishers of host evidence collide.
  \<^item> \<open>Network\<close>: the socket layer (\<^verbatim>\<open>net.cpp\<close>); no socket is lost, and sending ends.
  \<^item> \<open>Command_Line\<close>, \<open>Coordinator_App\<close>, \<open>Inspect_App\<close>, \<open>Worker_App\<close>: \<^verbatim>\<open>version.cpp\<close> and the programs under \<^verbatim>\<open>apps\<close>,
    with their arguments, exit codes and output; the verdict of the inspection tool is the engine's, the
    worker's loop ends unless the largest count is asked for.
  \<^item> \<open>Coordinator_Guarantees\<close>, \<open>Programs\<close>: a restarted coordinator inherits no authority, one run continues the one
    before it, a journal that cannot be opened is lost, the endpoint that a coordinator prints is the one a
    worker connects to, and a server runs only where a socket listens.

  \<^bold>\<open>Interfaces.\<close>  \<open>Runs\<close> states what an invariant and an order of a machine owe (\<open>machine_invariant\<close>,
  \<open>machine_progress\<close>); the engine, its verdicts and the server discharge them.  The codec locales are
  interpreted for every field, record and message of the journal and the wire.

  \<^bold>\<open>Loops.\<close>  Loops over containers are structural recursion; the frame loop \<open>drain\<close> terminates because a complete
  frame consumes at least 32 bytes of the buffer, the loop \<open>send_loop\<close> because a successful send takes at least
  one byte, the truncation \<open>pop_invalid\<close> because it shortens the text.  The publishing loop \<open>worker_rounds\<close> of the
  worker need not end and is a partial function.  No fuel is used.

  \<^bold>\<open>Environment.\<close>  What the code asks of the operating system is an argument: which file operations fail
  and after how many bytes (\<open>IoFaults\<close>), the chunks a socket delivers and the sends it accepts, the
  result of listening or connecting, the interface table of the host, the arguments of a program.
  Writing the journal returns every state of the disk, so that a crash of the process may fall between any two effects; the POSIX branch is modelled, and loss of
  buffered data in a power failure is not.  Sessions interleave frame by frame: an engine call and the
  checkpoint after it belong to one step, and at shutdown sessions are joined in their order.

  \<^bold>\<open>Not modelled.\<close>  The conversion of interface names to UTF-8 is the operating system's.  The worker's wait for a line
  and the coordinator's wait for its stop flag affect no result.  The programs under \<^verbatim>\<open>examples\<close>, \<^verbatim>\<open>benchmarks\<close>
  and \<^verbatim>\<open>validation\<close> call the library without logic of their own.
\<close>

end
